(* ===== verification/Kobox_Prelude.thy ===== *)
theory Kobox_Prelude
  imports Main "HOL-Library.Word"
begin

text \<open>
  Shared vocabulary of the development: the machine types of the C sources, the status codes of
  \<^verbatim>\<open>include/kobox/device.h\<close>, the result type of code that reads memory through
  raw pointers, little- and big-endian field access, and the scanning loop that the ELF reader
  uses four times.  The collections \<open>word_nat\<close> (bridges from machine words to natural numbers)
  and \<open>outcome_simps\<close> (evaluation of memory outcomes) carry the component proofs.
\<close>

unbundle bit_operations_syntax

named_theorems word_nat \<open>facts that turn machine-word conditions into arithmetic on nat\<close>
named_theorems outcome_simps \<open>evaluation of outcomes and of in-bounds memory reads\<close>

section \<open>Machine types and status codes\<close>

type_synonym u8 = "8 word"
type_synonym u16 = "16 word"
type_synonym u32 = "32 word"
type_synonym u64 = "64 word"
type_synonym bytes = "u8 list"

text \<open>Addresses are 64 bit values; the null pointer is 0.\<close>

type_synonym ptr = u64

abbreviation (input) NULL :: ptr where "NULL \<equiv> 0"

text \<open>The enumeration \<^verbatim>\<open>kb_status\<close>.\<close>

datatype kb_status =
    KB_OK
  | KB_ERR_INVALID
  | KB_ERR_NOT_FOUND
  | KB_ERR_DENIED
  | KB_ERR_NOMEM
  | KB_ERR_IO
  | KB_ERR_UNSUPPORTED
  | KB_ERR_PCI_CONFIG

text \<open>
  Result of a function that returns a status and fills an out-parameter.  \<open>Done v\<close> is
  \<open>KB_OK\<close> with \<open>v\<close> stored, \<open>Fail e\<close> is the error return \<open>e\<close>, and \<open>Fault\<close> says that the
  code would access memory outside the object it was given, which C leaves undefined.
\<close>

datatype 'a outcome = Fault | Fail kb_status | Done 'a

definition bindO :: "'a outcome \<Rightarrow> ('a \<Rightarrow> 'b outcome) \<Rightarrow> 'b outcome" where
  "bindO m k = (case m of Fault \<Rightarrow> Fault | Fail e \<Rightarrow> Fail e | Done v \<Rightarrow> k v)"

lemma bindO_simps [simp, outcome_simps]:
  "bindO Fault k = Fault"
  "bindO (Fail e) k = Fail e"
  "bindO (Done v) k = k v"
  by (simp_all add: bindO_def)

lemma bindO_Done_iff: "bindO m k = Done w \<longleftrightarrow> (\<exists>v. m = Done v \<and> k v = Done w)"
  by (cases m) auto

lemma bindO_Fail_iff: "bindO m k = Fail e \<longleftrightarrow> m = Fail e \<or> (\<exists>v. m = Done v \<and> k v = Fail e)"
  by (cases m) auto

text \<open>Code whose outcome is safe never leaves the objects it was given.\<close>

definition safe :: "'a outcome \<Rightarrow> bool" where
  "safe m \<longleftrightarrow> m \<noteq> Fault"

lemma safe_simps [simp]: "\<not> safe Fault" "safe (Fail e)" "safe (Done v)"
  by (simp_all add: safe_def)

lemma safe_bindO [intro!]: "safe m \<Longrightarrow> (\<And>v. m = Done v \<Longrightarrow> safe (k v)) \<Longrightarrow> safe (bindO m k)"
  by (cases m) auto

lemma bindO_exists_Done:
  "\<exists>v. m = Done v \<Longrightarrow> (\<And>v. m = Done v \<Longrightarrow> \<exists>w. k v = Done w) \<Longrightarrow> \<exists>w. bindO m k = Done w"
  by auto

lemma bindO_cong [fundef_cong]:
  assumes "m = m'" and "\<And>v. m' = Done v \<Longrightarrow> k v = k' v"
  shows "bindO m k = bindO m' k'"
  using assms by (cases m') auto

lemma if_Fail_Done: "(if c then Fail e else m) = Done v \<longleftrightarrow> \<not> c \<and> m = Done v"
  by simp

lemma safe_if [intro!]: "(P \<Longrightarrow> safe a) \<Longrightarrow> (\<not> P \<Longrightarrow> safe b) \<Longrightarrow> safe (if P then a else b)"
  by simp

section \<open>Words and natural numbers\<close>

lemma unat_plus_1 [word_nat]:
  assumes "(a :: 'a :: len word) < b"
  shows "unat (a + 1) = Suc (unat a)"
proof -
  have "Suc (unat a) \<le> unat b" using assms by (simp add: word_less_nat_alt)
  also have "unat b < 2 ^ LENGTH('a)" by simp
  finally show ?thesis by (simp add: unat_word_ariths)
qed

lemma unat_add_no_wrap [word_nat]:
  "unat (a :: 'a :: len word) + unat b < 2 ^ LENGTH('a) \<Longrightarrow> unat (a + b) = unat a + unat b"
  by (simp add: unat_word_ariths)

lemma unat_sub_le [word_nat]:
  "(b :: 'a :: len word) \<le> a \<Longrightarrow> unat (a - b) = unat a - unat b"
  by (rule unat_sub)

lemma unat_mult_no_wrap [word_nat]:
  "unat (a :: 'a :: len word) * unat b < 2 ^ LENGTH('a) \<Longrightarrow> unat (a * b) = unat a * unat b"
  by (simp add: unat_word_ariths)

lemma unat_of_nat_u64 [word_nat]: "n < 2 ^ 64 \<Longrightarrow> unat (of_nat n :: u64) = n"
  by (simp add: unat_of_nat)

lemma unat_word_bound: "LENGTH('a :: len) \<le> n \<Longrightarrow> unat (x :: 'a word) < 2 ^ n"
  by (rule less_le_trans [OF unsigned_less]) simp

lemma unat_u64_bound: "unat (x :: u64) < 2 ^ 64"
  by (rule unat_word_bound) simp

lemma unat_u32_bound: "unat (x :: u32) < 2 ^ 32"
  by (rule unat_word_bound) simp

lemma unat_u16_bound: "unat (x :: u16) < 2 ^ 16"
  by (rule unat_word_bound) simp

lemma unat_ucast_up:
  "LENGTH('a :: len) \<le> LENGTH('b :: len) \<Longrightarrow> unat (ucast (x :: 'a word) :: 'b word) = unat x"
  by (simp add: unsigned_ucast_eq take_bit_nat_eq_self unat_word_bound)

lemma unat_ucast_16_64 [simp]: "unat (ucast (x :: u16) :: u64) = unat x"
  by (rule unat_ucast_up) simp

lemma unat_ucast_32_64 [simp]: "unat (ucast (x :: u32) :: u64) = unat x"
  by (rule unat_ucast_up) simp

lemma word_nonzero_unat: "(x :: 'a :: len word) \<noteq> 0 \<longleftrightarrow> 0 < unat x"
  by (simp add: unat_gt_0)

section \<open>Reading memory\<close>

text \<open>
  An object is a byte list; a pointer into it is an offset.  Reads outside the object fault.
\<close>

definition read_u8 :: "bytes \<Rightarrow> nat \<Rightarrow> u8 outcome" where
  "read_u8 data p = (if p < length data then Done (data ! p) else Fault)"

lemma read_u8_in [outcome_simps]: "p < length data \<Longrightarrow> read_u8 data p = Done (data ! p)"
  by (simp add: read_u8_def)

lemma read_u8_not_Fail [simp]: "read_u8 data p \<noteq> Fail e"
  by (simp add: read_u8_def)

text \<open>The C string that starts at an offset: the bytes before the first NUL.\<close>

definition c_string :: "bytes \<Rightarrow> nat \<Rightarrow> bytes" where
  "c_string data p = takeWhile (\<lambda>c. c \<noteq> 0) (drop p data)"

text \<open>
  The loop \<^verbatim>\<open>while (cur < size && P(base[cur])) cur++\<close>, over a 64 bit cursor.
\<close>

function scan_while :: "(u8 \<Rightarrow> bool) \<Rightarrow> bytes \<Rightarrow> nat \<Rightarrow> u64 \<Rightarrow> u64 \<Rightarrow> u64 outcome" where
  "scan_while P data base sz cur =
     (if cur < sz then
        bindO (read_u8 data (base + unat cur))
          (\<lambda>c. if P c then scan_while P data base sz (cur + 1) else Done cur)
      else Done cur)"
  by pat_completeness auto
termination
  by (relation "measure (\<lambda>(P, data, base, sz, cur). unat sz - unat cur)")
    (auto simp: word_nat word_less_nat_alt)

declare scan_while.simps [simp del]

text \<open>
  On a window that lies inside the object the loop stops, and it stops at the first byte of the
  window that violates \<open>P\<close>, or at the window's end.
\<close>

lemma scan_while_eq:
  assumes "base + unat sz \<le> length data" and "cur \<le> sz"
  shows "scan_while P data base sz cur =
    Done (of_nat (unat cur + length (takeWhile P (take (unat sz - unat cur) (drop (base + unat cur) data)))))"
  using assms
proof (induction P data base sz cur rule: scan_while.induct)
  case (1 P data base sz cur)
  show ?case
  proof (cases "cur < sz")
    case True
    then have lt: "unat cur < unat sz" by (simp add: word_less_nat_alt)
    have inb: "base + unat cur < length data" using lt "1.prems" by simp
    have suc: "unat (cur + 1) = Suc (unat cur)" using True by (rule unat_plus_1)
    have window: "take (unat sz - unat cur) (drop (base + unat cur) data) =
        data ! (base + unat cur) #
          take (unat sz - Suc (unat cur)) (drop (base + Suc (unat cur)) data)"
    proof -
      have "drop (base + unat cur) data = data ! (base + unat cur) # drop (base + Suc (unat cur)) data"
        using inb by (simp add: Cons_nth_drop_Suc)
      moreover have "unat sz - unat cur = Suc (unat sz - Suc (unat cur))" using lt by simp
      ultimately show ?thesis by simp
    qed
    show ?thesis
    proof (cases "P (data ! (base + unat cur))")
      case P: True
      have "cur + 1 \<le> sz" using lt suc by (simp add: word_le_nat_alt)
      with "1.IH" [OF True read_u8_in [OF inb] P "1.prems"(1)] have
        "scan_while P data base sz (cur + 1) =
           Done (of_nat (Suc (unat cur) + length (takeWhile P (take (unat sz - Suc (unat cur)) (drop (base + Suc (unat cur)) data)))))"
        by (simp add: suc)
      then show ?thesis
        using True P inb by (subst scan_while.simps) (simp add: read_u8_in window)
    next
      case False
      then show ?thesis
        using True inb by (subst scan_while.simps) (simp add: read_u8_in window)
    qed
  next
    case False
    then have "unat sz - unat cur = 0" by (simp add: word_less_nat_alt)
    then show ?thesis using False by (subst scan_while.simps) simp
  qed
qed

lemma scan_while_ge:
  "scan_while P data base sz cur = Done r \<Longrightarrow> cur \<le> r \<and> (cur \<le> sz \<longrightarrow> r \<le> sz)"
proof (induction P data base sz cur rule: scan_while.induct)
  case (1 P data base sz cur)
  show ?case
  proof (cases "cur < sz")
    case True
    have suc: "cur \<le> cur + 1" using unat_plus_1 [OF True] by (simp add: word_le_nat_alt)
    from "1.prems" True obtain c where c: "read_u8 data (base + unat cur) = Done c"
      and rest: "(if P c then scan_while P data base sz (cur + 1) else Done cur) = Done r"
      by (subst (asm) scan_while.simps) (auto simp: bindO_Done_iff)
    show ?thesis
    proof (cases "P c")
      case P: True
      with "1.IH" [OF True c P] rest have "cur + 1 \<le> r" "cur + 1 \<le> sz \<longrightarrow> r \<le> sz" by auto
      then show ?thesis using suc inc_le [OF True] by (meson order_trans)
    next
      case False
      with rest show ?thesis by simp
    qed
  next
    case False
    with "1.prems" show ?thesis by (subst (asm) scan_while.simps) simp
  qed
qed

text \<open>The bytes of the scanned region from the cursor to its end.\<close>

definition window :: "bytes \<Rightarrow> nat \<Rightarrow> u64 \<Rightarrow> u64 \<Rightarrow> bytes" where
  "window data base sz cur = take (unat sz - unat cur) (drop (base + unat cur) data)"

lemma length_window:
  "base + unat sz \<le> length data \<Longrightarrow> cur \<le> sz \<Longrightarrow> length (window data base sz cur) = unat sz - unat cur"
  by (auto simp: window_def word_le_nat_alt)

lemma window_empty_iff:
  assumes "base + unat sz \<le> length data" "cur \<le> sz"
  shows "window data base sz cur = [] \<longleftrightarrow> \<not> cur < sz"
proof -
  have "window data base sz cur = [] \<longleftrightarrow> unat sz - unat cur = 0"
    using length_window [OF assms] by (metis length_0_conv)
  then show ?thesis by (simp add: word_less_nat_alt not_less)
qed

lemma window_advance:
  assumes "unat r = unat cur + n" "r \<le> sz"
  shows "window data base sz r = drop n (window data base sz cur)"
proof -
  have "drop (base + unat r) data = drop n (drop (base + unat cur) data)"
    using assms(1) by (simp add: add.commute add.left_commute)
  moreover have "unat sz - unat r = unat sz - unat cur - n" using assms(1) by simp
  ultimately show ?thesis by (simp only: window_def drop_take)
qed

text \<open>What the loop computes, in terms of the window: it drops the prefix that satisfies \<open>P\<close>.\<close>

lemma scan_while_window:
  assumes bounds: "base + unat sz \<le> length data" and le: "cur \<le> sz"
  obtains r where "scan_while P data base sz cur = Done r"
    and "unat r = unat cur + length (takeWhile P (window data base sz cur))"
    and "cur \<le> r" and "r \<le> sz"
    and "window data base sz r = dropWhile P (window data base sz cur)"
    and "r < sz \<longleftrightarrow> dropWhile P (window data base sz cur) \<noteq> []"
proof -
  let ?n = "length (takeWhile P (window data base sz cur))"
  have "?n \<le> length (window data base sz cur)" by (rule length_takeWhile_le)
  then have n: "unat cur + ?n \<le> unat sz"
    using length_window [OF bounds le] le by (simp add: word_le_nat_alt)
  obtain r where r: "scan_while P data base sz cur = Done r" and r_def: "r = of_nat (unat cur + ?n)"
    using scan_while_eq [OF bounds le, of P] by (simp add: window_def)
  have ur: "unat r = unat cur + ?n"
    unfolding r_def using n unat_u64_bound [of sz] by (intro unat_of_nat_u64) linarith
  have le_r: "cur \<le> r" "r \<le> sz" using ur n by (simp_all add: word_le_nat_alt)
  have w: "window data base sz r = dropWhile P (window data base sz cur)"
    using window_advance [OF ur le_r(2)] by (simp add: dropWhile_eq_drop)
  show thesis
    using that [OF r ur le_r w] window_empty_iff [OF bounds le_r(2)] w by metis
qed

end
