(* ===== verification/Elf_Reader.thy ===== *)
theory Elf_Reader
  imports Kobox_Prelude
begin

text \<open>
  The ELF64 reader of the module loader, \<^verbatim>\<open>src/loader/elf_reader.c\<close> with the
  structures of \<^verbatim>\<open>include/kobox/elf.h\<close>: opening an image, section headers, symbol
  tables, relocation tables and the \<^verbatim>\<open>.modinfo\<close> strings.  The image is a byte list
  and every dereference of the source is a read that faults outside that list, so the absence
  of \<open>Fault\<close> is memory safety of the reader on arbitrary input.  A parameter of type
  \<open>kb_elf_file option\<close> is a pointer that may be null; the final boolean of an entry point says
  whether its out-parameter is non-null.
\<close>

unbundle bit_operations_syntax

section \<open>Constants and structures\<close>

abbreviation (input) elf64_header_size :: u64 where "elf64_header_size \<equiv> 64"
abbreviation (input) elf64_section_header_size :: u64 where "elf64_section_header_size \<equiv> 64"
abbreviation (input) elf64_symbol_size :: u64 where "elf64_symbol_size \<equiv> 24"
abbreviation (input) elf64_rela_size :: u64 where "elf64_rela_size \<equiv> 24"
abbreviation (input) elf64_rel_size :: u64 where "elf64_rel_size \<equiv> 16"
abbreviation (input) elf_class_64 :: u8 where "elf_class_64 \<equiv> 2"
abbreviation (input) elf_data_little :: u8 where "elf_data_little \<equiv> 1"
abbreviation (input) elf_version_current :: u8 where "elf_version_current \<equiv> 1"
abbreviation (input) shn_xindex :: u16 where "shn_xindex \<equiv> 0xffff"

abbreviation (input) KB_ELF_SHT_PROGBITS :: u32 where "KB_ELF_SHT_PROGBITS \<equiv> 1"
abbreviation (input) KB_ELF_SHT_SYMTAB :: u32 where "KB_ELF_SHT_SYMTAB \<equiv> 2"
abbreviation (input) KB_ELF_SHT_STRTAB :: u32 where "KB_ELF_SHT_STRTAB \<equiv> 3"
abbreviation (input) KB_ELF_SHT_RELA :: u32 where "KB_ELF_SHT_RELA \<equiv> 4"
abbreviation (input) KB_ELF_SHT_NOBITS :: u32 where "KB_ELF_SHT_NOBITS \<equiv> 8"
abbreviation (input) KB_ELF_SHT_REL :: u32 where "KB_ELF_SHT_REL \<equiv> 9"
abbreviation (input) KB_ELF_SHT_DYNSYM :: u32 where "KB_ELF_SHT_DYNSYM \<equiv> 11"

record kb_elf_file =
  elf_data :: bytes
  elf_size :: u64
  elf_type :: u16
  elf_machine :: u16
  elf_entry :: u64
  section_header_offset :: u64
  section_header_entry_size :: u16
  section_count :: u16
  section_name_index :: u16

record kb_elf_section =
  sec_name :: bytes
  sec_type :: u32
  sec_flags :: u64
  sec_address :: u64
  sec_offset :: u64
  sec_size :: u64
  sec_link :: u32
  sec_info :: u32
  sec_alignment :: u64
  sec_entry_size :: u64

record kb_elf_symbol =
  sym_name :: bytes
  sym_binding :: u8
  sym_type :: u8
  sym_visibility :: u8
  sym_section_index :: u16
  sym_value :: u64
  sym_size :: u64

text \<open>The addend is kept as its 64 bit two's complement pattern.\<close>

record kb_elf_relocation =
  rel_offset :: u64
  rel_type :: u32
  rel_symbol_index :: u32
  rel_addend :: u64
  rel_has_addend :: bool
  rel_target_section_index :: u32
  rel_symbol_table_section_index :: u32

record kb_elf_modinfo_entry =
  mod_key :: bytes
  mod_value :: bytes

section \<open>Field access\<close>

definition read_u16le :: "bytes \<Rightarrow> nat \<Rightarrow> u16 outcome" where
  "read_u16le data p =
     bindO (read_u8 data p) (\<lambda>b0. bindO (read_u8 data (p + 1)) (\<lambda>b1.
       Done (ucast b0 OR push_bit 8 (ucast b1))))"

definition read_u32le :: "bytes \<Rightarrow> nat \<Rightarrow> u32 outcome" where
  "read_u32le data p =
     bindO (read_u8 data p) (\<lambda>b0. bindO (read_u8 data (p + 1)) (\<lambda>b1.
     bindO (read_u8 data (p + 2)) (\<lambda>b2. bindO (read_u8 data (p + 3)) (\<lambda>b3.
       Done (ucast b0 OR push_bit 8 (ucast b1) OR push_bit 16 (ucast b2) OR push_bit 24 (ucast b3))))))"

definition read_u64le :: "bytes \<Rightarrow> nat \<Rightarrow> u64 outcome" where
  "read_u64le data p =
     bindO (read_u32le data p) (\<lambda>lo. bindO (read_u32le data (p + 4)) (\<lambda>hi.
       Done (ucast lo OR push_bit 32 (ucast hi))))"

definition range_fits :: "u64 \<Rightarrow> u64 \<Rightarrow> u64 \<Rightarrow> bool" where
  "range_fits sz offset len =
     (if offset > sz then False else if len > sz - offset then False else True)"

text \<open>
  The name is the C string at \<open>strings + offset\<close> when a NUL lies inside the table, and the
  empty string otherwise.
\<close>

definition bounded_section_name :: "bytes \<Rightarrow> nat \<Rightarrow> u64 \<Rightarrow> u32 \<Rightarrow> bytes outcome" where
  "bounded_section_name data strings strings_size offset =
     (let pos = ucast offset in
      if pos \<ge> strings_size then Done []
      else bindO (scan_while (\<lambda>c. c \<noteq> 0) data strings strings_size pos) (\<lambda>stop.
        if stop < strings_size then Done (c_string data (strings + unat offset)) else Done []))"

section \<open>Opening an image and reading section headers\<close>

definition kb_elf_open :: "bytes option \<Rightarrow> u64 \<Rightarrow> bool \<Rightarrow> kb_elf_file outcome" where
  "kb_elf_open data sz out_file =
     (case data of None \<Rightarrow> Fail KB_ERR_INVALID | Some bytes \<Rightarrow>
      if \<not> out_file \<or> sz < elf64_header_size then Fail KB_ERR_INVALID else
      bindO (read_u8 bytes 0) (\<lambda>b0. bindO (read_u8 bytes 1) (\<lambda>b1.
      bindO (read_u8 bytes 2) (\<lambda>b2. bindO (read_u8 bytes 3) (\<lambda>b3.
      if b0 \<noteq> 0x7f \<or> b1 \<noteq> 0x45 \<or> b2 \<noteq> 0x4c \<or> b3 \<noteq> 0x46 then Fail KB_ERR_INVALID else
      bindO (read_u8 bytes 4) (\<lambda>b4. bindO (read_u8 bytes 5) (\<lambda>b5. bindO (read_u8 bytes 6) (\<lambda>b6.
      if b4 \<noteq> elf_class_64 \<or> b5 \<noteq> elf_data_little \<or> b6 \<noteq> elf_version_current
        then Fail KB_ERR_UNSUPPORTED else
      bindO (read_u16le bytes 58) (\<lambda>section_entry_size.
      bindO (read_u16le bytes 60) (\<lambda>section_count.
      bindO (read_u16le bytes 62) (\<lambda>section_name_index.
      bindO (read_u64le bytes 40) (\<lambda>section_offset.
      bindO (read_u16le bytes 52) (\<lambda>header_size.
      if header_size \<noteq> 64 then Fail KB_ERR_UNSUPPORTED
      else if section_entry_size \<noteq> 64 then Fail KB_ERR_UNSUPPORTED
      else if section_count = 0 \<or> section_name_index = shn_xindex \<or> section_name_index \<ge> section_count
        then Fail KB_ERR_UNSUPPORTED
      else if \<not> range_fits sz section_offset (ucast section_entry_size * ucast section_count)
        then Fail KB_ERR_INVALID
      else
      bindO (read_u16le bytes 16) (\<lambda>type.
      bindO (read_u16le bytes 18) (\<lambda>machine.
      bindO (read_u64le bytes 24) (\<lambda>entry.
        Done \<lparr>elf_data = bytes, elf_size = sz, elf_type = type, elf_machine = machine,
          elf_entry = entry, section_header_offset = section_offset,
          section_header_entry_size = section_entry_size, section_count = section_count,
          section_name_index = section_name_index\<rparr>))))))))))))))))"

definition kb_elf_section_count :: "kb_elf_file option \<Rightarrow> u64" where
  "kb_elf_section_count file = (case file of None \<Rightarrow> 0 | Some f \<Rightarrow> ucast (section_count f))"

definition kb_elf_section :: "kb_elf_file option \<Rightarrow> u64 \<Rightarrow> bool \<Rightarrow> kb_elf_section outcome" where
  "kb_elf_section file index out_section =
     (case file of None \<Rightarrow> Fail KB_ERR_INVALID | Some f \<Rightarrow>
      if \<not> out_section \<or> index \<ge> ucast (section_count f) then Fail KB_ERR_INVALID else
      let section_offset = section_header_offset f + index * ucast (section_header_entry_size f) in
      if \<not> range_fits (elf_size f) section_offset elf64_section_header_size then Fail KB_ERR_INVALID else
      let name_section_offset = section_header_offset f +
            ucast (section_name_index f) * ucast (section_header_entry_size f) in
      if \<not> range_fits (elf_size f) name_section_offset elf64_section_header_size then Fail KB_ERR_INVALID else
      let d = elf_data f; section = unat section_offset; name_section = unat name_section_offset in
      bindO (read_u64le d (name_section + 24)) (\<lambda>strings_offset.
      bindO (read_u64le d (name_section + 32)) (\<lambda>strings_size.
      bindO (if range_fits (elf_size f) strings_offset strings_size
             then bindO (read_u32le d section)
               (\<lambda>name_offset. bounded_section_name d (unat strings_offset) strings_size name_offset)
             else Done []) (\<lambda>name.
      bindO (read_u32le d (section + 4)) (\<lambda>type.
      bindO (read_u64le d (section + 8)) (\<lambda>flags.
      bindO (read_u64le d (section + 16)) (\<lambda>address.
      bindO (read_u64le d (section + 24)) (\<lambda>offset.
      bindO (read_u64le d (section + 32)) (\<lambda>sz.
      bindO (read_u32le d (section + 40)) (\<lambda>link.
      bindO (read_u32le d (section + 44)) (\<lambda>info.
      bindO (read_u64le d (section + 48)) (\<lambda>alignment.
      bindO (read_u64le d (section + 56)) (\<lambda>entry_size.
        Done \<lparr>sec_name = name, sec_type = type, sec_flags = flags, sec_address = address,
          sec_offset = offset, sec_size = sz, sec_link = link, sec_info = info,
          sec_alignment = alignment, sec_entry_size = entry_size\<rparr>)))))))))))))"

section \<open>Symbols and relocations\<close>

definition kb_elf_symbol_count :: "kb_elf_file option \<Rightarrow> u64 \<Rightarrow> bool \<Rightarrow> u64 outcome" where
  "kb_elf_symbol_count file section_index out_count =
     (case file of None \<Rightarrow> Fail KB_ERR_INVALID | Some f \<Rightarrow>
      if \<not> out_count then Fail KB_ERR_INVALID else
      bindO (kb_elf_section file section_index True) (\<lambda>section.
      if sec_type section \<noteq> KB_ELF_SHT_SYMTAB \<and> sec_type section \<noteq> KB_ELF_SHT_DYNSYM
        then Fail KB_ERR_INVALID
      else if sec_entry_size section \<noteq> elf64_symbol_size \<or> sec_size section mod elf64_symbol_size \<noteq> 0
        then Fail KB_ERR_UNSUPPORTED
      else if \<not> range_fits (elf_size f) (sec_offset section) (sec_size section)
        then Fail KB_ERR_INVALID
      else Done (sec_size section div elf64_symbol_size)))"

definition kb_elf_symbol :: "kb_elf_file option \<Rightarrow> u64 \<Rightarrow> u64 \<Rightarrow> bool \<Rightarrow> kb_elf_symbol outcome" where
  "kb_elf_symbol file section_index symbol_index out_symbol =
     (case file of None \<Rightarrow> Fail KB_ERR_INVALID | Some f \<Rightarrow>
      if \<not> out_symbol then Fail KB_ERR_INVALID else
      bindO (kb_elf_section file section_index True) (\<lambda>symbol_section.
      if sec_type symbol_section \<noteq> KB_ELF_SHT_SYMTAB \<and> sec_type symbol_section \<noteq> KB_ELF_SHT_DYNSYM
        then Fail KB_ERR_INVALID
      else if sec_entry_size symbol_section \<noteq> elf64_symbol_size \<or>
              sec_size symbol_section mod elf64_symbol_size \<noteq> 0
        then Fail KB_ERR_UNSUPPORTED
      else if symbol_index \<ge> sec_size symbol_section div elf64_symbol_size then Fail KB_ERR_INVALID
      else if sec_link symbol_section \<ge> ucast (section_count f) then Fail KB_ERR_INVALID
      else
      bindO (kb_elf_section file (ucast (sec_link symbol_section)) True) (\<lambda>string_section.
      if sec_type string_section \<noteq> KB_ELF_SHT_STRTAB then Fail KB_ERR_INVALID
      else if \<not> range_fits (elf_size f) (sec_offset string_section) (sec_size string_section)
        then Fail KB_ERR_INVALID
      else
      let symbol_offset = sec_offset symbol_section + symbol_index * elf64_symbol_size in
      if \<not> range_fits (elf_size f) symbol_offset elf64_symbol_size then Fail KB_ERR_INVALID else
      let d = elf_data f; symbol = unat symbol_offset in
      bindO (read_u32le d symbol) (\<lambda>name_offset.
      bindO (read_u8 d (symbol + 4)) (\<lambda>info.
      bindO (bounded_section_name d (unat (sec_offset string_section)) (sec_size string_section) name_offset) (\<lambda>name.
      bindO (read_u8 d (symbol + 5)) (\<lambda>other.
      bindO (read_u16le d (symbol + 6)) (\<lambda>shndx.
      bindO (read_u64le d (symbol + 8)) (\<lambda>value.
      bindO (read_u64le d (symbol + 16)) (\<lambda>sz.
        Done \<lparr>sym_name = name, sym_binding = drop_bit 4 info, sym_type = info AND 0x0f,
          sym_visibility = other AND 0x03, sym_section_index = shndx, sym_value = value,
          sym_size = sz\<rparr>))))))))))"

definition relocation_entry_size :: "kb_elf_section \<Rightarrow> u64" where
  "relocation_entry_size section =
     (if sec_type section = KB_ELF_SHT_RELA then elf64_rela_size else elf64_rel_size)"

definition kb_elf_relocation_count :: "kb_elf_file option \<Rightarrow> u64 \<Rightarrow> bool \<Rightarrow> u64 outcome" where
  "kb_elf_relocation_count file section_index out_count =
     (case file of None \<Rightarrow> Fail KB_ERR_INVALID | Some f \<Rightarrow>
      if \<not> out_count then Fail KB_ERR_INVALID else
      bindO (kb_elf_section file section_index True) (\<lambda>section.
      if sec_type section \<noteq> KB_ELF_SHT_RELA \<and> sec_type section \<noteq> KB_ELF_SHT_REL
        then Fail KB_ERR_INVALID else
      let expected_entry_size = relocation_entry_size section in
      if sec_entry_size section \<noteq> expected_entry_size \<or> sec_size section mod expected_entry_size \<noteq> 0
        then Fail KB_ERR_UNSUPPORTED
      else if \<not> range_fits (elf_size f) (sec_offset section) (sec_size section)
        then Fail KB_ERR_INVALID
      else Done (sec_size section div expected_entry_size)))"

definition kb_elf_relocation :: "kb_elf_file option \<Rightarrow> u64 \<Rightarrow> u64 \<Rightarrow> bool \<Rightarrow> kb_elf_relocation outcome" where
  "kb_elf_relocation file section_index relocation_index out_relocation =
     (case file of None \<Rightarrow> Fail KB_ERR_INVALID | Some f \<Rightarrow>
      if \<not> out_relocation then Fail KB_ERR_INVALID else
      bindO (kb_elf_section file section_index True) (\<lambda>section.
      if sec_type section \<noteq> KB_ELF_SHT_RELA \<and> sec_type section \<noteq> KB_ELF_SHT_REL
        then Fail KB_ERR_INVALID
      else if sec_link section \<ge> ucast (section_count f) \<or> sec_info section \<ge> ucast (section_count f)
        then Fail KB_ERR_INVALID else
      let expected_entry_size = relocation_entry_size section in
      if sec_entry_size section \<noteq> expected_entry_size \<or> sec_size section mod expected_entry_size \<noteq> 0
        then Fail KB_ERR_UNSUPPORTED
      else if relocation_index \<ge> sec_size section div expected_entry_size then Fail KB_ERR_INVALID
      else
      let relocation_offset = sec_offset section + relocation_index * expected_entry_size in
      if \<not> range_fits (elf_size f) relocation_offset expected_entry_size then Fail KB_ERR_INVALID else
      let d = elf_data f; relocation = unat relocation_offset;
          has_addend = (sec_type section = KB_ELF_SHT_RELA) in
      bindO (read_u64le d (relocation + 8)) (\<lambda>info.
      bindO (read_u64le d relocation) (\<lambda>offset.
      bindO (if has_addend then read_u64le d (relocation + 16) else Done 0) (\<lambda>addend.
        Done \<lparr>rel_offset = offset, rel_type = ucast (info AND 0xffffffff),
          rel_symbol_index = ucast (drop_bit 32 info), rel_addend = addend,
          rel_has_addend = has_addend, rel_target_section_index = sec_info section,
          rel_symbol_table_section_index = sec_link section\<rparr>)))))"

section \<open>The module information strings\<close>

text \<open>The literal \<^verbatim>\<open>".modinfo"\<close>.\<close>

definition modinfo_name :: bytes where
  "modinfo_name = [0x2e, 0x6d, 0x6f, 0x64, 0x69, 0x6e, 0x66, 0x6f]"

text \<open>Base and size of a section's bytes, or \<open>None\<close> where the C function returns 0.\<close>

definition section_bytes :: "kb_elf_file \<Rightarrow> u64 \<Rightarrow> (nat \<times> u64) option outcome" where
  "section_bytes f section_index =
     (case kb_elf_section (Some f) section_index True of
        Fault \<Rightarrow> Fault
      | Fail e \<Rightarrow> Done None
      | Done section \<Rightarrow>
          if \<not> range_fits (elf_size f) (sec_offset section) (sec_size section) then Done None
          else Done (Some (unat (sec_offset section), sec_size section)))"

text \<open>The results 0, -1 and 1 of \<^verbatim>\<open>next_nul_entry\<close>; the last with its entry, size and cursor.\<close>

datatype nul_step = NulEnd | NulUnterminated | NulEntry nat u64 u64

definition next_nul_entry :: "bytes \<Rightarrow> nat \<Rightarrow> u64 \<Rightarrow> u64 \<Rightarrow> nul_step outcome" where
  "next_nul_entry data base sz cursor =
     bindO (scan_while (\<lambda>c. c = 0) data base sz cursor) (\<lambda>start.
     if start \<ge> sz then Done NulEnd else
     bindO (scan_while (\<lambda>c. c \<noteq> 0) data base sz start) (\<lambda>stop.
     if stop \<ge> sz then Done NulUnterminated
     else Done (NulEntry (base + unat start) (stop - start) (stop + 1))))"

lemma next_nul_entry_advances:
  assumes "next_nul_entry data base sz cursor = Done (NulEntry e n cursor')"
  shows "unat cursor < unat cursor'"
proof -
  from assms obtain start stop where
    start: "scan_while (\<lambda>c. c = 0) data base sz cursor = Done start" and
    stop: "scan_while (\<lambda>c. c \<noteq> 0) data base sz start = Done stop" "stop < sz" "cursor' = stop + 1"
    by (auto simp: next_nul_entry_def bindO_Done_iff not_le split: if_splits)
  show ?thesis
    using scan_while_ge [OF start] scan_while_ge [OF stop(1)] stop
    by (simp add: unat_plus_1 word_le_nat_alt)
qed

function modinfo_count_loop :: "bytes \<Rightarrow> nat \<Rightarrow> u64 \<Rightarrow> u64 \<Rightarrow> u64 \<Rightarrow> u64 outcome" where
  "modinfo_count_loop data base sz cursor count =
     (if cursor < sz then
        bindO (next_nul_entry data base sz cursor) (\<lambda>result.
          case result of
            NulUnterminated \<Rightarrow> Fail KB_ERR_INVALID
          | NulEnd \<Rightarrow> Done count
          | NulEntry entry entry_size cursor' \<Rightarrow> modinfo_count_loop data base sz cursor' (count + 1))
      else Done count)"
  by pat_completeness auto
termination
  by (relation "measure (\<lambda>(data, base, sz, cursor, count). unat sz - unat cursor)")
    (auto simp: word_less_nat_alt dest!: next_nul_entry_advances)

function modinfo_entry_loop ::
    "bytes \<Rightarrow> nat \<Rightarrow> u64 \<Rightarrow> u64 \<Rightarrow> u64 \<Rightarrow> u64 \<Rightarrow> kb_elf_modinfo_entry outcome" where
  "modinfo_entry_loop data base sz entry_index cursor current_index =
     (if cursor < sz then
        bindO (next_nul_entry data base sz cursor) (\<lambda>result.
          case result of
            NulUnterminated \<Rightarrow> Fail KB_ERR_INVALID
          | NulEnd \<Rightarrow> Fail KB_ERR_NOT_FOUND
          | NulEntry entry entry_size cursor' \<Rightarrow>
              if current_index \<noteq> entry_index
              then modinfo_entry_loop data base sz entry_index cursor' (current_index + 1)
              else bindO (scan_while (\<lambda>c. c \<noteq> 0x3d) data entry entry_size 0) (\<lambda>equals_index.
                if equals_index = entry_size then Fail KB_ERR_INVALID
                else Done \<lparr>mod_key = take (unat equals_index) (drop entry data),
                  mod_value = take (unat (entry_size - equals_index - 1))
                    (drop (entry + unat equals_index + 1) data)\<rparr>))
      else Fail KB_ERR_NOT_FOUND)"
  by pat_completeness auto
termination
  by (relation "measure (\<lambda>(data, base, sz, entry_index, cursor, current_index). unat sz - unat cursor)")
    (auto simp: word_less_nat_alt dest!: next_nul_entry_advances)

declare modinfo_count_loop.simps [simp del] modinfo_entry_loop.simps [simp del]

definition kb_elf_modinfo_entry_count :: "kb_elf_file option \<Rightarrow> u64 \<Rightarrow> bool \<Rightarrow> u64 outcome" where
  "kb_elf_modinfo_entry_count file section_index out_count =
     (case file of None \<Rightarrow> Fail KB_ERR_INVALID | Some f \<Rightarrow>
      if \<not> out_count then Fail KB_ERR_INVALID else
      bindO (kb_elf_section file section_index True) (\<lambda>section.
      if sec_name section \<noteq> modinfo_name \<or> sec_type section \<noteq> KB_ELF_SHT_PROGBITS
        then Fail KB_ERR_INVALID else
      bindO (section_bytes f section_index) (\<lambda>found.
      case found of None \<Rightarrow> Fail KB_ERR_INVALID
      | Some (base, sz) \<Rightarrow> modinfo_count_loop (elf_data f) base sz 0 0)))"

definition kb_elf_modinfo_entry ::
    "kb_elf_file option \<Rightarrow> u64 \<Rightarrow> u64 \<Rightarrow> bool \<Rightarrow> kb_elf_modinfo_entry outcome" where
  "kb_elf_modinfo_entry file section_index entry_index out_entry =
     (case file of None \<Rightarrow> Fail KB_ERR_INVALID | Some f \<Rightarrow>
      if \<not> out_entry then Fail KB_ERR_INVALID else
      bindO (kb_elf_section file section_index True) (\<lambda>section.
      if sec_name section \<noteq> modinfo_name \<or> sec_type section \<noteq> KB_ELF_SHT_PROGBITS
        then Fail KB_ERR_INVALID else
      bindO (section_bytes f section_index) (\<lambda>found.
      case found of None \<Rightarrow> Fail KB_ERR_INVALID
      | Some (base, sz) \<Rightarrow> modinfo_entry_loop (elf_data f) base sz entry_index 0 0)))"

text \<open>The search for the section, over the section count; it stops at the first failing header.\<close>

function modinfo_section_loop :: "kb_elf_file \<Rightarrow> u64 \<Rightarrow> u64 outcome" where
  "modinfo_section_loop f i =
     (if i < kb_elf_section_count (Some f) then
        bindO (kb_elf_section (Some f) i True) (\<lambda>section.
          if sec_type section = KB_ELF_SHT_PROGBITS \<and> sec_name section = modinfo_name then Done i
          else modinfo_section_loop f (i + 1))
      else Fail KB_ERR_NOT_FOUND)"
  by pat_completeness auto
termination
  by (relation "measure (\<lambda>(f, i). unat (kb_elf_section_count (Some f)) - unat i)")
    (auto simp: word_less_nat_alt unat_plus_1)

declare modinfo_section_loop.simps [simp del]

definition kb_elf_modinfo_section :: "kb_elf_file option \<Rightarrow> bool \<Rightarrow> u64 outcome" where
  "kb_elf_modinfo_section file out_section_index =
     (case file of None \<Rightarrow> Fail KB_ERR_INVALID | Some f \<Rightarrow>
      if \<not> out_section_index then Fail KB_ERR_INVALID else modinfo_section_loop f 0)"

section \<open>Names for diagnostics\<close>

definition kb_elf_type_name :: "u16 \<Rightarrow> string" where
  "kb_elf_type_name type =
     (if type = 0 then ''NONE'' else if type = 1 then ''REL'' else if type = 2 then ''EXEC''
      else if type = 3 then ''DYN'' else ''UNKNOWN'')"

definition kb_elf_machine_name :: "u16 \<Rightarrow> string" where
  "kb_elf_machine_name machine = (if machine = 62 then ''x86_64'' else ''unknown'')"

definition kb_elf_section_type_name :: "u32 \<Rightarrow> string" where
  "kb_elf_section_type_name type =
     (if type = 0 then ''NULL'' else if type = KB_ELF_SHT_PROGBITS then ''PROGBITS''
      else if type = KB_ELF_SHT_SYMTAB then ''SYMTAB'' else if type = KB_ELF_SHT_STRTAB then ''STRTAB''
      else if type = KB_ELF_SHT_RELA then ''RELA'' else if type = KB_ELF_SHT_NOBITS then ''NOBITS''
      else if type = KB_ELF_SHT_REL then ''REL'' else if type = KB_ELF_SHT_DYNSYM then ''DYNSYM''
      else ''UNKNOWN'')"

definition kb_elf_symbol_binding_name :: "u8 \<Rightarrow> string" where
  "kb_elf_symbol_binding_name binding =
     (if binding = 0 then ''LOCAL'' else if binding = 1 then ''GLOBAL''
      else if binding = 2 then ''WEAK'' else ''UNKNOWN'')"

definition kb_elf_symbol_type_name :: "u8 \<Rightarrow> string" where
  "kb_elf_symbol_type_name type =
     (if type = 0 then ''NOTYPE'' else if type = 1 then ''OBJECT'' else if type = 2 then ''FUNC''
      else if type = 3 then ''SECTION'' else if type = 4 then ''FILE'' else if type = 5 then ''COMMON''
      else if type = 6 then ''TLS'' else ''UNKNOWN'')"

definition kb_elf_x86_64_relocation_type_name :: "u32 \<Rightarrow> string" where
  "kb_elf_x86_64_relocation_type_name type =
     (if type = 0 then ''R_X86_64_NONE'' else if type = 1 then ''R_X86_64_64''
      else if type = 2 then ''R_X86_64_PC32'' else if type = 3 then ''R_X86_64_GOT32''
      else if type = 4 then ''R_X86_64_PLT32'' else if type = 6 then ''R_X86_64_GLOB_DAT''
      else if type = 7 then ''R_X86_64_JUMP_SLOT'' else if type = 8 then ''R_X86_64_RELATIVE''
      else if type = 9 then ''R_X86_64_GOTPCREL'' else if type = 10 then ''R_X86_64_32''
      else if type = 11 then ''R_X86_64_32S'' else if type = 24 then ''R_X86_64_PC64''
      else if type = 41 then ''R_X86_64_GOTPCRELX'' else if type = 42 then ''R_X86_64_REX_GOTPCRELX''
      else ''R_X86_64_UNKNOWN'')"

section \<open>Bounds and memory safety\<close>

lemma range_fits_iff [word_nat]: "range_fits sz offset len \<longleftrightarrow> unat offset + unat len \<le> unat sz"
  by (auto simp: range_fits_def word_less_nat_alt unat_sub_le word_le_nat_alt not_less)

lemma read_u16le_in [outcome_simps]:
  "p + 2 \<le> length data \<Longrightarrow>
   read_u16le data p = Done (ucast (data ! p) OR push_bit 8 (ucast (data ! (p + 1))))"
  by (simp add: read_u16le_def read_u8_in)

lemma read_u32le_in [outcome_simps]:
  "p + 4 \<le> length data \<Longrightarrow>
   read_u32le data p = Done (ucast (data ! p) OR push_bit 8 (ucast (data ! (p + 1))) OR
     push_bit 16 (ucast (data ! (p + 2))) OR push_bit 24 (ucast (data ! (p + 3))))"
  by (simp add: read_u32le_def read_u8_in)

lemma reads_safe [intro]:
  "p < length data \<Longrightarrow> safe (read_u8 data p)"
  "p + 2 \<le> length data \<Longrightarrow> safe (read_u16le data p)"
  "p + 4 \<le> length data \<Longrightarrow> safe (read_u32le data p)"
  "p + 8 \<le> length data \<Longrightarrow> safe (read_u64le data p)"
  by (simp_all add: read_u8_def read_u16le_in read_u32le_in read_u64le_def)

lemma reads_not_Fail [simp]:
  "read_u16le data p \<noteq> Fail e" "read_u32le data p \<noteq> Fail e" "read_u64le data p \<noteq> Fail e"
  by (auto simp: read_u16le_def read_u32le_def read_u64le_def bindO_Fail_iff)

lemma reads_Done:
  "p < length data \<Longrightarrow> \<exists>v. read_u8 data p = Done v"
  "p + 2 \<le> length data \<Longrightarrow> \<exists>v. read_u16le data p = Done v"
  "p + 4 \<le> length data \<Longrightarrow> \<exists>v. read_u32le data p = Done v"
  "p + 8 \<le> length data \<Longrightarrow> \<exists>v. read_u64le data p = Done v"
  by (simp_all add: read_u8_in read_u16le_in read_u32le_in read_u64le_def)

lemma bounded_section_name_eq:
  assumes "strings + unat strings_size \<le> length data"
  shows "bounded_section_name data strings strings_size offset =
    Done (if 0 \<in> set (window data strings strings_size (ucast offset))
          then c_string data (strings + unat offset) else [])"
proof (cases "ucast offset < strings_size")
  case True
  obtain r where r: "scan_while (\<lambda>c. c \<noteq> 0) data strings strings_size (ucast offset) = Done r"
    and "r < strings_size \<longleftrightarrow> dropWhile (\<lambda>c. c \<noteq> 0) (window data strings strings_size (ucast offset)) \<noteq> []"
    using scan_while_window [OF assms, of "ucast offset"] True by (metis order.strict_implies_order)
  then have "r < strings_size \<longleftrightarrow> 0 \<in> set (window data strings strings_size (ucast offset))"
    by (auto simp: dropWhile_eq_Nil_conv)
  with r True [folded not_le] show ?thesis by (simp add: bounded_section_name_def Let_def)
next
  case False
  then have "window data strings strings_size (ucast offset) = []"
    by (simp add: window_def word_less_nat_alt)
  with False [unfolded not_less] show ?thesis by (simp add: bounded_section_name_def Let_def)
qed

text \<open>The caller's buffer is at least as long as the size it passed.\<close>

definition elf_view :: "kb_elf_file \<Rightarrow> bool" where
  "elf_view f \<longleftrightarrow> unat (elf_size f) \<le> length (elf_data f)"

lemma elf_view_range:
  "elf_view f \<Longrightarrow> range_fits (elf_size f) offset len \<Longrightarrow> unat offset + unat len \<le> length (elf_data f)"
  by (simp add: elf_view_def word_nat)

lemma bounded_section_name_Done:
  "strings + unat strings_size \<le> length data \<Longrightarrow>
   \<exists>name. bounded_section_name data strings strings_size offset = Done name"
  by (simp add: bounded_section_name_eq)

lemma bounded_section_name_safe [intro]:
  "strings + unat strings_size \<le> length data \<Longrightarrow> safe (bounded_section_name data strings strings_size offset)"
  by (simp add: bounded_section_name_eq)

lemma kb_elf_section_safe [intro]:
  assumes "elf_view f" shows "safe (kb_elf_section (Some f) i out)"
  unfolding kb_elf_section_def Let_def
  by (auto dest!: elf_view_range [OF assms] split: option.splits)

lemma kb_elf_symbol_safe [intro]:
  assumes "elf_view f" shows "safe (kb_elf_symbol (Some f) i k out)"
  unfolding kb_elf_symbol_def Let_def
  using assms by (auto dest!: elf_view_range [OF assms])

lemma kb_elf_relocation_safe [intro]:
  assumes "elf_view f" shows "safe (kb_elf_relocation (Some f) i k out)"
  unfolding kb_elf_relocation_def Let_def
  using assms by (auto dest!: elf_view_range [OF assms] simp: relocation_entry_size_def split: if_splits)

lemma kb_elf_counts_safe [intro]:
  assumes "elf_view f"
  shows "safe (kb_elf_symbol_count (Some f) i out)"
    and "safe (kb_elf_relocation_count (Some f) i out)"
  unfolding kb_elf_symbol_count_def kb_elf_relocation_count_def Let_def
  using assms by auto

section \<open>Module information: refinement of the entry list\<close>

text \<open>
  What the section holds, as data: the maximal runs of non-NUL bytes, each closed by a NUL.
  A run that reaches the end of the section unclosed makes the whole section malformed.
\<close>

function nul_entries :: "bytes \<Rightarrow> bytes list option" where
  "nul_entries bs =
     (let r = dropWhile (\<lambda>c. c = 0) bs in
      if r = [] then Some []
      else let rest = dropWhile (\<lambda>c. c \<noteq> 0) r in
        if rest = [] then None
        else map_option ((#) (takeWhile (\<lambda>c. c \<noteq> 0) r)) (nul_entries (tl rest)))"
  by pat_completeness auto
termination
proof (relation "measure length", simp, goal_cases)
  case (1 bs r rest)
  have "length rest \<le> length r" "length r \<le> length bs"
    using 1 by (simp_all add: length_dropWhile_le)
  moreover from \<open>rest \<noteq> []\<close> have "length (tl rest) < length rest" by simp
  ultimately show ?case by simp
qed

declare nul_entries.simps [simp del]

text \<open>An entry is split at its first equals sign.\<close>

definition split_entry :: "bytes \<Rightarrow> kb_elf_modinfo_entry outcome" where
  "split_entry e =
     (if 0x3d \<in> set e
      then Done \<lparr>mod_key = takeWhile (\<lambda>c. c \<noteq> 0x3d) e, mod_value = tl (dropWhile (\<lambda>c. c \<noteq> 0x3d) e)\<rparr>
      else Fail KB_ERR_INVALID)"

lemma next_nul_entry_window:
  assumes bounds: "base + unat sz \<le> length data" and le: "cursor \<le> sz"
  defines "r \<equiv> dropWhile (\<lambda>c. c = 0) (window data base sz cursor)"
  defines "rest \<equiv> dropWhile (\<lambda>c. c \<noteq> 0) r"
  shows "if r = [] then next_nul_entry data base sz cursor = Done NulEnd
    else if rest = [] then next_nul_entry data base sz cursor = Done NulUnterminated
    else \<exists>entry entry_size cursor'. next_nul_entry data base sz cursor = Done (NulEntry entry entry_size cursor')
      \<and> cursor < cursor' \<and> cursor' \<le> sz \<and> window data base sz cursor' = tl rest
      \<and> entry + unat entry_size < length data \<and> data ! (entry + unat entry_size) = 0
      \<and> take (unat entry_size) (drop entry data) = takeWhile (\<lambda>c. c \<noteq> 0) r"
proof -
  obtain start where start: "scan_while (\<lambda>c. c = 0) data base sz cursor = Done start"
    "cursor \<le> start" "start \<le> sz" "window data base sz start = r" "start < sz \<longleftrightarrow> r \<noteq> []"
    unfolding r_def by (rule scan_while_window [OF bounds le])
  show ?thesis
  proof (cases "r = []")
    case True
    with start show ?thesis by (simp add: next_nul_entry_def)
  next
    case False
    obtain stop where stop: "scan_while (\<lambda>c. c \<noteq> 0) data base sz start = Done stop"
      "unat stop = unat start + length (takeWhile (\<lambda>c. c \<noteq> 0) r)"
      "start \<le> stop" "stop \<le> sz" "window data base sz stop = rest" "stop < sz \<longleftrightarrow> rest \<noteq> []"
      unfolding rest_def start(4) [symmetric] by (rule scan_while_window [OF bounds start(3)])
    show ?thesis
    proof (cases "rest = []")
      case True
      with start stop False show ?thesis by (simp add: next_nul_entry_def)
    next
      case rest: False
      have lt: "stop < sz" using stop(6) rest by simp
      have n: "unat (stop - start) = length (takeWhile (\<lambda>c. c \<noteq> 0) r)"
        using stop(2,3) by (simp add: unat_sub_le)
      have entry: "take (unat (stop - start)) (drop (base + unat start) data) = takeWhile (\<lambda>c. c \<noteq> 0) r"
      proof -
        have "takeWhile (\<lambda>c. c \<noteq> 0) r = take (unat (stop - start)) r"
          unfolding n by (rule takeWhile_eq_take)
        also have "\<dots> = take (unat (stop - start)) (drop (base + unat start) data)"
          using stop(2,4) n unfolding start(4) [symmetric]
          by (simp add: window_def word_le_nat_alt min_def)
        finally show ?thesis by simp
      qed
      have "window data base sz (stop + 1) = tl rest"
        using window_advance [of "stop + 1" stop 1 sz data base] inc_le [OF lt] unat_plus_1 [OF lt] stop(5)
        by (simp add: drop_Suc)
      moreover have "cursor < stop + 1"
        using start(2) stop(3) unat_plus_1 [OF lt] by (simp add: word_less_nat_alt word_le_nat_alt)
      moreover have at: "base + unat start + unat (stop - start) = base + unat stop" using stop(2) n by simp
      moreover have inb: "base + unat stop < length data"
        using bounds lt by (simp add: word_less_nat_alt)
      moreover have "data ! (base + unat start + unat (stop - start)) = 0"
      proof -
        have "hd rest = 0" using rest hd_dropWhile [of "\<lambda>c. c \<noteq> 0" r] by (auto simp: rest_def)
        moreover have "hd rest = data ! (base + unat stop)"
          unfolding stop(5) [symmetric] window_def
          using lt inb by (simp add: word_less_nat_alt hd_conv_nth)
        ultimately show ?thesis unfolding at by simp
      qed
      ultimately show ?thesis
        using start stop False rest entry inc_le [OF lt] by (auto simp: next_nul_entry_def)
    qed
  qed
qed

text \<open>The two loops compute on the entry list of the bytes that are left.\<close>

lemma modinfo_count_loop_eq:
  assumes "base + unat sz \<le> length data" "cursor \<le> sz"
  shows "modinfo_count_loop data base sz cursor count =
    (case nul_entries (window data base sz cursor) of
       None \<Rightarrow> Fail KB_ERR_INVALID | Some es \<Rightarrow> Done (count + of_nat (length es)))"
  using assms
proof (induction data base sz cursor count rule: modinfo_count_loop.induct)
  case (1 data base sz cursor count)
  define r where "r = dropWhile (\<lambda>c. c = 0) (window data base sz cursor)"
  define rest where "rest = dropWhile (\<lambda>c. c \<noteq> 0) r"
  note step = next_nul_entry_window [OF "1.prems", folded r_def, folded rest_def]
  note spec = nul_entries.simps [of "window data base sz cursor", unfolded Let_def,
    folded r_def, folded rest_def]
  show ?case
  proof (cases "cursor < sz")
    case False
    then have "r = []" using window_empty_iff [OF "1.prems"] by (simp add: r_def)
    with False show ?thesis by (simp add: spec modinfo_count_loop.simps [of _ _ _ cursor])
  next
    case True
    show ?thesis
    proof (cases "r = [] \<or> rest = []")
      case trivial: True
      with True step show ?thesis
        by (auto simp: spec modinfo_count_loop.simps [of _ _ _ cursor] split: if_splits)
    next
      case False
      with step obtain entry entry_size cursor' where
        nx: "next_nul_entry data base sz cursor = Done (NulEntry entry entry_size cursor')"
        and c': "cursor' \<le> sz" "window data base sz cursor' = tl rest" by auto
      have "modinfo_count_loop data base sz cursor count =
          modinfo_count_loop data base sz cursor' (count + 1)"
        using True nx by (simp add: modinfo_count_loop.simps [of _ _ _ cursor])
      then show ?thesis
        using "1.IH" [OF True nx refl "1.prems"(1) c'(1)] c'(2) False
        by (cases "nul_entries (tl rest)") (simp_all add: spec ac_simps)
    qed
  qed
qed

lemma scan_equals:
  assumes "entry + unat entry_size \<le> length data"
  defines "e \<equiv> take (unat entry_size) (drop entry data)"
  shows "bindO (scan_while (\<lambda>c. c \<noteq> 0x3d) data entry entry_size 0) (\<lambda>equals_index.
      if equals_index = entry_size then Fail KB_ERR_INVALID
      else Done \<lparr>mod_key = take (unat equals_index) (drop entry data),
        mod_value = take (unat (entry_size - equals_index - 1))
          (drop (entry + unat equals_index + 1) data)\<rparr>) = split_entry e"
proof -
  have e: "window data entry entry_size 0 = e" by (simp add: window_def e_def)
  obtain i where i: "scan_while (\<lambda>c. c \<noteq> 0x3d) data entry entry_size 0 = Done i"
    "unat i = length (takeWhile (\<lambda>c. c \<noteq> 0x3d) e)" "i \<le> entry_size"
    "window data entry entry_size i = dropWhile (\<lambda>c. c \<noteq> 0x3d) e"
    "i < entry_size \<longleftrightarrow> dropWhile (\<lambda>c. c \<noteq> 0x3d) e \<noteq> []"
    using scan_while_window [OF assms(1), of 0 "\<lambda>c. c \<noteq> 0x3d"] by (auto simp: e)
  show ?thesis
  proof (cases "0x3d \<in> set e")
    case False
    then have "i = entry_size" using i(3,5) by (auto simp: dropWhile_eq_Nil_conv)
    with i(1) False show ?thesis by (simp add: split_entry_def)
  next
    case True
    then have lt: "i < entry_size" using i(5) by (auto simp: dropWhile_eq_Nil_conv)
    have "take (unat i) (drop entry data) = takeWhile (\<lambda>c. c \<noteq> 0x3d) e"
    proof -
      have "takeWhile (\<lambda>c. c \<noteq> 0x3d) e = take (unat i) e"
        unfolding i(2) by (rule takeWhile_eq_take)
      then show ?thesis using i(3) by (simp add: e_def min_def word_le_nat_alt)
    qed
    moreover have "take (unat (entry_size - i - 1)) (drop (entry + unat i + 1) data) =
        tl (dropWhile (\<lambda>c. c \<noteq> 0x3d) e)"
    proof -
      have "unat (entry_size - i - 1) = unat entry_size - unat (i + 1)"
        using inc_le [OF lt] unat_sub_le [OF inc_le [OF lt]] by (simp add: diff_diff_eq)
      then show ?thesis
        using window_advance [of "i + 1" i 1 entry_size data entry] inc_le [OF lt] unat_plus_1 [OF lt] i(4)
        by (simp add: window_def drop_Suc)
    qed
    ultimately show ?thesis using i(1) lt True by (auto simp: split_entry_def)
  qed
qed

lemma modinfo_entry_loop_eq:
  assumes "base + unat sz \<le> length data" "cursor \<le> sz" "current_index \<le> entry_index"
    and "nul_entries (window data base sz cursor) = Some es"
  shows "modinfo_entry_loop data base sz entry_index cursor current_index =
    (if unat entry_index - unat current_index < length es
     then split_entry (es ! (unat entry_index - unat current_index))
     else Fail KB_ERR_NOT_FOUND)"
  using assms
proof (induction data base sz entry_index cursor current_index arbitrary: es rule: modinfo_entry_loop.induct)
  case (1 data base sz entry_index cursor current_index)
  define r where "r = dropWhile (\<lambda>c. c = 0) (window data base sz cursor)"
  define rest where "rest = dropWhile (\<lambda>c. c \<noteq> 0) r"
  note step = next_nul_entry_window [OF "1.prems"(1,2), folded r_def, folded rest_def]
  note spec = nul_entries.simps [of "window data base sz cursor", unfolded Let_def,
    folded r_def, folded rest_def]
  note unfold = modinfo_entry_loop.simps [of data base sz entry_index cursor current_index]
  show ?case
  proof (cases "cursor < sz")
    case False
    then have "r = []" using window_empty_iff [OF "1.prems"(1,2)] by (simp add: r_def)
    with False "1.prems"(4) show ?thesis by (simp add: spec unfold)
  next
    case True
    show ?thesis
    proof (cases "r = []")
      case trivial: True
      with True step "1.prems"(4) show ?thesis by (simp add: spec unfold)
    next
      case r: False
      with "1.prems"(4) obtain es' where rest: "rest \<noteq> []" and es': "nul_entries (tl rest) = Some es'"
        and es: "es = takeWhile (\<lambda>c. c \<noteq> 0) r # es'"
        by (auto simp: spec split: if_splits)
      from r rest step obtain entry entry_size cursor' where
        nx: "next_nul_entry data base sz cursor = Done (NulEntry entry entry_size cursor')"
        and c': "cursor' \<le> sz" "window data base sz cursor' = tl rest"
        and entry: "entry + unat entry_size \<le> length data"
          "take (unat entry_size) (drop entry data) = takeWhile (\<lambda>c. c \<noteq> 0) r"
        by (auto dest: less_imp_le)
      show ?thesis
      proof (cases "current_index = entry_index")
        case eq: True
        then have "modinfo_entry_loop data base sz entry_index cursor current_index =
            split_entry (takeWhile (\<lambda>c. c \<noteq> 0) r)"
          unfolding unfold using True nx scan_equals [OF entry(1)] entry(2) by simp
        with eq show ?thesis by (simp add: es)
      next
        case neq: False
        then have lt: "current_index < entry_index" using "1.prems"(3) by simp
        have d: "unat entry_index - unat current_index = Suc (unat entry_index - unat (current_index + 1))"
          using lt unat_plus_1 [OF lt] by (simp add: word_less_nat_alt)
        have "modinfo_entry_loop data base sz entry_index cursor current_index =
            modinfo_entry_loop data base sz entry_index cursor' (current_index + 1)"
          using True nx neq by (simp add: unfold)
        then show ?thesis
          using "1.IH" [OF True nx refl neq "1.prems"(1) c'(1) inc_le [OF lt], of es'] c'(2) es'
          by (simp add: es d)
      qed
    qed
  qed
qed

lemma next_nul_entry_cases:
  assumes "base + unat sz \<le> length data" "cursor \<le> sz"
  obtains (finished) "next_nul_entry data base sz cursor = Done NulEnd"
  | (unterminated) "next_nul_entry data base sz cursor = Done NulUnterminated"
  | (entry) entry entry_size cursor' where
      "next_nul_entry data base sz cursor = Done (NulEntry entry entry_size cursor')" "cursor' \<le> sz"
      "entry + unat entry_size < length data" "data ! (entry + unat entry_size) = 0"
      "0 \<notin> set (take (unat entry_size) (drop entry data))"
proof -
  define r where "r = dropWhile (\<lambda>c. c = 0) (window data base sz cursor)"
  have "0 \<notin> set (takeWhile (\<lambda>c. c \<noteq> 0) r)" by (auto dest: set_takeWhileD)
  then show thesis
    using next_nul_entry_window [OF assms, folded r_def] finished unterminated entry by metis
qed

lemma modinfo_entry_loop_safe:
  assumes "base + unat sz \<le> length data" "cursor \<le> sz"
  shows "safe (modinfo_entry_loop data base sz entry_index cursor current_index)"
  using assms
proof (induction data base sz entry_index cursor current_index rule: modinfo_entry_loop.induct)
  case (1 data base sz entry_index cursor current_index)
  note unfold = modinfo_entry_loop.simps [of data base sz entry_index cursor current_index]
  show ?case
  proof (cases "cursor < sz")
    case False
    then show ?thesis by (simp add: unfold)
  next
    case True
    from "1.prems" show ?thesis
    proof (cases rule: next_nul_entry_cases)
      case (entry entry entry_size cursor')
      show ?thesis
      proof (cases "current_index = entry_index")
        case eq: True
        have "safe (split_entry e)" for e by (simp add: split_entry_def)
        then show ?thesis unfolding unfold using True entry(1) eq scan_equals [OF less_imp_le [OF entry(3)]] by simp
      next
        case False
        then show ?thesis
          unfolding unfold using True entry(1) "1.IH" [OF True entry(1) refl False "1.prems"(1) entry(2)]
          by simp
      qed
    qed (use True in \<open>simp_all add: unfold\<close>)
  qed
qed

lemma section_bytes_Some:
  assumes "elf_view f" "section_bytes f i = Done (Some (base, sz))"
  shows "base + unat sz \<le> length (elf_data f)"
  using assms(2) elf_view_range [OF assms(1)]
  by (auto simp: section_bytes_def split: outcome.splits if_splits)

lemma section_bytes_safe [intro]: "elf_view f \<Longrightarrow> safe (section_bytes f i)"
  using kb_elf_section_safe [of f i True] by (auto simp: section_bytes_def split: outcome.splits)

lemma kb_elf_modinfo_safe [intro]:
  assumes "elf_view f"
  shows "safe (kb_elf_modinfo_entry_count (Some f) i out)"
    and "safe (kb_elf_modinfo_entry (Some f) i k out)"
  unfolding kb_elf_modinfo_entry_count_def kb_elf_modinfo_entry_def
  using assms section_bytes_Some [OF assms]
  by (auto simp: modinfo_count_loop_eq modinfo_entry_loop_safe split: option.splits)

lemma modinfo_section_loop_safe: "elf_view f \<Longrightarrow> safe (modinfo_section_loop f i)"
proof (induction f i rule: modinfo_section_loop.induct)
  case (1 f i)
  then show ?case by (subst modinfo_section_loop.simps) auto
qed

section \<open>Opened images\<close>

text \<open>What \<^verbatim>\<open>kb_elf_open\<close> establishes of the structure it fills.\<close>

definition elf_wf :: "kb_elf_file \<Rightarrow> bool" where
  "elf_wf f \<longleftrightarrow> elf_view f \<and> section_header_entry_size f = 64 \<and> section_name_index f < section_count f \<and>
     unat (section_header_offset f) + 64 * unat (section_count f) \<le> unat (elf_size f)"

lemma elf_wf_view [intro]: "elf_wf f \<Longrightarrow> elf_view f"
  by (simp add: elf_wf_def)

lemma kb_elf_open_safe [intro]:
  assumes "unat sz \<le> length img" shows "safe (kb_elf_open (Some img) sz out)"
proof (cases "sz < elf64_header_size")
  case True
  then show ?thesis by (simp add: kb_elf_open_def)
next
  case False
  then have "64 \<le> length img" using assms by (simp add: word_less_nat_alt)
  then show ?thesis unfolding kb_elf_open_def by auto
qed

lemma kb_elf_open_Done:
  assumes "kb_elf_open (Some img) sz out = Done f" "unat sz \<le> length img"
  shows "elf_wf f" and "elf_data f = img" and "elf_size f = sz" and "out" and "64 \<le> unat sz"
proof -
  from assms(1) have guards: "out" "\<not> sz < elf64_header_size" "elf_data f = img" "elf_size f = sz"
    "section_header_entry_size f = 64" "section_name_index f < section_count f"
    "range_fits sz (section_header_offset f) (64 * ucast (section_count f))"
    by (auto simp: kb_elf_open_def bindO_Done_iff not_le split: if_splits)
  have "unat (64 * ucast (section_count f) :: u64) = 64 * unat (section_count f)"
    using unat_u16_bound [of "section_count f"] by (subst unat_mult_no_wrap) simp_all
  with guards assms(2) show "elf_wf f" by (simp add: elf_wf_def elf_view_def word_nat)
  show "elf_data f = img" "elf_size f = sz" "out" "64 \<le> unat sz"
    using guards by (simp_all add: word_less_nat_alt)
qed

text \<open>The header of section \<open>i\<close> of a well-formed file lies inside the file.\<close>

lemma elf_wf_header:
  assumes "elf_wf f" "unat i < unat (section_count f)"
  shows "unat (section_header_offset f + i * ucast (section_header_entry_size f)) =
      unat (section_header_offset f) + 64 * unat i"
    and "range_fits (elf_size f) (section_header_offset f + i * ucast (section_header_entry_size f)) 64"
proof -
  have *: "unat (section_header_offset f) + 64 * unat i + 64 \<le> unat (elf_size f)"
    using assms by (simp add: elf_wf_def)
  then have "unat (i * 64) = 64 * unat i"
    using unat_u64_bound [of "elf_size f"] by (subst unat_mult_no_wrap) simp_all
  then have "unat (section_header_offset f + i * 64) = unat (section_header_offset f) + 64 * unat i"
    using * unat_u64_bound [of "elf_size f"] by (subst unat_add_no_wrap) simp_all
  with * assms show "unat (section_header_offset f + i * ucast (section_header_entry_size f)) =
      unat (section_header_offset f) + 64 * unat i"
    and "range_fits (elf_size f) (section_header_offset f + i * ucast (section_header_entry_size f)) 64"
    by (simp_all add: elf_wf_def range_fits_iff)
qed

lemma kb_elf_section_Done:
  assumes "elf_wf f" "i < ucast (section_count f)"
  shows "\<exists>s. kb_elf_section (Some f) i True = Done s"
proof -
  have i: "unat i < unat (section_count f)" using assms(2) by (simp add: word_less_nat_alt)
  have n: "unat (ucast (section_name_index f) :: u64) < unat (section_count f)"
    using assms(1) by (simp add: elf_wf_def word_less_nat_alt)
  note header = elf_wf_header [OF assms(1) i] and names = elf_wf_header [OF assms(1) n]
  note view = elf_view_range [OF elf_wf_view [OF assms(1)]]
  show ?thesis
    unfolding kb_elf_section_def Let_def
    using assms(2) header(2) names(2) view [OF header(2)] view [OF names(2)]
    by (auto simp: not_le intro!: bindO_exists_Done reads_Done bounded_section_name_Done view)
qed

section \<open>Agreement of the counts with the element accessors\<close>

text \<open>The string table a symbol table links to can be read.\<close>

definition strtab_ok :: "kb_elf_file \<Rightarrow> u32 \<Rightarrow> bool" where
  "strtab_ok f link \<longleftrightarrow> link < ucast (section_count f) \<and>
     (\<exists>s. kb_elf_section (Some f) (ucast link) True = Done s \<and> sec_type s = KB_ELF_SHT_STRTAB \<and>
       range_fits (elf_size f) (sec_offset s) (sec_size s))"

text \<open>Entry \<open>k\<close> of a table of \<open>sz div ent\<close> entries lies inside the table, without wrap-around.\<close>

lemma table_entry_fits:
  assumes "range_fits tot offset sz" "k < sz div ent" "0 < ent"
  shows "unat (offset + k * ent) = unat offset + unat k * unat ent"
    and "range_fits tot (offset + k * ent) ent"
proof -
  have k: "unat k < unat sz div unat ent"
    using assms(2) by (simp add: word_less_nat_alt unat_div)
  then have "(unat k + 1) * unat ent \<le> (unat sz div unat ent) * unat ent"
    by (intro mult_le_mono1) simp
  also have "\<dots> \<le> unat sz" by (rule div_times_less_eq_dividend)
  finally have e: "unat k * unat ent + unat ent \<le> unat sz" by simp
  have t: "unat offset + unat sz \<le> unat tot" using assms(1) by (simp add: range_fits_iff)
  have m: "unat (k * ent) = unat k * unat ent"
    using e t unat_u64_bound [of tot] by (intro unat_mult_no_wrap) simp
  have a: "unat (offset + k * ent) = unat offset + unat (k * ent)"
    using e t m unat_u64_bound [of tot] by (intro unat_add_no_wrap) simp
  show "unat (offset + k * ent) = unat offset + unat k * unat ent" using a m by simp
  show "range_fits tot (offset + k * ent) ent" using a m e t by (simp add: range_fits_iff)
qed

lemma kb_elf_symbol_Done:
  assumes view: "elf_view f"
    and sec: "kb_elf_section (Some f) i True = Done s" and link: "strtab_ok f (sec_link s)"
    and count: "kb_elf_symbol_count (Some f) i True = Done n" and k: "k < n"
  shows "\<exists>sym. kb_elf_symbol (Some f) i k True = Done sym"
proof -
  from count sec have ty: "sec_type s = KB_ELF_SHT_SYMTAB \<or> sec_type s = KB_ELF_SHT_DYNSYM"
    and ent: "sec_entry_size s = 24" "sec_size s mod 24 = 0"
    and fits: "range_fits (elf_size f) (sec_offset s) (sec_size s)" and n: "n = sec_size s div 24"
    by (auto simp: kb_elf_symbol_count_def split: if_splits)
  obtain t where t: "kb_elf_section (Some f) (ucast (sec_link s)) True = Done t"
    "sec_type t = KB_ELF_SHT_STRTAB" "range_fits (elf_size f) (sec_offset t) (sec_size t)"
    and lt: "sec_link s < ucast (section_count f)"
    using link by (auto simp: strtab_ok_def)
  have slot: "range_fits (elf_size f) (sec_offset s + k * 24) 24"
    using table_entry_fits(2) [OF fits] k n by simp
  show ?thesis
    unfolding kb_elf_symbol_def Let_def
    using sec ty ent t lt slot k n elf_view_range [OF view slot] elf_view_range [OF view t(3)]
    by (auto simp: not_le intro!: bindO_exists_Done reads_Done bounded_section_name_Done)
qed

lemma kb_elf_relocation_Done:
  assumes view: "elf_view f" and sec: "kb_elf_section (Some f) i True = Done s"
    and idx: "sec_link s < ucast (section_count f)" "sec_info s < ucast (section_count f)"
    and count: "kb_elf_relocation_count (Some f) i True = Done n" and k: "k < n"
  shows "\<exists>rel. kb_elf_relocation (Some f) i k True = Done rel"
proof -
  from count sec have ty: "sec_type s = KB_ELF_SHT_RELA \<or> sec_type s = KB_ELF_SHT_REL"
    and ent: "sec_entry_size s = relocation_entry_size s" "sec_size s mod relocation_entry_size s = 0"
    and fits: "range_fits (elf_size f) (sec_offset s) (sec_size s)"
    and n: "n = sec_size s div relocation_entry_size s"
    by (auto simp: kb_elf_relocation_count_def Let_def split: if_splits)
  have "0 < relocation_entry_size s" by (simp add: relocation_entry_size_def)
  then have slot: "range_fits (elf_size f) (sec_offset s + k * relocation_entry_size s) (relocation_entry_size s)"
    using table_entry_fits(2) [OF fits] k n by simp
  show ?thesis
    unfolding kb_elf_relocation_def Let_def
    using sec ty ent idx slot k n elf_view_range [OF view slot]
    by (auto simp: not_le relocation_entry_size_def intro!: bindO_exists_Done reads_Done split: if_splits)
qed

lemma kb_elf_element_out_of_range:
  "kb_elf_symbol_count (Some f) i True = Done n \<Longrightarrow> n \<le> k \<Longrightarrow>
     kb_elf_symbol (Some f) i k True = Fail KB_ERR_INVALID"
  "kb_elf_relocation_count (Some f) i True = Done n \<Longrightarrow> n \<le> k \<Longrightarrow>
     kb_elf_relocation (Some f) i k True = Fail KB_ERR_INVALID"
  by (auto simp: kb_elf_symbol_count_def kb_elf_symbol_def kb_elf_relocation_count_def
      kb_elf_relocation_def Let_def bindO_Done_iff split: if_splits del: mod_0_imp_dvd)

lemma length_nul_entries: "nul_entries bs = Some es \<Longrightarrow> length es \<le> length bs"
proof (induction bs arbitrary: es rule: nul_entries.induct)
  case (1 bs)
  define r where "r = dropWhile (\<lambda>c. c = 0) bs"
  define rest where "rest = dropWhile (\<lambda>c. c \<noteq> 0) r"
  note spec = nul_entries.simps [of bs, unfolded Let_def, folded r_def, folded rest_def]
  have le: "length rest \<le> length bs"
    unfolding rest_def r_def by (meson length_dropWhile_le order_trans)
  show ?case
  proof (cases "r = []")
    case True
    with "1.prems" show ?thesis by (simp add: spec)
  next
    case False
    with "1.prems" obtain es' where rest: "rest \<noteq> []" and es': "nul_entries (tl rest) = Some es'"
      and es: "es = takeWhile (\<lambda>c. c \<noteq> 0) r # es'" by (auto simp: spec split: if_splits)
    have "length es' \<le> length (tl rest)"
      using "1.IH" [OF r_def False rest_def rest es'] .
    moreover have "length (tl rest) < length rest" using rest by simp
    ultimately show ?thesis using le es by simp
  qed
qed

lemma split_entry_Done:
  assumes "split_entry e = Done m"
  shows "mod_key m @ 0x3d # mod_value m = e" and "0x3d \<notin> set (mod_key m)"
proof -
  from assms have e: "0x3d \<in> set e" and m: "mod_key m = takeWhile (\<lambda>c. c \<noteq> 0x3d) e"
    "mod_value m = tl (dropWhile (\<lambda>c. c \<noteq> 0x3d) e)"
    by (auto simp: split_entry_def split: if_splits)
  have ne: "dropWhile (\<lambda>c. c \<noteq> 0x3d) e \<noteq> []" using e by (auto simp: dropWhile_eq_Nil_conv)
  then have "hd (dropWhile (\<lambda>c. c \<noteq> 0x3d) e) = 0x3d" using hd_dropWhile [OF ne] by simp
  then have "dropWhile (\<lambda>c. c \<noteq> 0x3d) e = 0x3d # mod_value m"
    using ne m by (metis list.collapse)
  then show "mod_key m @ 0x3d # mod_value m = e"
    using m takeWhile_dropWhile_id [of "\<lambda>c. c \<noteq> 0x3d" e] by simp
  show "0x3d \<notin> set (mod_key m)" using m by (auto dest: set_takeWhileD)
qed

lemma modinfo_section_loop_found:
  assumes "elf_wf f" "modinfo_section_loop f i = Done j"
  shows "i \<le> j \<and> j < ucast (section_count f) \<and>
    (\<exists>s. kb_elf_section (Some f) j True = Done s \<and> sec_type s = KB_ELF_SHT_PROGBITS \<and> sec_name s = modinfo_name) \<and>
    (\<forall>m s. i \<le> m \<and> m < j \<and> kb_elf_section (Some f) m True = Done s \<longrightarrow>
      sec_type s \<noteq> KB_ELF_SHT_PROGBITS \<or> sec_name s \<noteq> modinfo_name)"
  using assms
proof (induction f i rule: modinfo_section_loop.induct)
  case (1 f i)
  note unfold = modinfo_section_loop.simps [of f i]
  have lt: "i < ucast (section_count f)"
    using "1.prems"(2) by (auto simp: unfold kb_elf_section_count_def split: if_splits)
  then obtain s where s: "kb_elf_section (Some f) i True = Done s"
    using kb_elf_section_Done [OF "1.prems"(1)] by auto
  show ?case
  proof (cases "sec_type s = KB_ELF_SHT_PROGBITS \<and> sec_name s = modinfo_name")
    case True
    with "1.prems"(2) s lt have "j = i" by (simp add: unfold kb_elf_section_count_def)
    with True s lt show ?thesis by auto
  next
    case False
    with "1.prems"(2) s lt have next_: "modinfo_section_loop f (i + 1) = Done j"
      by (auto simp: unfold kb_elf_section_count_def split: if_splits)
    have c: "i < kb_elf_section_count (Some f)" using lt by (simp add: kb_elf_section_count_def)
    note IH = "1.IH" [OF c s False "1.prems"(1) next_]
    have up: "i \<le> m \<Longrightarrow> m \<noteq> i \<Longrightarrow> i + 1 \<le> m" for m
      using inc_le [of i m] by auto
    have "i \<le> j" using IH unat_plus_1 [OF lt] by (simp add: word_le_nat_alt)
    with IH False s up show ?thesis by (metis outcome.inject(2))
  qed
qed

lemma modinfo_section_loop_missing:
  assumes "elf_wf f" "modinfo_section_loop f i = Fail e"
  shows "e = KB_ERR_NOT_FOUND \<and>
    (\<forall>m s. i \<le> m \<and> kb_elf_section (Some f) m True = Done s \<longrightarrow>
      sec_type s \<noteq> KB_ELF_SHT_PROGBITS \<or> sec_name s \<noteq> modinfo_name)"
  using assms
proof (induction f i rule: modinfo_section_loop.induct)
  case (1 f i)
  note unfold = modinfo_section_loop.simps [of f i]
  show ?case
  proof (cases "i < ucast (section_count f)")
    case False
    have "kb_elf_section (Some f) m True \<noteq> Done s" if "i \<le> m" for m s
      using False that by (auto simp: kb_elf_section_def)
    with False "1.prems"(2) show ?thesis by (auto simp: unfold kb_elf_section_count_def)
  next
    case lt: True
    then obtain s where s: "kb_elf_section (Some f) i True = Done s"
      using kb_elf_section_Done [OF "1.prems"(1)] by auto
    have c: "i < kb_elf_section_count (Some f)" using lt by (simp add: kb_elf_section_count_def)
    have no: "\<not> (sec_type s = KB_ELF_SHT_PROGBITS \<and> sec_name s = modinfo_name)"
      using "1.prems"(2) s c by (auto simp: unfold)
    then have next_: "modinfo_section_loop f (i + 1) = Fail e"
      using "1.prems"(2) s c by (auto simp: unfold split: if_splits)
    note IH = "1.IH" [OF c s no "1.prems"(1) next_]
    have up: "i \<le> m \<Longrightarrow> m \<noteq> i \<Longrightarrow> i + 1 \<le> m" for m
      using inc_le [of i m] by auto
    with IH no s show ?thesis by (metis outcome.inject(2))
  qed
qed

lemma modinfo_refinement:
  assumes "kb_elf_open (Some img) sz out = Done f" and "unat sz \<le> length img"
    and "kb_elf_modinfo_entry_count (Some f) i True = Done n"
  shows "\<exists>s es. kb_elf_section (Some f) i True = Done s \<and> sec_name s = modinfo_name \<and>
    nul_entries (take (unat (sec_size s)) (drop (unat (sec_offset s)) img)) = Some es \<and>
    unat n = length es \<and>
    (\<forall>k. kb_elf_modinfo_entry (Some f) i k True =
      (if k < n then split_entry (es ! unat k) else Fail KB_ERR_NOT_FOUND))"
proof -
  have view: "elf_view f" and img: "elf_data f = img"
    using kb_elf_open_Done(1,2) [OF assms(1,2)] by auto
  from assms(3) obtain s where s: "kb_elf_section (Some f) i True = Done s"
    and name: "sec_name s = modinfo_name" "sec_type s = KB_ELF_SHT_PROGBITS"
    and fits: "range_fits (elf_size f) (sec_offset s) (sec_size s)"
    and loop: "modinfo_count_loop img (unat (sec_offset s)) (sec_size s) 0 0 = Done n"
    by (auto simp: kb_elf_modinfo_entry_count_def section_bytes_def img bindO_Done_iff
        split: if_splits option.splits outcome.splits)
  let ?bs = "take (unat (sec_size s)) (drop (unat (sec_offset s)) img)"
  have bounds: "unat (sec_offset s) + unat (sec_size s) \<le> length img"
    using elf_view_range [OF view fits] by (simp add: img)
  have w: "window img (unat (sec_offset s)) (sec_size s) 0 = ?bs" by (simp add: window_def)
  from loop obtain es where es: "nul_entries ?bs = Some es" and n: "n = of_nat (length es)"
    by (auto simp: modinfo_count_loop_eq [OF bounds] w split: option.splits)
  have "length es \<le> length ?bs" by (rule length_nul_entries [OF es])
  then have len: "unat n = length es"
    using n unat_u64_bound [of "sec_size s"] by (simp add: unat_of_nat_u64)
  have "kb_elf_modinfo_entry (Some f) i k True =
      (if k < n then split_entry (es ! unat k) else Fail KB_ERR_NOT_FOUND)" for k
    using s name fits modinfo_entry_loop_eq [OF bounds, of 0 0 k es] es
    by (simp add: kb_elf_modinfo_entry_def section_bytes_def img w word_less_nat_alt len)
  with s name es len show ?thesis by blast
qed

lemma modinfo_entry_loop_slice:
  assumes "modinfo_entry_loop data base sz entry_index cursor current_index = Done m"
    and "base + unat sz \<le> length data" "cursor \<le> sz"
  shows "(\<exists>ps ss. data = ps @ mod_key m @ 0x3d # mod_value m @ 0 # ss) \<and>
    0x3d \<notin> set (mod_key m) \<and> 0 \<notin> set (mod_key m) \<and> 0 \<notin> set (mod_value m)"
  using assms
proof (induction data base sz entry_index cursor current_index rule: modinfo_entry_loop.induct)
  case (1 data base sz entry_index cursor current_index)
  note unfold = modinfo_entry_loop.simps [of data base sz entry_index cursor current_index]
  have lt: "cursor < sz" using "1.prems"(1) by (auto simp: unfold split: if_splits)
  from "1.prems"(2,3) show ?case
  proof (cases rule: next_nul_entry_cases)
    case (entry entry entry_size cursor')
    show ?thesis
    proof (cases "current_index = entry_index")
      case False
      with "1.prems"(1) lt entry(1)
      have "modinfo_entry_loop data base sz entry_index cursor' (current_index + 1) = Done m"
        by (simp add: unfold)
      then show ?thesis using "1.IH" [OF lt entry(1) refl False] "1.prems"(2) entry(2) by blast
    next
      case True
      let ?e = "take (unat entry_size) (drop entry data)"
      have "split_entry ?e = Done m"
        using "1.prems"(1) lt entry(1) True scan_equals [OF less_imp_le [OF entry(3)]]
        unfolding unfold by simp
      note m = split_entry_Done [OF this]
      have "data = take entry data @ ?e @ 0 # drop (Suc (entry + unat entry_size)) data"
        using entry(3,4) by (metis append_take_drop_id Cons_nth_drop_Suc drop_drop add.commute)
      then have "data = take entry data @ mod_key m @ 0x3d # mod_value m @ 0 # drop (Suc (entry + unat entry_size)) data"
        unfolding m(1) [symmetric] by (simp only: append.assoc append_Cons)
      moreover have "0 \<notin> set (mod_key m @ 0x3d # mod_value m)" using entry(5) m(1) by simp
      ultimately show ?thesis using m(2) by (auto intro: exI)
    qed
  qed (use "1.prems"(1) lt in \<open>simp_all add: unfold\<close>)
qed

lemma modinfo_entry_slice:
  assumes "elf_view f" "kb_elf_modinfo_entry (Some f) i k out = Done m"
  shows "(\<exists>ps ss. elf_data f = ps @ mod_key m @ 0x3d # mod_value m @ 0 # ss) \<and>
    0x3d \<notin> set (mod_key m) \<and> 0 \<notin> set (mod_key m) \<and> 0 \<notin> set (mod_value m)"
proof -
  from assms(2) obtain base sz where b: "section_bytes f i = Done (Some (base, sz))"
    and l: "modinfo_entry_loop (elf_data f) base sz k 0 0 = Done m"
    by (auto simp: kb_elf_modinfo_entry_def bindO_Done_iff split: if_splits option.splits)
  show ?thesis by (rule modinfo_entry_loop_slice [OF l section_bytes_Some [OF assms(1) b]]) simp
qed

end
