(* ===== verification/Elf_Properties.thy ===== *)
theory Elf_Properties
  imports Elf_Reader
begin

text \<open>
  The properties of the ELF reader, each with a witness evaluated on a small relocatable image.
\<close>

section \<open>A sample image\<close>

text \<open>
  A relocatable image with four sections (string table, \<^verbatim>\<open>.modinfo\<close>, symbol table and
  relocations with addend), on which the properties are evaluated.
\<close>

definition sample_q :: "u8 \<Rightarrow> u8 \<Rightarrow> bytes" where
  "sample_q lo hi = [lo, hi, 0, 0, 0, 0, 0, 0]"

definition sample_w :: "u8 \<Rightarrow> bytes" where
  "sample_w lo = [lo, 0, 0, 0]"

definition sample_header :: "u8 \<Rightarrow> u8 \<Rightarrow> u8 \<Rightarrow> u8 \<Rightarrow> u8 \<Rightarrow> u8 \<Rightarrow> u8 \<Rightarrow> bytes" where
  "sample_header name type off sz link info ent =
     sample_w name @ sample_w type @ sample_q 0 0 @ sample_q 0 0 @ sample_q off 1 @ sample_q sz 0 @
     sample_w link @ sample_w info @ sample_q 1 0 @ sample_q ent 0"

definition sample_image :: bytes where
  "sample_image =
     [0x7f, 0x45, 0x4c, 0x46, 2, 1, 1, 0, 0, 0, 0, 0, 0, 0, 0, 0, 1, 0, 62, 0, 1, 0, 0, 0] @
     sample_q 0 0 @ sample_q 0 0 @ sample_q 64 0 @
     [0, 0, 0, 0, 64, 0, 0, 0, 0, 0, 64, 0, 4, 0, 0, 0] @
     sample_header 0 3 64 15 0 0 0 @ sample_header 1 1 79 8 0 0 0 @
     sample_header 0 2 87 24 0 0 24 @ sample_header 0 4 111 24 2 1 24 @
     [0, 0x2e, 0x6d, 0x6f, 0x64, 0x69, 0x6e, 0x66, 0x6f, 0, 0x69, 0x6e, 0x69, 0x74, 0] @
     [0x61, 0x3d, 0x62, 0, 0x76, 0x3d, 0x31, 0] @
     [10, 0, 0, 0, 0x12, 0, 1, 0] @ sample_q 4 0 @ sample_q 2 0 @
     sample_q 0 0 @ [1, 0, 0, 0, 0, 0, 0, 0] @ [0xfc, 0xff, 0xff, 0xff, 0xff, 0xff, 0xff, 0xff]"

definition sample_file :: kb_elf_file where
  "sample_file = \<lparr>elf_data = sample_image, elf_size = 391, elf_type = 1, elf_machine = 62,
     elf_entry = 0, section_header_offset = 64, section_header_entry_size = 64,
     section_count = 4, section_name_index = 0\<rparr>"

lemma sample_open: "kb_elf_open (Some sample_image) 391 True = Done sample_file"
  by code_simp

lemma sample_length: "length sample_image = 391"
  by code_simp

lemma sample_fits: "unat (391 :: u64) \<le> length sample_image"
  by (simp add: sample_length)

definition sample_section :: "u32 \<Rightarrow> u64 \<Rightarrow> u64 \<Rightarrow> u32 \<Rightarrow> u32 \<Rightarrow> u64 \<Rightarrow> kb_elf_section" where
  "sample_section type off sz link info ent = \<lparr>sec_name = [], sec_type = type, sec_flags = 0,
     sec_address = 0, sec_offset = off, sec_size = sz, sec_link = link, sec_info = info,
     sec_alignment = 1, sec_entry_size = ent\<rparr>"

lemma sample_sections:
  "kb_elf_section (Some sample_file) 0 True = Done (sample_section 3 320 15 0 0 0)"
  "kb_elf_section (Some sample_file) 2 True = Done (sample_section 2 343 24 0 0 24)"
  "kb_elf_section (Some sample_file) 3 True = Done (sample_section 4 367 24 2 1 24)"
  by code_simp+

lemma sample_counts:
  "kb_elf_symbol_count (Some sample_file) 2 True = Done 1"
  "kb_elf_relocation_count (Some sample_file) 3 True = Done 1"
  "kb_elf_modinfo_entry_count (Some sample_file) 1 True = Done 2"
  by code_simp+

lemma sample_strtab: "strtab_ok sample_file 0"
  using sample_sections(1)
  by (auto simp: strtab_ok_def sample_file_def sample_section_def range_fits_iff)

section \<open>Properties\<close>

text \<open>C4.  Memory safety of the ELF reader: on any byte string whatsoever, opening it and then
  asking for any section, symbol, relocation, count or module-information entry of the opened
  file reads only bytes inside that string, provided the size passed to
  \<^verbatim>\<open>kb_elf_open\<close> does not exceed the buffer.\<close>

theorem elf_reader_memory_safe:
  assumes "unat sz \<le> length img"
  shows "safe (kb_elf_open (Some img) sz out) \<and>
    (\<forall>f i k b. kb_elf_open (Some img) sz out = Done f \<longrightarrow>
      safe (kb_elf_section (Some f) i b) \<and>
      safe (kb_elf_symbol_count (Some f) i b) \<and> safe (kb_elf_symbol (Some f) i k b) \<and>
      safe (kb_elf_relocation_count (Some f) i b) \<and> safe (kb_elf_relocation (Some f) i k b) \<and>
      safe (kb_elf_modinfo_section (Some f) b) \<and>
      safe (kb_elf_modinfo_entry_count (Some f) i b) \<and> safe (kb_elf_modinfo_entry (Some f) i k b))"
proof -
  have "elf_view f" if "kb_elf_open (Some img) sz out = Done f" for f
    using kb_elf_open_Done(1) [OF that assms] by auto
  then show ?thesis
    using assms by (auto simp: kb_elf_modinfo_section_def modinfo_section_loop_safe)
qed

theorem elf_reader_memory_safe_witness:
  "unat (391 :: u64) \<le> length sample_image \<and> safe (kb_elf_symbol (Some sample_file) 2 0 True) \<and>
   safe (kb_elf_modinfo_entry (Some sample_file) 1 7 True)"
  using elf_reader_memory_safe [OF sample_fits, of True] sample_open sample_fits by auto

text \<open>C22.  After a successful \<^verbatim>\<open>kb_elf_open\<close> the structure is well formed (the section
  header table and the name index lie inside the image) and \<^verbatim>\<open>kb_elf_section\<close> succeeds for
  exactly the indices below the section count; every other index is refused as invalid.\<close>

theorem kb_elf_open_sections:
  assumes "kb_elf_open (Some img) sz out = Done f" and "unat sz \<le> length img"
  shows "elf_wf f \<and> 0 < kb_elf_section_count (Some f) \<and>
    (if i < kb_elf_section_count (Some f) then \<exists>s. kb_elf_section (Some f) i True = Done s
     else kb_elf_section (Some f) i True = Fail KB_ERR_INVALID)"
proof -
  have wf: "elf_wf f" by (rule kb_elf_open_Done(1) [OF assms])
  then have "section_name_index f < section_count f" by (simp add: elf_wf_def)
  then have "0 < unat (section_count f)" by (simp add: word_less_nat_alt)
  then have "0 < kb_elf_section_count (Some f)" by (simp add: kb_elf_section_count_def word_less_nat_alt)
  moreover have "\<exists>s. kb_elf_section (Some f) i True = Done s" if "i < kb_elf_section_count (Some f)"
    using kb_elf_section_Done [OF wf] that by (simp add: kb_elf_section_count_def)
  moreover have "kb_elf_section (Some f) i True = Fail KB_ERR_INVALID"
    if "\<not> i < kb_elf_section_count (Some f)"
    using that by (simp add: kb_elf_section_def kb_elf_section_count_def not_less)
  ultimately show ?thesis using wf by simp
qed

theorem kb_elf_open_sections_witness:
  "elf_wf sample_file \<and> (\<exists>s. kb_elf_section (Some sample_file) 3 True = Done s) \<and>
   kb_elf_section (Some sample_file) 4 True = Fail KB_ERR_INVALID"
  using kb_elf_open_sections [OF sample_open sample_fits, of 3]
    kb_elf_open_sections [OF sample_open sample_fits, of 4]
  by (simp add: kb_elf_section_count_def sample_file_def)

text \<open>C23.  The symbol count and the symbol accessor agree: when
  \<^verbatim>\<open>kb_elf_symbol_count\<close> reports \<open>n\<close> symbols and the linked string table is readable,
  \<^verbatim>\<open>kb_elf_symbol\<close> succeeds for the indices below \<open>n\<close> and returns \<open>KB_ERR_INVALID\<close> for all
  others.\<close>

theorem kb_elf_symbol_agrees:
  assumes "kb_elf_open (Some img) sz out = Done f" and "unat sz \<le> length img"
    and "kb_elf_section (Some f) i True = Done s" and "strtab_ok f (sec_link s)"
    and "kb_elf_symbol_count (Some f) i True = Done n"
  shows "if k < n then \<exists>sym. kb_elf_symbol (Some f) i k True = Done sym
    else kb_elf_symbol (Some f) i k True = Fail KB_ERR_INVALID"
proof -
  have "elf_view f" using kb_elf_open_Done(1) [OF assms(1,2)] by auto
  then show ?thesis
    using kb_elf_symbol_Done [OF _ assms(3,4,5)] kb_elf_element_out_of_range(1) [OF assms(5)] by simp
qed

theorem kb_elf_symbol_agrees_witness:
  "(\<exists>sym. kb_elf_symbol (Some sample_file) 2 0 True = Done sym) \<and>
   kb_elf_symbol (Some sample_file) 2 1 True = Fail KB_ERR_INVALID"
  using kb_elf_symbol_agrees [OF sample_open sample_fits sample_sections(2) _ sample_counts(1), of 0]
    kb_elf_symbol_agrees [OF sample_open sample_fits sample_sections(2) _ sample_counts(1), of 1]
    sample_strtab by (simp add: sample_section_def)

text \<open>C24.  The same agreement for relocation tables, with and without addend, whose link and info
  fields name existing sections.\<close>

theorem kb_elf_relocation_agrees:
  assumes "kb_elf_open (Some img) sz out = Done f" and "unat sz \<le> length img"
    and "kb_elf_section (Some f) i True = Done s"
    and "sec_link s < ucast (section_count f)" and "sec_info s < ucast (section_count f)"
    and "kb_elf_relocation_count (Some f) i True = Done n"
  shows "if k < n then \<exists>rel. kb_elf_relocation (Some f) i k True = Done rel
    else kb_elf_relocation (Some f) i k True = Fail KB_ERR_INVALID"
proof -
  have "elf_view f" using kb_elf_open_Done(1) [OF assms(1,2)] by auto
  then show ?thesis
    using kb_elf_relocation_Done [OF _ assms(3,4,5,6)] kb_elf_element_out_of_range(2) [OF assms(6)] by simp
qed

theorem kb_elf_relocation_agrees_witness:
  "(\<exists>rel. kb_elf_relocation (Some sample_file) 3 0 True = Done rel) \<and>
   kb_elf_relocation (Some sample_file) 3 1 True = Fail KB_ERR_INVALID"
  using kb_elf_relocation_agrees [OF sample_open sample_fits sample_sections(3) _ _ sample_counts(2), of 0]
    kb_elf_relocation_agrees [OF sample_open sample_fits sample_sections(3) _ _ sample_counts(2), of 1]
  by (simp add: sample_section_def sample_file_def)

text \<open>C19.  Refinement of the module-information accessors: when the count succeeds, the section's
  bytes are a list \<open>es\<close> of NUL-terminated entries, the count is the length of \<open>es\<close>, and
  \<^verbatim>\<open>kb_elf_modinfo_entry\<close> returns for every index below the count the split of that entry
  at its first equals sign (or \<open>KB_ERR_INVALID\<close> when it has none), and \<open>KB_ERR_NOT_FOUND\<close> for
  every other index.\<close>

theorem kb_elf_modinfo_refines:
  assumes "kb_elf_open (Some img) sz out = Done f" and "unat sz \<le> length img"
    and "kb_elf_modinfo_entry_count (Some f) i True = Done n"
  shows "\<exists>s es. kb_elf_section (Some f) i True = Done s \<and> sec_name s = modinfo_name \<and>
    nul_entries (take (unat (sec_size s)) (drop (unat (sec_offset s)) img)) = Some es \<and>
    unat n = length es \<and>
    (\<forall>k. kb_elf_modinfo_entry (Some f) i k True =
      (if k < n then split_entry (es ! unat k) else Fail KB_ERR_NOT_FOUND))"
  by (rule modinfo_refinement [OF assms])

theorem kb_elf_modinfo_refines_witness:
  "\<exists>es. length es = 2 \<and> kb_elf_modinfo_entry (Some sample_file) 1 1 True = split_entry (es ! 1) \<and>
     kb_elf_modinfo_entry (Some sample_file) 1 2 True = Fail KB_ERR_NOT_FOUND"
proof -
  from kb_elf_modinfo_refines [OF sample_open sample_fits sample_counts(3)]
  obtain es where "unat (2 :: u64) = length es" and e: "\<And>k. kb_elf_modinfo_entry (Some sample_file) 1 k True =
      (if k < 2 then split_entry (es ! unat k) else Fail KB_ERR_NOT_FOUND)" by auto
  then show ?thesis using e [of 1] e [of 2] by (intro exI [of _ es]) simp
qed

text \<open>C25.  A module-information entry that is returned splits its string without loss: key, equals
  sign, value and the closing NUL are a contiguous slice of the image, the key holds no equals
  sign, and neither part holds a NUL.\<close>

theorem kb_elf_modinfo_entry_roundtrip:
  assumes "kb_elf_open (Some img) sz out = Done f" and "unat sz \<le> length img"
    and "kb_elf_modinfo_entry (Some f) i k True = Done m"
  shows "(\<exists>ps ss. img = ps @ mod_key m @ 0x3d # mod_value m @ 0 # ss) \<and>
    0x3d \<notin> set (mod_key m) \<and> 0 \<notin> set (mod_key m) \<and> 0 \<notin> set (mod_value m)"
  using modinfo_entry_slice [OF _ assms(3)] kb_elf_open_Done(1,2) [OF assms(1,2)] by auto

theorem kb_elf_modinfo_entry_roundtrip_witness:
  "\<exists>ps ss. sample_image = ps @ [0x76] @ 0x3d # [0x31] @ 0 # ss"
proof -
  have "kb_elf_modinfo_entry (Some sample_file) 1 1 True = Done \<lparr>mod_key = [0x76], mod_value = [0x31]\<rparr>"
    by code_simp
  from kb_elf_modinfo_entry_roundtrip [OF sample_open sample_fits this] show ?thesis by simp
qed

text \<open>C26.  \<^verbatim>\<open>kb_elf_modinfo_section\<close> searches completely: it returns the first section that
  is a \<^verbatim>\<open>PROGBITS\<close> section named \<^verbatim>\<open>.modinfo\<close>, and it fails, with
  \<open>KB_ERR_NOT_FOUND\<close>, only when the opened image has no such section.\<close>

theorem kb_elf_modinfo_section_search:
  assumes "kb_elf_open (Some img) sz out = Done f" and "unat sz \<le> length img"
  defines "hit \<equiv> \<lambda>m. \<exists>s. kb_elf_section (Some f) m True = Done s \<and>
    sec_type s = KB_ELF_SHT_PROGBITS \<and> sec_name s = modinfo_name"
  shows "case kb_elf_modinfo_section (Some f) True of
      Fault \<Rightarrow> False
    | Fail e \<Rightarrow> e = KB_ERR_NOT_FOUND \<and> (\<forall>m. \<not> hit m)
    | Done j \<Rightarrow> hit j \<and> (\<forall>m < j. \<not> hit m)"
proof -
  have wf: "elf_wf f" by (rule kb_elf_open_Done(1) [OF assms(1,2)])
  show ?thesis
  proof (cases "modinfo_section_loop f 0")
    case Fault
    then show ?thesis using modinfo_section_loop_safe [of f 0] wf by auto
  next
    case (Fail e)
    then show ?thesis
      using modinfo_section_loop_missing [OF wf Fail] by (auto simp: kb_elf_modinfo_section_def hit_def)
  next
    case (Done j)
    then show ?thesis
      using modinfo_section_loop_found [OF wf Done] by (auto simp: kb_elf_modinfo_section_def hit_def)
  qed
qed

theorem kb_elf_modinfo_section_search_witness:
  "kb_elf_modinfo_section (Some sample_file) True = Done 1 \<and>
   (\<exists>s. kb_elf_section (Some sample_file) 1 True = Done s \<and> sec_name s = modinfo_name)"
proof -
  have "kb_elf_modinfo_section (Some sample_file) True = Done 1" by code_simp
  with kb_elf_modinfo_section_search [OF sample_open sample_fits] show ?thesis by auto
qed

end
