(* ===== verification/Symbol_Registry.thy ===== *)
theory Symbol_Registry
  imports Kobox_Prelude
begin

text \<open>
  The table of symbols that loaded modules export to each other,
  \<^verbatim>\<open>src/loader/symbol_registry.c\<close>.  The C code keeps pointers to names that live in the
  modules' images; \<open>strings\<close> stands for that memory and gives the C string at an address.  The table
  is shown to implement a finite map from names to an address and an owner, and the interface
  locale \<open>export_table\<close> carries what the loader relies on.
\<close>

section \<open>The model\<close>

type_synonym strings = "ptr \<Rightarrow> bytes"

record kb_loader_exported_symbol =
  exp_name :: ptr
  exp_address :: u64
  exp_owner :: ptr

type_synonym exports = "kb_loader_exported_symbol list"

definition no_export :: kb_loader_exported_symbol where
  "no_export = \<lparr>exp_name = NULL, exp_address = 0, exp_owner = NULL\<rparr>"

abbreviation (input) KB_LOADER_EXPORTED_SYMBOL_MAX :: nat where
  "KB_LOADER_EXPORTED_SYMBOL_MAX \<equiv> 4096"

definition exported_symbols :: exports where
  "exported_symbols = replicate KB_LOADER_EXPORTED_SYMBOL_MAX no_export"

definition symbol_pointer_is_valid :: "ptr \<Rightarrow> bool" where
  "symbol_pointer_is_valid value \<longleftrightarrow> 4096 \<le> value \<and> value < -1 - 4095"

definition symbol_name_matches :: "strings \<Rightarrow> ptr \<Rightarrow> ptr \<Rightarrow> bool" where
  "symbol_name_matches str a b \<longleftrightarrow>
     (if \<not> symbol_pointer_is_valid a \<or> \<not> symbol_pointer_is_valid b then False else str a = str b)"

definition kb_loader_symbol_registry_lookup_export :: "strings \<Rightarrow> exports \<Rightarrow> ptr \<Rightarrow> ptr" where
  "kb_loader_symbol_registry_lookup_export str tab name =
     (if \<not> symbol_pointer_is_valid name \<or> str name = [] then NULL
      else case find (\<lambda>e. symbol_name_matches str (exp_name e) name) tab of
          Some e \<Rightarrow> exp_address e
        | None \<Rightarrow> NULL)"

definition kb_module_lookup_exported_symbol :: "strings \<Rightarrow> exports \<Rightarrow> ptr \<Rightarrow> ptr" where
  "kb_module_lookup_exported_symbol str tab name = kb_loader_symbol_registry_lookup_export str tab name"

text \<open>The second loop of \<^verbatim>\<open>add_export\<close>: the first slot whose name is null is overwritten.\<close>

fun store_first_free :: "kb_loader_exported_symbol \<Rightarrow> exports \<Rightarrow> exports option" where
  "store_first_free e [] = None"
| "store_first_free e (x # xs) =
     (if exp_name x = NULL then Some (e # xs) else map_option (Cons x) (store_first_free e xs))"

definition kb_loader_symbol_registry_add_export ::
  "strings \<Rightarrow> exports \<Rightarrow> ptr \<Rightarrow> u64 \<Rightarrow> ptr \<Rightarrow> kb_status \<times> exports" where
  "kb_loader_symbol_registry_add_export str tab name address owner =
     (if \<not> symbol_pointer_is_valid name \<or> str name = [] \<or> address = 0 \<or> owner = NULL
      then (KB_ERR_INVALID, tab)
      else if list_ex (\<lambda>e. symbol_name_matches str (exp_name e) name) tab then (KB_OK, tab)
      else case store_first_free \<lparr>exp_name = name, exp_address = address, exp_owner = owner\<rparr> tab of
          Some tab' \<Rightarrow> (KB_OK, tab')
        | None \<Rightarrow> (KB_ERR_NOMEM, tab))"

definition kb_loader_symbol_registry_remove_owner :: "exports \<Rightarrow> ptr \<Rightarrow> exports" where
  "kb_loader_symbol_registry_remove_owner tab owner =
     (if owner = NULL then tab
      else map (\<lambda>e. if exp_owner e = owner then no_export else e) tab)"

section \<open>The abstract registry\<close>

text \<open>
  What the table stands for: a finite map from names to an address and an owner.  The first
  definition of a name wins, and at most 4096 names are held.
\<close>

type_synonym export_map = "bytes \<rightharpoonup> u64 \<times> ptr"

definition used_exports :: "exports \<Rightarrow> exports" where
  "used_exports tab = filter (\<lambda>e. exp_name e \<noteq> NULL) tab"

definition export_assocs :: "strings \<Rightarrow> exports \<Rightarrow> (bytes \<times> u64 \<times> ptr) list" where
  "export_assocs str tab = map (\<lambda>e. (str (exp_name e), exp_address e, exp_owner e)) (used_exports tab)"

definition exports_map :: "strings \<Rightarrow> exports \<Rightarrow> export_map" where
  "exports_map str tab = map_of (export_assocs str tab)"

definition export_ok :: "strings \<Rightarrow> kb_loader_exported_symbol \<Rightarrow> bool" where
  "export_ok str e \<longleftrightarrow> e = no_export \<or>
     (symbol_pointer_is_valid (exp_name e) \<and> str (exp_name e) \<noteq> [] \<and> exp_address e \<noteq> 0 \<and> exp_owner e \<noteq> NULL)"

definition exports_ok :: "strings \<Rightarrow> exports \<Rightarrow> bool" where
  "exports_ok str tab \<longleftrightarrow> length tab = KB_LOADER_EXPORTED_SYMBOL_MAX \<and>
     list_all (export_ok str) tab \<and> distinct (map fst (export_assocs str tab))"

definition spec_add :: "export_map \<Rightarrow> bytes \<Rightarrow> u64 \<Rightarrow> ptr \<Rightarrow> kb_status \<times> export_map" where
  "spec_add m key address owner =
     (if key = [] \<or> address = 0 \<or> owner = NULL then (KB_ERR_INVALID, m)
      else if key \<in> dom m then (KB_OK, m)
      else if card (dom m) < KB_LOADER_EXPORTED_SYMBOL_MAX then (KB_OK, m(key \<mapsto> (address, owner)))
      else (KB_ERR_NOMEM, m))"

definition spec_remove_owner :: "export_map \<Rightarrow> ptr \<Rightarrow> export_map" where
  "spec_remove_owner m owner = (\<lambda>key. case m key of
       Some (address, o') \<Rightarrow> if o' = owner then None else Some (address, o')
     | None \<Rightarrow> None)"

section \<open>The table implements the map\<close>

lemma not_valid_NULL [simp]: "\<not> symbol_pointer_is_valid NULL"
  by (simp add: symbol_pointer_is_valid_def)

lemma exp_name_no_export [simp]: "exp_name no_export = NULL" "exp_owner no_export = NULL"
  by (simp_all add: no_export_def)

lemma export_ok_used:
  "export_ok str e \<Longrightarrow> exp_name e \<noteq> NULL \<longleftrightarrow> symbol_pointer_is_valid (exp_name e)"
  by (auto simp: export_ok_def)

lemma map_of_filter_distinct:
  "distinct (map fst xs) \<Longrightarrow>
   map_of (filter (\<lambda>(k, v). P v) xs) = (\<lambda>k. case map_of xs k of Some v \<Rightarrow> if P v then Some v else None | None \<Rightarrow> None)"
proof (induction xs)
  case (Cons x xs)
  obtain k v where x: "x = (k, v)" by force
  have "map_of xs k = None" using Cons.prems x by (simp add: map_of_eq_None_iff)
  then show ?case using Cons x by (auto simp: fun_eq_iff)
qed simp

lemma map_of_insert_middle:
  "k \<notin> fst ` set xs \<Longrightarrow> map_of (xs @ (k, v) # ys) = (map_of (xs @ ys))(k \<mapsto> v)"
  by (induction xs) (auto simp: fun_eq_iff)

lemma find_matches:
  assumes "list_all (export_ok str) tab" "symbol_pointer_is_valid name"
  shows "exports_map str tab (str name) =
    map_option (\<lambda>e. (exp_address e, exp_owner e)) (find (\<lambda>e. symbol_name_matches str (exp_name e) name) tab)"
  using assms
proof (induction tab)
  case Nil
  then show ?case by (simp add: exports_map_def export_assocs_def used_exports_def)
next
  case (Cons e tab)
  have ok: "export_ok str e" using Cons.prems by simp
  show ?case
    using Cons.IH Cons.prems export_ok_used [OF ok]
    by (auto simp: exports_map_def export_assocs_def used_exports_def symbol_name_matches_def)
qed

lemma matches_dom:
  assumes "list_all (export_ok str) tab" "symbol_pointer_is_valid name"
  shows "list_ex (\<lambda>e. symbol_name_matches str (exp_name e) name) tab \<longleftrightarrow> str name \<in> dom (exports_map str tab)"
  unfolding domIff find_matches [OF assms] by (auto simp: find_None_iff list_ex_iff)

lemma lookup_refines:
  assumes "exports_ok str tab"
  shows "kb_loader_symbol_registry_lookup_export str tab name =
    (if symbol_pointer_is_valid name \<and> str name \<noteq> []
     then case exports_map str tab (str name) of Some (address, _) \<Rightarrow> address | None \<Rightarrow> NULL
     else NULL)"
  using assms find_matches [of str tab name]
  by (auto simp: exports_ok_def kb_loader_symbol_registry_lookup_export_def split: option.splits)

lemma store_first_free_Some:
  "store_first_free e tab = Some tab' \<Longrightarrow>
   \<exists>xs x ys. tab = xs @ x # ys \<and> tab' = xs @ e # ys \<and> exp_name x = NULL"
proof (induction tab arbitrary: tab')
  case (Cons y tab)
  show ?case
  proof (cases "exp_name y = NULL")
    case True
    with Cons.prems have "y # tab = [] @ y # tab \<and> tab' = [] @ e # tab \<and> exp_name y = NULL" by auto
    then show ?thesis by blast
  next
    case False
    with Cons obtain xs x ys where "tab = xs @ x # ys" "tab' = y # xs @ e # ys" "exp_name x = NULL"
      by fastforce
    then have "y # tab = (y # xs) @ x # ys \<and> tab' = (y # xs) @ e # ys \<and> exp_name x = NULL" by simp
    then show ?thesis by blast
  qed
qed simp

lemma store_first_free_None:
  "store_first_free e tab = None \<longleftrightarrow> used_exports tab = tab"
proof (induction tab)
  case (Cons x tab)
  have "length (used_exports tab) \<le> length tab" by (simp add: used_exports_def)
  then have "used_exports tab \<noteq> x # tab" by auto
  then show ?case using Cons by (auto simp: used_exports_def)
qed (simp add: used_exports_def)

lemma card_dom_exports_map:
  "distinct (map fst (export_assocs str tab)) \<Longrightarrow> card (dom (exports_map str tab)) = length (used_exports tab)"
  by (simp add: exports_map_def dom_map_of_conv_image_fst distinct_card export_assocs_def
      flip: set_map)

lemma full_iff:
  assumes "exports_ok str tab"
  shows "store_first_free e tab = None \<longleftrightarrow> \<not> card (dom (exports_map str tab)) < KB_LOADER_EXPORTED_SYMBOL_MAX"
proof -
  have len: "card (dom (exports_map str tab)) = length (used_exports tab)" "length tab = KB_LOADER_EXPORTED_SYMBOL_MAX"
    using assms card_dom_exports_map by (auto simp: exports_ok_def)
  have "length (used_exports tab) \<le> length tab" by (simp add: used_exports_def)
  moreover have "used_exports tab = tab \<longleftrightarrow> length (used_exports tab) = length tab"
    unfolding used_exports_def by (metis filter_True length_filter_less less_irrefl)
  ultimately show ?thesis using len by (auto simp: store_first_free_None)
qed

lemma export_stored:
  assumes ok: "exports_ok str tab" and st: "store_first_free e tab = Some tab'"
    and e: "export_ok str e" "exp_name e \<noteq> NULL" and new: "str (exp_name e) \<notin> dom (exports_map str tab)"
  shows "exports_ok str tab'"
    "exports_map str tab' = (exports_map str tab)(str (exp_name e) \<mapsto> (exp_address e, exp_owner e))"
proof -
  from store_first_free_Some [OF st] obtain xs x ys where
    tab: "tab = xs @ x # ys" "tab' = xs @ e # ys" "exp_name x = NULL" by blast
  have old: "export_assocs str tab = export_assocs str xs @ export_assocs str ys"
    and assocs: "export_assocs str tab' =
      export_assocs str xs @ (str (exp_name e), exp_address e, exp_owner e) # export_assocs str ys"
    using tab e(2) by (simp_all add: export_assocs_def used_exports_def)
  have fresh: "str (exp_name e) \<notin> fst ` set (export_assocs str tab)"
    using new by (simp add: exports_map_def dom_map_of_conv_image_fst)
  show "exports_ok str tab'"
    using ok e(1) fresh tab unfolding exports_ok_def assocs old by auto
  show "exports_map str tab' = (exports_map str tab)(str (exp_name e) \<mapsto> (exp_address e, exp_owner e))"
    using fresh unfolding exports_map_def assocs old by (intro map_of_insert_middle) auto
qed

lemma add_refines:
  assumes ok: "exports_ok str tab" and name: "symbol_pointer_is_valid name"
    and add: "kb_loader_symbol_registry_add_export str tab name address owner = (st, tab')"
  shows "exports_ok str tab' \<and> spec_add (exports_map str tab) (str name) address owner = (st, exports_map str tab')"
proof -
  let ?e = "\<lparr>exp_name = name, exp_address = address, exp_owner = owner\<rparr>"
  have all: "list_all (export_ok str) tab" using ok by (simp add: exports_ok_def)
  have used: "exp_name ?e \<noteq> NULL" using name by auto
  show ?thesis
  proof (cases "str name = [] \<or> address = 0 \<or> owner = NULL \<or> str name \<in> dom (exports_map str tab)")
    case True
    then show ?thesis
      using ok add name matches_dom [OF all name]
      by (auto simp: kb_loader_symbol_registry_add_export_def spec_add_def)
  next
    case False
    then have good: "export_ok str ?e" using name by (simp add: export_ok_def)
    show ?thesis
    proof (cases "store_first_free ?e tab")
      case None
      then show ?thesis
        using ok add name False matches_dom [OF all name] full_iff [OF ok]
        by (auto simp: kb_loader_symbol_registry_add_export_def spec_add_def)
    next
      case (Some t)
      then have "card (dom (exports_map str tab)) < KB_LOADER_EXPORTED_SYMBOL_MAX"
        using full_iff [OF ok, of ?e] by simp
      with Some show ?thesis
        using add name False matches_dom [OF all name] export_stored [OF ok Some good used]
        by (auto simp: kb_loader_symbol_registry_add_export_def spec_add_def)
    qed
  qed
qed

lemma add_invalid_name:
  "\<not> symbol_pointer_is_valid name \<Longrightarrow>
   kb_loader_symbol_registry_add_export str tab name address owner = (KB_ERR_INVALID, tab)"
  by (simp add: kb_loader_symbol_registry_add_export_def)

lemma export_assocs_remove_owner:
  assumes "owner \<noteq> NULL"
  shows "export_assocs str (kb_loader_symbol_registry_remove_owner tab owner) =
    filter (\<lambda>(k, v). snd v \<noteq> owner) (export_assocs str tab)"
  using assms
  by (induction tab)
    (auto simp: export_assocs_def used_exports_def kb_loader_symbol_registry_remove_owner_def)

lemma remove_owner_refines:
  assumes ok: "exports_ok str tab" and owner: "owner \<noteq> NULL"
  shows "exports_ok str (kb_loader_symbol_registry_remove_owner tab owner)"
    "exports_map str (kb_loader_symbol_registry_remove_owner tab owner) = spec_remove_owner (exports_map str tab) owner"
proof -
  have d: "distinct (map fst (export_assocs str tab))" using ok by (simp add: exports_ok_def)
  note a = export_assocs_remove_owner [OF owner, of str tab]
  have "distinct (map fst (filter P (export_assocs str tab)))" for P
    using d by (rule distinct_map_filter)
  then show "exports_ok str (kb_loader_symbol_registry_remove_owner tab owner)"
    using ok owner unfolding exports_ok_def a
    by (auto simp: kb_loader_symbol_registry_remove_owner_def list_all_iff export_ok_def)
  show "exports_map str (kb_loader_symbol_registry_remove_owner tab owner) = spec_remove_owner (exports_map str tab) owner"
    using map_of_filter_distinct [OF d, of "\<lambda>v. snd v \<noteq> owner"]
    unfolding exports_map_def a by (auto simp: spec_remove_owner_def fun_eq_iff split: option.splits)
qed

lemma initial_exports_ok [simp]: "exports_ok str exported_symbols" "exports_map str exported_symbols = Map.empty"
  by (simp_all add: exports_ok_def exported_symbols_def list_all_iff export_ok_def export_assocs_def
      used_exports_def exports_map_def)

section \<open>The interface the loader uses\<close>

text \<open>
  A table of exports with owners: the contents are a map \<open>abs\<close>; \<open>add\<close> binds at most the name it is
  given, to the given owner, and only when the name is unbound; \<open>remove\<close> drops an owner's names.
\<close>

locale export_table =
  fixes inv :: "'t \<Rightarrow> bool"
    and abs :: "'t \<Rightarrow> 'k \<rightharpoonup> 'v \<times> 'o"
    and add :: "'t \<Rightarrow> 'n \<Rightarrow> 'v \<Rightarrow> 'o \<Rightarrow> 't"
    and remove :: "'t \<Rightarrow> 'o \<Rightarrow> 't"
    and real :: "'o \<Rightarrow> bool"
  assumes add_inv: "inv t \<Longrightarrow> inv (add t n v o')"
    and add_abs: "inv t \<Longrightarrow> abs (add t n v o') = abs t \<or>
      (\<exists>k. k \<notin> dom (abs t) \<and> abs (add t n v o') = (abs t)(k \<mapsto> (v, o')))"
    and remove_inv: "inv t \<Longrightarrow> real o' \<Longrightarrow> inv (remove t o')"
    and remove_abs: "inv t \<Longrightarrow> real o' \<Longrightarrow>
      abs (remove t o') = (\<lambda>k. case abs t k of Some (v, p) \<Rightarrow> if p = o' then None else Some (v, p) | None \<Rightarrow> None)"
begin

lemma adds_inv: "inv t \<Longrightarrow> inv (fold (\<lambda>(n, v) u. add u n v o') es t)"
  by (induction es arbitrary: t) (auto simp: add_inv)

text \<open>Adding keeps every binding, and new bindings belong to the owner that adds them.\<close>

lemma adds_extend:
  assumes "inv t"
  shows "abs t \<subseteq>\<^sub>m abs (fold (\<lambda>(n, v) u. add u n v o') es t) \<and>
    (\<forall>k v p. abs (fold (\<lambda>(n, v) u. add u n v o') es t) k = Some (v, p) \<longrightarrow> abs t k = Some (v, p) \<or> p = o')"
  using assms
proof (induction es arbitrary: t)
  case (Cons e es)
  obtain n v where e: "e = (n, v)" by force
  let ?t = "add t n v o'"
  have step: "abs t \<subseteq>\<^sub>m abs ?t \<and> (\<forall>k v p. abs ?t k = Some (v, p) \<longrightarrow> abs t k = Some (v, p) \<or> p = o')"
    using add_abs [OF Cons.prems, of n v o'] by (auto simp: map_le_def split: if_splits)
  with Cons.IH [OF add_inv [OF Cons.prems]] e show ?case
    using map_le_trans by fastforce
qed simp

lemma unload_restores:
  assumes inv: "inv t" and real: "real o'" and clean: "\<forall>v. (v, o') \<notin> ran (abs t)"
  shows "abs (remove (fold (\<lambda>(n, v) u. add u n v o') es t) o') = abs t"
proof
  fix k
  let ?u = "fold (\<lambda>(n, v) u. add u n v o') es t"
  have ext: "abs t \<subseteq>\<^sub>m abs ?u" "\<And>v p. abs ?u k = Some (v, p) \<Longrightarrow> abs t k = Some (v, p) \<or> p = o'"
    using adds_extend [OF inv, of o' es] by auto
  show "abs (remove ?u o') k = abs t k"
  proof (cases "abs t k")
    case None
    then show ?thesis
      using ext(2) by (auto simp: remove_abs [OF adds_inv [OF inv] real] split: option.splits)
  next
    case (Some vp)
    then have "abs ?u k = Some vp" using ext(1) by (auto simp: map_le_def dom_def)
    moreover have "snd vp \<noteq> o'" using Some clean by (cases vp) (auto simp: ran_def)
    ultimately show ?thesis
      using Some by (auto simp: remove_abs [OF adds_inv [OF inv] real] split: prod.splits)
  qed
qed

end

interpretation reg: export_table "exports_ok str" "exports_map str"
    "\<lambda>tab name address owner. snd (kb_loader_symbol_registry_add_export str tab name address owner)"
    kb_loader_symbol_registry_remove_owner "\<lambda>owner. owner \<noteq> NULL" for str
proof unfold_locales
  fix t n and v :: u64 and o' :: ptr
  assume inv: "exports_ok str t"
  obtain st t' where r: "kb_loader_symbol_registry_add_export str t n v o' = (st, t')" by force
  have "exports_ok str t' \<and> (exports_map str t' = exports_map str t \<or>
      str n \<notin> dom (exports_map str t) \<and> exports_map str t' = (exports_map str t)(str n \<mapsto> (v, o')))"
  proof (cases "symbol_pointer_is_valid n")
    case True
    from add_refines [OF inv True r] show ?thesis by (auto simp: spec_add_def split: if_splits)
  next
    case False
    with add_invalid_name [OF this] r inv show ?thesis by simp
  qed
  with r show "exports_ok str (snd (kb_loader_symbol_registry_add_export str t n v o'))"
    and "exports_map str (snd (kb_loader_symbol_registry_add_export str t n v o')) = exports_map str t \<or>
      (\<exists>k. k \<notin> dom (exports_map str t) \<and>
        exports_map str (snd (kb_loader_symbol_registry_add_export str t n v o')) = (exports_map str t)(k \<mapsto> (v, o')))"
    by (metis snd_conv)+
qed (auto simp: remove_owner_refines spec_remove_owner_def)

section \<open>Properties\<close>

text \<open>The operations of the registry and of its specification, as sequences of requests.\<close>

datatype registry_op = Add ptr u64 ptr | Remove ptr

primrec registry_step :: "strings \<Rightarrow> registry_op \<Rightarrow> exports \<Rightarrow> exports" where
  "registry_step str (Add name address owner) tab =
     snd (kb_loader_symbol_registry_add_export str tab name address owner)"
| "registry_step str (Remove owner) tab = kb_loader_symbol_registry_remove_owner tab owner"

primrec spec_step :: "strings \<Rightarrow> registry_op \<Rightarrow> export_map \<Rightarrow> export_map" where
  "spec_step str (Add name address owner) m =
     (if symbol_pointer_is_valid name then snd (spec_add m (str name) address owner) else m)"
| "spec_step str (Remove owner) m = (if owner = NULL then m else spec_remove_owner m owner)"

lemma registry_step_refines:
  assumes "exports_ok str tab"
  shows "exports_ok str (registry_step str r tab) \<and>
    exports_map str (registry_step str r tab) = spec_step str r (exports_map str tab)"
proof (cases r)
  case (Add name address owner)
  obtain st tab' where a: "kb_loader_symbol_registry_add_export str tab name address owner = (st, tab')"
    by force
  show ?thesis
    using add_refines [OF assms _ a] add_invalid_name [of name str tab address owner] assms a Add
    by (cases "symbol_pointer_is_valid name") auto
next
  case (Remove owner)
  then show ?thesis
    using assms remove_owner_refines [of str tab owner]
    by (cases "owner = NULL") (auto simp: kb_loader_symbol_registry_remove_owner_def)
qed

text \<open>C10.  The export table implements a finite map under every sequence of requests: whatever
  additions and removals are made from the zeroed table on, a lookup of a name returns the address
  that the specification map (first definition wins, at most 4096 names, an owner's names removed
  together) binds to the name's characters, and null when it binds none.\<close>

theorem symbol_registry_refines:
  "kb_loader_symbol_registry_lookup_export str (fold (registry_step str) rs exported_symbols) name =
   (if symbol_pointer_is_valid name \<and> str name \<noteq> []
    then case fold (spec_step str) rs Map.empty (str name) of Some (address, _) \<Rightarrow> address | None \<Rightarrow> NULL
    else NULL)"
proof -
  have "exports_ok str (fold (registry_step str) rs tab) \<and>
      exports_map str (fold (registry_step str) rs tab) = fold (spec_step str) rs (exports_map str tab)"
    if "exports_ok str tab" for tab
    using that by (induction rs arbitrary: tab) (simp_all add: registry_step_refines)
  from this [OF initial_exports_ok(1)] show ?thesis by (simp add: lookup_refines)
qed

text \<open>C32.  Unloading undoes loading: if a module owns no export yet, then after it has registered
  any list of exports and its owner entries have been removed again, every lookup gives what it
  gave before.\<close>

theorem symbol_registry_unload_restores:
  assumes "exports_ok str tab" and "owner \<noteq> NULL" and "\<forall>e\<in>set tab. exp_owner e \<noteq> owner"
  shows "kb_loader_symbol_registry_lookup_export str
      (kb_loader_symbol_registry_remove_owner
        (fold (\<lambda>(n, a) t. snd (kb_loader_symbol_registry_add_export str t n a owner)) es tab) owner) name =
    kb_loader_symbol_registry_lookup_export str tab name"
proof -
  have "\<forall>v. (v, owner) \<notin> ran (exports_map str tab)"
    using assms(3)
    by (auto simp: ran_def exports_map_def export_assocs_def used_exports_def dest!: map_of_SomeD)
  from reg.unload_restores [OF assms(1,2) this, of es] show ?thesis
    by (simp add: lookup_refines assms(1,2) reg.remove_inv [OF reg.adds_inv [OF assms(1)]])
qed

theorem symbol_registry_unload_restores_witness:
  "kb_loader_symbol_registry_lookup_export (\<lambda>p. [ucast p])
      (kb_loader_symbol_registry_remove_owner
        (fold (\<lambda>(n, a) t. snd (kb_loader_symbol_registry_add_export (\<lambda>p. [ucast p]) t n a 7))
          [(4097, 5), (4098, 6)] exported_symbols) 7) 4097 = NULL"
proof -
  have empty: "kb_loader_symbol_registry_lookup_export (\<lambda>p. [ucast p]) exported_symbols 4097 = NULL"
    by (simp add: lookup_refines)
  show ?thesis
    unfolding empty [symmetric]
    by (rule symbol_registry_unload_restores) (simp_all, simp add: exported_symbols_def)
qed

end
