(* ===== verification/Shim_Symbols.thy ===== *)
theory Shim_Symbols
  imports Kobox_Prelude
begin

text \<open>
  The table of Linux symbols that the shim layer provides to modules
  (\<^verbatim>\<open>src/loader/module_loader.c\<close>): the providers' tables are concatenated into a cache,
  and a hash index with open addressing (FNV hash, linear probing over 16384 slots) finds a name.
  The index is shown to compute the first position of a name in the cache.
\<close>

section \<open>The model\<close>

record kb_linux_symbol =
  lsym_name :: "bytes option"
  lsym_address :: ptr

text \<open>
  The static variables of the cache.  \<^verbatim>\<open>shim_symbol_cache_count\<close> is the length of the list
  \<open>shim_symbol_cache\<close>; a slot of the index holds 0 or a position in the cache plus one.
\<close>

record shim_symbol_table =
  shim_symbol_cache :: "kb_linux_symbol list"
  shim_symbol_hash_index :: "u16 list"
  shim_symbol_cache_ready :: bool
  shim_symbol_cache_overflow :: bool

abbreviation (input) KB_LOCAL_SHIM_STUB_COUNT :: nat where "KB_LOCAL_SHIM_STUB_COUNT \<equiv> 4096"
abbreviation (input) KB_LOCAL_SHIM_SYMBOL_HASH_SIZE :: nat where "KB_LOCAL_SHIM_SYMBOL_HASH_SIZE \<equiv> 16384"
abbreviation (input) HASH_MASK :: u64 where "HASH_MASK \<equiv> 16383"

definition shim_symbols_zero :: shim_symbol_table where
  "shim_symbols_zero = \<lparr>shim_symbol_cache = [],
     shim_symbol_hash_index = replicate KB_LOCAL_SHIM_SYMBOL_HASH_SIZE 0,
     shim_symbol_cache_ready = False, shim_symbol_cache_overflow = False\<rparr>"

definition shim_symbol_name_hash :: "bytes option \<Rightarrow> u64" where
  "shim_symbol_name_hash name = (case name of
       None \<Rightarrow> 0
     | Some cs \<Rightarrow> foldl (\<lambda>hash c. (hash XOR ucast c) * 1099511628211) 1469598103934665603 cs)"

text \<open>
  The probing loops; the last argument counts the probes that are left of the 16384.
\<close>

fun insert_probe :: "kb_linux_symbol list \<Rightarrow> u16 list \<Rightarrow> bytes \<Rightarrow> nat \<Rightarrow> u64 \<Rightarrow> nat \<Rightarrow> u16 list" where
  "insert_probe cache hash name index slot 0 = hash"
| "insert_probe cache hash name index slot (Suc probes) =
     (let stored = hash ! unat slot in
      if stored = 0 then hash[unat slot := of_nat (index + 1)]
      else if lsym_name (cache ! (unat stored - 1)) = Some name then hash
      else insert_probe cache hash name index ((slot + 1) AND HASH_MASK) probes)"

definition shim_symbol_hash_insert_first ::
  "shim_symbol_table \<Rightarrow> kb_linux_symbol \<Rightarrow> nat \<Rightarrow> shim_symbol_table" where
  "shim_symbol_hash_insert_first t symbol index =
     (case lsym_name symbol of
        None \<Rightarrow> t
      | Some name \<Rightarrow>
          if index \<ge> 65535 then t
          else t\<lparr>shim_symbol_hash_index :=
            insert_probe (shim_symbol_cache t) (shim_symbol_hash_index t) name index
              (shim_symbol_name_hash (Some name) AND HASH_MASK) KB_LOCAL_SHIM_SYMBOL_HASH_SIZE\<rparr>)"

fun append_loop :: "shim_symbol_table \<Rightarrow> kb_linux_symbol list \<Rightarrow> shim_symbol_table" where
  "append_loop t [] = t"
| "append_loop t (s # ss) =
     (if length (shim_symbol_cache t) \<ge> KB_LOCAL_SHIM_STUB_COUNT then t\<lparr>shim_symbol_cache_overflow := True\<rparr>
      else append_loop
        (shim_symbol_hash_insert_first
          (t\<lparr>shim_symbol_cache := shim_symbol_cache t @ [s]\<rparr>) s (length (shim_symbol_cache t))) ss)"

definition shim_symbol_append_provider ::
  "shim_symbol_table \<Rightarrow> kb_linux_symbol list option \<Rightarrow> shim_symbol_table" where
  "shim_symbol_append_provider t symbols =
     (case symbols of None \<Rightarrow> t | Some ss \<Rightarrow> append_loop t ss)"

text \<open>
  The tables of the providers, in the order of the calls: the loader's own table, then
  \<^verbatim>\<open>kb_linux_core_symbols\<close>, \<^verbatim>\<open>kb_linux_stub_symbols\<close>, and so on to
  \<^verbatim>\<open>kb_linux_kvm_symbols\<close>.
\<close>

type_synonym providers = "kb_linux_symbol list option list"

definition shim_symbol_table_init :: "providers \<Rightarrow> shim_symbol_table \<Rightarrow> shim_symbol_table" where
  "shim_symbol_table_init ps t =
     (if shim_symbol_cache_ready t then t
      else (foldl shim_symbol_append_provider t ps)\<lparr>shim_symbol_cache_ready := True\<rparr>)"

definition shim_symbol_table_count :: "providers \<Rightarrow> shim_symbol_table \<Rightarrow> nat \<times> shim_symbol_table" where
  "shim_symbol_table_count ps t =
     (let t' = shim_symbol_table_init ps t in
      (if shim_symbol_cache_overflow t' then KB_LOCAL_SHIM_STUB_COUNT + 1 else length (shim_symbol_cache t'), t'))"

definition shim_symbol_table_at ::
  "providers \<Rightarrow> shim_symbol_table \<Rightarrow> nat \<Rightarrow> kb_linux_symbol option \<times> shim_symbol_table" where
  "shim_symbol_table_at ps t index =
     (let t' = shim_symbol_table_init ps t in
      (if index < length (shim_symbol_cache t') then Some (shim_symbol_cache t' ! index) else None, t'))"

fun find_probe :: "kb_linux_symbol list \<Rightarrow> u16 list \<Rightarrow> bytes \<Rightarrow> u64 \<Rightarrow> nat \<Rightarrow> nat option" where
  "find_probe cache hash name slot 0 = None"
| "find_probe cache hash name slot (Suc probes) =
     (let stored = hash ! unat slot in
      if stored = 0 then None
      else if lsym_name (cache ! (unat stored - 1)) = Some name then Some (unat stored - 1)
      else find_probe cache hash name ((slot + 1) AND HASH_MASK) probes)"

definition shim_symbol_find_index ::
  "providers \<Rightarrow> shim_symbol_table \<Rightarrow> bytes option \<Rightarrow> nat option \<times> shim_symbol_table" where
  "shim_symbol_find_index ps t name = (case name of
       None \<Rightarrow> (None, t)
     | Some cs \<Rightarrow>
         let t' = shim_symbol_table_init ps t in
         (find_probe (shim_symbol_cache t') (shim_symbol_hash_index t') cs
            (shim_symbol_name_hash name AND HASH_MASK) KB_LOCAL_SHIM_SYMBOL_HASH_SIZE, t'))"

definition shim_symbol_find_address ::
  "providers \<Rightarrow> shim_symbol_table \<Rightarrow> bytes option \<Rightarrow> ptr \<times> shim_symbol_table" where
  "shim_symbol_find_address ps t name =
     (case shim_symbol_find_index ps t name of
        (None, t') \<Rightarrow> (NULL, t')
      | (Some index, t') \<Rightarrow>
          (case shim_symbol_table_at ps t' index of
             (None, t'') \<Rightarrow> (NULL, t'')
           | (Some symbol, t'') \<Rightarrow> (lsym_address symbol, t'')))"

section \<open>Probing\<close>

lemma unat_hash_mask: "unat (w AND HASH_MASK) = unat w mod KB_LOCAL_SHIM_SYMBOL_HASH_SIZE"
proof -
  have "w AND HASH_MASK = take_bit 14 w" by (simp add: take_bit_eq_mask mask_eq_decr_exp)
  then show ?thesis by (simp add: unsigned_take_bit_eq take_bit_nat_def)
qed

definition probe_slot :: "bytes \<Rightarrow> nat \<Rightarrow> nat" where
  "probe_slot name d = (unat (shim_symbol_name_hash (Some name)) + d) mod KB_LOCAL_SHIM_SYMBOL_HASH_SIZE"

lemma probe_slot_less [simp]: "probe_slot name d < KB_LOCAL_SHIM_SYMBOL_HASH_SIZE"
  by (simp add: probe_slot_def)

lemma probe_slot_start: "unat (shim_symbol_name_hash (Some name) AND HASH_MASK) = probe_slot name 0"
  by (simp add: probe_slot_def unat_hash_mask)

lemma probe_slot_next:
  assumes "unat slot = probe_slot name d"
  shows "unat ((slot + 1) AND HASH_MASK) = probe_slot name (Suc d)"
proof -
  have "unat slot < KB_LOCAL_SHIM_SYMBOL_HASH_SIZE" using assms by simp
  then have "unat (slot + 1) = unat slot + 1" by (simp add: unat_add_no_wrap)
  then show ?thesis unfolding unat_hash_mask using assms by (simp add: probe_slot_def mod_Suc_eq)
qed

lemma probe_slot_onto:
  assumes "s < KB_LOCAL_SHIM_SYMBOL_HASH_SIZE"
  shows "\<exists>d < KB_LOCAL_SHIM_SYMBOL_HASH_SIZE. probe_slot name d = s"
proof -
  let ?h = "unat (shim_symbol_name_hash (Some name)) mod KB_LOCAL_SHIM_SYMBOL_HASH_SIZE"
  let ?d = "(s + (KB_LOCAL_SHIM_SYMBOL_HASH_SIZE - ?h)) mod KB_LOCAL_SHIM_SYMBOL_HASH_SIZE"
  have h: "?h < KB_LOCAL_SHIM_SYMBOL_HASH_SIZE" by simp
  have "probe_slot name ?d = (?h + (s + (KB_LOCAL_SHIM_SYMBOL_HASH_SIZE - ?h))) mod KB_LOCAL_SHIM_SYMBOL_HASH_SIZE"
    unfolding probe_slot_def by (simp only: mod_add_left_eq mod_add_right_eq)
  also have "?h + (s + (KB_LOCAL_SHIM_SYMBOL_HASH_SIZE - ?h)) = s + KB_LOCAL_SHIM_SYMBOL_HASH_SIZE"
    using h by linarith
  finally have "probe_slot name ?d = s" using assms by simp
  then show ?thesis by (intro exI [of _ ?d]) simp
qed

text \<open>Where probing for a name stops: at an empty slot or at a slot that holds the name.\<close>

definition probe_stop :: "kb_linux_symbol list \<Rightarrow> u16 list \<Rightarrow> bytes \<Rightarrow> nat \<Rightarrow> bool" where
  "probe_stop cache hash name d \<longleftrightarrow> (let stored = hash ! probe_slot name d in
     stored = 0 \<or> lsym_name (cache ! (unat stored - 1)) = Some name)"

lemma find_probe_eq:
  "unat slot = probe_slot name d \<Longrightarrow>
   find_probe cache hash name slot n =
     (case find (probe_stop cache hash name) [d..<d + n] of
        None \<Rightarrow> None
      | Some e \<Rightarrow> if hash ! probe_slot name e = 0 then None else Some (unat (hash ! probe_slot name e) - 1))"
proof (induction n arbitrary: slot d)
  case (Suc n)
  have "[d..<d + Suc n] = d # [Suc d..<Suc d + n]" by (simp add: upt_conv_Cons)
  with Suc show ?case by (simp add: probe_slot_next Let_def probe_stop_def)
qed simp

lemma insert_probe_eq:
  "unat slot = probe_slot name d \<Longrightarrow>
   insert_probe cache hash name index slot n =
     (case find (probe_stop cache hash name) [d..<d + n] of
        None \<Rightarrow> hash
      | Some e \<Rightarrow> if hash ! probe_slot name e = 0 then hash[probe_slot name e := of_nat (index + 1)] else hash)"
proof (induction n arbitrary: slot d)
  case (Suc n)
  have "[d..<d + Suc n] = d # [Suc d..<Suc d + n]" by (simp add: upt_conv_Cons)
  with Suc show ?case by (simp add: probe_slot_next Let_def probe_stop_def)
qed simp

abbreviation (input) first_stop :: "kb_linux_symbol list \<Rightarrow> u16 list \<Rightarrow> bytes \<Rightarrow> nat option" where
  "first_stop cache hash name \<equiv>
     find (probe_stop cache hash name) [0..<KB_LOCAL_SHIM_SYMBOL_HASH_SIZE]"

lemma find_upt_Some_iff:
  "find P [0..<n] = Some d \<longleftrightarrow> d < n \<and> P d \<and> (\<forall>e < d. \<not> P e)"
  by (auto simp: find_Some_iff)

lemma find_upt_None_iff: "find P [0..<n] = None \<longleftrightarrow> (\<forall>d < n. \<not> P d)"
  by (auto simp: find_None_iff)

section \<open>The index finds first positions\<close>

definition first_index :: "bytes \<Rightarrow> kb_linux_symbol list \<Rightarrow> nat option" where
  "first_index name cache = find (\<lambda>i. lsym_name (cache ! i) = Some name) [0..<length cache]"

lemma first_index_Some:
  "first_index name cache = Some i \<Longrightarrow> i < length cache \<and> lsym_name (cache ! i) = Some name"
  by (auto simp: first_index_def find_upt_Some_iff)

lemma find_append:
  "find P (xs @ ys) = (case find P xs of Some x \<Rightarrow> Some x | None \<Rightarrow> find P ys)"
  by (induction xs) auto

lemma first_index_snoc:
  "first_index name (cache @ [s]) =
     (case first_index name cache of Some i \<Rightarrow> Some i
      | None \<Rightarrow> if lsym_name s = Some name then Some (length cache) else None)"
proof -
  let ?P = "\<lambda>i. lsym_name ((cache @ [s]) ! i) = Some name"
  have "find ?P [0..<length cache] = first_index name cache"
    unfolding first_index_def by (rule find_cong) (auto simp: nth_append)
  moreover have "first_index name (cache @ [s]) =
      (case find ?P [0..<length cache] of Some x \<Rightarrow> Some x | None \<Rightarrow> find ?P [length cache])"
    unfolding first_index_def by (simp only: length_append_singleton upt_Suc_append le0 find_append)
  ultimately show ?thesis by (simp split: option.splits)
qed

text \<open>
  The invariant of cache and index: every occupied slot holds the first position of a name, every
  name of the cache is reached by probing, and no more slots are occupied than there are symbols.
\<close>

definition slot_ok :: "kb_linux_symbol list \<Rightarrow> u16 \<Rightarrow> bool" where
  "slot_ok cache stored \<longleftrightarrow> unat stored - 1 < length cache \<and>
     (\<exists>name. lsym_name (cache ! (unat stored - 1)) = Some name \<and> first_index name cache = Some (unat stored - 1))"

definition occupied :: "u16 list \<Rightarrow> nat set" where
  "occupied hash = {s. s < KB_LOCAL_SHIM_SYMBOL_HASH_SIZE \<and> hash ! s \<noteq> 0}"

definition reached :: "kb_linux_symbol list \<Rightarrow> u16 list \<Rightarrow> bytes \<Rightarrow> nat \<Rightarrow> bool" where
  "reached cache hash name i \<longleftrightarrow>
     (\<exists>d. first_stop cache hash name = Some d \<and> unat (hash ! probe_slot name d) = Suc i)"

definition index_ok :: "kb_linux_symbol list \<Rightarrow> u16 list \<Rightarrow> bool" where
  "index_ok cache hash \<longleftrightarrow> length hash = KB_LOCAL_SHIM_SYMBOL_HASH_SIZE \<and> length cache \<le> KB_LOCAL_SHIM_STUB_COUNT \<and>
     (\<forall>s \<in> occupied hash. slot_ok cache (hash ! s)) \<and>
     (\<forall>name i. first_index name cache = Some i \<longrightarrow> reached cache hash name i) \<and>
     card (occupied hash) \<le> length cache"

lemma occupied_probe [simp]: "probe_slot name d \<in> occupied hash \<longleftrightarrow> hash ! probe_slot name d \<noteq> 0"
  by (simp add: occupied_def)

lemma slot_ok_name:
  "slot_ok cache stored \<Longrightarrow> lsym_name (cache ! (unat stored - 1)) = Some name \<Longrightarrow>
   first_index name cache = Some (unat stored - 1)"
  by (auto simp: slot_ok_def)

lemma slot_ok_snoc: "slot_ok cache stored \<Longrightarrow> slot_ok (cache @ [s]) stored"
  by (auto simp: slot_ok_def nth_append first_index_snoc)

lemma probe_stop_snoc:
  assumes "\<forall>s \<in> occupied hash. slot_ok cache (hash ! s)"
  shows "probe_stop (cache @ [s]) hash name = probe_stop cache hash name"
proof
  fix d
  show "probe_stop (cache @ [s]) hash name d = probe_stop cache hash name d"
  proof (cases "hash ! probe_slot name d = 0")
    case False
    then have "slot_ok cache (hash ! probe_slot name d)" using assms by (simp add: Ball_def)
    then show ?thesis by (simp add: probe_stop_def slot_ok_def nth_append Let_def)
  qed (simp add: probe_stop_def)
qed

lemma reached_find:
  assumes "reached cache hash name i"
  shows "find_probe cache hash name (shim_symbol_name_hash (Some name) AND HASH_MASK) KB_LOCAL_SHIM_SYMBOL_HASH_SIZE = Some i"
  using assms find_probe_eq [OF probe_slot_start, of cache hash name KB_LOCAL_SHIM_SYMBOL_HASH_SIZE]
  by (auto simp: reached_def)

lemma find_probe_first_index:
  assumes "index_ok cache hash"
  shows "find_probe cache hash name (shim_symbol_name_hash (Some name) AND HASH_MASK) KB_LOCAL_SHIM_SYMBOL_HASH_SIZE =
    first_index name cache"
proof (cases "first_index name cache")
  case (Some i)
  then show ?thesis using assms reached_find by (simp add: index_ok_def)
next
  case None
  have "hash ! probe_slot name d = 0" if "probe_stop cache hash name d" for d
  proof (rule ccontr)
    assume nz: "hash ! probe_slot name d \<noteq> 0"
    then have "slot_ok cache (hash ! probe_slot name d)" using assms by (simp add: index_ok_def Ball_def)
    then show False using slot_ok_name None nz that by (auto simp: probe_stop_def Let_def)
  qed
  then show ?thesis
    using None find_probe_eq [OF probe_slot_start, of cache hash name KB_LOCAL_SHIM_SYMBOL_HASH_SIZE]
    by (auto simp: find_upt_Some_iff split: option.splits)
qed

text \<open>Appending a symbol that brings no new name leaves the index as it is.\<close>

lemma index_ok_snoc_old:
  assumes ok: "index_ok cache hash" and len: "length cache < KB_LOCAL_SHIM_STUB_COUNT"
    and old: "\<And>name. lsym_name s = Some name \<Longrightarrow> first_index name cache \<noteq> None"
  shows "index_ok (cache @ [s]) hash"
proof -
  have slots: "\<forall>s \<in> occupied hash. slot_ok cache (hash ! s)" using ok by (simp add: index_ok_def)
  have "first_index name (cache @ [s]) = first_index name cache" for name
    using old [of name] by (auto simp: first_index_snoc split: option.splits)
  then show ?thesis
    using ok len slots by (auto simp: index_ok_def slot_ok_snoc reached_def probe_stop_snoc [OF slots])
qed

text \<open>A new name is stored in the first free slot of its probe sequence.\<close>

lemma free_slot:
  assumes "index_ok cache hash"
  shows "\<exists>d < KB_LOCAL_SHIM_SYMBOL_HASH_SIZE. hash ! probe_slot name d = 0"
proof -
  have "occupied hash \<noteq> {..<KB_LOCAL_SHIM_SYMBOL_HASH_SIZE}"
    using assms by (auto simp: index_ok_def)
  then obtain s where "s < KB_LOCAL_SHIM_SYMBOL_HASH_SIZE" "hash ! s = 0" by (auto simp: occupied_def)
  then show ?thesis using probe_slot_onto [of s name] by auto
qed

lemma new_name_slot:
  assumes ok: "index_ok cache hash" and new: "first_index name cache = None"
  obtains d where "first_stop cache hash name = Some d" "hash ! probe_slot name d = 0"
proof -
  obtain f where f: "f < KB_LOCAL_SHIM_SYMBOL_HASH_SIZE" "hash ! probe_slot name f = 0"
    using free_slot [OF ok, of name] by blast
  then have "first_stop cache hash name \<noteq> None" unfolding find_upt_None_iff by (auto simp: probe_stop_def)
  then obtain d where d: "first_stop cache hash name = Some d" by blast
  then have stop: "probe_stop cache hash name d" unfolding find_upt_Some_iff by simp
  have "hash ! probe_slot name d = 0"
  proof (rule ccontr)
    assume nz: "hash ! probe_slot name d \<noteq> 0"
    then have "slot_ok cache (hash ! probe_slot name d)" using ok by (simp add: index_ok_def Ball_def)
    then show False using slot_ok_name new nz stop by (auto simp: probe_stop_def Let_def)
  qed
  with d that show thesis by blast
qed

lemma stop_after_store:
  assumes "hash ! p = 0" "p < length hash" "v \<noteq> 0" "lsym_name (cache ! (unat v - 1)) = Some owner"
  shows "probe_stop cache (hash[p := v]) name d \<longleftrightarrow>
    (if probe_slot name d = p then owner = name else probe_stop cache hash name d)"
  using assms by (auto simp: probe_stop_def Let_def nth_list_update)

lemma index_ok_snoc_new:
  assumes ok: "index_ok cache hash" and len: "length cache < KB_LOCAL_SHIM_STUB_COUNT"
    and name: "lsym_name s = Some name" and new: "first_index name cache = None"
    and d: "first_stop cache hash name = Some d" "hash ! probe_slot name d = 0"
  defines "v \<equiv> of_nat (length cache + 1) :: u16"
  shows "index_ok (cache @ [s]) (hash[probe_slot name d := v])"
proof -
  let ?p = "probe_slot name d" and ?c = "cache @ [s]"
  let ?h = "hash[?p := v]"
  have v: "unat v = Suc (length cache)" using len unfolding v_def unat_of_nat by simp
  then have v0: "v \<noteq> 0" "unat v - 1 = length cache" by auto
  have p: "?p < length hash" using ok by (simp add: index_ok_def)
  have slots: "\<forall>s \<in> occupied hash. slot_ok cache (hash ! s)" using ok by (simp add: index_ok_def)
  have stop: "probe_stop ?c ?h other e \<longleftrightarrow>
      (if probe_slot other e = ?p then name = other else probe_stop cache hash other e)" for other e
    using stop_after_store [OF d(2) p v0(1), of ?c name other e, unfolded v0(2) probe_stop_snoc [OF slots]] name
    by simp
  have occ: "occupied ?h = insert ?p (occupied hash)"
  proof -
    have "(?h ! s \<noteq> 0) = (s = ?p \<or> hash ! s \<noteq> 0)" for s
      using p v0(1) by (cases "s = ?p") simp_all
    then show ?thesis unfolding occupied_def using probe_slot_less by auto
  qed
  have "slot_ok ?c v" unfolding slot_ok_def v0 using new name by (simp add: first_index_snoc)
  then have A: "\<forall>s \<in> occupied ?h. slot_ok ?c (?h ! s)"
    using slots p slot_ok_snoc d(2) by (auto simp: occ nth_list_update)
  have B: "reached ?c ?h other i" if i: "first_index other ?c = Some i" for other i
  proof (cases "other = name")
    case True
    then have "i = length cache" using i new name by (simp add: first_index_snoc)
    moreover have "\<forall>e < d. probe_slot name e \<noteq> ?p"
      using d unfolding find_upt_Some_iff by (metis probe_stop_def)
    ultimately show ?thesis
      using True d v p stop unfolding reached_def find_upt_Some_iff by (intro exI [of _ d]) auto
  next
    case False
    then have "first_index other cache = Some i"
      using i name by (auto simp: first_index_snoc split: option.splits if_splits)
    then have "reached cache hash other i" using ok by (simp add: index_ok_def)
    then obtain e where e: "first_stop cache hash other = Some e" "unat (hash ! probe_slot other e) = Suc i"
      by (auto simp: reached_def)
    have ne: "probe_slot other e \<noteq> ?p" using e(2) d(2) by auto
    show ?thesis
      using e ne False stop unfolding reached_def find_upt_Some_iff by (intro exI [of _ e]) auto
  qed
  have "card (occupied ?h) \<le> Suc (card (occupied hash))" unfolding occ by (rule card_insert_le_m1) auto
  then have C: "card (occupied ?h) \<le> length ?c" using ok by (simp add: index_ok_def)
  show ?thesis using ok len A B C by (simp add: index_ok_def)
qed

lemma insert_first_ok:
  fixes s :: kb_linux_symbol
  assumes ok: "index_ok (shim_symbol_cache t) (shim_symbol_hash_index t)"
    and len: "length (shim_symbol_cache t) < KB_LOCAL_SHIM_STUB_COUNT"
  defines "t' \<equiv> shim_symbol_hash_insert_first (t\<lparr>shim_symbol_cache := shim_symbol_cache t @ [s]\<rparr>) s (length (shim_symbol_cache t))"
  shows "index_ok (shim_symbol_cache t') (shim_symbol_hash_index t') \<and>
    shim_symbol_cache t' = shim_symbol_cache t @ [s] \<and>
    shim_symbol_cache_ready t' = shim_symbol_cache_ready t \<and> shim_symbol_cache_overflow t' = shim_symbol_cache_overflow t"
proof (cases "lsym_name s")
  case None
  then show ?thesis using index_ok_snoc_old [OF ok len, of s] by (simp add: t'_def shim_symbol_hash_insert_first_def)
next
  case (Some name)
  let ?c = "shim_symbol_cache t" and ?h = "shim_symbol_hash_index t"
  have slots: "\<forall>s \<in> occupied ?h. slot_ok ?c (?h ! s)" using ok by (simp add: index_ok_def)
  note ins = insert_probe_eq [OF probe_slot_start, of "?c @ [s]" ?h name "length ?c" KB_LOCAL_SHIM_SYMBOL_HASH_SIZE,
      unfolded probe_stop_snoc [OF slots]]
  show ?thesis
  proof (cases "first_index name ?c")
    case None
    then obtain d where d: "first_stop ?c ?h name = Some d" "?h ! probe_slot name d = 0"
      by (rule new_name_slot [OF ok])
    then show ?thesis
      using index_ok_snoc_new [OF ok len Some None d] ins len Some
      by (simp add: t'_def shim_symbol_hash_insert_first_def)
  next
    case (Some i)
    then have "reached ?c ?h name i" using ok by (simp add: index_ok_def)
    then have "insert_probe (?c @ [s]) ?h name (length ?c) (shim_symbol_name_hash (Some name) AND HASH_MASK)
        KB_LOCAL_SHIM_SYMBOL_HASH_SIZE = ?h"
      using ins by (auto simp: reached_def)
    then show ?thesis
      using index_ok_snoc_old [OF ok len, of s] Some \<open>lsym_name s = Some name\<close>
      by (simp add: t'_def shim_symbol_hash_insert_first_def)
  qed
qed

definition table_ok :: "shim_symbol_table \<Rightarrow> bool" where
  "table_ok t \<longleftrightarrow> index_ok (shim_symbol_cache t) (shim_symbol_hash_index t)"

lemma table_ok_length: "table_ok t \<Longrightarrow> length (shim_symbol_cache t) \<le> KB_LOCAL_SHIM_STUB_COUNT"
  by (simp add: table_ok_def index_ok_def)

lemma append_loop_ok:
  assumes "table_ok t"
  shows "table_ok (append_loop t ss) \<and>
    shim_symbol_cache (append_loop t ss) = take KB_LOCAL_SHIM_STUB_COUNT (shim_symbol_cache t @ ss)"
  using assms
proof (induction t ss rule: append_loop.induct)
  case (1 t)
  then show ?case using table_ok_length by simp
next
  case (2 t s ss)
  show ?case
  proof (cases "length (shim_symbol_cache t) \<ge> KB_LOCAL_SHIM_STUB_COUNT")
    case True
    then have "length (shim_symbol_cache t) = KB_LOCAL_SHIM_STUB_COUNT"
      using table_ok_length [OF "2.prems"] by simp
    then show ?thesis using "2.prems" by (simp add: table_ok_def)
  next
    case False
    then have "length (shim_symbol_cache t) < KB_LOCAL_SHIM_STUB_COUNT" by simp
    note ins = insert_first_ok [OF "2.prems" [unfolded table_ok_def] this, of s, folded table_ok_def]
    with "2.IH" [OF False] False show ?thesis by simp
  qed
qed

lemma take_take_append: "take n (take n xs @ ys) = take n (xs @ ys)"
  by (cases "n \<le> length xs") simp_all

lemma providers_ok:
  assumes "table_ok t"
  shows "table_ok (foldl shim_symbol_append_provider t ps) \<and>
    shim_symbol_cache (foldl shim_symbol_append_provider t ps) =
      take KB_LOCAL_SHIM_STUB_COUNT (shim_symbol_cache t @ concat (map (case_option [] id) ps))"
  using assms
proof (induction ps arbitrary: t)
  case Nil
  then show ?case using table_ok_length by simp
next
  case (Cons p ps)
  have p: "table_ok (shim_symbol_append_provider t p)"
    "shim_symbol_cache (shim_symbol_append_provider t p) =
       take KB_LOCAL_SHIM_STUB_COUNT (shim_symbol_cache t @ case_option [] id p)"
    using append_loop_ok [OF Cons.prems] table_ok_length [OF Cons.prems] Cons.prems
    by (simp_all add: shim_symbol_append_provider_def split: option.splits)
  from Cons.IH [OF p(1)] show ?case
    unfolding p(2) take_take_append by (simp only: foldl_Cons list.map concat.simps append_assoc)
qed

lemma occupied_replicate: "occupied (replicate KB_LOCAL_SHIM_SYMBOL_HASH_SIZE 0) = {}"
proof -
  have "replicate n 0 ! s = 0" if "s < n" for n s using that by simp
  then show ?thesis unfolding occupied_def by blast
qed

lemma zero_table_ok: "table_ok shim_symbols_zero"
  unfolding table_ok_def shim_symbols_zero_def index_ok_def by (simp add: occupied_replicate first_index_def)

text \<open>The table after the first call that needs it.\<close>

lemma shim_init_facts:
  "index_ok (shim_symbol_cache (shim_symbol_table_init ps shim_symbols_zero))
     (shim_symbol_hash_index (shim_symbol_table_init ps shim_symbols_zero))" (is ?index)
  "shim_symbol_cache (shim_symbol_table_init ps shim_symbols_zero) =
     take KB_LOCAL_SHIM_STUB_COUNT (concat (map (case_option [] id) ps))" (is ?cache)
proof -
  let ?t = "foldl shim_symbol_append_provider shim_symbols_zero ps"
  note built = providers_ok [OF zero_table_ok, of ps]
  have ok: "index_ok (shim_symbol_cache ?t) (shim_symbol_hash_index ?t)"
    using built unfolding table_ok_def by blast
  have "shim_symbol_cache shim_symbols_zero = []" by (simp add: shim_symbols_zero_def)
  with built have cache: "shim_symbol_cache ?t = take KB_LOCAL_SHIM_STUB_COUNT (concat (map (case_option [] id) ps))"
    by simp
  have "\<not> shim_symbol_cache_ready shim_symbols_zero" by (simp add: shim_symbols_zero_def)
  then have init: "shim_symbol_table_init ps shim_symbols_zero = ?t\<lparr>shim_symbol_cache_ready := True\<rparr>"
    by (simp add: shim_symbol_table_init_def)
  have ready: "shim_symbol_cache (t\<lparr>shim_symbol_cache_ready := b\<rparr>) = shim_symbol_cache t"
    "shim_symbol_hash_index (t\<lparr>shim_symbol_cache_ready := b\<rparr>) = shim_symbol_hash_index t" for t b
    by simp_all
  show ?index unfolding init ready by (rule ok)
  show ?cache unfolding init ready by (rule cache)
qed

section \<open>Properties\<close>

text \<open>C9.  The hash index is a correct implementation of a linear search: after the table has been
  built from any providers' tables, a lookup returns the first position of the name in the
  concatenation of those tables (cut at the cache's 4096 entries), and fails exactly when the name
  is not there.  Hash collisions, duplicate names and a full cache are covered.\<close>

theorem shim_symbol_find_index_refines:
  "fst (shim_symbol_find_index ps shim_symbols_zero (Some name)) =
     first_index name (take KB_LOCAL_SHIM_STUB_COUNT (concat (map (case_option [] id) ps)))"
  using find_probe_first_index [OF shim_init_facts(1), of ps name]
  unfolding shim_symbol_find_index_def Let_def option.case fst_conv shim_init_facts(2) .

end
