(* ===== verification/State_Lists.thy ===== *)
theory State_Lists
  imports Kobox_Prelude
begin

text \<open>
  Linked lists of state records that are keyed by an object's address.  Most subsystems keep one
  (block, SCSI, USB storage, DMA, input, network): a lookup walks the list from its head and never
  finds the null address, a new record is put at the head, and removal unlinks the first record of
  the key.  A list is modelled as the HOL list of its records, head first; a field assignment
  through the pointer that a lookup returned is an update of the first record of the key.
\<close>

section \<open>Operations\<close>

definition find_key :: "('a \<Rightarrow> ptr) \<Rightarrow> ptr \<Rightarrow> 'a list \<Rightarrow> 'a option" where
  "find_key key k xs = (if k = NULL then None else find (\<lambda>x. key x = k) xs)"

fun update_key :: "('a \<Rightarrow> ptr) \<Rightarrow> ptr \<Rightarrow> ('a \<Rightarrow> 'a) \<Rightarrow> 'a list \<Rightarrow> 'a list" where
  "update_key key k f [] = []"
| "update_key key k f (x # xs) = (if key x = k then f x # xs else x # update_key key k f xs)"

fun remove_key :: "('a \<Rightarrow> ptr) \<Rightarrow> ptr \<Rightarrow> 'a list \<Rightarrow> 'a list" where
  "remove_key key k [] = []"
| "remove_key key k (x # xs) = (if key x = k then xs else x # remove_key key k xs)"

section \<open>Laws\<close>

named_theorems keyed \<open>lookup after update, insertion and removal in keyed state lists\<close>

lemma find_SomeD: "find P xs = Some x \<Longrightarrow> x \<in> set xs \<and> P x"
  by (auto simp: find_Some_iff)

lemma find_key_NULL [simp]: "find_key key NULL xs = None"
  by (simp add: find_key_def)

lemma find_key_Nil [simp]: "find_key key k [] = None"
  by (simp add: find_key_def)

lemma find_key_Some:
  "find_key key k xs = Some x \<Longrightarrow> x \<in> set xs \<and> key x = k \<and> k \<noteq> NULL"
  by (auto simp: find_key_def find_Some_iff split: if_splits)

lemma find_key_None_iff: "find_key key k xs = None \<longleftrightarrow> k = NULL \<or> k \<notin> key ` set xs"
  by (auto simp: find_key_def find_None_iff)

lemma find_key_Cons [keyed]:
  "find_key key k (x # xs) = (if key x = k \<and> k \<noteq> NULL then Some x else find_key key k xs)"
  by (simp add: find_key_def)

lemma map_update_key [keyed]: "(\<And>x. key (f x) = key x) \<Longrightarrow> map key (update_key key k f xs) = map key xs"
  by (induction xs) auto

lemma update_key_absent: "k \<notin> key ` set xs \<Longrightarrow> update_key key k f xs = xs"
  by (induction xs) auto

lemma update_key_id: "update_key key k (\<lambda>x. x) xs = xs"
  by (induction xs) auto

lemma update_key_twice:
  assumes "\<And>x. key (g x) = key x"
  shows "update_key key k f (update_key key k g xs) = update_key key k (f \<circ> g) xs"
  by (induction xs) (auto simp: assms)

lemma find_key_update [keyed]:
  assumes "\<And>x. key (f x) = key x"
  shows "find_key key k' (update_key key k f xs) =
    (if k' = k then map_option f (find_key key k' xs) else find_key key k' xs)"
  by (induction xs) (auto simp: find_key_Cons assms)

lemma set_update_key: "x \<in> set (update_key key k f xs) \<Longrightarrow> x \<in> set xs \<or> (\<exists>y \<in> set xs. key y = k \<and> x = f y)"
  by (induction xs) (auto split: if_splits)

lemma set_remove_key: "x \<in> set (remove_key key k xs) \<Longrightarrow> x \<in> set xs"
  by (induction xs) (auto split: if_splits)

lemma remove_key_subset: "set (remove_key key k xs) \<subseteq> set xs"
  using set_remove_key by fastforce

lemma distinct_remove_key: "distinct (map key xs) \<Longrightarrow> distinct (map key (remove_key key k xs))"
  by (induction xs) (auto dest: set_remove_key)

lemma find_key_remove_other [keyed]:
  "k' \<noteq> k \<Longrightarrow> find_key key k' (remove_key key k xs) = find_key key k' xs"
  by (induction xs) (auto simp: find_key_Cons)

lemma find_key_remove_same:
  "distinct (map key xs) \<Longrightarrow> find_key key k (remove_key key k xs) = None"
  by (induction xs) (auto simp: find_key_Cons find_key_None_iff)

lemma find_key_unique:
  "distinct (map key xs) \<Longrightarrow> x \<in> set xs \<Longrightarrow> key x \<noteq> NULL \<Longrightarrow> find_key key (key x) xs = Some x"
  by (induction xs) (auto simp: find_key_Cons)

lemma list_all_update_key:
  assumes "list_all P xs" "\<And>x. x \<in> set xs \<Longrightarrow> key x = k \<Longrightarrow> P x \<Longrightarrow> P (f x)"
  shows "list_all P (update_key key k f xs)"
  using assms by (induction xs) auto

lemma list_all_remove_key: "list_all P xs \<Longrightarrow> list_all P (remove_key key k xs)"
  by (induction xs) auto

text \<open>A list whose keys are the addresses of live objects: no null key and no key twice.\<close>

definition keys_ok :: "('a \<Rightarrow> ptr) \<Rightarrow> 'a list \<Rightarrow> bool" where
  "keys_ok key xs \<longleftrightarrow> distinct (map key xs) \<and> NULL \<notin> key ` set xs"

lemma keys_ok_Nil [simp]: "keys_ok key []"
  by (simp add: keys_ok_def)

lemma keys_ok_Cons: "keys_ok key (x # xs) \<longleftrightarrow> key x \<noteq> NULL \<and> key x \<notin> key ` set xs \<and> keys_ok key xs"
  by (auto simp: keys_ok_def)

lemma keys_ok_update:
  assumes "\<And>x. key (f x) = key x"
  shows "keys_ok key (update_key key k f xs) = keys_ok key xs"
  using map_update_key [of key f k xs, OF assms] unfolding keys_ok_def by (metis set_map)

lemma keys_ok_remove: "keys_ok key xs \<Longrightarrow> keys_ok key (remove_key key k xs)"
  by (auto simp: keys_ok_def distinct_remove_key dest: set_remove_key)

lemma keys_ok_find: "keys_ok key xs \<Longrightarrow> x \<in> set xs \<Longrightarrow> find_key key (key x) xs = Some x"
  by (rule find_key_unique) (auto simp: keys_ok_def)

end
