(* ===== verification/Block.thy ===== *)
theory Block
  imports State_Lists
begin

text \<open>
  The block subsystem, \<^verbatim>\<open>src/linux_subsystem/block/block.c\<close>: request queues with their
  limits, disks with the driver's I/O callbacks, and tag sets.  The three linked lists and the disk
  counter are the record \<open>block_subsystem\<close>.  The callbacks are functions on a state \<open>'w\<close> of the
  driver; an absent callback is \<open>None\<close>.  Whether an allocation succeeds, and the address it
  returns, are arguments of the operations that allocate.
\<close>

section \<open>Data\<close>

record kb_block_queue_limits =
  logical_block_size :: u32
  physical_block_size :: u32
  io_min :: u32
  io_opt :: u32
  max_hw_sectors :: u32
  max_segments :: u32
  max_discard_sectors :: u32
  max_discard_segments :: u32
  max_write_zeroes_sectors :: u32
  max_zone_append_sectors :: u32
  chunk_sectors :: u32
  dma_alignment :: u32
  virt_boundary_mask :: u64
  limit_flags :: u32
  write_cache :: u8
  limit_fua :: u8

record kb_block_queue_state =
  q_queue :: ptr
  q_tag_set :: ptr
  q_limits :: kb_block_queue_limits
  q_put_count :: u32
  q_destroy_count :: u32

record kb_block_disk_read_request =
  rr_sector :: u64
  rr_buffer :: "bytes option"
  rr_byte_count :: u64

record kb_block_disk_write_request =
  wr_sector :: u64
  wr_buffer :: "bytes option"
  wr_byte_count :: u64

type_synonym 'w kb_block_disk_read_fn = "ptr \<Rightarrow> u64 \<Rightarrow> bytes \<Rightarrow> u64 \<Rightarrow> 'w \<Rightarrow> int \<times> bytes \<times> 'w"
type_synonym 'w kb_block_disk_write_fn = "ptr \<Rightarrow> u64 \<Rightarrow> bytes \<Rightarrow> u64 \<Rightarrow> 'w \<Rightarrow> int \<times> 'w"
type_synonym 'w kb_block_disk_write_flags_fn = "ptr \<Rightarrow> u64 \<Rightarrow> bytes \<Rightarrow> u64 \<Rightarrow> u32 \<Rightarrow> 'w \<Rightarrow> int \<times> 'w"
type_synonym 'w kb_block_disk_flush_fn = "ptr \<Rightarrow> 'w \<Rightarrow> int \<times> 'w"
type_synonym 'w kb_block_disk_read_batch_fn =
  "ptr \<Rightarrow> kb_block_disk_read_request list \<Rightarrow> 'w \<Rightarrow> int \<times> bytes list \<times> 'w"
type_synonym 'w kb_block_disk_write_batch_fn =
  "ptr \<Rightarrow> kb_block_disk_write_request list \<Rightarrow> 'w \<Rightarrow> int \<times> 'w"

record kb_block_disk_snapshot =
  d_disk :: ptr
  d_queue :: ptr
  d_part0 :: ptr
  d_parent :: ptr
  d_groups :: ptr
  d_capacity_sectors :: u64
  d_disk_number :: u32
  d_registered :: u32
  d_read_only :: u32
  d_notify_count :: u32
  d_put_count :: u32
  d_dead :: u32
  d_zoned_model :: u32
  d_readahead_update_count :: u32
  d_zone_revalidate_count :: u32
  d_read_count :: u64
  d_write_count :: u64
  d_bytes_read :: u64
  d_bytes_written :: u64

text \<open>A disk's state is what a snapshot shows, with the I/O callbacks.\<close>

record 'w kb_block_disk_state = kb_block_disk_snapshot +
  d_io_ctx :: ptr
  d_read_fn :: "'w kb_block_disk_read_fn option"
  d_read_batch_fn :: "'w kb_block_disk_read_batch_fn option"
  d_write_fn :: "'w kb_block_disk_write_fn option"
  d_write_batch_fn :: "'w kb_block_disk_write_batch_fn option"
  d_write_flags_fn :: "'w kb_block_disk_write_flags_fn option"
  d_flush_fn :: "'w kb_block_disk_flush_fn option"

record kb_block_mq_tags =
  nr_tags :: u32
  nr_reserved_tags :: u32
  active_queues :: u32

record kb_block_tagset_snapshot =
  t_tag_set :: ptr
  t_tag_array :: ptr
  t_prepared_count :: u32
  t_nr_hw_queues :: u32
  t_map_queues_count :: u32
  t_pci_map_queues_count :: u32
  t_busy_iter_count :: u32
  t_wait_completed_count :: u32

record kb_block_tagset_state = kb_block_tagset_snapshot +
  t_tags :: "kb_block_mq_tags list"
  t_rqs :: "ptr list list"
  t_next_tag :: "u32 list"

record 'w block_subsystem =
  tagsets :: "kb_block_tagset_state list"
  queues :: "kb_block_queue_state list"
  disks :: "'w kb_block_disk_state list"
  next_disk_number :: u32

abbreviation (input) KB_BLOCK_SUBSYSTEM_QUEUE_MAX :: nat where "KB_BLOCK_SUBSYSTEM_QUEUE_MAX \<equiv> 4"
abbreviation (input) KB_BLOCK_SUBSYSTEM_TAGS_PER_QUEUE :: nat where "KB_BLOCK_SUBSYSTEM_TAGS_PER_QUEUE \<equiv> 64"
abbreviation (input) KB_BLOCK_DISK_WRITE_FUA :: u32 where "KB_BLOCK_DISK_WRITE_FUA \<equiv> 1"

definition block_initial :: "'w block_subsystem" where
  "block_initial = \<lparr>tagsets = [], queues = [], disks = [], next_disk_number = 1\<rparr>"

section \<open>State lists\<close>

definition tagset_state_find :: "'w block_subsystem \<Rightarrow> ptr \<Rightarrow> kb_block_tagset_state option" where
  "tagset_state_find b tag_set = find_key t_tag_set tag_set (tagsets b)"

text \<open>
  A state record at address \<open>state\<close>; the member \<^verbatim>\<open>tag_array\<close> follows the pointer
  \<^verbatim>\<open>tag_set\<close> of 8 bytes.
\<close>

definition new_tagset :: "ptr \<Rightarrow> ptr \<Rightarrow> kb_block_tagset_state" where
  "new_tagset state tag_set =
     \<lparr>t_tag_set = tag_set, t_tag_array = state + 8, t_prepared_count = 0, t_nr_hw_queues = 1, t_map_queues_count = 0,
      t_pci_map_queues_count = 0, t_busy_iter_count = 0, t_wait_completed_count = 0,
      t_tags = replicate KB_BLOCK_SUBSYSTEM_QUEUE_MAX
        \<lparr>nr_tags = of_nat KB_BLOCK_SUBSYSTEM_TAGS_PER_QUEUE, nr_reserved_tags = 0, active_queues = 1\<rparr>,
      t_rqs = replicate KB_BLOCK_SUBSYSTEM_QUEUE_MAX (replicate KB_BLOCK_SUBSYSTEM_TAGS_PER_QUEUE NULL),
      t_next_tag = replicate KB_BLOCK_SUBSYSTEM_QUEUE_MAX 1\<rparr>"

definition tagset_state_for ::
  "ptr \<Rightarrow> 'w block_subsystem \<Rightarrow> ptr \<Rightarrow> kb_block_tagset_state option \<times> 'w block_subsystem" where
  "tagset_state_for state b tag_set =
     (let existing = tagset_state_find b tag_set in
      if existing \<noteq> None \<or> tag_set = NULL then (existing, b)
      else if state = NULL then (None, b)
      else (Some (new_tagset state tag_set), b\<lparr>tagsets := new_tagset state tag_set # tagsets b\<rparr>))"

definition tagset_state_remove :: "'w block_subsystem \<Rightarrow> ptr \<Rightarrow> 'w block_subsystem" where
  "tagset_state_remove b tag_set = b\<lparr>tagsets := remove_key t_tag_set tag_set (tagsets b)\<rparr>"

definition queue_state_for :: "'w block_subsystem \<Rightarrow> ptr \<Rightarrow> kb_block_queue_state option" where
  "queue_state_for b queue = find_key q_queue queue (queues b)"

definition new_queue :: "ptr \<Rightarrow> ptr \<Rightarrow> kb_block_queue_state" where
  "new_queue queue tag_set =
     \<lparr>q_queue = queue, q_tag_set = tag_set,
      q_limits = \<lparr>logical_block_size = 512, physical_block_size = 512, io_min = 0, io_opt = 0,
        max_hw_sectors = 1024, max_segments = 1, max_discard_sectors = 0, max_discard_segments = 0,
        max_write_zeroes_sectors = 0, max_zone_append_sectors = 0, chunk_sectors = 0,
        dma_alignment = 0, virt_boundary_mask = 0, limit_flags = 0, write_cache = 0, limit_fua = 0\<rparr>,
      q_put_count = 0, q_destroy_count = 0\<rparr>"

definition queue_state_create ::
  "bool \<Rightarrow> 'w block_subsystem \<Rightarrow> ptr \<Rightarrow> ptr \<Rightarrow> bool \<times> 'w block_subsystem" where
  "queue_state_create calloc_ok b queue tag_set =
     (if \<not> calloc_ok then (False, b)
      else (True, b\<lparr>queues := new_queue queue tag_set # queues b\<rparr>))"

definition queue_state_remove :: "'w block_subsystem \<Rightarrow> ptr \<Rightarrow> 'w block_subsystem" where
  "queue_state_remove b queue = b\<lparr>queues := remove_key q_queue queue (queues b)\<rparr>"

definition disk_state_for :: "'w block_subsystem \<Rightarrow> ptr \<Rightarrow> 'w kb_block_disk_state option" where
  "disk_state_for b disk = find_key d_disk disk (disks b)"

definition new_disk :: "ptr \<Rightarrow> u32 \<Rightarrow> 'w kb_block_disk_state" where
  "new_disk disk number =
     \<lparr>d_disk = disk, d_queue = NULL, d_part0 = NULL, d_parent = NULL, d_groups = NULL,
      d_capacity_sectors = 0, d_disk_number = number, d_registered = 0, d_read_only = 0,
      d_notify_count = 0, d_put_count = 0, d_dead = 0, d_zoned_model = 0,
      d_readahead_update_count = 0, d_zone_revalidate_count = 0,
      d_read_count = 0, d_write_count = 0, d_bytes_read = 0, d_bytes_written = 0,
      d_io_ctx = NULL, d_read_fn = None, d_read_batch_fn = None, d_write_fn = None,
      d_write_batch_fn = None, d_write_flags_fn = None, d_flush_fn = None\<rparr>"

definition disk_state_create :: "bool \<Rightarrow> 'w block_subsystem \<Rightarrow> ptr \<Rightarrow> bool \<times> 'w block_subsystem" where
  "disk_state_create calloc_ok b disk =
     (if \<not> calloc_ok then (False, b)
      else (True, b\<lparr>disks := new_disk disk (next_disk_number b) # disks b,
                    next_disk_number := next_disk_number b + 1\<rparr>))"

definition disk_state_remove :: "'w block_subsystem \<Rightarrow> ptr \<Rightarrow> 'w block_subsystem" where
  "disk_state_remove b disk = b\<lparr>disks := remove_key d_disk disk (disks b)\<rparr>"

text \<open>Assignments through the pointer that a lookup returned.\<close>

definition on_queue :: "'w block_subsystem \<Rightarrow> ptr \<Rightarrow> (kb_block_queue_state \<Rightarrow> kb_block_queue_state) \<Rightarrow> 'w block_subsystem" where
  "on_queue b queue f = (case queue_state_for b queue of
       None \<Rightarrow> b
     | Some _ \<Rightarrow> b\<lparr>queues := update_key q_queue queue f (queues b)\<rparr>)"

definition on_disk :: "'w block_subsystem \<Rightarrow> ptr \<Rightarrow> ('w kb_block_disk_state \<Rightarrow> 'w kb_block_disk_state) \<Rightarrow> 'w block_subsystem" where
  "on_disk b disk f = (case disk_state_for b disk of
       None \<Rightarrow> b
     | Some _ \<Rightarrow> b\<lparr>disks := update_key d_disk disk f (disks b)\<rparr>)"

definition on_tagset :: "ptr \<Rightarrow> 'w block_subsystem \<Rightarrow> ptr \<Rightarrow> (kb_block_tagset_state \<Rightarrow> kb_block_tagset_state) \<Rightarrow> 'w block_subsystem" where
  "on_tagset state b tag_set f = (case tagset_state_for state b tag_set of
       (None, b') \<Rightarrow> b'
     | (Some _, b') \<Rightarrow> b'\<lparr>tagsets := update_key t_tag_set tag_set f (tagsets b')\<rparr>)"

section \<open>Request queues\<close>

definition kb_block_subsystem_queue_alloc ::
  "ptr \<Rightarrow> bool \<Rightarrow> 'w block_subsystem \<Rightarrow> ptr \<Rightarrow> ptr \<times> 'w block_subsystem" where
  "kb_block_subsystem_queue_alloc queue calloc_ok b tag_set =
     (if queue = NULL then (NULL, b)
      else case queue_state_create calloc_ok b queue tag_set of
          (False, b') \<Rightarrow> (NULL, b')
        | (True, b') \<Rightarrow> (queue, b'))"

text \<open>\<open>object_tag_set\<close> is the first word of a queue object that has no state record.\<close>

definition kb_block_subsystem_queue_tag_set :: "(ptr \<Rightarrow> ptr) \<Rightarrow> 'w block_subsystem \<Rightarrow> ptr \<Rightarrow> ptr" where
  "kb_block_subsystem_queue_tag_set object_tag_set b queue = (case queue_state_for b queue of
       Some state \<Rightarrow> q_tag_set state
     | None \<Rightarrow> if queue = NULL then NULL else object_tag_set queue)"

definition kb_block_subsystem_queue_put :: "'w block_subsystem \<Rightarrow> ptr \<Rightarrow> 'w block_subsystem" where
  "kb_block_subsystem_queue_put b queue = on_queue b queue (\<lambda>s. s\<lparr>q_put_count := q_put_count s + 1\<rparr>)"

definition kb_block_subsystem_queue_destroy :: "'w block_subsystem \<Rightarrow> ptr \<Rightarrow> 'w block_subsystem" where
  "kb_block_subsystem_queue_destroy b queue = on_queue b queue (\<lambda>s. s\<lparr>q_destroy_count := q_destroy_count s + 1\<rparr>)"

definition on_limits :: "'w block_subsystem \<Rightarrow> ptr \<Rightarrow> (kb_block_queue_limits \<Rightarrow> kb_block_queue_limits) \<Rightarrow> 'w block_subsystem" where
  "on_limits b queue f = on_queue b queue (\<lambda>s. s\<lparr>q_limits := f (q_limits s)\<rparr>)"

definition kb_block_subsystem_queue_set_logical_block_size :: "'w block_subsystem \<Rightarrow> ptr \<Rightarrow> u32 \<Rightarrow> 'w block_subsystem" where
  "kb_block_subsystem_queue_set_logical_block_size b queue sz =
     (if sz \<noteq> 0 then on_limits b queue (\<lambda>l. l\<lparr>logical_block_size := sz\<rparr>) else b)"

definition kb_block_subsystem_queue_set_physical_block_size :: "'w block_subsystem \<Rightarrow> ptr \<Rightarrow> u32 \<Rightarrow> 'w block_subsystem" where
  "kb_block_subsystem_queue_set_physical_block_size b queue sz =
     (if sz \<noteq> 0 then on_limits b queue (\<lambda>l. l\<lparr>physical_block_size := sz\<rparr>) else b)"

definition kb_block_subsystem_queue_set_io_min :: "'w block_subsystem \<Rightarrow> ptr \<Rightarrow> u32 \<Rightarrow> 'w block_subsystem" where
  "kb_block_subsystem_queue_set_io_min b queue sz = on_limits b queue (\<lambda>l. l\<lparr>io_min := sz\<rparr>)"

definition kb_block_subsystem_queue_set_io_opt :: "'w block_subsystem \<Rightarrow> ptr \<Rightarrow> u32 \<Rightarrow> 'w block_subsystem" where
  "kb_block_subsystem_queue_set_io_opt b queue sz = on_limits b queue (\<lambda>l. l\<lparr>io_opt := sz\<rparr>)"

definition kb_block_subsystem_queue_set_max_hw_sectors :: "'w block_subsystem \<Rightarrow> ptr \<Rightarrow> u32 \<Rightarrow> 'w block_subsystem" where
  "kb_block_subsystem_queue_set_max_hw_sectors b queue sectors = on_limits b queue (\<lambda>l. l\<lparr>max_hw_sectors := sectors\<rparr>)"

definition kb_block_subsystem_queue_set_max_segments :: "'w block_subsystem \<Rightarrow> ptr \<Rightarrow> u32 \<Rightarrow> 'w block_subsystem" where
  "kb_block_subsystem_queue_set_max_segments b queue segments = on_limits b queue (\<lambda>l. l\<lparr>max_segments := segments\<rparr>)"

definition kb_block_subsystem_queue_set_max_discard_sectors :: "'w block_subsystem \<Rightarrow> ptr \<Rightarrow> u32 \<Rightarrow> 'w block_subsystem" where
  "kb_block_subsystem_queue_set_max_discard_sectors b queue sectors = on_limits b queue (\<lambda>l. l\<lparr>max_discard_sectors := sectors\<rparr>)"

definition kb_block_subsystem_queue_set_max_discard_segments :: "'w block_subsystem \<Rightarrow> ptr \<Rightarrow> u32 \<Rightarrow> 'w block_subsystem" where
  "kb_block_subsystem_queue_set_max_discard_segments b queue segments = on_limits b queue (\<lambda>l. l\<lparr>max_discard_segments := segments\<rparr>)"

definition kb_block_subsystem_queue_set_max_write_zeroes_sectors :: "'w block_subsystem \<Rightarrow> ptr \<Rightarrow> u32 \<Rightarrow> 'w block_subsystem" where
  "kb_block_subsystem_queue_set_max_write_zeroes_sectors b queue sectors = on_limits b queue (\<lambda>l. l\<lparr>max_write_zeroes_sectors := sectors\<rparr>)"

definition kb_block_subsystem_queue_set_max_zone_append_sectors :: "'w block_subsystem \<Rightarrow> ptr \<Rightarrow> u32 \<Rightarrow> 'w block_subsystem" where
  "kb_block_subsystem_queue_set_max_zone_append_sectors b queue sectors = on_limits b queue (\<lambda>l. l\<lparr>max_zone_append_sectors := sectors\<rparr>)"

definition kb_block_subsystem_queue_set_chunk_sectors :: "'w block_subsystem \<Rightarrow> ptr \<Rightarrow> u32 \<Rightarrow> 'w block_subsystem" where
  "kb_block_subsystem_queue_set_chunk_sectors b queue sectors = on_limits b queue (\<lambda>l. l\<lparr>chunk_sectors := sectors\<rparr>)"

definition kb_block_subsystem_queue_set_dma_alignment :: "'w block_subsystem \<Rightarrow> ptr \<Rightarrow> u32 \<Rightarrow> 'w block_subsystem" where
  "kb_block_subsystem_queue_set_dma_alignment b queue mask_value = on_limits b queue (\<lambda>l. l\<lparr>dma_alignment := mask_value\<rparr>)"

definition kb_block_subsystem_queue_set_virt_boundary :: "'w block_subsystem \<Rightarrow> ptr \<Rightarrow> u64 \<Rightarrow> 'w block_subsystem" where
  "kb_block_subsystem_queue_set_virt_boundary b queue mask_value = on_limits b queue (\<lambda>l. l\<lparr>virt_boundary_mask := mask_value\<rparr>)"

definition kb_block_subsystem_queue_set_write_cache :: "'w block_subsystem \<Rightarrow> ptr \<Rightarrow> int \<Rightarrow> int \<Rightarrow> 'w block_subsystem" where
  "kb_block_subsystem_queue_set_write_cache b queue wc fua =
     on_limits b queue (\<lambda>l. l\<lparr>write_cache := of_bool (wc \<noteq> 0), limit_fua := of_bool (fua \<noteq> 0)\<rparr>)"

definition kb_block_subsystem_queue_flag_set :: "'w block_subsystem \<Rightarrow> ptr \<Rightarrow> u32 \<Rightarrow> 'w block_subsystem" where
  "kb_block_subsystem_queue_flag_set b queue flag =
     (if flag < 32 then on_limits b queue (\<lambda>l. l\<lparr>limit_flags := limit_flags l OR push_bit (unat flag) 1\<rparr>) else b)"

definition kb_block_subsystem_queue_limits :: "'w block_subsystem \<Rightarrow> ptr \<Rightarrow> bool \<Rightarrow> int + kb_block_queue_limits" where
  "kb_block_subsystem_queue_limits b queue out = (case queue_state_for b queue of
       None \<Rightarrow> Inl (-22)
     | Some state \<Rightarrow> if \<not> out then Inl (-22) else Inr (q_limits state))"

section \<open>Disks\<close>

definition disk_logical_block_size :: "'w block_subsystem \<Rightarrow> 'w kb_block_disk_state option \<Rightarrow> u32" where
  "disk_logical_block_size b disk_state = (case disk_state of
       None \<Rightarrow> 512
     | Some state \<Rightarrow>
         (case queue_state_for b (d_queue state) of
            None \<Rightarrow> 512
          | Some queue \<Rightarrow>
              if logical_block_size (q_limits queue) = 0 then 512 else logical_block_size (q_limits queue)))"

text \<open>The compiler's checked arithmetic: the wrapped result, or \<open>None\<close> when it overflows.\<close>

definition mul_overflow :: "u64 \<Rightarrow> u64 \<Rightarrow> u64 option" where
  "mul_overflow x y = (if unat x * unat y < 2 ^ 64 then Some (x * y) else None)"

definition add_overflow :: "u64 \<Rightarrow> u64 \<Rightarrow> u64 option" where
  "add_overflow x y = (if unat x + unat y < 2 ^ 64 then Some (x + y) else None)"

definition disk_io_range_valid :: "'w block_subsystem \<Rightarrow> 'w kb_block_disk_state \<Rightarrow> u64 \<Rightarrow> u64 \<Rightarrow> int" where
  "disk_io_range_valid b state sector byte_count =
     (if byte_count = 0 then -22
      else case mul_overflow sector 512 of
        None \<Rightarrow> -34
      | Some offset \<Rightarrow>
      case add_overflow offset byte_count of
        None \<Rightarrow> -34
      | Some end_offset \<Rightarrow>
      case mul_overflow (d_capacity_sectors state) 512 of
        None \<Rightarrow> -34
      | Some capacity_bytes \<Rightarrow>
        if end_offset > capacity_bytes then -34
        else
          let block = ucast (disk_logical_block_size b (Some state)) in
          if offset mod block \<noteq> 0 \<or> byte_count mod block \<noteq> 0 then -22 else 0)"

definition kb_block_subsystem_disk_alloc :: "ptr \<Rightarrow> bool \<Rightarrow> 'w block_subsystem \<Rightarrow> ptr \<times> 'w block_subsystem" where
  "kb_block_subsystem_disk_alloc disk calloc_ok b =
     (if disk = NULL then (NULL, b)
      else case disk_state_create calloc_ok b disk of
          (False, b') \<Rightarrow> (NULL, b')
        | (True, b') \<Rightarrow> (disk, b'))"

definition kb_block_subsystem_disk_attach :: "'w block_subsystem \<Rightarrow> ptr \<Rightarrow> ptr \<Rightarrow> ptr \<Rightarrow> int \<times> 'w block_subsystem" where
  "kb_block_subsystem_disk_attach b disk queue part0 =
     (if disk_state_for b disk = None \<or> queue = NULL \<or> part0 = NULL then (-22, b)
      else (0, on_disk b disk (\<lambda>s. s\<lparr>d_queue := queue, d_part0 := part0\<rparr>)))"

definition kb_block_subsystem_disk_register :: "'w block_subsystem \<Rightarrow> ptr \<Rightarrow> ptr \<Rightarrow> ptr \<Rightarrow> int \<times> 'w block_subsystem" where
  "kb_block_subsystem_disk_register b parent disk groups =
     (if disk_state_for b disk = None then (-22, b)
      else (0, on_disk b disk (\<lambda>s. s\<lparr>d_parent := parent, d_groups := groups, d_registered := 1\<rparr>)))"

definition kb_block_subsystem_disk_unregister :: "'w block_subsystem \<Rightarrow> ptr \<Rightarrow> 'w block_subsystem" where
  "kb_block_subsystem_disk_unregister b disk = on_disk b disk (\<lambda>s. s\<lparr>d_registered := 0\<rparr>)"

definition kb_block_subsystem_disk_put :: "'w block_subsystem \<Rightarrow> ptr \<Rightarrow> 'w block_subsystem" where
  "kb_block_subsystem_disk_put b disk = on_disk b disk (\<lambda>s. s\<lparr>d_put_count := d_put_count s + 1\<rparr>)"

definition kb_block_subsystem_disk_set_capacity :: "'w block_subsystem \<Rightarrow> ptr \<Rightarrow> u64 \<Rightarrow> 'w block_subsystem" where
  "kb_block_subsystem_disk_set_capacity b disk sectors = on_disk b disk (\<lambda>s. s\<lparr>d_capacity_sectors := sectors\<rparr>)"

definition kb_block_subsystem_disk_set_capacity_and_notify ::
  "'w block_subsystem \<Rightarrow> ptr \<Rightarrow> u64 \<Rightarrow> int \<times> 'w block_subsystem" where
  "kb_block_subsystem_disk_set_capacity_and_notify b disk sectors = (case disk_state_for b disk of
       None \<Rightarrow> (0, b)
     | Some state \<Rightarrow>
         (of_bool (d_capacity_sectors state \<noteq> sectors),
          on_disk b disk (\<lambda>s. s\<lparr>d_capacity_sectors := sectors, d_notify_count := d_notify_count s + 1\<rparr>)))"

definition kb_block_subsystem_disk_set_read_only :: "'w block_subsystem \<Rightarrow> ptr \<Rightarrow> int \<Rightarrow> 'w block_subsystem" where
  "kb_block_subsystem_disk_set_read_only b disk read_only =
     on_disk b disk (\<lambda>s. s\<lparr>d_read_only := of_bool (read_only \<noteq> 0)\<rparr>)"

definition kb_block_subsystem_disk_mark_dead :: "'w block_subsystem \<Rightarrow> ptr \<Rightarrow> 'w block_subsystem" where
  "kb_block_subsystem_disk_mark_dead b disk = on_disk b disk (\<lambda>s. s\<lparr>d_dead := 1, d_registered := 0\<rparr>)"

definition kb_block_subsystem_disk_set_zoned :: "'w block_subsystem \<Rightarrow> ptr \<Rightarrow> u32 \<Rightarrow> 'w block_subsystem" where
  "kb_block_subsystem_disk_set_zoned b disk model = on_disk b disk (\<lambda>s. s\<lparr>d_zoned_model := model\<rparr>)"

definition kb_block_subsystem_disk_update_readahead :: "'w block_subsystem \<Rightarrow> ptr \<Rightarrow> 'w block_subsystem" where
  "kb_block_subsystem_disk_update_readahead b disk =
     on_disk b disk (\<lambda>s. s\<lparr>d_readahead_update_count := d_readahead_update_count s + 1\<rparr>)"

definition kb_block_subsystem_disk_revalidate_zones :: "'w block_subsystem \<Rightarrow> ptr \<Rightarrow> int \<times> 'w block_subsystem" where
  "kb_block_subsystem_disk_revalidate_zones b disk =
     (if disk_state_for b disk = None then (-22, b)
      else (0, on_disk b disk (\<lambda>s. s\<lparr>d_zone_revalidate_count := d_zone_revalidate_count s + 1\<rparr>)))"

definition kb_block_subsystem_disk_snapshot :: "'w block_subsystem \<Rightarrow> ptr \<Rightarrow> bool \<Rightarrow> int + kb_block_disk_snapshot" where
  "kb_block_subsystem_disk_snapshot b disk out = (case disk_state_for b disk of
       None \<Rightarrow> Inl (-22)
     | Some state \<Rightarrow> if \<not> out then Inl (-22) else Inr (kb_block_disk_snapshot.truncate state))"

definition kb_block_subsystem_first_registered_disk :: "'w block_subsystem \<Rightarrow> ptr" where
  "kb_block_subsystem_first_registered_disk b =
     (case find (\<lambda>s. d_registered s \<noteq> 0 \<and> d_dead s = 0) (disks b) of
        Some state \<Rightarrow> d_disk state
      | None \<Rightarrow> NULL)"

definition kb_block_subsystem_disk_set_io ::
  "'w block_subsystem \<Rightarrow> ptr \<Rightarrow> ptr \<Rightarrow> 'w kb_block_disk_read_fn option \<Rightarrow> 'w kb_block_disk_write_fn option \<Rightarrow> 'w block_subsystem" where
  "kb_block_subsystem_disk_set_io b disk ctx read_fn write_fn =
     on_disk b disk (\<lambda>s. s\<lparr>d_io_ctx := ctx, d_read_fn := read_fn, d_write_fn := write_fn\<rparr>)"

definition kb_block_subsystem_disk_set_read_batch ::
  "'w block_subsystem \<Rightarrow> ptr \<Rightarrow> 'w kb_block_disk_read_batch_fn option \<Rightarrow> 'w block_subsystem" where
  "kb_block_subsystem_disk_set_read_batch b disk read_batch_fn =
     on_disk b disk (\<lambda>s. s\<lparr>d_read_batch_fn := read_batch_fn\<rparr>)"

definition kb_block_subsystem_disk_set_write_batch ::
  "'w block_subsystem \<Rightarrow> ptr \<Rightarrow> 'w kb_block_disk_write_batch_fn option \<Rightarrow> 'w block_subsystem" where
  "kb_block_subsystem_disk_set_write_batch b disk write_batch_fn =
     on_disk b disk (\<lambda>s. s\<lparr>d_write_batch_fn := write_batch_fn\<rparr>)"

definition kb_block_subsystem_disk_set_write_flags ::
  "'w block_subsystem \<Rightarrow> ptr \<Rightarrow> 'w kb_block_disk_write_flags_fn option \<Rightarrow> 'w block_subsystem" where
  "kb_block_subsystem_disk_set_write_flags b disk write_flags_fn =
     on_disk b disk (\<lambda>s. s\<lparr>d_write_flags_fn := write_flags_fn\<rparr>)"

definition kb_block_subsystem_disk_set_flush ::
  "'w block_subsystem \<Rightarrow> ptr \<Rightarrow> 'w kb_block_disk_flush_fn option \<Rightarrow> 'w block_subsystem" where
  "kb_block_subsystem_disk_set_flush b disk flush_fn =
     on_disk b disk (\<lambda>s. s\<lparr>d_flush_fn := flush_fn\<rparr>)"

section \<open>Disk I/O\<close>

text \<open>
  A result is the C result, the buffers after the call, the driver's state and the subsystem.
  The number of requests of a batch is the length of the list.
\<close>

definition kb_block_subsystem_disk_read ::
  "'w block_subsystem \<Rightarrow> ptr \<Rightarrow> u64 \<Rightarrow> bytes option \<Rightarrow> u64 \<Rightarrow> 'w \<Rightarrow> int \<times> bytes option \<times> 'w \<times> 'w block_subsystem" where
  "kb_block_subsystem_disk_read b disk sector buffer byte_count w =
     (case (disk_state_for b disk, buffer) of
        (Some state, Some content) \<Rightarrow>
          if d_dead state \<noteq> 0 \<or> d_registered state = 0 then (-19, buffer, w, b)
          else if disk_io_range_valid b state sector byte_count \<noteq> 0
          then (disk_io_range_valid b state sector byte_count, buffer, w, b)
          else (case d_read_fn state of
              None \<Rightarrow> (-95, buffer, w, b)
            | Some read_fn \<Rightarrow>
                (case read_fn (d_io_ctx state) sector content byte_count w of
                   (result, content', w') \<Rightarrow>
                     (result, Some content', w',
                      if result = 0
                      then on_disk b disk (\<lambda>s. s\<lparr>d_read_count := d_read_count s + 1,
                                                  d_bytes_read := d_bytes_read s + byte_count\<rparr>)
                      else b)))
      | _ \<Rightarrow> (-22, buffer, w, b))"

definition rr_content :: "kb_block_disk_read_request \<Rightarrow> bytes" where
  "rr_content r = (case rr_buffer r of None \<Rightarrow> [] | Some content \<Rightarrow> content)"

definition wr_content :: "kb_block_disk_write_request \<Rightarrow> bytes" where
  "wr_content r = (case wr_buffer r of None \<Rightarrow> [] | Some content \<Rightarrow> content)"

fun read_loop :: "'w kb_block_disk_read_fn option \<Rightarrow> ptr \<Rightarrow> kb_block_disk_read_request list \<Rightarrow> 'w \<Rightarrow> int \<times> bytes list \<times> 'w" where
  "read_loop read_fn ctx [] w = (0, [], w)"
| "read_loop read_fn ctx (r # rs) w =
     (case (case read_fn of
              None \<Rightarrow> (-95, rr_content r, w)
            | Some f \<Rightarrow> f ctx (rr_sector r) (rr_content r) (rr_byte_count r) w) of
        (result, content, w') \<Rightarrow>
          if result \<noteq> 0 then (result, content # map rr_content rs, w')
          else (case read_loop read_fn ctx rs w' of
                  (result', contents, w'') \<Rightarrow> (result', content # contents, w'')))"

definition kb_block_subsystem_disk_read_batch ::
  "'w block_subsystem \<Rightarrow> ptr \<Rightarrow> kb_block_disk_read_request list option \<Rightarrow> 'w \<Rightarrow>
     int \<times> bytes list option \<times> 'w \<times> 'w block_subsystem" where
  "kb_block_subsystem_disk_read_batch b disk requests w =
     (case (disk_state_for b disk, requests) of
        (Some state, Some rs) \<Rightarrow>
          if rs = [] then (-22, Some [], w, b)
          else if d_dead state \<noteq> 0 \<or> d_registered state = 0 then (-19, Some (map rr_content rs), w, b)
          else if list_ex (\<lambda>r. rr_buffer r = None \<or> disk_io_range_valid b state (rr_sector r) (rr_byte_count r) \<noteq> 0) rs
          then (-22, Some (map rr_content rs), w, b)
          else (case (case d_read_batch_fn state of
                        Some read_batch_fn \<Rightarrow> read_batch_fn (d_io_ctx state) rs w
                      | None \<Rightarrow> read_loop (d_read_fn state) (d_io_ctx state) rs w) of
                  (result, contents, w') \<Rightarrow>
                    (result, Some contents, w',
                     if result = 0
                     then on_disk b disk (\<lambda>s. s\<lparr>d_read_count := d_read_count s + of_nat (length rs),
                            d_bytes_read := foldl (+) (d_bytes_read s) (map rr_byte_count rs)\<rparr>)
                     else b))
      | _ \<Rightarrow> (-22, map_option (map rr_content) requests, w, b))"

definition kb_block_subsystem_disk_write_flags ::
  "'w block_subsystem \<Rightarrow> ptr \<Rightarrow> u64 \<Rightarrow> bytes option \<Rightarrow> u64 \<Rightarrow> u32 \<Rightarrow> 'w \<Rightarrow> int \<times> 'w \<times> 'w block_subsystem" where
  "kb_block_subsystem_disk_write_flags b disk sector buffer byte_count flags w =
     (case (disk_state_for b disk, buffer) of
        (Some state, Some content) \<Rightarrow>
          if d_dead state \<noteq> 0 \<or> d_registered state = 0 then (-19, w, b)
          else if d_read_only state \<noteq> 0 then (-30, w, b)
          else if disk_io_range_valid b state sector byte_count \<noteq> 0
          then (disk_io_range_valid b state sector byte_count, w, b)
          else if flags AND NOT KB_BLOCK_DISK_WRITE_FUA \<noteq> 0 then (-95, w, b)
          else (case (case (d_write_flags_fn state, d_write_fn state) of
                        (Some write_flags_fn, _) \<Rightarrow>
                          Some (write_flags_fn (d_io_ctx state) sector content byte_count flags w)
                      | (None, Some write_fn) \<Rightarrow>
                          Some (case write_fn (d_io_ctx state) sector content byte_count w of
                            (result, w') \<Rightarrow>
                              if result = 0 \<and> flags AND KB_BLOCK_DISK_WRITE_FUA \<noteq> 0
                              then (case d_flush_fn state of
                                      None \<Rightarrow> (-95, w')
                                    | Some flush_fn \<Rightarrow> flush_fn (d_io_ctx state) w')
                              else (result, w'))
                      | (None, None) \<Rightarrow> None) of
                  None \<Rightarrow> (-95, w, b)
                | Some (result, w') \<Rightarrow>
                    (result, w',
                     if result = 0
                     then on_disk b disk (\<lambda>s. s\<lparr>d_write_count := d_write_count s + 1,
                                                 d_bytes_written := d_bytes_written s + byte_count\<rparr>)
                     else b))
      | _ \<Rightarrow> (-22, w, b))"

definition kb_block_subsystem_disk_write ::
  "'w block_subsystem \<Rightarrow> ptr \<Rightarrow> u64 \<Rightarrow> bytes option \<Rightarrow> u64 \<Rightarrow> 'w \<Rightarrow> int \<times> 'w \<times> 'w block_subsystem" where
  "kb_block_subsystem_disk_write b disk sector buffer byte_count w =
     kb_block_subsystem_disk_write_flags b disk sector buffer byte_count 0 w"

fun write_loop :: "'w kb_block_disk_write_fn option \<Rightarrow> ptr \<Rightarrow> kb_block_disk_write_request list \<Rightarrow> 'w \<Rightarrow> int \<times> 'w" where
  "write_loop write_fn ctx [] w = (0, w)"
| "write_loop write_fn ctx (r # rs) w =
     (case (case write_fn of
              None \<Rightarrow> (-95, w)
            | Some f \<Rightarrow> f ctx (wr_sector r) (wr_content r) (wr_byte_count r) w) of
        (result, w') \<Rightarrow> if result \<noteq> 0 then (result, w') else write_loop write_fn ctx rs w')"

definition kb_block_subsystem_disk_write_batch ::
  "'w block_subsystem \<Rightarrow> ptr \<Rightarrow> kb_block_disk_write_request list option \<Rightarrow> 'w \<Rightarrow> int \<times> 'w \<times> 'w block_subsystem" where
  "kb_block_subsystem_disk_write_batch b disk requests w =
     (case (disk_state_for b disk, requests) of
        (Some state, Some rs) \<Rightarrow>
          if rs = [] then (-22, w, b)
          else if d_dead state \<noteq> 0 \<or> d_registered state = 0 then (-19, w, b)
          else if d_read_only state \<noteq> 0 then (-30, w, b)
          else if list_ex (\<lambda>r. wr_buffer r = None \<or> disk_io_range_valid b state (wr_sector r) (wr_byte_count r) \<noteq> 0) rs
          then (-22, w, b)
          else (case (case d_write_batch_fn state of
                        Some write_batch_fn \<Rightarrow> write_batch_fn (d_io_ctx state) rs w
                      | None \<Rightarrow> write_loop (d_write_fn state) (d_io_ctx state) rs w) of
                  (result, w') \<Rightarrow>
                    (result, w',
                     if result = 0
                     then on_disk b disk (\<lambda>s. s\<lparr>d_write_count := d_write_count s + of_nat (length rs),
                            d_bytes_written := foldl (+) (d_bytes_written s) (map wr_byte_count rs)\<rparr>)
                     else b))
      | _ \<Rightarrow> (-22, w, b))"

definition kb_block_subsystem_disk_flush :: "'w block_subsystem \<Rightarrow> ptr \<Rightarrow> 'w \<Rightarrow> int \<times> 'w" where
  "kb_block_subsystem_disk_flush b disk w = (case disk_state_for b disk of
       None \<Rightarrow> (-22, w)
     | Some state \<Rightarrow>
         if d_dead state \<noteq> 0 \<or> d_registered state = 0 then (-19, w)
         else (case d_flush_fn state of None \<Rightarrow> (0, w) | Some flush_fn \<Rightarrow> flush_fn (d_io_ctx state) w))"

definition kb_block_subsystem_object_free :: "'w block_subsystem \<Rightarrow> ptr \<Rightarrow> 'w block_subsystem" where
  "kb_block_subsystem_object_free b object = queue_state_remove (disk_state_remove b object) object"

section \<open>Tag sets\<close>

definition kb_block_subsystem_tagset_prepare :: "ptr \<Rightarrow> 'w block_subsystem \<Rightarrow> ptr \<Rightarrow> int \<times> 'w block_subsystem" where
  "kb_block_subsystem_tagset_prepare state b tag_set = (case tagset_state_for state b tag_set of
       (None, b') \<Rightarrow> (-12, b')
     | (Some _, b') \<Rightarrow> (0, on_tagset state b tag_set (\<lambda>t. t\<lparr>t_prepared_count := t_prepared_count t + 1\<rparr>)))"

definition kb_block_subsystem_tagset_free :: "'w block_subsystem \<Rightarrow> ptr \<Rightarrow> 'w block_subsystem" where
  "kb_block_subsystem_tagset_free b tag_set = tagset_state_remove b tag_set"

definition kb_block_subsystem_tagset_set_hw_queues :: "ptr \<Rightarrow> 'w block_subsystem \<Rightarrow> ptr \<Rightarrow> u32 \<Rightarrow> 'w block_subsystem" where
  "kb_block_subsystem_tagset_set_hw_queues state b tag_set nr_hw_queues =
     (let nr = if nr_hw_queues = 0 then 1 else nr_hw_queues;
          nr = if nr > 4 then 4 else nr
      in on_tagset state b tag_set
           (\<lambda>t. t\<lparr>t_nr_hw_queues := nr,
                   t_tags := map (\<lambda>(i, tag). tag\<lparr>active_queues := if i < unat nr then 1 else 0\<rparr>)
                     (enumerate 0 (t_tags t))\<rparr>))"

definition kb_block_subsystem_tagset_note_map_queues :: "ptr \<Rightarrow> 'w block_subsystem \<Rightarrow> ptr \<Rightarrow> int \<Rightarrow> 'w block_subsystem" where
  "kb_block_subsystem_tagset_note_map_queues state b tag_set pci =
     on_tagset state b tag_set
       (\<lambda>t. if pci \<noteq> 0 then t\<lparr>t_pci_map_queues_count := t_pci_map_queues_count t + 1\<rparr>
            else t\<lparr>t_map_queues_count := t_map_queues_count t + 1\<rparr>)"

definition kb_block_subsystem_tagset_note_busy_iter :: "ptr \<Rightarrow> 'w block_subsystem \<Rightarrow> ptr \<Rightarrow> 'w block_subsystem" where
  "kb_block_subsystem_tagset_note_busy_iter state b tag_set =
     on_tagset state b tag_set (\<lambda>t. t\<lparr>t_busy_iter_count := t_busy_iter_count t + 1\<rparr>)"

definition kb_block_subsystem_tagset_note_wait_completed :: "ptr \<Rightarrow> 'w block_subsystem \<Rightarrow> ptr \<Rightarrow> 'w block_subsystem" where
  "kb_block_subsystem_tagset_note_wait_completed state b tag_set =
     on_tagset state b tag_set (\<lambda>t. t\<lparr>t_wait_completed_count := t_wait_completed_count t + 1\<rparr>)"

definition kb_block_subsystem_tagset_snapshot :: "'w block_subsystem \<Rightarrow> ptr \<Rightarrow> bool \<Rightarrow> int + kb_block_tagset_snapshot" where
  "kb_block_subsystem_tagset_snapshot b tag_set out = (case tagset_state_find b tag_set of
       None \<Rightarrow> Inl (-22)
     | Some state \<Rightarrow> if \<not> out then Inl (-22) else Inr (kb_block_tagset_snapshot.truncate state))"

definition kb_block_subsystem_tagset_array :: "ptr \<Rightarrow> 'w block_subsystem \<Rightarrow> ptr \<Rightarrow> ptr \<times> 'w block_subsystem" where
  "kb_block_subsystem_tagset_array state b tag_set = (case tagset_state_for state b tag_set of
       (None, b') \<Rightarrow> (NULL, b')
     | (Some t, b') \<Rightarrow> (t_tag_array t, b'))"

text \<open>The scan of \<^verbatim>\<open>alloc_tag\<close>; the last argument counts the rounds that are left.\<close>

fun alloc_tag_scan :: "ptr list \<Rightarrow> u32 \<Rightarrow> u32 \<Rightarrow> nat \<Rightarrow> u32 option" where
  "alloc_tag_scan rqs limit tag 0 = None"
| "alloc_tag_scan rqs limit tag (Suc rounds) =
     (let tag = if tag = 0 \<or> tag \<ge> limit then 1 else tag in
      if rqs ! unat tag = NULL then Some tag else alloc_tag_scan rqs limit (tag + 1) rounds)"

definition kb_block_subsystem_tagset_alloc_tag ::
  "ptr \<Rightarrow> 'w block_subsystem \<Rightarrow> ptr \<Rightarrow> nat \<Rightarrow> u32 \<times> 'w block_subsystem" where
  "kb_block_subsystem_tagset_alloc_tag state b tag_set queue_index =
     (case tagset_state_for state b tag_set of
        (None, b') \<Rightarrow> (1, b')
      | (Some t, b') \<Rightarrow>
          if queue_index \<ge> KB_BLOCK_SUBSYSTEM_QUEUE_MAX then (1, b')
          else
            let limit = nr_tags (t_tags t ! queue_index) in
            if limit \<le> 1 then (0, b')
            else (case alloc_tag_scan (t_rqs t ! queue_index) limit (t_next_tag t ! queue_index) (unat (limit - 1)) of
                None \<Rightarrow> (-1, b')
              | Some tag \<Rightarrow>
                  (tag, on_tagset state b tag_set
                     (\<lambda>t. t\<lparr>t_next_tag := (t_next_tag t)[queue_index := if tag + 1 \<ge> limit then 1 else tag + 1]\<rparr>))))"

definition kb_block_subsystem_tagset_bind_request ::
  "ptr \<Rightarrow> 'w block_subsystem \<Rightarrow> ptr \<Rightarrow> nat \<Rightarrow> u32 \<Rightarrow> ptr \<Rightarrow> int \<times> 'w block_subsystem" where
  "kb_block_subsystem_tagset_bind_request state b tag_set queue_index tag request =
     (case tagset_state_for state b tag_set of
        (None, b') \<Rightarrow> (-22, b')
      | (Some t, b') \<Rightarrow>
          if queue_index \<ge> KB_BLOCK_SUBSYSTEM_QUEUE_MAX \<or> tag \<ge> nr_tags (t_tags t ! queue_index) then (-22, b')
          else (0, on_tagset state b tag_set
                  (\<lambda>t. t\<lparr>t_rqs := (t_rqs t)[queue_index := (t_rqs t ! queue_index)[unat tag := request]]\<rparr>)))"

definition kb_block_subsystem_tagset_unbind_request ::
  "ptr \<Rightarrow> 'w block_subsystem \<Rightarrow> ptr \<Rightarrow> nat \<Rightarrow> u32 \<Rightarrow> ptr \<Rightarrow> 'w block_subsystem" where
  "kb_block_subsystem_tagset_unbind_request state b tag_set queue_index tag request =
     (case tagset_state_for state b tag_set of
        (None, b') \<Rightarrow> b'
      | (Some t, b') \<Rightarrow>
          if queue_index \<ge> KB_BLOCK_SUBSYSTEM_QUEUE_MAX \<or> tag \<ge> nr_tags (t_tags t ! queue_index) then b'
          else if t_rqs t ! queue_index ! unat tag = request
          then on_tagset state b tag_set
                 (\<lambda>t. t\<lparr>t_rqs := (t_rqs t)[queue_index := (t_rqs t ! queue_index)[unat tag := NULL]]\<rparr>)
          else b')"

definition kb_block_subsystem_tagset_request ::
  "ptr \<Rightarrow> 'w block_subsystem \<Rightarrow> ptr \<Rightarrow> nat \<Rightarrow> u32 \<Rightarrow> ptr \<times> 'w block_subsystem" where
  "kb_block_subsystem_tagset_request state b tag_set queue_index tag =
     (case tagset_state_for state b tag_set of
        (None, b') \<Rightarrow> (NULL, b')
      | (Some t, b') \<Rightarrow>
          if queue_index \<ge> KB_BLOCK_SUBSYSTEM_QUEUE_MAX \<or> tag \<ge> nr_tags (t_tags t ! queue_index) then (NULL, b')
          else (t_rqs t ! queue_index ! unat tag, b'))"

end
