(* ===== verification/Block_Properties.thy ===== *)
theory Block_Properties
  imports Block
begin

text \<open>
  Correctness of the block subsystem: the invariant of its three lists over every operation, the
  range check of disk I/O, what the I/O entry points guarantee to the driver, batches, and the
  allocation of tags.
\<close>

section \<open>Lookups and updates\<close>

lemma disk_state_for_on_disk:
  assumes "\<And>s. d_disk (f s) = d_disk s"
  shows "disk_state_for (on_disk b disk f) disk' =
    (if disk' = disk then map_option f (disk_state_for b disk') else disk_state_for b disk')"
  using find_key_update [of d_disk f, OF assms]
  by (auto simp: on_disk_def disk_state_for_def split: option.splits)

lemma on_disk_on_disk:
  assumes "\<And>s. d_disk (f s) = d_disk s" "\<And>s. d_disk (g s) = d_disk s"
  shows "on_disk (on_disk b disk g) disk f = on_disk b disk (f \<circ> g)"
proof (cases "disk_state_for b disk")
  case None
  then show ?thesis by (simp add: on_disk_def)
next
  case (Some s)
  have "disk_state_for (on_disk b disk g) disk = Some (g s)"
    using disk_state_for_on_disk [of g b disk disk, OF assms(2)] Some by simp
  then show ?thesis
    using Some update_key_twice [of d_disk g disk f "disks b", OF assms(2)]
    by (simp add: on_disk_def)
qed

lemma queues_on_disk [simp]: "queues (on_disk b disk f) = queues b" "tagsets (on_disk b disk f) = tagsets b"
  by (simp_all add: on_disk_def split: option.splits)

lemma tagset_state_for_Some:
  "tagset_state_for state b tag_set = (Some t, b') \<Longrightarrow> tagset_state_find b' tag_set = Some t \<and> tag_set \<noteq> NULL"
  by (auto simp: tagset_state_for_def tagset_state_find_def find_key_Cons new_tagset_def Let_def split: if_splits)

lemma tagset_state_for_found:
  "tagset_state_find b tag_set = Some t \<Longrightarrow> tagset_state_for state b tag_set = (Some t, b)"
  by (simp add: tagset_state_for_def)

lemma tagset_state_find_on_tagset:
  assumes "tagset_state_find b tag_set = Some t" "\<And>t. t_tag_set (f t) = t_tag_set t"
  shows "tagset_state_find (on_tagset state b tag_set f) tag_set = Some (f t)"
  using assms find_key_update [of t_tag_set f, OF assms(2)]
  by (simp add: on_tagset_def tagset_state_for_found) (simp add: tagset_state_find_def)

section \<open>The range check\<close>

lemma word_mod_eq_0_iff: "(x :: u64) mod y = 0 \<longleftrightarrow> unat x mod unat y = 0"
  by (simp flip: unat_eq_0 add: unat_mod)

lemma disk_logical_block_size_pos: "disk_logical_block_size b s \<noteq> 0"
  by (simp add: disk_logical_block_size_def split: option.splits)

lemma disk_io_range_valid_iff:
  "disk_io_range_valid b s sector n = 0 \<longleftrightarrow>
     n \<noteq> 0 \<and> unat sector * 512 + unat n \<le> unat (d_capacity_sectors s) * 512 \<and>
     unat (d_capacity_sectors s) * 512 < 2 ^ 64 \<and>
     unat sector * 512 mod unat (disk_logical_block_size b (Some s)) = 0 \<and>
     unat n mod unat (disk_logical_block_size b (Some s)) = 0"
proof -
  let ?L = "ucast (disk_logical_block_size b (Some s)) :: u64"
  have mul: "unat (x * 512) = unat x * 512" if "unat x * 512 < 2 ^ 64" for x :: u64
    using that unat_mult_no_wrap [of x 512] by simp
  have add: "unat (sector * 512 + n) = unat sector * 512 + unat n"
    if "unat sector * 512 < 2 ^ 64" "unat (sector * 512) + unat n < 2 ^ 64"
    using that mul [of sector] unat_add_no_wrap [of "sector * 512" n] by simp
  show ?thesis
    using mul [of sector] mul [of "d_capacity_sectors s"] add
    by (auto simp: disk_io_range_valid_def mul_overflow_def add_overflow_def word_mod_eq_0_iff
        word_less_nat_alt Let_def not_less split: option.splits if_splits)
qed

lemma disk_io_range_valid_cases: "disk_io_range_valid b s sector n \<in> {0, -22, -34}"
  by (simp add: disk_io_range_valid_def Let_def split: option.splits)

section \<open>Disk I/O\<close>

text \<open>A disk that accepts an access: it is known, live and registered, and the range is inside it.\<close>

definition io_allowed :: "'w block_subsystem \<Rightarrow> ptr \<Rightarrow> u64 \<Rightarrow> u64 \<Rightarrow> bool" where
  "io_allowed b disk sector n \<longleftrightarrow> (\<exists>s. disk_state_for b disk = Some s \<and> d_dead s = 0 \<and> d_registered s \<noteq> 0 \<and>
     n \<noteq> 0 \<and> unat sector * 512 + unat n \<le> unat (d_capacity_sectors s) * 512 \<and>
     unat sector * 512 mod unat (disk_logical_block_size b (Some s)) = 0 \<and>
     unat n mod unat (disk_logical_block_size b (Some s)) = 0)"

definition disk_writable :: "'w block_subsystem \<Rightarrow> ptr \<Rightarrow> bool" where
  "disk_writable b disk \<longleftrightarrow> (\<exists>s. disk_state_for b disk = Some s \<and> d_read_only s = 0)"

lemma disk_read_guard:
  assumes "kb_block_subsystem_disk_read b disk sector buffer n w = (r, buffer', w', b')"
    and "r = 0 \<or> w' \<noteq> w \<or> buffer' \<noteq> buffer \<or> b' \<noteq> b"
  shows "io_allowed b disk sector n"
  using assms
  by (auto simp: kb_block_subsystem_disk_read_def io_allowed_def disk_io_range_valid_iff
      split: option.splits if_splits prod.splits)

lemma disk_write_guard:
  assumes "kb_block_subsystem_disk_write_flags b disk sector buffer n flags w = (r, w', b')"
    and "r = 0 \<or> w' \<noteq> w \<or> b' \<noteq> b"
  shows "io_allowed b disk sector n \<and> disk_writable b disk"
  using assms
  by (auto simp: kb_block_subsystem_disk_write_flags_def io_allowed_def disk_writable_def disk_io_range_valid_iff
      split: option.splits if_splits prod.splits)

lemma disk_read_batch_guard:
  assumes "kb_block_subsystem_disk_read_batch b disk (Some rs) w = (r, buffers, w', b')"
    and "r = 0 \<or> w' \<noteq> w \<or> buffers \<noteq> Some (map rr_content rs) \<or> b' \<noteq> b" and "q \<in> set rs"
  shows "io_allowed b disk (rr_sector q) (rr_byte_count q)"
proof -
  from assms(1,2) obtain s where s: "disk_state_for b disk = Some s" "d_dead s = 0" "d_registered s \<noteq> 0"
    and all: "\<not> list_ex (\<lambda>r. rr_buffer r = None \<or> disk_io_range_valid b s (rr_sector r) (rr_byte_count r) \<noteq> 0) rs"
    by (cases "disk_state_for b disk")
      (auto simp: kb_block_subsystem_disk_read_batch_def simp del: list_ex_iff split: if_splits)
  have "disk_io_range_valid b s (rr_sector q) (rr_byte_count q) = 0"
    using all assms(3) by (auto simp: list_ex_iff)
  then show ?thesis using s by (auto simp: io_allowed_def disk_io_range_valid_iff)
qed

lemma disk_write_batch_guard:
  assumes "kb_block_subsystem_disk_write_batch b disk (Some rs) w = (r, w', b')"
    and "r = 0 \<or> w' \<noteq> w \<or> b' \<noteq> b" and "q \<in> set rs"
  shows "io_allowed b disk (wr_sector q) (wr_byte_count q) \<and> disk_writable b disk"
proof -
  from assms(1,2) obtain s where s: "disk_state_for b disk = Some s" "d_dead s = 0" "d_registered s \<noteq> 0" "d_read_only s = 0"
    and all: "\<not> list_ex (\<lambda>r. wr_buffer r = None \<or> disk_io_range_valid b s (wr_sector r) (wr_byte_count r) \<noteq> 0) rs"
    by (cases "disk_state_for b disk")
      (auto simp: kb_block_subsystem_disk_write_batch_def simp del: list_ex_iff split: if_splits)
  have "disk_io_range_valid b s (wr_sector q) (wr_byte_count q) = 0"
    using all assms(3) by (auto simp: list_ex_iff)
  then show ?thesis using s by (auto simp: io_allowed_def disk_writable_def disk_io_range_valid_iff)
qed

text \<open>Single reads, one after the other, up to the first that fails.\<close>

fun read_each :: "'w block_subsystem \<Rightarrow> ptr \<Rightarrow> kb_block_disk_read_request list \<Rightarrow> 'w \<Rightarrow> int \<times> bytes option list \<times> 'w \<times> 'w block_subsystem" where
  "read_each b disk [] w = (0, [], w, b)"
| "read_each b disk (r # rs) w =
     (case kb_block_subsystem_disk_read b disk (rr_sector r) (rr_buffer r) (rr_byte_count r) w of
        (result, buffer, w', b') \<Rightarrow>
          if result \<noteq> 0 then (result, buffer # map rr_buffer rs, w', b')
          else (case read_each b' disk rs w' of (result', buffers, w'', b'') \<Rightarrow> (result', buffer # buffers, w'', b'')))"

definition count_reads :: "u64 \<Rightarrow> u64 list \<Rightarrow> 'w kb_block_disk_state \<Rightarrow> 'w kb_block_disk_state" where
  "count_reads n sizes s = s\<lparr>d_read_count := d_read_count s + n, d_bytes_read := foldl (+) (d_bytes_read s) sizes\<rparr>"

lemma count_reads_simps [simp]:
  "d_disk (count_reads n xs s) = d_disk s" "d_queue (count_reads n xs s) = d_queue s"
  "d_capacity_sectors (count_reads n xs s) = d_capacity_sectors s"
  "d_dead (count_reads n xs s) = d_dead s" "d_registered (count_reads n xs s) = d_registered s"
  "d_read_fn (count_reads n xs s) = d_read_fn s" "d_io_ctx (count_reads n xs s) = d_io_ctx s"
  by (simp_all add: count_reads_def)

lemma count_reads_comp: "count_reads n xs \<circ> count_reads 1 [x] = count_reads (1 + n) (x # xs)"
  by (simp add: fun_eq_iff count_reads_def add.assoc)

lemma count_reads_0: "count_reads 0 [] = (\<lambda>s. s)"
  by (simp add: fun_eq_iff count_reads_def)

lemma on_disk_id: "on_disk b disk (\<lambda>s. s) = b"
  by (simp add: on_disk_def update_key_id split: option.splits)

lemma range_valid_count_reads:
  "disk_io_range_valid (on_disk b disk f) (count_reads n xs s) sector m = disk_io_range_valid b s sector m"
proof -
  have block: "disk_logical_block_size (on_disk b disk f) (Some (count_reads n xs s)) = disk_logical_block_size b (Some s)"
    by (simp add: disk_logical_block_size_def queue_state_for_def)
  show ?thesis unfolding disk_io_range_valid_def count_reads_simps block ..
qed

lemma count_reads_one:
  "(\<lambda>s. s\<lparr>d_read_count := d_read_count s + 1, d_bytes_read := d_bytes_read s + n\<rparr>) = count_reads 1 [n]"
  by (simp add: fun_eq_iff count_reads_def)

lemma read_each_eq_loop:
  assumes "disk_state_for b disk = Some s" "d_dead s = 0" "d_registered s \<noteq> 0"
    and "list_all (\<lambda>r. rr_buffer r \<noteq> None \<and> disk_io_range_valid b s (rr_sector r) (rr_byte_count r) = 0) rs"
    and "read_loop (d_read_fn s) (d_io_ctx s) rs w = (0, contents, w')"
  shows "read_each b disk rs w =
    (0, map Some contents, w', on_disk b disk (count_reads (of_nat (length rs)) (map rr_byte_count rs)))"
  using assms
proof (induction rs arbitrary: b s w contents)
  case Nil
  then show ?case by (simp add: count_reads_0 on_disk_id)
next
  case (Cons r rs)
  obtain f where f: "d_read_fn s = Some f" using Cons.prems(5) by (cases "d_read_fn s") auto
  obtain content w1 where call: "f (d_io_ctx s) (rr_sector r) (rr_content r) (rr_byte_count r) w = (0, content, w1)"
    using Cons.prems(5) f by (auto split: prod.splits if_splits)
  obtain rest where rest: "read_loop (d_read_fn s) (d_io_ctx s) rs w1 = (0, rest, w')" "contents = content # rest"
    using Cons.prems(5) f call by (auto split: prod.splits)
  let ?c = "count_reads 1 [rr_byte_count r]"
  let ?b = "on_disk b disk ?c"
  have state: "disk_state_for ?b disk = Some (?c s)"
    using Cons.prems(1) by (simp add: disk_state_for_on_disk)
  have read: "kb_block_subsystem_disk_read b disk (rr_sector r) (rr_buffer r) (rr_byte_count r) w = (0, Some content, w1, ?b)"
    using Cons.prems f call
    by (auto simp: kb_block_subsystem_disk_read_def rr_content_def count_reads_one)
  have "read_each ?b disk rs w1 =
      (0, map Some rest, w', on_disk ?b disk (count_reads (of_nat (length rs)) (map rr_byte_count rs)))"
    using Cons.prems rest by (intro Cons.IH [OF state]) (simp_all add: range_valid_count_reads)
  then show ?case
    using read rest(2) by (simp add: on_disk_on_disk count_reads_comp)
qed

section \<open>Tags\<close>

definition scan_start :: "u32 \<Rightarrow> u32 \<Rightarrow> nat" where
  "scan_start limit tag = (if tag = 0 \<or> limit \<le> tag then 0 else unat tag - 1)"

lemma scan_start_next:
  fixes tag :: u32
  assumes "2 \<le> unat limit"
  defines "t \<equiv> if tag = 0 \<or> tag \<ge> limit then 1 else tag"
  shows "unat t = scan_start limit tag + 1" "scan_start limit tag < unat limit - 1"
    "scan_start limit (t + 1) = (scan_start limit tag + 1) mod (unat limit - 1)"
proof -
  show t: "unat t = scan_start limit tag + 1" and lt: "scan_start limit tag < unat limit - 1"
    using assms by (auto simp: scan_start_def word_le_nat_alt not_le unat_gt_0 Suc_le_eq)
  have "unat (t + 1) = unat t + 1" using unat_plus_1 [of t limit] t lt by (simp add: word_less_nat_alt)
  then have suc: "unat (t + 1) = scan_start limit tag + 2" using t by simp
  then have "t + 1 \<noteq> 0" by auto
  then show "scan_start limit (t + 1) = (scan_start limit tag + 1) mod (unat limit - 1)"
    using suc lt by (auto simp: scan_start_def [of limit "t + 1"] word_le_nat_alt mod_if)
qed

lemma alloc_tag_scan_eq:
  assumes "2 \<le> unat limit"
  shows "alloc_tag_scan rqs limit tag n =
    map_option of_nat (find (\<lambda>t. rqs ! t = NULL)
      (map (\<lambda>k. (scan_start limit tag + k) mod (unat limit - 1) + 1) [0..<n]))"
proof (induction n arbitrary: tag)
  case (Suc n)
  define t where "t = (if tag = 0 \<or> limit \<le> tag then 1 else tag)"
  define s where "s = scan_start limit tag"
  define M where "M = unat limit - 1"
  note next_t = scan_start_next [OF assms, of tag, folded t_def, folded s_def M_def]
  have t: "t = of_nat (s + 1)" unfolding next_t(1) [symmetric] by simp
  have idx: "(scan_start limit (t + 1) + k) mod M = (s + Suc k) mod M" for k
    unfolding next_t(3) by (simp add: mod_add_left_eq)
  have upt: "[0..<Suc n] = 0 # map Suc [0..<n]" by (simp add: map_Suc_upt upt_conv_Cons)
  have "alloc_tag_scan rqs limit tag (Suc n) =
      (if rqs ! (s + 1) = NULL then Some t else alloc_tag_scan rqs limit (t + 1) n)"
    using next_t(1) by (simp add: t_def Let_def)
  also have "\<dots> = (if rqs ! (s + 1) = NULL then Some t
      else map_option of_nat (find (\<lambda>t. rqs ! t = NULL) (map (\<lambda>k. (s + Suc k) mod M + 1) [0..<n])))"
    unfolding Suc.IH M_def [symmetric] idx ..
  also have "\<dots> = map_option of_nat (find (\<lambda>t. rqs ! t = NULL) (map (\<lambda>k. (s + k) mod M + 1) [0..<Suc n]))"
    unfolding upt t using next_t(2) by (simp add: comp_def)
  finally show ?case by (simp only: M_def s_def)
qed simp

lemma rotation_covers:
  assumes "0 < M" "1 \<le> t" "t \<le> M"
  shows "t \<in> set (map (\<lambda>k. (s + k) mod M + 1) [0..<M])"
proof -
  let ?k = "(t - 1 + (M - s mod M)) mod M"
  have "(s + ?k) mod M = (s mod M + (t - 1 + (M - s mod M))) mod M" by (simp add: mod_simps)
  also have "s mod M + (t - 1 + (M - s mod M)) = t - 1 + M"
    using assms mod_less_divisor [OF assms(1), of s] by linarith
  also have "(t - 1 + M) mod M = t - 1" unfolding mod_add_self2 using assms by simp
  finally have t: "(s + ?k) mod M + 1 = t" using assms by simp
  have "?k \<in> set [0..<M]" using assms(1) by simp
  from imageI [OF this, of "\<lambda>k. (s + k) mod M + 1"] show ?thesis unfolding set_map t .
qed

text \<open>The scan is complete: it fails only when every tag from 1 on is taken.\<close>

lemma alloc_tag_scan_complete:
  assumes "2 \<le> unat limit"
  shows "case alloc_tag_scan rqs limit tag (unat (limit - 1)) of
      None \<Rightarrow> \<forall>t. 1 \<le> t \<and> t < unat limit \<longrightarrow> rqs ! t \<noteq> NULL
    | Some t \<Rightarrow> 1 \<le> unat t \<and> unat t < unat limit \<and> rqs ! unat t = NULL"
proof -
  define M where "M = unat limit - 1"
  define s where "s = scan_start limit tag"
  let ?ts = "map (\<lambda>k. (s + k) mod M + 1) [0..<M]"
  have "1 \<le> limit" using assms by (simp add: word_le_nat_alt)
  then have "unat (limit - 1) = M" by (simp add: unat_sub_le M_def)
  then have scan: "alloc_tag_scan rqs limit tag (unat (limit - 1)) = map_option of_nat (find (\<lambda>t. rqs ! t = NULL) ?ts)"
    using alloc_tag_scan_eq [OF assms, of rqs tag M] by (simp add: M_def s_def)
  have M: "0 < M" using assms by (simp add: M_def)
  show ?thesis
  proof (cases "find (\<lambda>t. rqs ! t = NULL) ?ts")
    case None
    have "rqs ! t \<noteq> NULL" if "1 \<le> t" "t < unat limit" for t
    proof -
      have "t \<in> set ?ts" using that by (intro rotation_covers [OF M]) (simp_all add: M_def)
      then show ?thesis using None unfolding find_None_iff by blast
    qed
    then show ?thesis using scan None by simp
  next
    case (Some t)
    then have free: "rqs ! t = NULL" and "t \<in> set ?ts" by (auto simp: find_Some_iff)
    then obtain k where t: "t = (s + k) mod M + 1" by auto
    obtain x where x: "x = (s + k) mod M" "x < M" using mod_less_divisor [OF M] by blast
    have "unat limit = M + 1" using assms by (simp add: M_def)
    then have bounds: "1 \<le> t" "t < unat limit" unfolding t x(1) [symmetric] using x(2) by simp_all
    have "unat (of_nat t :: u32) = t"
      using bounds(2) unat_u32_bound [of limit] by (simp add: unat_of_nat)
    then show ?thesis using scan Some free bounds by simp
  qed
qed

section \<open>The invariant of the subsystem\<close>

definition queue_ok :: "kb_block_queue_state \<Rightarrow> bool" where
  "queue_ok q \<longleftrightarrow> logical_block_size (q_limits q) \<noteq> 0 \<and> physical_block_size (q_limits q) \<noteq> 0"

definition disk_ok :: "'w kb_block_disk_state \<Rightarrow> bool" where
  "disk_ok d \<longleftrightarrow> d_registered d \<le> 1 \<and> d_read_only d \<le> 1 \<and> d_dead d \<le> 1"

text \<open>
  A tag set has four queues of 64 tags; the next tag to try is a usable one, and the
  hardware queues in use are active.
\<close>

definition tagset_ok :: "kb_block_tagset_state \<Rightarrow> bool" where
  "tagset_ok t \<longleftrightarrow> length (t_tags t) = KB_BLOCK_SUBSYSTEM_QUEUE_MAX \<and> length (t_rqs t) = KB_BLOCK_SUBSYSTEM_QUEUE_MAX \<and>
     length (t_next_tag t) = KB_BLOCK_SUBSYSTEM_QUEUE_MAX \<and>
     (\<forall>i < KB_BLOCK_SUBSYSTEM_QUEUE_MAX. nr_tags (t_tags t ! i) = of_nat KB_BLOCK_SUBSYSTEM_TAGS_PER_QUEUE \<and>
        (i < unat (t_nr_hw_queues t) \<longrightarrow> active_queues (t_tags t ! i) = 1) \<and>
        length (t_rqs t ! i) = KB_BLOCK_SUBSYSTEM_TAGS_PER_QUEUE \<and>
        1 \<le> t_next_tag t ! i \<and> t_next_tag t ! i < of_nat KB_BLOCK_SUBSYSTEM_TAGS_PER_QUEUE) \<and>
     1 \<le> t_nr_hw_queues t \<and> t_nr_hw_queues t \<le> of_nat KB_BLOCK_SUBSYSTEM_QUEUE_MAX"

definition block_ok :: "'w block_subsystem \<Rightarrow> bool" where
  "block_ok b \<longleftrightarrow> keys_ok t_tag_set (tagsets b) \<and> keys_ok q_queue (queues b) \<and> keys_ok d_disk (disks b) \<and>
     list_all tagset_ok (tagsets b) \<and> list_all queue_ok (queues b) \<and> list_all disk_ok (disks b)"

lemma new_tagset_ok: "tagset_ok (new_tagset state tag_set)"
  by (auto simp: tagset_ok_def new_tagset_def)

lemma new_keys [simp]:
  "t_tag_set (new_tagset state tag_set) = tag_set" "q_queue (new_queue queue tag_set) = queue"
  "d_disk (new_disk disk n) = disk"
  by (simp_all add: new_tagset_def new_queue_def new_disk_def)

lemma new_disk_ok: "disk_ok (new_disk disk n)" and new_queue_ok: "queue_ok (new_queue queue tag_set)"
  by (simp_all add: disk_ok_def new_disk_def queue_ok_def new_queue_def)

lemma block_ok_on_queue:
  assumes "block_ok b" "\<And>s. q_queue (f s) = q_queue s" "\<And>s. queue_ok s \<Longrightarrow> queue_ok (f s)"
  shows "block_ok (on_queue b queue f)"
  using assms by (auto simp: block_ok_def on_queue_def keys_ok_update intro!: list_all_update_key split: option.splits)

lemma block_ok_on_disk:
  assumes "block_ok b" "\<And>s. d_disk (f s) = d_disk s" "\<And>s. disk_ok s \<Longrightarrow> disk_ok (f s)"
  shows "block_ok (on_disk b disk f)"
  using assms by (auto simp: block_ok_def on_disk_def keys_ok_update intro!: list_all_update_key split: option.splits)

lemma tagset_state_for_ok:
  assumes "block_ok b" "tagset_state_for state b tag_set = (t, b')"
  shows "block_ok b'" "t = Some u \<Longrightarrow> tagset_ok u"
proof -
  show ok: "block_ok b'"
    using assms
    by (auto simp: block_ok_def tagset_state_for_def tagset_state_find_def keys_ok_Cons find_key_None_iff
        new_tagset_ok Let_def split: if_splits)
  show "tagset_ok u" if "t = Some u"
    using assms(2) ok tagset_state_for_Some [of state b tag_set u b'] that
    by (auto simp: block_ok_def tagset_state_find_def list_all_iff dest: find_key_Some)
qed

lemma block_ok_on_tagset:
  assumes "block_ok b" "\<And>s. t_tag_set (f s) = t_tag_set s" "\<And>s. tagset_ok s \<Longrightarrow> tagset_ok (f s)"
  shows "block_ok (on_tagset state b tag_set f)"
proof -
  obtain t b' where t: "tagset_state_for state b tag_set = (t, b')" by force
  have "block_ok b'" by (rule tagset_state_for_ok [OF assms(1) t])
  then show ?thesis
    using t assms(2,3)
    by (auto simp: block_ok_def on_tagset_def keys_ok_update intro!: list_all_update_key split: option.splits)
qed

lemma block_ok_remove:
  "block_ok b \<Longrightarrow> block_ok (tagset_state_remove b x)"
  "block_ok b \<Longrightarrow> block_ok (queue_state_remove b x)"
  "block_ok b \<Longrightarrow> block_ok (disk_state_remove b x)"
  by (auto simp: block_ok_def tagset_state_remove_def queue_state_remove_def disk_state_remove_def
      keys_ok_remove list_all_remove_key)

text \<open>
  One step of the subsystem: any of its entry points that changes state, with any arguments.  The
  address that an allocation returns is not the address of a live object.
\<close>

inductive block_step :: "'w block_subsystem \<Rightarrow> 'w block_subsystem \<Rightarrow> bool" where
  queue_alloc: "queue \<notin> q_queue ` set (queues b) \<Longrightarrow> kb_block_subsystem_queue_alloc queue ok b tag_set = (r, b') \<Longrightarrow> block_step b b'"
| queue_put: "block_step b (kb_block_subsystem_queue_put b queue)"
| queue_destroy: "block_step b (kb_block_subsystem_queue_destroy b queue)"
| logical: "block_step b (kb_block_subsystem_queue_set_logical_block_size b queue sz)"
| physical: "block_step b (kb_block_subsystem_queue_set_physical_block_size b queue sz)"
| io_min: "block_step b (kb_block_subsystem_queue_set_io_min b queue sz)"
| io_opt: "block_step b (kb_block_subsystem_queue_set_io_opt b queue sz)"
| max_hw: "block_step b (kb_block_subsystem_queue_set_max_hw_sectors b queue sz)"
| max_seg: "block_step b (kb_block_subsystem_queue_set_max_segments b queue sz)"
| max_discard: "block_step b (kb_block_subsystem_queue_set_max_discard_sectors b queue sz)"
| max_discard_seg: "block_step b (kb_block_subsystem_queue_set_max_discard_segments b queue sz)"
| max_zeroes: "block_step b (kb_block_subsystem_queue_set_max_write_zeroes_sectors b queue sz)"
| max_append: "block_step b (kb_block_subsystem_queue_set_max_zone_append_sectors b queue sz)"
| chunk: "block_step b (kb_block_subsystem_queue_set_chunk_sectors b queue sz)"
| dma_align: "block_step b (kb_block_subsystem_queue_set_dma_alignment b queue sz)"
| virt: "block_step b (kb_block_subsystem_queue_set_virt_boundary b queue m)"
| cache: "block_step b (kb_block_subsystem_queue_set_write_cache b queue wc fua)"
| flag: "block_step b (kb_block_subsystem_queue_flag_set b queue fl)"
| disk_alloc: "disk \<notin> d_disk ` set (disks b) \<Longrightarrow> kb_block_subsystem_disk_alloc disk ok b = (r, b') \<Longrightarrow> block_step b b'"
| attach: "kb_block_subsystem_disk_attach b disk queue part0 = (ret, b') \<Longrightarrow> block_step b b'"
| register: "kb_block_subsystem_disk_register b parent disk groups = (ret, b') \<Longrightarrow> block_step b b'"
| unregister: "block_step b (kb_block_subsystem_disk_unregister b disk)"
| put: "block_step b (kb_block_subsystem_disk_put b disk)"
| capacity: "block_step b (kb_block_subsystem_disk_set_capacity b disk n)"
| notify: "kb_block_subsystem_disk_set_capacity_and_notify b disk n = (ret, b') \<Longrightarrow> block_step b b'"
| read_only: "block_step b (kb_block_subsystem_disk_set_read_only b disk ro)"
| dead: "block_step b (kb_block_subsystem_disk_mark_dead b disk)"
| zoned: "block_step b (kb_block_subsystem_disk_set_zoned b disk model)"
| readahead: "block_step b (kb_block_subsystem_disk_update_readahead b disk)"
| revalidate: "kb_block_subsystem_disk_revalidate_zones b disk = (ret, b') \<Longrightarrow> block_step b b'"
| set_io: "block_step b (kb_block_subsystem_disk_set_io b disk ctx read_fn write_fn)"
| set_read_batch: "block_step b (kb_block_subsystem_disk_set_read_batch b disk rbf)"
| set_write_batch: "block_step b (kb_block_subsystem_disk_set_write_batch b disk wbf)"
| set_write_flags: "block_step b (kb_block_subsystem_disk_set_write_flags b disk wff)"
| set_flush: "block_step b (kb_block_subsystem_disk_set_flush b disk ff)"
| disk_read: "kb_block_subsystem_disk_read b disk sector buffer n w = (ret, buffer', w', b') \<Longrightarrow> block_step b b'"
| disk_read_batch: "kb_block_subsystem_disk_read_batch b disk rrs w = (ret, buffers, w', b') \<Longrightarrow> block_step b b'"
| disk_write: "kb_block_subsystem_disk_write_flags b disk sector buffer n flags w = (ret, w', b') \<Longrightarrow> block_step b b'"
| disk_write_batch: "kb_block_subsystem_disk_write_batch b disk wrs w = (ret, w', b') \<Longrightarrow> block_step b b'"
| object_free: "block_step b (kb_block_subsystem_object_free b obj)"
| prepare: "kb_block_subsystem_tagset_prepare state b tag_set = (ret, b') \<Longrightarrow> block_step b b'"
| tagset_free: "block_step b (kb_block_subsystem_tagset_free b tag_set)"
| hw_queues: "block_step b (kb_block_subsystem_tagset_set_hw_queues state b tag_set nr)"
| map_queues: "block_step b (kb_block_subsystem_tagset_note_map_queues state b tag_set pci)"
| busy_iter: "block_step b (kb_block_subsystem_tagset_note_busy_iter state b tag_set)"
| wait_completed: "block_step b (kb_block_subsystem_tagset_note_wait_completed state b tag_set)"
| tag_array: "kb_block_subsystem_tagset_array state b tag_set = (r, b') \<Longrightarrow> block_step b b'"
| alloc_tag: "kb_block_subsystem_tagset_alloc_tag state b tag_set q = (tag, b') \<Longrightarrow> block_step b b'"
| bind: "kb_block_subsystem_tagset_bind_request state b tag_set q tag request = (ret, b') \<Longrightarrow> block_step b b'"
| unbind: "block_step b (kb_block_subsystem_tagset_unbind_request state b tag_set q tag request)"
| request: "kb_block_subsystem_tagset_request state b tag_set q tag = (r, b') \<Longrightarrow> block_step b b'"

lemma block_ok_on_limits:
  assumes "block_ok b"
    and "\<And>l. logical_block_size l \<noteq> 0 \<and> physical_block_size l \<noteq> 0 \<Longrightarrow>
      logical_block_size (f l) \<noteq> 0 \<and> physical_block_size (f l) \<noteq> 0"
  shows "block_ok (on_limits b queue f)"
  unfolding on_limits_def using assms by (intro block_ok_on_queue) (auto simp: queue_ok_def)

lemma block_ok_queue_setters:
  assumes "block_ok b"
  shows "block_ok (kb_block_subsystem_queue_set_logical_block_size b queue sz)"
    "block_ok (kb_block_subsystem_queue_set_physical_block_size b queue sz)"
    "block_ok (kb_block_subsystem_queue_flag_set b queue fl)"
  using assms
  by (auto simp: kb_block_subsystem_queue_set_logical_block_size_def kb_block_subsystem_queue_set_physical_block_size_def
      kb_block_subsystem_queue_flag_set_def intro!: block_ok_on_limits)

lemmas plain_queue_ops =
  kb_block_subsystem_queue_set_io_min_def kb_block_subsystem_queue_set_io_opt_def
  kb_block_subsystem_queue_set_max_hw_sectors_def kb_block_subsystem_queue_set_max_segments_def
  kb_block_subsystem_queue_set_max_discard_sectors_def kb_block_subsystem_queue_set_max_discard_segments_def
  kb_block_subsystem_queue_set_max_write_zeroes_sectors_def kb_block_subsystem_queue_set_max_zone_append_sectors_def
  kb_block_subsystem_queue_set_chunk_sectors_def kb_block_subsystem_queue_set_dma_alignment_def
  kb_block_subsystem_queue_set_virt_boundary_def kb_block_subsystem_queue_set_write_cache_def

lemmas plain_disk_ops =
  kb_block_subsystem_disk_attach_def kb_block_subsystem_disk_register_def kb_block_subsystem_disk_unregister_def
  kb_block_subsystem_disk_put_def kb_block_subsystem_disk_set_capacity_def
  kb_block_subsystem_disk_set_capacity_and_notify_def kb_block_subsystem_disk_set_read_only_def
  kb_block_subsystem_disk_mark_dead_def kb_block_subsystem_disk_set_zoned_def
  kb_block_subsystem_disk_update_readahead_def kb_block_subsystem_disk_revalidate_zones_def
  kb_block_subsystem_disk_set_io_def kb_block_subsystem_disk_set_read_batch_def
  kb_block_subsystem_disk_set_write_batch_def kb_block_subsystem_disk_set_write_flags_def
  kb_block_subsystem_disk_set_flush_def

lemma block_ok_allocs:
  assumes "block_ok b"
  shows "queue \<notin> q_queue ` set (queues b) \<Longrightarrow> kb_block_subsystem_queue_alloc queue ok b tag_set = (r, b') \<Longrightarrow> block_ok b'"
    and "disk \<notin> d_disk ` set (disks b) \<Longrightarrow> kb_block_subsystem_disk_alloc disk ok b = (r, b') \<Longrightarrow> block_ok b'"
  using assms new_disk_ok [of disk] new_queue_ok [of queue tag_set]
  by (auto simp: block_ok_def kb_block_subsystem_queue_alloc_def kb_block_subsystem_disk_alloc_def
      queue_state_create_def disk_state_create_def keys_ok_Cons
      split: if_splits)

lemma block_ok_disk_io:
  assumes "block_ok b"
  shows "kb_block_subsystem_disk_read b disk sector buffer n w = (ret, buffer', w', b') \<Longrightarrow> block_ok b'"
    "kb_block_subsystem_disk_read_batch b disk rrs w = (ret, buffers, w', b') \<Longrightarrow> block_ok b'"
    "kb_block_subsystem_disk_write_flags b disk sector buffer n flags w = (ret, w', b') \<Longrightarrow> block_ok b'"
    "kb_block_subsystem_disk_write_batch b disk wrs w = (ret, w', b') \<Longrightarrow> block_ok b'"
  using assms
  by (auto simp: kb_block_subsystem_disk_read_def kb_block_subsystem_disk_read_batch_def
      kb_block_subsystem_disk_write_flags_def kb_block_subsystem_disk_write_batch_def disk_ok_def
      intro!: block_ok_on_disk split: option.splits if_splits prod.splits)

lemma block_ok_tagset_counters:
  assumes "block_ok b"
  shows "kb_block_subsystem_tagset_prepare state b tag_set = (ret, b') \<Longrightarrow> block_ok b'"
    "block_ok (kb_block_subsystem_tagset_note_map_queues state b tag_set pci)"
    "block_ok (kb_block_subsystem_tagset_note_busy_iter state b tag_set)"
    "block_ok (kb_block_subsystem_tagset_note_wait_completed state b tag_set)"
    "kb_block_subsystem_tagset_array state b tag_set = (r, b') \<Longrightarrow> block_ok b'"
    "kb_block_subsystem_tagset_request state b tag_set q tag = (r, b') \<Longrightarrow> block_ok b'"
  using assms tagset_state_for_ok(1) [OF assms, of state tag_set]
  by (auto simp: kb_block_subsystem_tagset_prepare_def kb_block_subsystem_tagset_note_map_queues_def
      kb_block_subsystem_tagset_note_busy_iter_def kb_block_subsystem_tagset_note_wait_completed_def
      kb_block_subsystem_tagset_array_def kb_block_subsystem_tagset_request_def tagset_ok_def
      intro!: block_ok_on_tagset split: option.splits prod.splits if_splits)

lemma block_ok_hw_queues:
  assumes "block_ok b"
  shows "block_ok (kb_block_subsystem_tagset_set_hw_queues state b tag_set nr)"
proof -
  have "1 \<le> (if (if nr = 0 then 1 else nr) > 4 then 4 else if nr = 0 then 1 else nr :: u32)"
    "(if (if nr = 0 then 1 else nr) > 4 then 4 else if nr = 0 then 1 else nr :: u32) \<le> 4"
    by (auto simp: word_le_nat_alt word_less_nat_alt not_less unat_gt_0 Suc_le_eq)
  with assms show ?thesis
    unfolding kb_block_subsystem_tagset_set_hw_queues_def Let_def
    by (intro block_ok_on_tagset) (auto simp: tagset_ok_def nth_enumerate_eq)
qed

lemma nth_list_update_if: "xs[i := x] ! j = (if i = j \<and> i < length xs then x else xs ! j)"
  by (cases "i < length xs") (auto simp: nth_list_update list_update_beyond not_less)

lemma next_tag_ok:
  assumes "1 \<le> unat (tag :: u32)" "unat tag < 64"
  shows "1 \<le> (if tag + 1 \<ge> 64 then 1 else tag + 1) \<and> (if tag + 1 \<ge> 64 then 1 else tag + 1) < 64"
proof -
  have "unat (tag + 1) = unat tag + 1" using assms by (simp add: unat_add_no_wrap)
  then show ?thesis using assms by (auto simp: word_le_nat_alt word_less_nat_alt)
qed

lemma block_ok_alloc_tag:
  assumes "block_ok b" "kb_block_subsystem_tagset_alloc_tag state b tag_set q = (tag, b')"
  shows "block_ok b'"
proof -
  obtain t b1 where t: "tagset_state_for state b tag_set = (t, b1)" by force
  have b1: "block_ok b1" by (rule tagset_state_for_ok(1) [OF assms(1) t])
  show ?thesis
  proof (cases "b' = b1")
    case False
    with assms(2) t obtain u v where u: "t = Some u" "q < 4" and lim: "nr_tags (t_tags u ! q) = 64"
      and v: "alloc_tag_scan (t_rqs u ! q) 64 (t_next_tag u ! q) (unat (64 - 1 :: u32)) = Some v"
      and b': "b' = on_tagset state b tag_set
        (\<lambda>t. t\<lparr>t_next_tag := (t_next_tag t)[q := if v + 1 \<ge> 64 then 1 else v + 1]\<rparr>)"
      using tagset_state_for_ok(2) [OF assms(1) t]
      by (auto simp: kb_block_subsystem_tagset_alloc_tag_def tagset_ok_def Let_def split: option.splits if_splits)
    have "1 \<le> unat v \<and> unat v < 64"
      using alloc_tag_scan_complete [of 64 "t_rqs u ! q" "t_next_tag u ! q"] v by simp
    then show ?thesis
      unfolding b' using next_tag_ok [of v] assms(1)
      by (intro block_ok_on_tagset) (auto simp: tagset_ok_def nth_list_update_if)
  qed (simp add: b1)
qed

lemma block_ok_bind:
  assumes "block_ok b"
  shows "kb_block_subsystem_tagset_bind_request state b tag_set q tag request = (ret, b') \<Longrightarrow> block_ok b'"
    and "block_ok (kb_block_subsystem_tagset_unbind_request state b tag_set q tag request)"
proof -
  have upd: "block_ok (on_tagset state b tag_set
      (\<lambda>t. t\<lparr>t_rqs := (t_rqs t)[q := (t_rqs t ! q)[unat tag := r]]\<rparr>))" for r
    using assms by (intro block_ok_on_tagset) (auto simp: tagset_ok_def nth_list_update_if)
  show "block_ok b'" if "kb_block_subsystem_tagset_bind_request state b tag_set q tag request = (ret, b')"
    using that upd tagset_state_for_ok(1) [OF assms, of state tag_set]
    by (auto simp: kb_block_subsystem_tagset_bind_request_def split: prod.splits option.splits if_splits)
  show "block_ok (kb_block_subsystem_tagset_unbind_request state b tag_set q tag request)"
    using upd tagset_state_for_ok(1) [OF assms, of state tag_set]
    by (auto simp: kb_block_subsystem_tagset_unbind_request_def split: prod.splits option.splits)
qed

lemma block_step_ok: "block_step b b' \<Longrightarrow> block_ok b \<Longrightarrow> block_ok b'"
proof (induction rule: block_step.induct)
  case (queue_put b queue)
  then show ?case unfolding kb_block_subsystem_queue_put_def by (intro block_ok_on_queue) (auto simp: queue_ok_def)
next
  case (queue_destroy b queue)
  then show ?case unfolding kb_block_subsystem_queue_destroy_def by (intro block_ok_on_queue) (auto simp: queue_ok_def)
next
  case (object_free b obj)
  then show ?case unfolding kb_block_subsystem_object_free_def by (intro block_ok_remove)
next
  case (tagset_free b tag_set)
  then show ?case unfolding kb_block_subsystem_tagset_free_def by (intro block_ok_remove)
qed (use block_ok_queue_setters block_ok_allocs block_ok_disk_io block_ok_tagset_counters block_ok_hw_queues
      block_ok_alloc_tag block_ok_bind in
    \<open>auto simp: plain_queue_ops plain_disk_ops disk_ok_def intro!: block_ok_on_disk block_ok_on_limits
      split: if_splits option.splits\<close>)

section \<open>Properties\<close>

text \<open>C12.  The state lists of the block subsystem stay well formed under every operation: in every
  state reachable from the initial one by any sequence of calls, keys are distinct and not null,
  every tag set has four queues of 64 tags with a usable next tag, block sizes are not zero and the
  flags of a disk are 0 or 1.\<close>

theorem block_reachable_ok: "block_step\<^sup>*\<^sup>* block_initial b \<Longrightarrow> block_ok b"
proof (induction rule: rtranclp_induct)
  case base
  then show ?case by (simp add: block_ok_def block_initial_def)
next
  case (step b b')
  then show ?case using block_step_ok by blast
qed

theorem block_reachable_ok_witness:
  "block_ok (snd (kb_block_subsystem_disk_alloc 0x1000 True (block_initial :: unit block_subsystem)))"
proof -
  let ?b = "snd (kb_block_subsystem_disk_alloc 0x1000 True (block_initial :: unit block_subsystem))"
  have "0x1000 \<notin> d_disk ` set (disks (block_initial :: unit block_subsystem))" by (simp add: block_initial_def)
  then have "block_step block_initial ?b"
    by (rule block_step.disk_alloc [OF _ prod.collapse [symmetric]])
  then show ?thesis by (intro block_reachable_ok) blast
qed

text \<open>C29.  The range check of disk I/O is exact: with its 64 bit arithmetic it computes what the
  comparison over the natural numbers says, for every sector, length, capacity and block size, and
  no overflow of the byte offsets lets an access through.\<close>

theorem disk_io_range_valid_exact:
  "disk_io_range_valid b s sector n =
     (let block = unat (disk_logical_block_size b (Some s)); capacity = unat (d_capacity_sectors s) * 512 in
      if n = 0 then -22
      else if capacity \<ge> 2 ^ 64 \<or> unat sector * 512 + unat n > capacity then -34
      else if unat sector * 512 mod block = 0 \<and> unat n mod block = 0 then 0
      else -22)"
proof -
  have mul: "unat (x * 512) = unat x * 512" if "unat x * 512 < 2 ^ 64" for x :: u64
    using that unat_mult_no_wrap [of x 512] by simp
  have add: "unat (sector * 512 + n) = unat sector * 512 + unat n"
    if "unat sector * 512 < 2 ^ 64" "unat sector * 512 + unat n < 2 ^ 64"
    using that mul [of sector] unat_add_no_wrap [of "sector * 512" n] by simp
  show ?thesis
    using mul [of sector] mul [of "d_capacity_sectors s"] add
    by (auto simp: disk_io_range_valid_def mul_overflow_def add_overflow_def word_mod_eq_0_iff
        word_less_nat_alt Let_def not_less split: option.splits)
qed

text \<open>C11.  The driver is only called for accesses that the disk allows.  Whenever one of the four
  I/O entry points succeeds, or the driver's state, a buffer or a counter changes at all, the disk
  is live and registered, every requested range lies inside the capacity and on block boundaries,
  and for writes the disk is not read-only.  For a batch this holds of every request before the
  first one is started.\<close>

theorem disk_io_guarded:
  "(kb_block_subsystem_disk_read b disk sector buffer n w = (r, buffer', w', b') \<and>
      (r = 0 \<or> w' \<noteq> w \<or> buffer' \<noteq> buffer \<or> b' \<noteq> b) \<longrightarrow> io_allowed b disk sector n) \<and>
   (kb_block_subsystem_disk_write_flags b disk sector buffer n flags w = (r, w', b') \<and>
      (r = 0 \<or> w' \<noteq> w \<or> b' \<noteq> b) \<longrightarrow> io_allowed b disk sector n \<and> disk_writable b disk) \<and>
   (kb_block_subsystem_disk_read_batch b disk (Some rrs) w = (r, buffers, w', b') \<and>
      (r = 0 \<or> w' \<noteq> w \<or> buffers \<noteq> Some (map rr_content rrs) \<or> b' \<noteq> b) \<longrightarrow>
      list_all (\<lambda>q. io_allowed b disk (rr_sector q) (rr_byte_count q)) rrs) \<and>
   (kb_block_subsystem_disk_write_batch b disk (Some wrs) w = (r, w', b') \<and>
      (r = 0 \<or> w' \<noteq> w \<or> b' \<noteq> b) \<longrightarrow>
      list_all (\<lambda>q. io_allowed b disk (wr_sector q) (wr_byte_count q) \<and> disk_writable b disk) wrs)"
  unfolding list_all_iff
  using disk_read_guard [of b disk sector buffer n w r buffer' w' b']
    disk_write_guard [of b disk sector buffer n flags w r w' b']
    disk_read_batch_guard [of b disk rrs w r buffers w' b']
    disk_write_batch_guard [of b disk wrs w r w' b'] by blast

text \<open>A disk of eight sectors whose driver keeps the bytes written last, for the witnesses.\<close>

definition sample_disk :: "bytes block_subsystem" where
  "sample_disk = \<lparr>tagsets = [], queues = [],
     disks = [(new_disk 0x1000 1)\<lparr>d_capacity_sectors := 8, d_registered := 1,
       d_read_fn := Some (\<lambda>ctx sector content n w. (0, w, w)),
       d_write_fn := Some (\<lambda>ctx sector content n w. (0, content)),
       d_flush_fn := Some (\<lambda>ctx w. (0, w))\<rparr>],
     next_disk_number = 2\<rparr>"

theorem disk_io_guarded_witness:
  "kb_block_subsystem_disk_write_flags sample_disk 0x1000 7 (Some [1]) 512 0 [] = (0, [1],
     on_disk sample_disk 0x1000 (\<lambda>s. s\<lparr>d_write_count := d_write_count s + 1, d_bytes_written := d_bytes_written s + 512\<rparr>)) \<and>
   io_allowed sample_disk 0x1000 7 512"
proof -
  let ?b = "on_disk sample_disk 0x1000 (\<lambda>s. s\<lparr>d_write_count := d_write_count s + 1, d_bytes_written := d_bytes_written s + 512\<rparr>)"
  have "kb_block_subsystem_disk_write_flags sample_disk 0x1000 7 (Some [1]) 512 0 [] = (0, [1], ?b)"
    by (simp add: kb_block_subsystem_disk_write_flags_def disk_state_for_def sample_disk_def find_key_def new_disk_def
        disk_io_range_valid_iff disk_logical_block_size_def queue_state_for_def)
  with disk_io_guarded [of sample_disk "0x1000" 7 "Some [1]" 512 "[]" 0 "Some [1]" "[1]" ?b 0 "[]" "Some []" "[]"]
  show ?thesis by simp
qed

text \<open>C27.  A batch without a batch callback is the sequence of its reads: when it succeeds, doing
  the reads one by one gives the same result, the same buffers, the same driver state and the same
  counters.\<close>

theorem disk_read_batch_equals_reads:
  assumes "disk_state_for b disk = Some s" and "d_read_batch_fn s = None"
    and "kb_block_subsystem_disk_read_batch b disk (Some rs) w = (0, Some contents, w', b')"
  shows "read_each b disk rs w = (0, map Some contents, w', b')"
proof -
  have neg: "- 22 \<noteq> (0 :: int)" "- 19 \<noteq> (0 :: int)" by simp_all
  from assms neg have live: "d_dead s = 0" "d_registered s \<noteq> 0"
    and valid: "\<not> list_ex (\<lambda>r. rr_buffer r = None \<or> disk_io_range_valid b s (rr_sector r) (rr_byte_count r) \<noteq> 0) rs"
    and loop: "read_loop (d_read_fn s) (d_io_ctx s) rs w = (0, contents, w')"
    and b': "b' = on_disk b disk (\<lambda>s. s\<lparr>d_read_count := d_read_count s + of_nat (length rs),
        d_bytes_read := foldl (+) (d_bytes_read s) (map rr_byte_count rs)\<rparr>)"
    by (auto simp: kb_block_subsystem_disk_read_batch_def simp del: list_ex_iff split: if_splits prod.splits)
  have "list_all (\<lambda>r. rr_buffer r \<noteq> None \<and> disk_io_range_valid b s (rr_sector r) (rr_byte_count r) = 0) rs"
    using valid by (auto simp: list_ex_iff list_all_iff)
  from read_each_eq_loop [OF assms(1) live this loop] show ?thesis
    by (simp add: b' count_reads_def [abs_def])
qed

theorem disk_read_batch_equals_reads_witness:
  "\<exists>b'. read_each sample_disk 0x1000 [\<lparr>rr_sector = 0, rr_buffer = Some [], rr_byte_count = 512\<rparr>,
        \<lparr>rr_sector = 7, rr_buffer = Some [], rr_byte_count = 512\<rparr>] [9] = (0, [Some [9], Some [9]], [9], b')"
proof -
  let ?rs = "[\<lparr>rr_sector = 0, rr_buffer = Some [], rr_byte_count = 512\<rparr>,
        \<lparr>rr_sector = 7, rr_buffer = Some [], rr_byte_count = 512\<rparr>]"
  obtain b' where "kb_block_subsystem_disk_read_batch sample_disk 0x1000 (Some ?rs) [9] = (0, Some [[9], [9]], [9], b')"
    by (simp add: kb_block_subsystem_disk_read_batch_def disk_state_for_def sample_disk_def find_key_def new_disk_def
        disk_io_range_valid_iff disk_logical_block_size_def queue_state_for_def)
  moreover obtain s where "disk_state_for sample_disk 0x1000 = Some s" "d_read_batch_fn s = None"
    by (simp add: disk_state_for_def sample_disk_def find_key_def new_disk_def)
  ultimately show ?thesis using disk_read_batch_equals_reads by fastforce
qed

text \<open>C28.  A write with the force-unit-access flag that reports success is durable: either the driver
  has its own entry point for flagged writes, which was given the flag and succeeded, or the plain
  write succeeded and after it, on the driver state it left, the flush succeeded.\<close>

theorem disk_write_fua_durable:
  assumes "kb_block_subsystem_disk_write_flags b disk sector (Some content) n KB_BLOCK_DISK_WRITE_FUA w = (0, w', b')"
  shows "\<exists>s. disk_state_for b disk = Some s \<and>
    ((\<exists>f. d_write_flags_fn s = Some f \<and> f (d_io_ctx s) sector content n KB_BLOCK_DISK_WRITE_FUA w = (0, w')) \<or>
     (\<exists>f g w1. d_write_flags_fn s = None \<and> d_write_fn s = Some f \<and> d_flush_fn s = Some g \<and>
        f (d_io_ctx s) sector content n w = (0, w1) \<and> g (d_io_ctx s) w1 = (0, w')))"
  using assms
  by (auto simp: kb_block_subsystem_disk_write_flags_def split: option.splits if_splits prod.splits)

theorem disk_write_fua_durable_witness:
  "\<exists>s. disk_state_for sample_disk 0x1000 = Some s \<and>
    ((\<exists>f. d_write_flags_fn s = Some f \<and> f (d_io_ctx s) 1 [5] 512 KB_BLOCK_DISK_WRITE_FUA [] = (0, [5])) \<or>
     (\<exists>f g w1. d_write_flags_fn s = None \<and> d_write_fn s = Some f \<and> d_flush_fn s = Some g \<and>
        f (d_io_ctx s) 1 [5] 512 [] = (0, w1) \<and> g (d_io_ctx s) w1 = (0, [5])))"
proof -
  obtain b' where "kb_block_subsystem_disk_write_flags sample_disk 0x1000 1 (Some [5]) 512 KB_BLOCK_DISK_WRITE_FUA [] = (0, [5], b')"
    by (simp add: kb_block_subsystem_disk_write_flags_def disk_state_for_def sample_disk_def find_key_def new_disk_def
        disk_io_range_valid_iff disk_logical_block_size_def queue_state_for_def)
  then show ?thesis by (rule disk_write_fua_durable)
qed

text \<open>C21.  Tags are handed out correctly: on a queue of a well formed tag set the allocator returns a
  tag from 1 to 63 that no request is bound to, and it reports exhaustion exactly when all 63 are
  bound.  Binding a request to the tag it returned makes the request found under that tag and
  leaves every other tag of every queue as it was.\<close>

theorem tagset_alloc_bind:
  assumes "tagset_state_find b tag_set = Some t" and "tagset_ok t" and "q < KB_BLOCK_SUBSYSTEM_QUEUE_MAX"
    and "kb_block_subsystem_tagset_alloc_tag state b tag_set q = (tag, b1)"
  shows "(tag = -1 \<and> b1 = b \<and> (\<forall>i \<in> {1..<64}. t_rqs t ! q ! i \<noteq> NULL)) \<or>
    (1 \<le> unat tag \<and> unat tag < 64 \<and> t_rqs t ! q ! unat tag = NULL \<and>
     (\<exists>b2. kb_block_subsystem_tagset_bind_request state b1 tag_set q tag request = (0, b2) \<and>
        (\<forall>p < KB_BLOCK_SUBSYSTEM_QUEUE_MAX. \<forall>u < 64. fst (kb_block_subsystem_tagset_request state b2 tag_set p u) =
           (if p = q \<and> u = tag then request else fst (kb_block_subsystem_tagset_request state b tag_set p u)))))"
proof -
  have shape: "nr_tags (t_tags t ! p) = 64" "length (t_rqs t) = 4" "length (t_rqs t ! p) = 64" if "p < 4" for p
    using assms(2) that by (auto simp: tagset_ok_def)
  let ?scan = "alloc_tag_scan (t_rqs t ! q) 64 (t_next_tag t ! q) 63"
  have lim: "\<not> (64 :: u32) \<le> 1" "\<not> 4 \<le> q" using assms(3) by (simp_all add: word_le_nat_alt)
  have alloc: "kb_block_subsystem_tagset_alloc_tag state b tag_set q = (case ?scan of None \<Rightarrow> (-1, b)
      | Some v \<Rightarrow> (v, on_tagset state b tag_set (\<lambda>t. t\<lparr>t_next_tag := (t_next_tag t)[q := if v + 1 \<ge> 64 then 1 else v + 1]\<rparr>)))"
    by (simp add: kb_block_subsystem_tagset_alloc_tag_def tagset_state_for_found [OF assms(1)] Let_def
        shape [OF assms(3)] lim)
  show ?thesis
  proof (cases ?scan)
    case None
    then show ?thesis
      using alloc assms(4) alloc_tag_scan_complete [of 64 "t_rqs t ! q" "t_next_tag t ! q"] by auto
  next
    case (Some v)
    let ?f = "\<lambda>t. t\<lparr>t_next_tag := (t_next_tag t)[q := if v + 1 \<ge> 64 then 1 else v + 1]\<rparr>"
    let ?g = "\<lambda>t. t\<lparr>t_rqs := (t_rqs t)[q := (t_rqs t ! q)[unat v := request]]\<rparr>"
    have b1: "tag = v" "b1 = on_tagset state b tag_set ?f" using alloc assms(4) Some by simp_all
    have free: "1 \<le> unat v \<and> unat v < 64 \<and> t_rqs t ! q ! unat v = NULL"
      using alloc_tag_scan_complete [of 64 "t_rqs t ! q" "t_next_tag t ! q"] Some by simp
    have t1: "tagset_state_find b1 tag_set = Some (?f t)"
      unfolding b1(2) by (rule tagset_state_find_on_tagset [OF assms(1)]) simp
    have t2: "tagset_state_find (on_tagset state b1 tag_set ?g) tag_set = Some (?g (?f t))"
      by (rule tagset_state_find_on_tagset [OF t1]) simp
    have "kb_block_subsystem_tagset_bind_request state b1 tag_set q tag request = (0, on_tagset state b1 tag_set ?g)"
      using t1 shape [OF assms(3)] assms(3) free b1(1)
      by (simp add: kb_block_subsystem_tagset_bind_request_def tagset_state_for_found word_le_nat_alt)
    moreover have "fst (kb_block_subsystem_tagset_request state (on_tagset state b1 tag_set ?g) tag_set p u) =
        (if p = q \<and> u = tag then request else fst (kb_block_subsystem_tagset_request state b tag_set p u))"
      if "p < 4" "u < 64" for p u
      using that shape [OF that(1)] shape [OF assms(3)] assms(1,3) t2 free b1(1)
      by (auto simp: kb_block_subsystem_tagset_request_def tagset_state_for_found nth_list_update_if
          word_le_nat_alt word_less_nat_alt word_unat_eq_iff)
    ultimately show ?thesis using free b1(1) by blast
  qed
qed

theorem tagset_alloc_bind_witness:
  "\<exists>tag b1. kb_block_subsystem_tagset_alloc_tag 0x2000
       (\<lparr>tagsets = [new_tagset 0x2000 0x3000], queues = [], disks = [], next_disk_number = 1\<rparr> :: unit block_subsystem)
       0x3000 0 = (tag, b1) \<and> 1 \<le> unat tag \<and> unat tag < 64"
proof -
  let ?b = "\<lparr>tagsets = [new_tagset 0x2000 0x3000], queues = [], disks = [], next_disk_number = 1\<rparr> :: unit block_subsystem"
  have found: "tagset_state_find ?b 0x3000 = Some (new_tagset 0x2000 0x3000)"
    by (simp add: tagset_state_find_def find_key_def)
  obtain tag b1 where alloc: "kb_block_subsystem_tagset_alloc_tag 0x2000 ?b 0x3000 0 = (tag, b1)" by force
  have "t_rqs (new_tagset 0x2000 0x3000) ! 0 ! 1 = NULL" by (simp add: new_tagset_def)
  then have "\<not> (\<forall>i \<in> {1..<64}. t_rqs (new_tagset 0x2000 0x3000) ! 0 ! i \<noteq> NULL)" by auto
  with tagset_alloc_bind [OF found new_tagset_ok _ alloc, where request = "0x4000"] alloc show ?thesis by auto
qed

end
