(* ===== verification/Dma.thy ===== *)
theory Dma
  imports State_Lists
begin

text \<open>
  The DMA subsystem, \<^verbatim>\<open>src/linux_subsystem/dma/dma.c\<close>, over the device back-end interface of
  \<^verbatim>\<open>include/kobox/device.h\<close> and \<^verbatim>\<open>src/device/device_backend.c\<close>: the list of remembered
  mappings and the mapping window whose pages are lent out.  The back-end's operations are functions
  on its state \<open>'w\<close>; an absent operation is \<open>None\<close>.  Whether the allocation of a list entry succeeds
  is the argument \<open>alloc_ok\<close>.  The profiling counters, which the default build leaves out, are not
  part of the model.
\<close>

section \<open>The back-end interface\<close>

datatype kb_dma_dir = KB_DMA_TO_DEVICE | KB_DMA_FROM_DEVICE | KB_DMA_BIDIRECTIONAL

record kb_dma_buffer =
  buf_cpu_addr :: ptr
  buf_dma_addr :: u64
  buf_size :: u64
  buf_flags :: u32

record 'w kb_device_backend_ops =
  op_device_at :: "(ptr \<Rightarrow> u64 \<Rightarrow> 'w \<Rightarrow> kb_status \<times> ptr) option"
  op_dma_alloc :: "(ptr \<Rightarrow> u64 \<Rightarrow> u64 \<Rightarrow> kb_dma_dir \<Rightarrow> 'w \<Rightarrow> kb_status \<times> kb_dma_buffer \<times> 'w) option"
  op_dma_free :: "(ptr \<Rightarrow> kb_dma_buffer \<Rightarrow> 'w \<Rightarrow> 'w) option"
  op_dma_map :: "(ptr \<Rightarrow> ptr \<Rightarrow> u64 \<Rightarrow> kb_dma_dir \<Rightarrow> 'w \<Rightarrow> kb_status \<times> u64 \<times> 'w) option"
  op_dma_map_pages :: "(ptr \<Rightarrow> ptr \<Rightarrow> u64 \<Rightarrow> kb_dma_dir \<Rightarrow> u64 list \<Rightarrow> u64 \<Rightarrow> 'w \<Rightarrow> kb_status \<times> u64 list \<times> 'w) option"
  op_dma_map_fixed :: "(ptr \<Rightarrow> ptr \<Rightarrow> u64 \<Rightarrow> u64 \<Rightarrow> kb_dma_dir \<Rightarrow> 'w \<Rightarrow> kb_status \<times> 'w) option"
  op_dma_unmap :: "(ptr \<Rightarrow> u64 \<Rightarrow> u64 \<Rightarrow> kb_dma_dir \<Rightarrow> 'w \<Rightarrow> 'w) option"

text \<open>What a back-end pointer leads to: its member \<^verbatim>\<open>ops\<close> and the structure that points to.\<close>

type_synonym 'w backends = "ptr \<Rightarrow> ptr \<times> 'w kb_device_backend_ops"

definition pointer_is_error_value :: "ptr \<Rightarrow> bool" where
  "pointer_is_error_value p \<longleftrightarrow> p < 4096"

definition kb_device_backend_get_ops :: "'w backends \<Rightarrow> ptr \<Rightarrow> 'w kb_device_backend_ops option" where
  "kb_device_backend_get_ops mem backend =
     (if backend = NULL \<or> pointer_is_error_value backend then None
      else case mem backend of (p, ops) \<Rightarrow>
        if p = NULL \<or> pointer_is_error_value p then None else Some ops)"

section \<open>State\<close>

record kb_subsystem_dma_mapping =
  m_cpu_addr :: ptr
  m_dma_addr :: u64
  m_size :: u64
  m_device :: ptr
  m_borrowed_window :: bool
  m_persistent_allocation :: bool

record kb_subsystem_dma_window =
  w_backend :: ptr
  w_device :: ptr
  w_scope_start :: u64
  w_scope_size :: u64
  w_direction :: "kb_dma_dir option"
  w_mapped_start :: u64
  w_mapped_size :: u64
  w_mapped_page_count :: u64
  w_page_dma :: "u64 list"
  w_borrowers :: u64
  w_active :: bool
  w_mapped :: bool

record dma_state =
  dma_mappings :: "kb_subsystem_dma_mapping list"
  dma_window :: kb_subsystem_dma_window

abbreviation (input) KB_SUBSYSTEM_DMA_PAGE_SIZE :: u64 where "KB_SUBSYSTEM_DMA_PAGE_SIZE \<equiv> 4096"
abbreviation (input) KB_DEVICE_DMA_MAPPING_MAX_PAGES :: u64 where "KB_DEVICE_DMA_MAPPING_MAX_PAGES \<equiv> 512"
abbreviation (input) UINT64_MAX :: u64 where "UINT64_MAX \<equiv> -1"

text \<open>The all-zero window; zero is not a value of \<^verbatim>\<open>kb_dma_dir_t\<close>, so the direction is \<open>None\<close>.\<close>

definition zero_window :: kb_subsystem_dma_window where
  "zero_window = \<lparr>w_backend = NULL, w_device = NULL, w_scope_start = 0, w_scope_size = 0,
     w_direction = None, w_mapped_start = 0, w_mapped_size = 0, w_mapped_page_count = 0,
     w_page_dma = replicate 512 0, w_borrowers = 0, w_active = False, w_mapped = False\<rparr>"

definition dma_initial :: dma_state where
  "dma_initial = \<lparr>dma_mappings = [], dma_window = zero_window\<rparr>"

section \<open>The list of mappings\<close>

definition remember_dma_mapping_full ::
  "bool \<Rightarrow> dma_state \<Rightarrow> ptr \<Rightarrow> u64 \<Rightarrow> u64 \<Rightarrow> ptr \<Rightarrow> bool \<Rightarrow> bool \<Rightarrow> kb_status \<times> dma_state" where
  "remember_dma_mapping_full alloc_ok d cpu_addr dma_addr sz device borrowed persistent =
     (if cpu_addr = NULL \<or> sz = 0 then (KB_ERR_INVALID, d)
      else if \<not> alloc_ok then (KB_ERR_NOMEM, d)
      else (KB_OK, d\<lparr>dma_mappings :=
        \<lparr>m_cpu_addr = cpu_addr, m_dma_addr = dma_addr, m_size = sz, m_device = device,
         m_borrowed_window = borrowed, m_persistent_allocation = persistent\<rparr> # dma_mappings d\<rparr>))"

definition remember_dma_mapping ::
  "bool \<Rightarrow> dma_state \<Rightarrow> ptr \<Rightarrow> u64 \<Rightarrow> u64 \<Rightarrow> ptr \<Rightarrow> bool \<Rightarrow> kb_status \<times> dma_state" where
  "remember_dma_mapping alloc_ok d cpu_addr dma_addr sz device borrowed =
     remember_dma_mapping_full alloc_ok d cpu_addr dma_addr sz device borrowed False"

text \<open>Unlink the first entry that satisfies a condition.\<close>

fun take_first :: "('a \<Rightarrow> bool) \<Rightarrow> 'a list \<Rightarrow> 'a option \<times> 'a list" where
  "take_first P [] = (None, [])"
| "take_first P (x # xs) =
     (if P x then (Some x, xs) else case take_first P xs of (r, ys) \<Rightarrow> (r, x # ys))"

definition take_dma_mapping :: "dma_state \<Rightarrow> ptr \<Rightarrow> u64 \<Rightarrow> kb_subsystem_dma_mapping option \<times> dma_state" where
  "take_dma_mapping d device dma_addr =
     (case take_first (\<lambda>e. m_device e = device \<and> m_dma_addr e = dma_addr) (dma_mappings d) of
        (r, ms) \<Rightarrow> (r, d\<lparr>dma_mappings := ms\<rparr>))"

definition kb_subsystem_dma_has_transient_mapping :: "dma_state \<Rightarrow> ptr \<Rightarrow> u64 \<Rightarrow> bool" where
  "kb_subsystem_dma_has_transient_mapping d device dma_addr =
     list_ex (\<lambda>e. m_device e = device \<and> m_dma_addr e = dma_addr \<and> \<not> m_persistent_allocation e) (dma_mappings d)"

section \<open>The mapping window\<close>

definition dma_window_release_mapping :: "'w backends \<Rightarrow> dma_state \<Rightarrow> 'w \<Rightarrow> dma_state \<times> 'w" where
  "dma_window_release_mapping mem d w =
     (let win = dma_window d in
      if \<not> w_mapped win \<or> w_borrowers win \<noteq> 0 then (d, w)
      else
        (d\<lparr>dma_window := win\<lparr>w_mapped := False, w_mapped_start := 0, w_mapped_size := 0,
             w_mapped_page_count := 0, w_page_dma := replicate 512 0\<rparr>\<rparr>,
         case (kb_device_backend_get_ops mem (w_backend win), w_direction win) of
           (Some ops, Some direction) \<Rightarrow>
             (case op_dma_unmap ops of
                Some dma_unmap \<Rightarrow> dma_unmap (w_device win) (w_page_dma win ! 0) (w_mapped_size win) direction w
              | None \<Rightarrow> w)
         | _ \<Rightarrow> w))"

definition kb_subsystem_dma_default_device :: "'w backends \<Rightarrow> ptr \<Rightarrow> 'w \<Rightarrow> ptr" where
  "kb_subsystem_dma_default_device mem backend w =
     (case kb_device_backend_get_ops mem backend of
        None \<Rightarrow> NULL
      | Some ops \<Rightarrow>
          (case op_device_at ops of
             None \<Rightarrow> NULL
           | Some device_at \<Rightarrow>
               (case device_at backend 0 w of (status, device) \<Rightarrow> if status \<noteq> KB_OK then NULL else device)))"

text \<open>The device to use: the given one, or the back-end's first.\<close>

definition device_or_default :: "'w backends \<Rightarrow> ptr \<Rightarrow> ptr \<Rightarrow> 'w \<Rightarrow> ptr" where
  "device_or_default mem backend device w =
     (if device = NULL then kb_subsystem_dma_default_device mem backend w else device)"

definition dma_window_begin_common ::
  "'w backends \<Rightarrow> dma_state \<Rightarrow> ptr \<Rightarrow> ptr \<Rightarrow> ptr \<Rightarrow> u64 \<Rightarrow> kb_dma_dir \<Rightarrow> 'w \<Rightarrow> kb_status \<times> dma_state \<times> 'w" where
  "dma_window_begin_common mem d backend device cpu_addr sz direction w =
     (if backend = NULL \<or> cpu_addr = NULL \<or> sz = 0 \<or> w_active (dma_window d) then (KB_ERR_INVALID, d, w)
      else
        let device = device_or_default mem backend device w in
        if device = NULL then (KB_ERR_INVALID, d, w)
        else case kb_device_backend_get_ops mem backend of
          None \<Rightarrow> (KB_ERR_INVALID, d, w)
        | Some ops \<Rightarrow>
            if op_dma_map_pages ops = None \<or> op_dma_unmap ops = None \<or> cpu_addr > UINT64_MAX - sz
            then (KB_ERR_INVALID, d, w)
            else
              let win = dma_window d;
                  (d1, w1) =
                    if w_mapped win \<and> (backend \<noteq> w_backend win \<or> device \<noteq> w_device win \<or>
                        Some direction \<noteq> w_direction win \<or> cpu_addr \<noteq> w_mapped_start win)
                    then dma_window_release_mapping mem d w else (d, w);
                  win1 = if \<not> w_mapped (dma_window d1) then zero_window else dma_window d1
              in (KB_OK,
                  d1\<lparr>dma_window := win1\<lparr>w_backend := backend, w_device := device, w_scope_start := cpu_addr,
                      w_scope_size := sz, w_direction := Some direction, w_active := True\<rparr>\<rparr>, w1))"

definition kb_subsystem_dma_window_begin ::
  "'w backends \<Rightarrow> dma_state \<Rightarrow> ptr \<Rightarrow> ptr \<Rightarrow> ptr \<Rightarrow> u64 \<Rightarrow> kb_dma_dir \<Rightarrow> 'w \<Rightarrow> kb_status \<times> dma_state \<times> 'w" where
  "kb_subsystem_dma_window_begin mem d backend device cpu_addr sz direction w =
     (let (d1, w1) =
        if w_mapped (dma_window d) \<and> \<not> w_active (dma_window d)
        then (case dma_window_release_mapping mem d w of (d1, w1) \<Rightarrow> (d1\<lparr>dma_window := zero_window\<rparr>, w1))
        else (d, w)
      in dma_window_begin_common mem d1 backend device cpu_addr sz direction w1)"

definition kb_subsystem_dma_cached_window_begin ::
  "'w backends \<Rightarrow> dma_state \<Rightarrow> ptr \<Rightarrow> ptr \<Rightarrow> ptr \<Rightarrow> u64 \<Rightarrow> kb_dma_dir \<Rightarrow> 'w \<Rightarrow> kb_status \<times> dma_state \<times> 'w" where
  "kb_subsystem_dma_cached_window_begin mem d backend device cpu_addr sz direction w =
     dma_window_begin_common mem d backend device cpu_addr sz direction w"

definition kb_subsystem_dma_window_end :: "'w backends \<Rightarrow> dma_state \<Rightarrow> 'w \<Rightarrow> dma_state \<times> 'w" where
  "kb_subsystem_dma_window_end mem d w =
     (if \<not> w_active (dma_window d) \<or> w_borrowers (dma_window d) \<noteq> 0 then (d, w)
      else case dma_window_release_mapping mem d w of (d1, w1) \<Rightarrow> (d1\<lparr>dma_window := zero_window\<rparr>, w1))"

definition kb_subsystem_dma_cached_window_end :: "dma_state \<Rightarrow> dma_state" where
  "kb_subsystem_dma_cached_window_end d =
     (let win = dma_window d in
      if \<not> w_active win \<or> w_borrowers win \<noteq> 0 then d
      else d\<lparr>dma_window := win\<lparr>w_active := False, w_scope_start := 0, w_scope_size := 0\<rparr>\<rparr>)"

definition kb_subsystem_dma_cached_window_discard :: "'w backends \<Rightarrow> dma_state \<Rightarrow> 'w \<Rightarrow> dma_state \<times> 'w" where
  "kb_subsystem_dma_cached_window_discard mem d w =
     (if w_active (dma_window d) \<or> w_borrowers (dma_window d) \<noteq> 0 then (d, w)
      else case dma_window_release_mapping mem d w of (d1, w1) \<Rightarrow> (d1\<lparr>dma_window := zero_window\<rparr>, w1))"

text \<open>Pages of a byte count, as the code rounds up.\<close>

definition page_count :: "u64 \<Rightarrow> u64" where
  "page_count sz = sz div KB_SUBSYSTEM_DMA_PAGE_SIZE + (if sz mod KB_SUBSYSTEM_DMA_PAGE_SIZE \<noteq> 0 then 1 else 0)"

text \<open>
  The end of \<^verbatim>\<open>dma_window_map_pages\<close>, after the window maps the request: copy the pages out,
  remember the request and count the borrower.
\<close>

definition dma_window_lend ::
  "bool \<Rightarrow> dma_state \<Rightarrow> ptr \<Rightarrow> ptr \<Rightarrow> u64 \<Rightarrow> u64 \<Rightarrow> u64 list \<Rightarrow> kb_status \<times> u64 list \<times> dma_state" where
  "dma_window_lend alloc_ok d device cpu_addr sz request_pages out =
     (let win = dma_window d;
          first_page = (cpu_addr - w_mapped_start win) div KB_SUBSYSTEM_DMA_PAGE_SIZE
      in if first_page > w_mapped_page_count win \<or> request_pages > w_mapped_page_count win - first_page
         then (KB_ERR_INVALID, out, d)
         else
           let out' = take (unat request_pages) (drop (unat first_page) (w_page_dma win)) @ drop (unat request_pages) out in
           case remember_dma_mapping alloc_ok d cpu_addr (out' ! 0) sz device True of (status, d') \<Rightarrow>
             if status \<noteq> KB_OK then (status, out', d')
             else (KB_OK, out', d'\<lparr>dma_window := (dma_window d')\<lparr>w_borrowers := w_borrowers (dma_window d') + 1\<rparr>\<rparr>))"

text \<open>
  The branch of \<^verbatim>\<open>dma_window_map_pages\<close> that maps the window anew, from the request to the
  end of the scope and for at most 512 pages.
\<close>

definition dma_window_remap ::
  "'w backends \<Rightarrow> dma_state \<Rightarrow> ptr \<Rightarrow> ptr \<Rightarrow> ptr \<Rightarrow> u64 \<Rightarrow> kb_dma_dir \<Rightarrow> 'w \<Rightarrow> kb_status \<times> dma_state \<times> 'w" where
  "dma_window_remap mem d backend device cpu_addr sz direction w =
     (case dma_window_release_mapping mem d w of (d1, w1) \<Rightarrow>
        let remaining = w_scope_start (dma_window d) + w_scope_size (dma_window d) - cpu_addr;
            maximum = KB_DEVICE_DMA_MAPPING_MAX_PAGES * KB_SUBSYSTEM_DMA_PAGE_SIZE;
            map_size = if remaining < maximum then remaining else maximum
        in
        if map_size < sz then (KB_ERR_UNSUPPORTED, d1, w1)
        else case Option.bind (kb_device_backend_get_ops mem backend) op_dma_map_pages of
          None \<Rightarrow> (KB_ERR_UNSUPPORTED, d1, w1)
        | Some dma_map_pages \<Rightarrow>
            (case dma_map_pages device cpu_addr map_size direction (w_page_dma (dma_window d1))
                    KB_DEVICE_DMA_MAPPING_MAX_PAGES w1 of
               (status, pages, w2) \<Rightarrow>
                 let d2 = d1\<lparr>dma_window := (dma_window d1)\<lparr>w_page_dma := pages\<rparr>\<rparr> in
                 if status \<noteq> KB_OK then (status, d2, w2)
                 else (KB_OK, d2\<lparr>dma_window := (dma_window d2)\<lparr>w_mapped_start := cpu_addr, w_mapped_size := map_size,
                         w_mapped_page_count := page_count map_size, w_mapped := True\<rparr>\<rparr>, w2)))"

definition dma_window_map_pages ::
  "'w backends \<Rightarrow> bool \<Rightarrow> dma_state \<Rightarrow> ptr \<Rightarrow> ptr \<Rightarrow> ptr \<Rightarrow> u64 \<Rightarrow> kb_dma_dir \<Rightarrow> u64 list \<Rightarrow> u64 \<Rightarrow> 'w \<Rightarrow>
     kb_status \<times> u64 list \<times> bool \<times> dma_state \<times> 'w" where
  "dma_window_map_pages mem alloc_ok d backend device cpu_addr sz direction out out_capacity w =
     (let win = dma_window d in
      if \<not> w_active win \<or> backend \<noteq> w_backend win \<or> device \<noteq> w_device win \<or> Some direction \<noteq> w_direction win
      then (KB_ERR_INVALID, out, False, d, w)
      else if cpu_addr > UINT64_MAX - sz then (KB_ERR_INVALID, out, False, d, w)
      else
        let request_end = cpu_addr + sz; scope_end = w_scope_start win + w_scope_size win in
        if cpu_addr < w_scope_start win \<or> request_end > scope_end \<or> cpu_addr AND (KB_SUBSYSTEM_DMA_PAGE_SIZE - 1) \<noteq> 0
        then (KB_ERR_INVALID, out, False, d, w)
        else
          let request_pages = page_count sz in
          if request_pages = 0 \<or> request_pages > out_capacity \<or> request_pages > KB_DEVICE_DMA_MAPPING_MAX_PAGES
          then (KB_ERR_UNSUPPORTED, out, True, d, w)
          else if w_mapped win \<and> cpu_addr \<ge> w_mapped_start win \<and> request_end \<le> w_mapped_start win + w_mapped_size win
          then (case dma_window_lend alloc_ok d device cpu_addr sz request_pages out of
                  (status, out', d') \<Rightarrow> (status, out', True, d', w))
          else if w_borrowers win \<noteq> 0 then (KB_ERR_INVALID, out, True, d, w)
          else case dma_window_remap mem d backend device cpu_addr sz direction w of
              (status, d1, w1) \<Rightarrow>
                if status \<noteq> KB_OK then (status, out, True, d1, w1)
                else (case dma_window_lend alloc_ok d1 device cpu_addr sz request_pages out of
                        (status', out', d') \<Rightarrow> (status', out', True, d', w1)))"

section \<open>Allocation, mapping and translation\<close>

definition unmap_if_any :: "'w kb_device_backend_ops \<Rightarrow> ptr \<Rightarrow> u64 \<Rightarrow> u64 \<Rightarrow> kb_dma_dir \<Rightarrow> 'w \<Rightarrow> 'w" where
  "unmap_if_any ops device dma_addr sz direction w = (case op_dma_unmap ops of
       Some dma_unmap \<Rightarrow> dma_unmap device dma_addr sz direction w
     | None \<Rightarrow> w)"

definition kb_subsystem_dma_alloc ::
  "'w backends \<Rightarrow> bool \<Rightarrow> dma_state \<Rightarrow> ptr \<Rightarrow> ptr \<Rightarrow> u64 \<Rightarrow> bool \<Rightarrow> 'w \<Rightarrow> ptr \<times> u64 option \<times> dma_state \<times> 'w" where
  "kb_subsystem_dma_alloc mem alloc_ok d backend device sz out w =
     (if backend = NULL \<or> sz = 0 \<or> \<not> out then (NULL, None, d, w)
      else
        let device = device_or_default mem backend device w in
        if device = NULL then (NULL, None, d, w)
        else case kb_device_backend_get_ops mem backend of
          None \<Rightarrow> (NULL, None, d, w)
        | Some ops \<Rightarrow>
            (case op_dma_alloc ops of
               None \<Rightarrow> (NULL, None, d, w)
             | Some dma_alloc \<Rightarrow>
                 (case dma_alloc device sz 4096 KB_DMA_BIDIRECTIONAL w of (status, buffer, w1) \<Rightarrow>
                    if status \<noteq> KB_OK then (NULL, None, d, w1)
                    else case remember_dma_mapping_full alloc_ok d (buf_cpu_addr buffer) (buf_dma_addr buffer)
                                (buf_size buffer) device False True of (status', d') \<Rightarrow>
                      if status' \<noteq> KB_OK
                      then (NULL, None, d', case op_dma_free ops of Some dma_free \<Rightarrow> dma_free device buffer w1 | None \<Rightarrow> w1)
                      else (buf_cpu_addr buffer, Some (buf_dma_addr buffer), d', w1))))"

text \<open>The pages of a request inside one persistent mapping.\<close>

definition preallocated_entry_pages ::
  "kb_subsystem_dma_mapping \<Rightarrow> u64 \<Rightarrow> u64 \<Rightarrow> u64 \<Rightarrow> u64 list outcome" where
  "preallocated_entry_pages e request_start sz out_capacity =
     (let page_offset = request_start AND (KB_SUBSYSTEM_DMA_PAGE_SIZE - 1) in
      if sz > UINT64_MAX - page_offset then Fail KB_ERR_INVALID
      else
        let pages = page_count (page_offset + sz) in
        if pages = 0 \<or> pages > out_capacity then Fail KB_ERR_UNSUPPORTED
        else
          let mapping_offset = request_start - m_cpu_addr e in
          if mapping_offset > UINT64_MAX - m_dma_addr e then Fail KB_ERR_INVALID
          else
            let dma_start = m_dma_addr e + mapping_offset;
                page_base = dma_start AND NOT (KB_SUBSYSTEM_DMA_PAGE_SIZE - 1)
            in if pages > 1 \<and> (pages - 1 > UINT64_MAX div KB_SUBSYSTEM_DMA_PAGE_SIZE \<or>
                   (pages - 1) * KB_SUBSYSTEM_DMA_PAGE_SIZE > UINT64_MAX - page_base)
               then Fail KB_ERR_INVALID
               else Done (dma_start # map (\<lambda>i. page_base + of_nat i * KB_SUBSYSTEM_DMA_PAGE_SIZE) [1..<unat pages]))"

definition preallocated_covers :: "ptr \<Rightarrow> u64 \<Rightarrow> u64 \<Rightarrow> kb_subsystem_dma_mapping \<Rightarrow> bool" where
  "preallocated_covers device request_start sz e \<longleftrightarrow>
     \<not> (\<not> m_persistent_allocation e \<or> m_device e \<noteq> device \<or> m_cpu_addr e > UINT64_MAX - m_size e) \<and>
     \<not> (request_start < m_cpu_addr e \<or> request_start + sz > m_cpu_addr e + m_size e)"

text \<open>The entries of \<open>out_page_dma\<close> that the call fills.\<close>

definition kb_subsystem_dma_preallocated_pages ::
  "dma_state \<Rightarrow> ptr \<Rightarrow> ptr \<Rightarrow> u64 \<Rightarrow> bool \<Rightarrow> u64 \<Rightarrow> u64 list outcome" where
  "kb_subsystem_dma_preallocated_pages d device cpu_addr sz out out_capacity =
     (if device = NULL \<or> cpu_addr = NULL \<or> sz = 0 \<or> \<not> out \<or> out_capacity = 0 then Fail KB_ERR_INVALID
      else if cpu_addr > UINT64_MAX - sz then Fail KB_ERR_INVALID
      else case find (preallocated_covers device cpu_addr sz) (dma_mappings d) of
          None \<Rightarrow> Fail KB_ERR_NOT_FOUND
        | Some e \<Rightarrow> preallocated_entry_pages e cpu_addr sz out_capacity)"

definition kb_subsystem_dma_free ::
  "'w backends \<Rightarrow> dma_state \<Rightarrow> ptr \<Rightarrow> u64 \<Rightarrow> ptr \<Rightarrow> u64 \<Rightarrow> 'w \<Rightarrow> dma_state \<times> 'w" where
  "kb_subsystem_dma_free mem d backend sz cpu_addr dma_handle w =
     (case take_first (\<lambda>e. m_cpu_addr e = cpu_addr \<and> m_dma_addr e = dma_handle) (dma_mappings d) of
        (None, _) \<Rightarrow> (d, w)
      | (Some e, ms) \<Rightarrow>
          (d\<lparr>dma_mappings := ms\<rparr>,
           case Option.bind (kb_device_backend_get_ops mem backend) op_dma_free of
             Some dma_free \<Rightarrow>
               dma_free (m_device e) \<lparr>buf_cpu_addr = m_cpu_addr e, buf_dma_addr = m_dma_addr e,
                 buf_size = (if sz = 0 then m_size e else sz), buf_flags = 0\<rparr> w
           | None \<Rightarrow> w))"

definition dma_contains :: "u64 \<Rightarrow> kb_subsystem_dma_mapping \<Rightarrow> bool" where
  "dma_contains dma_addr e \<longleftrightarrow> \<not> (dma_addr < m_dma_addr e \<or> dma_addr \<ge> m_dma_addr e + m_size e)"

text \<open>The address and the number of bytes available there.\<close>

definition kb_subsystem_dma_cpu_addr :: "dma_state \<Rightarrow> u64 \<Rightarrow> ptr \<times> u64" where
  "kb_subsystem_dma_cpu_addr d dma_addr =
     (case find (dma_contains dma_addr) (dma_mappings d) of
        Some e \<Rightarrow> let offset = dma_addr - m_dma_addr e in (m_cpu_addr e + offset, m_size e - offset)
      | None \<Rightarrow> (NULL, 0))"

definition dma_map_with_lifetime ::
  "'w backends \<Rightarrow> bool \<Rightarrow> dma_state \<Rightarrow> ptr \<Rightarrow> ptr \<Rightarrow> ptr \<Rightarrow> u64 \<Rightarrow> kb_dma_dir \<Rightarrow> bool \<Rightarrow> 'w \<Rightarrow>
     u64 \<times> kb_status \<times> dma_state \<times> 'w" where
  "dma_map_with_lifetime mem alloc_ok d backend device cpu_addr sz direction persistent w =
     (if backend = NULL \<or> cpu_addr = NULL \<or> sz = 0 then (0, KB_ERR_INVALID, d, w)
      else
        let device = device_or_default mem backend device w in
        if device = NULL then (0, KB_ERR_INVALID, d, w)
        else case kb_device_backend_get_ops mem backend of
          None \<Rightarrow> (0, KB_ERR_UNSUPPORTED, d, w)
        | Some ops \<Rightarrow>
            (case op_dma_map ops of
               None \<Rightarrow> (0, KB_ERR_UNSUPPORTED, d, w)
             | Some dma_map \<Rightarrow>
                 if persistent \<and> op_dma_unmap ops = None then (0, KB_ERR_UNSUPPORTED, d, w)
                 else case dma_map device cpu_addr sz direction w of (status, dma_addr, w1) \<Rightarrow>
                   if status \<noteq> KB_OK then (0, status, d, w1)
                   else if dma_addr = 0 then (0, KB_ERR_IO, d, unmap_if_any ops device dma_addr sz direction w1)
                   else case remember_dma_mapping_full alloc_ok d cpu_addr dma_addr sz device False persistent of
                     (status', d') \<Rightarrow>
                       if status' \<noteq> KB_OK then (0, status', d', unmap_if_any ops device dma_addr sz direction w1)
                       else (dma_addr, KB_OK, d', w1)))"

definition kb_subsystem_dma_map ::
  "'w backends \<Rightarrow> bool \<Rightarrow> dma_state \<Rightarrow> ptr \<Rightarrow> ptr \<Rightarrow> ptr \<Rightarrow> u64 \<Rightarrow> kb_dma_dir \<Rightarrow> 'w \<Rightarrow> u64 \<times> kb_status \<times> dma_state \<times> 'w" where
  "kb_subsystem_dma_map mem alloc_ok d backend device cpu_addr sz direction w =
     dma_map_with_lifetime mem alloc_ok d backend device cpu_addr sz direction False w"

definition kb_subsystem_dma_map_persistent_bidirectional ::
  "'w backends \<Rightarrow> bool \<Rightarrow> dma_state \<Rightarrow> ptr \<Rightarrow> ptr \<Rightarrow> ptr \<Rightarrow> u64 \<Rightarrow> 'w \<Rightarrow> u64 \<times> kb_status \<times> dma_state \<times> 'w" where
  "kb_subsystem_dma_map_persistent_bidirectional mem alloc_ok d backend device cpu_addr sz w =
     dma_map_with_lifetime mem alloc_ok d backend device cpu_addr sz KB_DMA_BIDIRECTIONAL True w"

definition kb_subsystem_dma_map_pages ::
  "'w backends \<Rightarrow> bool \<Rightarrow> dma_state \<Rightarrow> ptr \<Rightarrow> ptr \<Rightarrow> ptr \<Rightarrow> u64 \<Rightarrow> kb_dma_dir \<Rightarrow> u64 list option \<Rightarrow> u64 \<Rightarrow> 'w \<Rightarrow>
     kb_status \<times> u64 list option \<times> dma_state \<times> 'w" where
  "kb_subsystem_dma_map_pages mem alloc_ok d backend device cpu_addr sz direction out out_capacity w =
     (case out of
        None \<Rightarrow> (KB_ERR_INVALID, out, d, w)
      | Some pages0 \<Rightarrow>
        if backend = NULL \<or> cpu_addr = NULL \<or> sz = 0 \<or> out_capacity = 0 then (KB_ERR_INVALID, out, d, w)
        else
          let device = device_or_default mem backend device w in
          if device = NULL then (KB_ERR_INVALID, out, d, w)
          else case kb_device_backend_get_ops mem backend of
            None \<Rightarrow> (KB_ERR_UNSUPPORTED, out, d, w)
          | Some ops \<Rightarrow>
              (case op_dma_map_pages ops of
                 None \<Rightarrow> (KB_ERR_UNSUPPORTED, out, d, w)
               | Some dma_map_pages \<Rightarrow>
                   (case dma_window_map_pages mem alloc_ok d backend device cpu_addr sz direction pages0 out_capacity w of
                      (status, pages1, used, d1, w1) \<Rightarrow>
                        if used then (status, Some pages1, d1, w1)
                        else case dma_map_pages device cpu_addr sz direction pages1 out_capacity w1 of
                          (status, pages2, w2) \<Rightarrow>
                            if status \<noteq> KB_OK then (status, Some pages2, d1, w2)
                            else case remember_dma_mapping_full alloc_ok d1 cpu_addr (pages2 ! 0) sz device False False of
                              (status', d2) \<Rightarrow>
                                if status' \<noteq> KB_OK
                                then (status', Some pages2, d2, unmap_if_any ops device (pages2 ! 0) sz direction w2)
                                else (KB_OK, Some pages2, d2, w2))))"

definition kb_subsystem_dma_map_fixed ::
  "'w backends \<Rightarrow> bool \<Rightarrow> dma_state \<Rightarrow> ptr \<Rightarrow> ptr \<Rightarrow> ptr \<Rightarrow> u64 \<Rightarrow> u64 \<Rightarrow> kb_dma_dir \<Rightarrow> 'w \<Rightarrow> kb_status \<times> dma_state \<times> 'w" where
  "kb_subsystem_dma_map_fixed mem alloc_ok d backend device cpu_addr sz dma_addr direction w =
     (if backend = NULL \<or> cpu_addr = NULL \<or> sz = 0 then (KB_ERR_INVALID, d, w)
      else
        let device = device_or_default mem backend device w in
        if device = NULL then (KB_ERR_INVALID, d, w)
        else case kb_device_backend_get_ops mem backend of
          None \<Rightarrow> (KB_ERR_UNSUPPORTED, d, w)
        | Some ops \<Rightarrow>
            (case op_dma_map_fixed ops of
               None \<Rightarrow> (KB_ERR_UNSUPPORTED, d, w)
             | Some dma_map_fixed \<Rightarrow>
                 (case dma_map_fixed device cpu_addr sz dma_addr direction w of (status, w1) \<Rightarrow>
                    if status \<noteq> KB_OK then (status, d, w1)
                    else case remember_dma_mapping alloc_ok d cpu_addr dma_addr sz device False of (status', d') \<Rightarrow>
                      (status', d',
                       if status' \<noteq> KB_OK then unmap_if_any ops device dma_addr sz direction w1 else w1))))"

definition kb_subsystem_dma_unmap ::
  "'w backends \<Rightarrow> dma_state \<Rightarrow> ptr \<Rightarrow> ptr \<Rightarrow> u64 \<Rightarrow> u64 \<Rightarrow> kb_dma_dir \<Rightarrow> 'w \<Rightarrow> dma_state \<times> 'w" where
  "kb_subsystem_dma_unmap mem d backend device dma_addr sz direction w =
     (if backend = NULL \<or> sz = 0 then (d, w)
      else
        let device = device_or_default mem backend device w in
        case take_dma_mapping d device dma_addr of (mapping, d1) \<Rightarrow>
          if (case mapping of Some e \<Rightarrow> m_borrowed_window e | None \<Rightarrow> False)
          then (if w_borrowers (dma_window d1) \<noteq> 0
                then d1\<lparr>dma_window := (dma_window d1)\<lparr>w_borrowers := w_borrowers (dma_window d1) - 1\<rparr>\<rparr>
                else d1, w)
          else (d1,
                if device \<noteq> NULL
                then (case kb_device_backend_get_ops mem backend of
                        Some ops \<Rightarrow> unmap_if_any ops device dma_addr sz direction w
                      | None \<Rightarrow> w)
                else w))"

definition kb_subsystem_dma_mapping_error :: "dma_state \<Rightarrow> u64 \<Rightarrow> int" where
  "kb_subsystem_dma_mapping_error d dma_addr =
     (if dma_addr = 0 then 1
      else if list_ex (\<lambda>e. dma_addr \<ge> m_dma_addr e \<and> dma_addr < m_dma_addr e + m_size e) (dma_mappings d) then 0
      else of_bool (dma_addr = 0))"

end
