(* ===== verification/Dma_Properties.thy ===== *)
theory Dma_Properties
  imports Dma
begin

text \<open>
  Correctness of the DMA subsystem: the invariant that every lent mapping is backed by the window,
  over every operation; the page lists of persistent mappings; translation of device addresses.
\<close>

section \<open>Words\<close>

lemma no_wrap_iff: "(x :: u64) \<le> UINT64_MAX - y \<longleftrightarrow> unat x + unat y < 2 ^ 64"
proof -
  have "unat (UINT64_MAX - y) = 2 ^ 64 - 1 - unat y"
    using unat_sub_le [of y UINT64_MAX] by (simp add: unsigned_minus_1_eq_mask mask_eq_exp_minus_1)
  then show ?thesis using unat_u64_bound [of y] by (auto simp: word_le_nat_alt)
qed

lemma unat_add_le: "(x :: u64) \<le> UINT64_MAX - y \<Longrightarrow> unat (x + y) = unat x + unat y"
  by (simp add: no_wrap_iff unat_add_no_wrap)

lemma round_up_div:
  assumes "0 < (m :: nat)"
  shows "(n + (m - 1)) div m = n div m + (if n mod m = 0 then 0 else 1)"
proof -
  have "(n + (m - 1)) div m = (n mod m + (m - 1) + n div m * m) div m"
    by (metis add.assoc add.commute mod_mult_div_eq mult.commute)
  also have "\<dots> = (n mod m + (m - 1)) div m + n div m"
    using assms by (subst div_mult_self1) (simp_all only: add.commute neq0_conv)
  also have "(n mod m + (m - 1)) div m = (if n mod m = 0 then 0 else 1)"
    using assms mod_less_divisor [OF assms, of n] by (auto intro!: div_nat_eqI)
  finally show ?thesis by simp
qed

lemma unat_page_count: "unat (page_count sz) = (unat sz + 4095) div 4096"
proof -
  have "unat (sz div 4096) = unat sz div 4096" by (simp add: unat_div)
  moreover have "sz mod 4096 = 0 \<longleftrightarrow> unat sz mod 4096 = 0" by (simp flip: unat_eq_0 add: unat_mod)
  moreover have "unat (sz div 4096 + 1) = unat sz div 4096 + 1"
    using unat_u64_bound [of sz] by (simp add: unat_add_no_wrap unat_div)
  moreover have "(n + 4095) div 4096 = n div 4096 + (if n mod 4096 = 0 then 0 else 1)" for n :: nat
    using round_up_div [of 4096 n] by simp
  ultimately show ?thesis by (simp add: page_count_def)
qed

lemma page_count_pos: "sz \<noteq> 0 \<Longrightarrow> 0 < unat (page_count sz)"
  by (simp add: unat_page_count word_nonzero_unat)

lemma and_page_mask: "unat (x AND (KB_SUBSYSTEM_DMA_PAGE_SIZE - 1)) = unat x mod 4096"
proof -
  have "x AND (KB_SUBSYSTEM_DMA_PAGE_SIZE - 1) = take_bit 12 x" by (simp add: take_bit_eq_mask mask_eq_decr_exp)
  then show ?thesis by (simp add: unsigned_take_bit_eq take_bit_nat_def)
qed

section \<open>Lists\<close>

lemma take_first_Some:
  "take_first P xs = (Some x, ys) \<Longrightarrow> \<exists>as bs. xs = as @ x # bs \<and> ys = as @ bs \<and> P x \<and> (\<forall>a \<in> set as. \<not> P a)"
proof (induction xs arbitrary: ys)
  case (Cons a xs)
  show ?case
  proof (cases "P a")
    case True
    with Cons.prems show ?thesis by (intro exI [of _ "[]"] exI [of _ xs]) auto
  next
    case False
    with Cons.prems obtain zs where "take_first P xs = (Some x, zs)" "ys = a # zs" by (auto split: prod.splits)
    with Cons.IH [of zs] False obtain as bs where "xs = as @ x # bs" "zs = as @ bs" "P x" "\<forall>a \<in> set as. \<not> P a" by blast
    with False \<open>ys = a # zs\<close> show ?thesis by (intro exI [of _ "a # as"] exI [of _ bs]) auto
  qed
qed simp

lemma take_first_None: "take_first P xs = (None, ys) \<Longrightarrow> ys = xs \<and> (\<forall>x \<in> set xs. \<not> P x)"
  by (induction xs arbitrary: ys) (auto split: if_splits prod.splits)

lemma take_first_head: "P x \<Longrightarrow> take_first P (x # xs) = (Some x, xs)"
  by simp

section \<open>The invariant of the window\<close>

definition borrowed :: "dma_state \<Rightarrow> kb_subsystem_dma_mapping list" where
  "borrowed d = filter m_borrowed_window (dma_mappings d)"

text \<open>
  A lent mapping is backed by the window: it lies inside the mapped range of the window's device,
  and its device address is that of its first page there.
\<close>

definition lent_ok :: "kb_subsystem_dma_window \<Rightarrow> kb_subsystem_dma_mapping \<Rightarrow> bool" where
  "lent_ok win e \<longleftrightarrow> w_mapped win \<and> m_device e = w_device win \<and> w_mapped_start win \<le> m_cpu_addr e \<and>
     unat (m_cpu_addr e) + unat (m_size e) \<le> unat (w_mapped_start win) + unat (w_mapped_size win) \<and>
     m_dma_addr e = w_page_dma win ! (unat (m_cpu_addr e - w_mapped_start win) div 4096)"

definition window_ok :: "kb_subsystem_dma_window \<Rightarrow> bool" where
  "window_ok win \<longleftrightarrow> length (w_page_dma win) = 512 \<and>
     (w_mapped win \<longrightarrow> unat (w_mapped_start win) + unat (w_mapped_size win) < 2 ^ 64 \<and>
        w_mapped_page_count win = page_count (w_mapped_size win) \<and> w_mapped_page_count win \<le> 512 \<and>
        unat (w_mapped_start win) mod 4096 = 0) \<and>
     (w_active win \<longrightarrow> unat (w_scope_start win) + unat (w_scope_size win) < 2 ^ 64) \<and>
     (w_borrowers win \<noteq> 0 \<longrightarrow> w_active win \<and> w_mapped win)"

definition dma_ok :: "dma_state \<Rightarrow> bool" where
  "dma_ok d \<longleftrightarrow> window_ok (dma_window d) \<and> length (borrowed d) \<le> unat (w_borrowers (dma_window d)) \<and>
     list_all (lent_ok (dma_window d)) (borrowed d)"

text \<open>A back-end writes page addresses into the array it is given and does not change its length.\<close>

definition backends_ok :: "'w backends \<Rightarrow> bool" where
  "backends_ok mem \<longleftrightarrow> (\<forall>backend ops f device cpu_addr sz direction pages capacity w.
     kb_device_backend_get_ops mem backend = Some ops \<and> op_dma_map_pages ops = Some f \<longrightarrow>
     length (fst (snd (f device cpu_addr sz direction pages capacity w))) = length pages)"

lemma zero_window_ok [simp]: "window_ok zero_window"
  by (simp add: window_ok_def zero_window_def)

lemma no_borrowers: "dma_ok d \<Longrightarrow> w_borrowers (dma_window d) = 0 \<Longrightarrow> borrowed d = []"
  by (simp add: dma_ok_def)

lemma dma_ok_remember:
  assumes "dma_ok d" "remember_dma_mapping_full ok d cpu_addr dma_addr sz device False persistent = (st, d')"
  shows "dma_ok d'" "dma_window d' = dma_window d"
  using assms by (auto simp: remember_dma_mapping_full_def dma_ok_def borrowed_def split: if_splits)

lemma dma_ok_release:
  assumes "dma_ok d" "dma_window_release_mapping mem d w = (d', w')"
  shows "dma_ok d'" "dma_mappings d' = dma_mappings d"
    "w_borrowers (dma_window d) = 0 \<Longrightarrow> \<not> w_mapped (dma_window d')"
    "w_borrowers (dma_window d') = w_borrowers (dma_window d)"
    "w_active (dma_window d') = w_active (dma_window d)" "w_scope_start (dma_window d') = w_scope_start (dma_window d)"
    "w_scope_size (dma_window d') = w_scope_size (dma_window d)" "w_device (dma_window d') = w_device (dma_window d)"
  using assms no_borrowers [OF assms(1)]
  by (auto simp: dma_window_release_mapping_def Let_def dma_ok_def window_ok_def borrowed_def split: if_splits)

lemma dma_ok_reset:
  assumes "dma_ok d" "w_borrowers (dma_window d) = 0"
  shows "dma_ok (d\<lparr>dma_window := zero_window\<rparr>)"
  using assms no_borrowers [OF assms] by (simp add: dma_ok_def borrowed_def zero_window_def [THEN arg_cong [of _ _ w_borrowers]])

lemma dma_ok_begin_common:
  assumes "dma_ok d" "dma_window_begin_common mem d backend device cpu_addr sz direction w = (st, d', w')"
  shows "dma_ok d'"
proof -
  let ?dev = "device_or_default mem backend device w"
  obtain d1 w1 where P: "(if w_mapped (dma_window d) \<and> (backend \<noteq> w_backend (dma_window d) \<or> ?dev \<noteq> w_device (dma_window d) \<or>
      Some direction \<noteq> w_direction (dma_window d) \<or> cpu_addr \<noteq> w_mapped_start (dma_window d))
    then dma_window_release_mapping mem d w else (d, w)) = (d1, w1)" by force
  have ok1: "dma_ok d1" "w_borrowers (dma_window d1) = w_borrowers (dma_window d)"
    using P assms(1) dma_ok_release(1,4) [OF assms(1)] by (auto split: if_splits)
  let ?win = "if \<not> w_mapped (dma_window d1) then zero_window else dma_window d1"
  have "d' = d \<or> \<not> w_active (dma_window d) \<and> cpu_addr \<le> UINT64_MAX - sz \<and>
      d' = d1\<lparr>dma_window := ?win\<lparr>w_backend := backend, w_device := ?dev, w_scope_start := cpu_addr,
        w_scope_size := sz, w_direction := Some direction, w_active := True\<rparr>\<rparr>"
    using assms(2) unfolding dma_window_begin_common_def Let_def P
    by (auto simp: not_less split: if_splits option.splits)
  then show ?thesis
  proof (elim disjE conjE)
    assume inactive: "\<not> w_active (dma_window d)" and nowrap: "cpu_addr \<le> UINT64_MAX - sz"
      and d': "d' = d1\<lparr>dma_window := ?win\<lparr>w_backend := backend, w_device := ?dev, w_scope_start := cpu_addr,
        w_scope_size := sz, w_direction := Some direction, w_active := True\<rparr>\<rparr>"
    have zero: "w_borrowers (dma_window d1) = 0" using inactive assms(1) ok1(2) by (auto simp: dma_ok_def window_ok_def)
    then have "borrowed d1 = []" by (rule no_borrowers [OF ok1(1)])
    then show ?thesis
      using d' ok1(1) zero nowrap
      by (auto simp: dma_ok_def borrowed_def window_ok_def no_wrap_iff zero_window_def)
  qed (simp add: assms(1))
qed

lemma dma_ok_lend:
  assumes ok: "dma_ok d" and wrap: "w_borrowers (dma_window d) \<noteq> -1"
    and win: "w_mapped (dma_window d)" "w_active (dma_window d)" "device = w_device (dma_window d)"
    and range: "w_mapped_start (dma_window d) \<le> cpu_addr"
      "unat cpu_addr + unat sz \<le> unat (w_mapped_start (dma_window d)) + unat (w_mapped_size (dma_window d))"
    and pages: "0 < unat n"
    and lend: "dma_window_lend alloc_ok d device cpu_addr sz n out = (st, out', d')"
  shows "dma_ok d'"
proof -
  let ?win = "dma_window d"
  let ?f = "(cpu_addr - w_mapped_start ?win) div KB_SUBSYSTEM_DMA_PAGE_SIZE"
  show ?thesis
  proof (cases "st = KB_OK")
    case False
    then show ?thesis
      using lend ok by (auto simp: dma_window_lend_def remember_dma_mapping_def remember_dma_mapping_full_def Let_def split: if_splits)
  next
    case True
    define e where "e = \<lparr>m_cpu_addr = cpu_addr, m_dma_addr = w_page_dma ?win ! unat ?f, m_size = sz, m_device = device,
         m_borrowed_window = True, m_persistent_allocation = False\<rparr>"
    from lend True have fit: "?f \<le> w_mapped_page_count ?win" "n \<le> w_mapped_page_count ?win - ?f"
      by (auto simp: dma_window_lend_def Let_def not_less split: if_splits)
    have cnt: "unat (w_mapped_page_count ?win) \<le> 512"
      using ok win(1) by (auto simp: dma_ok_def window_ok_def word_le_nat_alt)
    have "unat n + unat ?f \<le> unat (w_mapped_page_count ?win)"
      using fit unat_sub_le [OF fit(1)] by (simp add: word_le_nat_alt)
    then have f: "unat ?f < length (w_page_dma ?win)" using cnt pages ok by (simp add: dma_ok_def window_ok_def)
    have first: "(take (unat n) (drop (unat ?f) (w_page_dma ?win)) @ rest) ! 0 = w_page_dma ?win ! unat ?f" for rest
      using f pages by (simp add: nth_append)
    have d': "d' = d\<lparr>dma_mappings := e # dma_mappings d, dma_window := ?win\<lparr>w_borrowers := w_borrowers ?win + 1\<rparr>\<rparr>"
      using lend True fit first
      by (auto simp: dma_window_lend_def remember_dma_mapping_def remember_dma_mapping_full_def Let_def e_def not_less split: if_splits)
    have "lent_ok ?win e" using win range by (simp add: lent_ok_def e_def unat_div)
    moreover have "unat (w_borrowers ?win + 1) = unat (w_borrowers ?win) + 1"
      using wrap unat_plus_1 [of "w_borrowers ?win" "-1"] by (simp add: word_less_nat_alt word_order.not_eq_extremum)
    ultimately show ?thesis
      using ok d' win by (auto simp: dma_ok_def borrowed_def window_ok_def lent_ok_def list_all_iff e_def)
  qed
qed

text \<open>The window after it has been mapped at a request: the scope's rest, at most 512 pages.\<close>

lemma dma_ok_mapped:
  assumes ok: "dma_ok d" and zero: "w_borrowers (dma_window d) = 0" and active: "w_active (dma_window d)"
    and range: "w_scope_start (dma_window d) \<le> cpu_addr"
      "cpu_addr + sz \<le> w_scope_start (dma_window d) + w_scope_size (dma_window d)" "cpu_addr \<le> UINT64_MAX - sz"
    and page: "cpu_addr AND (KB_SUBSYSTEM_DMA_PAGE_SIZE - 1) = 0" and len: "length pages = 512"
    and ms: "ms = (if w_scope_start (dma_window d) + w_scope_size (dma_window d) - cpu_addr < 512 * 4096
      then w_scope_start (dma_window d) + w_scope_size (dma_window d) - cpu_addr else 512 * 4096)" "sz \<le> ms"
  defines "d' \<equiv> d\<lparr>dma_window := (dma_window d)\<lparr>w_page_dma := pages, w_mapped_start := cpu_addr,
      w_mapped_size := ms, w_mapped_page_count := page_count ms, w_mapped := True\<rparr>\<rparr>"
  shows "dma_ok d'" "unat cpu_addr + unat sz \<le> unat cpu_addr + unat ms"
proof -
  let ?stop = "w_scope_start (dma_window d) + w_scope_size (dma_window d)"
  have scope: "unat ?stop = unat (w_scope_start (dma_window d)) + unat (w_scope_size (dma_window d))"
    using ok active by (simp add: dma_ok_def window_ok_def unat_add_no_wrap)
  have end_le: "cpu_addr \<le> ?stop" using range(2) unat_add_le [OF range(3)] by (simp add: word_le_nat_alt)
  have ms_nat: "unat ms \<le> unat ?stop - unat cpu_addr" "unat ms \<le> 512 * 4096"
    using ms(1) unat_sub_le [OF end_le] by (auto simp: word_less_nat_alt split: if_splits)
  have "unat cpu_addr + unat ms < 2 ^ 64"
    using ms_nat(1) end_le unat_u64_bound [of ?stop] by (simp add: word_le_nat_alt)
  moreover have "page_count ms \<le> 512"
    using ms_nat(2) by (simp add: word_le_nat_alt unat_page_count)
  moreover have "unat cpu_addr mod 4096 = 0" using page and_page_mask [of cpu_addr] by simp
  ultimately show "dma_ok d'"
    using ok zero no_borrowers [OF ok zero] len by (simp add: d'_def dma_ok_def window_ok_def borrowed_def)
  show "unat cpu_addr + unat sz \<le> unat cpu_addr + unat ms" using ms(2) by (simp add: word_le_nat_alt)
qed

lemma dma_ok_window_remap:
  assumes ok: "dma_ok d" and mem: "backends_ok mem" and zero: "w_borrowers (dma_window d) = 0"
    and active: "w_active (dma_window d)"
    and range: "w_scope_start (dma_window d) \<le> cpu_addr"
      "cpu_addr + sz \<le> w_scope_start (dma_window d) + w_scope_size (dma_window d)" "cpu_addr \<le> UINT64_MAX - sz"
    and page: "cpu_addr AND (KB_SUBSYSTEM_DMA_PAGE_SIZE - 1) = 0"
    and call: "dma_window_remap mem d backend device cpu_addr sz direction w = (st, d', w')"
  shows "dma_ok d'" "w_device (dma_window d') = w_device (dma_window d)" "w_active (dma_window d')"
    "w_borrowers (dma_window d') = 0"
    "st = KB_OK \<Longrightarrow> w_mapped (dma_window d') \<and> w_mapped_start (dma_window d') = cpu_addr \<and>
      unat cpu_addr + unat sz \<le> unat cpu_addr + unat (w_mapped_size (dma_window d'))"
proof -
  obtain d1 w1 where rel: "dma_window_release_mapping mem d w = (d1, w1)" by force
  note r = dma_ok_release [OF ok rel]
  define ms where "ms = (if w_scope_start (dma_window d) + w_scope_size (dma_window d) - cpu_addr < 512 * 4096
      then w_scope_start (dma_window d) + w_scope_size (dma_window d) - cpu_addr else 512 * 4096)"
  consider (failed) "d' = d1" "st \<noteq> KB_OK"
    | (map_failed) pages where "d' = d1\<lparr>dma_window := (dma_window d1)\<lparr>w_page_dma := pages\<rparr>\<rparr>" "length pages = 512" "st \<noteq> KB_OK"
    | (mapped) pages where "length pages = 512" "sz \<le> ms" "st = KB_OK"
        "d' = d1\<lparr>dma_window := (dma_window d1)\<lparr>w_page_dma := pages, w_mapped_start := cpu_addr,
          w_mapped_size := ms, w_mapped_page_count := page_count ms, w_mapped := True\<rparr>\<rparr>"
  proof -
    have len: "length pages = 512" if "kb_device_backend_get_ops mem backend = Some ops" "op_dma_map_pages ops = Some f"
      "f device cpu_addr ms direction (w_page_dma (dma_window d1)) 512 w1 = (s, pages, w2)" for ops f s pages w2
      using mem that r(1) unfolding backends_ok_def dma_ok_def window_ok_def by (metis fst_conv snd_conv)
    note unfold = call [unfolded dma_window_remap_def Let_def ms_def [symmetric] rel prod.case]
    show thesis
    proof (cases "ms < sz \<or> Option.bind (kb_device_backend_get_ops mem backend) op_dma_map_pages = None")
      case True
      then show thesis using unfold by (intro failed) (auto split: if_splits)
    next
      case False
      then obtain ops f where ops: "kb_device_backend_get_ops mem backend = Some ops" "op_dma_map_pages ops = Some f"
        and le: "sz \<le> ms" by (auto simp: not_less bind_eq_None_conv)
      obtain s pages w2 where f: "f device cpu_addr ms direction (w_page_dma (dma_window d1)) 512 w1 = (s, pages, w2)"
        by (metis prod_cases3)
      show thesis
      proof (cases "s = KB_OK")
        case True
        show thesis
          by (rule mapped [OF len [OF ops f] le]) (use unfold True ops f leD [OF le] in \<open>simp_all\<close>)
      next
        case s: False
        show thesis
          by (rule map_failed [OF _ len [OF ops f]]) (use unfold s ops f leD [OF le] in \<open>simp_all\<close>)
      qed
    qed
  qed
  note cases = this
  have zero1: "w_borrowers (dma_window d1) = 0" and act1: "w_active (dma_window d1)"
    using zero active r(4,5) by simp_all
  from cases show "dma_ok d'"
  proof cases
    case failed
    then show ?thesis using r(1) by simp
  next
    case map_failed
    then show ?thesis
      using r(1) r(3) [OF zero] zero1 no_borrowers [OF r(1) zero1] by (simp add: dma_ok_def window_ok_def borrowed_def)
  next
    case mapped
    show ?thesis
      unfolding mapped(4)
      by (rule dma_ok_mapped(1) [OF r(1) zero1 act1, unfolded r(6,7), OF range page mapped(1) ms_def mapped(2)])
  qed
  from cases show "w_device (dma_window d') = w_device (dma_window d)" by cases (simp_all add: r(8))
  from cases show "w_active (dma_window d')" by cases (simp_all add: act1)
  from cases show "w_borrowers (dma_window d') = 0" by cases (simp_all add: zero1)
  show "w_mapped (dma_window d') \<and> w_mapped_start (dma_window d') = cpu_addr \<and>
      unat cpu_addr + unat sz \<le> unat cpu_addr + unat (w_mapped_size (dma_window d'))" if "st = KB_OK"
    using cases
  proof cases
    case mapped
    then show ?thesis unfolding mapped(4) by (simp add: word_le_nat_alt)
  qed (use that in simp_all)
qed

lemma dma_ok_window_map_pages:
  assumes ok: "dma_ok d" and mem: "backends_ok mem" and wrap: "w_borrowers (dma_window d) \<noteq> -1"
    and call: "dma_window_map_pages mem alloc_ok d backend device cpu_addr sz direction out capacity w = (st, out', used, d', w')"
  shows "dma_ok d'" "\<not> used \<Longrightarrow> d' = d"
proof -
  let ?win = "dma_window d"
  let ?stop = "w_scope_start ?win + w_scope_size ?win"
  let ?early = "\<not> w_active ?win \<or> backend \<noteq> w_backend ?win \<or> device \<noteq> w_device ?win \<or> Some direction \<noteq> w_direction ?win \<or>
    cpu_addr > UINT64_MAX - sz \<or> cpu_addr < w_scope_start ?win \<or> cpu_addr + sz > ?stop \<or>
    cpu_addr AND (KB_SUBSYSTEM_DMA_PAGE_SIZE - 1) \<noteq> 0"
  let ?unsupported = "page_count sz = 0 \<or> page_count sz > capacity \<or> page_count sz > KB_DEVICE_DMA_MAPPING_MAX_PAGES"
  let ?reuse = "w_mapped ?win \<and> cpu_addr \<ge> w_mapped_start ?win \<and> cpu_addr + sz \<le> w_mapped_start ?win + w_mapped_size ?win"
  note unfold = call [unfolded dma_window_map_pages_def Let_def]
  have "dma_ok d' \<and> (\<not> used \<longrightarrow> d' = d)"
  proof (cases ?early)
    case True
    then have "d' = d" using unfold by (auto split: if_splits)
    then show ?thesis using ok by simp
  next
    case early: False
    show ?thesis
    proof (cases ?unsupported)
      case True
      then have "d' = d \<and> used" using early unfold by auto
      then show ?thesis using ok by simp
    next
      case supported: False
      then have n: "0 < unat (page_count sz)" by (simp add: unat_gt_0)
      show ?thesis
      proof (cases ?reuse)
        case True
        then have lend: "\<exists>s o'. dma_window_lend alloc_ok d device cpu_addr sz (page_count sz) out = (s, o', d')" and used
          using early supported unfold by (auto split: prod.splits)
        have "unat (w_mapped_start ?win + w_mapped_size ?win) = unat (w_mapped_start ?win) + unat (w_mapped_size ?win)"
          using ok True by (simp add: dma_ok_def window_ok_def unat_add_no_wrap)
        then have "unat cpu_addr + unat sz \<le> unat (w_mapped_start ?win) + unat (w_mapped_size ?win)"
          using True early unat_add_le [of cpu_addr sz] by (simp add: word_le_nat_alt not_less)
        with lend show ?thesis
          using dma_ok_lend [OF ok wrap _ _ _ _ _ n] True early \<open>used\<close> by blast
      next
        case fresh: False
        show ?thesis
        proof (cases "w_borrowers ?win = 0")
          case True
          obtain st1 d1 w1 where remap: "dma_window_remap mem d backend device cpu_addr sz direction w = (st1, d1, w1)"
            by (metis prod_cases3)
          have r: "w_active ?win" "w_scope_start ?win \<le> cpu_addr" "cpu_addr + sz \<le> ?stop" "cpu_addr \<le> UINT64_MAX - sz"
            "cpu_addr AND (KB_SUBSYSTEM_DMA_PAGE_SIZE - 1) = 0" "device = w_device ?win"
            using early by (auto simp: not_less)
          note m = dma_ok_window_remap [OF ok mem True r(1-5) remap]
          have "d' = d1 \<or> (\<exists>s o'. st1 = KB_OK \<and> dma_window_lend alloc_ok d1 device cpu_addr sz (page_count sz) out = (s, o', d'))"
            and used
            using early supported fresh True unfold remap by (auto split: prod.splits if_splits)
          then show ?thesis
          proof (elim disjE exE conjE)
            fix s o'
            assume st1: "st1 = KB_OK" and lend: "dma_window_lend alloc_ok d1 device cpu_addr sz (page_count sz) out = (s, o', d')"
            have "dma_ok d'"
              by (rule dma_ok_lend [OF m(1) _ _ m(3) _ _ _ n lend]) (use m(2,4,5) st1 r(6) in \<open>simp_all\<close>)
            with \<open>used\<close> show ?thesis by simp
          qed (use m(1) \<open>used\<close> in simp)
        next
          case False
          then have "d' = d \<and> used" using early supported fresh unfold by (auto split: if_splits)
          then show ?thesis using ok by simp
        qed
      qed
    qed
  qed
  then show "dma_ok d'" "\<not> used \<Longrightarrow> d' = d" by auto
qed

lemma take_first_filter:
  assumes "take_first P xs = (r, ys)"
  shows "length (filter Q ys) + (case r of Some x \<Rightarrow> if Q x then 1 else 0 | None \<Rightarrow> 0) = length (filter Q xs)"
    and "set ys \<subseteq> set xs"
  using assms take_first_Some [of P xs _ ys] take_first_None [of P xs ys] by (cases r; fastforce)+

lemma dma_ok_take:
  assumes ok: "dma_ok d" and t: "take_first P (dma_mappings d) = (r, ms)"
  shows "dma_ok (d\<lparr>dma_mappings := ms\<rparr>)"
    "(case r of Some e \<Rightarrow> m_borrowed_window e | None \<Rightarrow> False) \<Longrightarrow>
       length (borrowed (d\<lparr>dma_mappings := ms\<rparr>)) < unat (w_borrowers (dma_window d))"
proof -
  note f = take_first_filter(1) [OF t, of m_borrowed_window] take_first_filter(2) [OF t]
  show "dma_ok (d\<lparr>dma_mappings := ms\<rparr>)"
    using ok f by (auto simp: dma_ok_def borrowed_def list_all_iff split: option.splits if_splits)
  show "length (borrowed (d\<lparr>dma_mappings := ms\<rparr>)) < unat (w_borrowers (dma_window d))"
    if "case r of Some e \<Rightarrow> m_borrowed_window e | None \<Rightarrow> False"
    using that ok f by (auto simp: dma_ok_def borrowed_def split: option.splits)
qed

lemma dma_ok_unmap:
  assumes ok: "dma_ok d" and call: "kb_subsystem_dma_unmap mem d backend device dma_addr sz direction w = (d', w')"
  shows "dma_ok d'"
proof (cases "backend = NULL \<or> sz = 0")
  case True
  then show ?thesis using ok call by (auto simp: kb_subsystem_dma_unmap_def)
next
  case False
  let ?dev = "device_or_default mem backend device w"
  obtain r ms where t: "take_first (\<lambda>e. m_device e = ?dev \<and> m_dma_addr e = dma_addr) (dma_mappings d) = (r, ms)" by force
  let ?d1 = "d\<lparr>dma_mappings := ms\<rparr>"
  have ok1: "dma_ok ?d1" by (rule dma_ok_take [OF ok t])
  show ?thesis
  proof (cases "(case r of Some e \<Rightarrow> m_borrowed_window e | None \<Rightarrow> False) \<and> w_borrowers (dma_window d) \<noteq> 0")
    case True
    then have d': "d' = ?d1\<lparr>dma_window := (dma_window d)\<lparr>w_borrowers := w_borrowers (dma_window d) - 1\<rparr>\<rparr>"
      using call False t by (auto simp: kb_subsystem_dma_unmap_def take_dma_mapping_def Let_def split: if_splits)
    have "1 \<le> w_borrowers (dma_window d)" using True by (simp add: word_le_nat_alt unat_gt_0 Suc_le_eq)
    then have "unat (w_borrowers (dma_window d) - 1) = unat (w_borrowers (dma_window d)) - 1" by (simp add: unat_sub_le)
    moreover have "length (borrowed ?d1) < unat (w_borrowers (dma_window d))" using dma_ok_take(2) [OF ok t] True by blast
    ultimately show ?thesis
      unfolding d' using ok1 True by (auto simp: dma_ok_def borrowed_def window_ok_def list_all_iff lent_ok_def)
  next
    case None: False
    then have "d' = ?d1"
      using call False t by (auto simp: kb_subsystem_dma_unmap_def take_dma_mapping_def Let_def split: if_splits)
    then show ?thesis using ok1 by simp
  qed
qed

text \<open>One step of the subsystem; fewer than \<open>2 ^ 64 - 1\<close> borrowers are outstanding.\<close>

inductive dma_step :: "'w backends \<Rightarrow> dma_state \<Rightarrow> dma_state \<Rightarrow> bool" for mem where
  alloc: "kb_subsystem_dma_alloc mem ok d backend device sz out w = (r, h, d', w') \<Longrightarrow> dma_step mem d d'"
| free: "kb_subsystem_dma_free mem d backend sz cpu_addr handle w = (d', w') \<Longrightarrow> dma_step mem d d'"
| map: "kb_subsystem_dma_map mem ok d backend device cpu_addr sz direction w = (a, st, d', w') \<Longrightarrow> dma_step mem d d'"
| map_persistent: "kb_subsystem_dma_map_persistent_bidirectional mem ok d backend device cpu_addr sz w = (a, st, d', w') \<Longrightarrow>
    dma_step mem d d'"
| map_pages: "kb_subsystem_dma_map_pages mem ok d backend device cpu_addr sz direction out cap w = (st, out', d', w') \<Longrightarrow>
    w_borrowers (dma_window d) \<noteq> UINT64_MAX \<Longrightarrow> dma_step mem d d'"
| map_fixed: "kb_subsystem_dma_map_fixed mem ok d backend device cpu_addr sz a direction w = (st, d', w') \<Longrightarrow> dma_step mem d d'"
| unmap: "kb_subsystem_dma_unmap mem d backend device a sz direction w = (d', w') \<Longrightarrow> dma_step mem d d'"
| window_begin: "kb_subsystem_dma_window_begin mem d backend device cpu_addr sz direction w = (st, d', w') \<Longrightarrow> dma_step mem d d'"
| cached_begin: "kb_subsystem_dma_cached_window_begin mem d backend device cpu_addr sz direction w = (st, d', w') \<Longrightarrow> dma_step mem d d'"
| window_end: "kb_subsystem_dma_window_end mem d w = (d', w') \<Longrightarrow> dma_step mem d d'"
| cached_end: "dma_step mem d (kb_subsystem_dma_cached_window_end d)"
| discard: "kb_subsystem_dma_cached_window_discard mem d w = (d', w') \<Longrightarrow> dma_step mem d d'"

lemma dma_ok_map:
  assumes "dma_ok d" "dma_map_with_lifetime mem ok d backend device cpu_addr sz direction persistent w = (a, st, d', w')"
  shows "dma_ok d'"
  using assms dma_ok_remember(1) [OF assms(1), of ok cpu_addr _ sz]
  by (auto simp: dma_map_with_lifetime_def Let_def split: if_splits option.splits prod.splits)

lemma dma_ok_map_pages:
  assumes "dma_ok d" "backends_ok mem" "w_borrowers (dma_window d) \<noteq> UINT64_MAX"
    and call: "kb_subsystem_dma_map_pages mem ok d backend device cpu_addr sz direction out cap w = (st, out', d', w')"
  shows "dma_ok d'"
proof (cases "d' = d")
  case False
  let ?dev = "device_or_default mem backend device w"
  from call False obtain pages0 where "out = Some pages0"
    by (auto simp: kb_subsystem_dma_map_pages_def split: option.splits)
  obtain st1 out1 used d1 w1 where win: "dma_window_map_pages mem ok d backend ?dev cpu_addr sz direction pages0 cap w = (st1, out1, used, d1, w1)"
    by (metis prod_cases5)
  note m = dma_ok_window_map_pages [OF assms(1-3) win]
  have "d' = d1 \<or> (\<exists>p st2. remember_dma_mapping_full ok d1 cpu_addr p sz ?dev False False = (st2, d'))"
    using call False win \<open>out = Some pages0\<close>
    by (auto simp: kb_subsystem_dma_map_pages_def Let_def split: if_splits option.splits prod.splits)
  then show ?thesis using m(1) dma_ok_remember(1) [OF m(1)] by blast
qed (simp add: assms)

lemma dma_step_ok:
  assumes "dma_step mem d d'" "backends_ok mem" "dma_ok d"
  shows "dma_ok d'"
  using assms
proof (induction rule: dma_step.induct)
  case (alloc ok d backend device sz out w r h d' w')
  then show ?case
    using dma_ok_remember(1) [OF alloc(3), of ok]
    by (auto simp: kb_subsystem_dma_alloc_def Let_def split: if_splits option.splits prod.splits)
next
  case (free d backend sz cpu_addr handle w d' w')
  then show ?case
    using dma_ok_take(1) [OF free(3)] by (auto simp: kb_subsystem_dma_free_def split: option.splits prod.splits)
next
  case (map_fixed ok d backend device cpu_addr sz a direction w st d' w')
  then show ?case
    using dma_ok_remember(1) [OF map_fixed(3), of ok]
    by (auto simp: kb_subsystem_dma_map_fixed_def remember_dma_mapping_def Let_def split: if_splits option.splits prod.splits)
next
  case (window_begin d backend device cpu_addr sz direction w st d' w')
  obtain d1 w1 where rel: "dma_window_release_mapping mem d w = (d1, w1)" by force
  have "dma_ok (d1\<lparr>dma_window := zero_window\<rparr>)" if "\<not> w_active (dma_window d)"
    using that window_begin(3) dma_ok_release(1,4) [OF window_begin(3) rel] dma_ok_reset [of d1]
    by (auto simp: dma_ok_def window_ok_def)
  then show ?case
    using window_begin rel dma_ok_begin_common
    by (auto simp: kb_subsystem_dma_window_begin_def Let_def split: if_splits)
next
  case (window_end d w d' w')
  obtain d1 w1 where rel: "dma_window_release_mapping mem d w = (d1, w1)" by force
  show ?case
    using window_end dma_ok_release(1,4) [OF window_end(3) rel] dma_ok_reset [of d1] rel
    by (auto simp: kb_subsystem_dma_window_end_def split: if_splits)
next
  case (cached_end d)
  then show ?case
    using no_borrowers [OF cached_end(2)]
    by (auto simp: kb_subsystem_dma_cached_window_end_def Let_def dma_ok_def window_ok_def borrowed_def)
next
  case (discard d w d' w')
  obtain d1 w1 where rel: "dma_window_release_mapping mem d w = (d1, w1)" by force
  show ?case
    using discard dma_ok_release(1,4) [OF discard(3) rel] dma_ok_reset [of d1] rel
    by (auto simp: kb_subsystem_dma_cached_window_discard_def split: if_splits)
qed (use dma_ok_map dma_ok_map_pages dma_ok_unmap dma_ok_begin_common in
    \<open>auto simp: kb_subsystem_dma_map_def kb_subsystem_dma_map_persistent_bidirectional_def
      kb_subsystem_dma_cached_window_begin_def\<close>)

section \<open>Reachable states and page lists\<close>

lemma dma_reachable_ok:
  assumes "backends_ok mem" and "(dma_step mem)\<^sup>*\<^sup>* dma_initial d"
  shows "dma_ok d"
  using assms(2)
proof (induction rule: rtranclp_induct)
  case base
  then show ?case by (simp add: dma_initial_def dma_ok_def borrowed_def)
next
  case (step d d')
  then show ?case using dma_step_ok assms(1) by blast
qed

text \<open>
  The device address of byte \<open>k\<close> of a request that starts at \<open>cpu_addr\<close>, read through its page list
  the way a device does: the first entry carries the offset in the page, the others are page bases.
\<close>

definition page_list_byte :: "u64 list \<Rightarrow> u64 \<Rightarrow> nat \<Rightarrow> u64" where
  "page_list_byte pages cpu_addr k =
     (let p = unat cpu_addr mod 4096 + k in
      if p < 4096 then pages ! 0 + of_nat k else pages ! (p div 4096) + of_nat (p mod 4096))"

lemma page_base_eq: "(x :: u64) AND NOT (KB_SUBSYSTEM_DMA_PAGE_SIZE - 1) = x - of_nat (unat x mod 4096)"
proof -
  have m: "(KB_SUBSYSTEM_DMA_PAGE_SIZE - 1) = (mask 12 :: u64)" by (simp add: mask_eq_decr_exp)
  have "of_nat (unat x mod 4096) = take_bit 12 x"
    using and_page_mask [of x] by (metis m of_nat_unat take_bit_eq_mask ucast_id)
  moreover have "x AND NOT (mask 12) = x - take_bit 12 x"
  proof -
    have "(x AND NOT (mask 12)) + (x AND mask 12) = x"
      by (subst disjunctive_add_eq_or) (auto simp: bit_eq_iff bit_simps)
    then show ?thesis by (simp add: take_bit_eq_mask eq_diff_eq)
  qed
  ultimately show ?thesis unfolding m by simp
qed

lemma preallocated_entry_pages_Done:
  assumes "preallocated_entry_pages e cpu_addr sz capacity = Done pages" and "m_cpu_addr e \<le> cpu_addr"
  defines "base \<equiv> m_dma_addr e + (cpu_addr - m_cpu_addr e)"
  shows "length pages = (unat cpu_addr mod 4096 + unat sz + 4095) div 4096" "length pages \<le> unat capacity"
    "pages ! 0 = base" "unat base = unat (m_dma_addr e) + (unat cpu_addr - unat (m_cpu_addr e))"
    "0 < i \<Longrightarrow> i < length pages \<Longrightarrow> pages ! i = base - of_nat (unat base mod 4096) + of_nat (i * 4096)"
proof -
  let ?off = "cpu_addr AND (KB_SUBSYSTEM_DMA_PAGE_SIZE - 1)"
  let ?n = "page_count (?off + sz)"
  have ok: "sz \<le> UINT64_MAX - ?off" "?n \<noteq> 0" "?n \<le> capacity"
    "cpu_addr - m_cpu_addr e \<le> UINT64_MAX - m_dma_addr e"
    and pages: "pages = base # map (\<lambda>i. (base AND NOT (KB_SUBSYSTEM_DMA_PAGE_SIZE - 1)) + of_nat i * KB_SUBSYSTEM_DMA_PAGE_SIZE) [1..<unat ?n]"
    using assms(1) [unfolded preallocated_entry_pages_def Let_def, folded base_def, unfolded if_Fail_Done]
    by (simp_all only: not_less de_Morgan_disj outcome.inject simp_thms)
  have n: "unat ?n = (unat cpu_addr mod 4096 + unat sz + 4095) div 4096"
  proof -
    have "unat (?off + sz) = unat cpu_addr mod 4096 + unat sz"
      using unat_add_le [OF ok(1)] unfolding and_page_mask by (simp only: add.commute)
    then show ?thesis unfolding unat_page_count by simp
  qed
  have len: "length pages = unat ?n" using pages ok(2) by (simp add: word_nonzero_unat)
  show "length pages = (unat cpu_addr mod 4096 + unat sz + 4095) div 4096" using len n by simp
  show "length pages \<le> unat capacity" using len ok(3) by (simp add: word_le_nat_alt)
  show "pages ! 0 = base" using pages by simp
  show "unat base = unat (m_dma_addr e) + (unat cpu_addr - unat (m_cpu_addr e))"
    using unat_add_le [OF ok(4)] unat_sub_le [OF assms(2)] by (simp add: base_def add.commute)
  show "pages ! i = base - of_nat (unat base mod 4096) + of_nat (i * 4096)" if "0 < i" "i < length pages"
    using that len unfolding pages page_base_eq by (cases i) auto
qed

lemma mod_shift_cong: "D mod n = M mod n \<Longrightarrow> M \<le> C \<Longrightarrow> (D + (C - M)) mod n = C mod (n :: nat)"
  by (metis mod_add_left_eq le_add_diff_inverse)

lemma window_pages_fit:
  assumes "window_ok win" "w_mapped win" "unat cpu_addr mod 4096 = 0" "w_mapped_start win \<le> cpu_addr"
    and "unat cpu_addr + unat sz \<le> unat (w_mapped_start win) + unat (w_mapped_size win)"
  defines "f \<equiv> (cpu_addr - w_mapped_start win) div KB_SUBSYSTEM_DMA_PAGE_SIZE"
  shows "unat f + unat (page_count sz) \<le> unat (w_mapped_page_count win)"
proof -
  let ?s = "unat (w_mapped_start win)" and ?c = "unat cpu_addr"
  have start: "?s mod 4096 = 0" "w_mapped_page_count win = page_count (w_mapped_size win)"
    using assms(1,2) by (auto simp: window_ok_def)
  obtain q where q: "?c - ?s = 4096 * q"
    using start(1) assms(3) by (metis dvd_diff_nat dvd_def mod_0_imp_dvd)
  have "unat (cpu_addr - w_mapped_start win) = ?c - ?s" using assms(4) by (rule unat_sub_le)
  then have "unat f = q" using q by (simp add: f_def unat_div)
  moreover have "4096 * q + unat sz \<le> unat (w_mapped_size win)"
    using assms(4,5) q by (simp add: word_le_nat_alt)
  then have "(unat sz + 4095 + q * 4096) div 4096 \<le> (unat (w_mapped_size win) + 4095) div 4096"
    by (intro div_le_mono) simp
  ultimately show ?thesis by (simp add: start(2) unat_page_count)
qed

section \<open>Properties\<close>

text \<open>C5.  A lent mapping never dangles.  In every state the subsystem can reach, by any sequence of
  its calls and with any back-end that fills the page array it is given, every mapping that was lent
  out of the window lies inside the range the window still has mapped, for the window's device, and
  its device address is the address of its first page there; the window counts it as a borrower, so
  it cannot be unmapped, ended or moved.\<close>

theorem dma_lent_mappings_valid:
  assumes "backends_ok mem" and "(dma_step mem)\<^sup>*\<^sup>* dma_initial d"
    and "e \<in> set (dma_mappings d)" and "m_borrowed_window e"
  shows "lent_ok (dma_window d) e \<and> w_borrowers (dma_window d) \<noteq> 0 \<and> w_active (dma_window d) \<and>
    kb_subsystem_dma_window_end mem d w = (d, w) \<and> dma_window_release_mapping mem d w = (d, w)"
proof -
  have ok: "dma_ok d" by (rule dma_reachable_ok [OF assms(1,2)])
  have e: "e \<in> set (borrowed d)" using assms(3,4) by (simp add: borrowed_def)
  then have nz: "w_borrowers (dma_window d) \<noteq> 0" using no_borrowers [OF ok] by fastforce
  have "lent_ok (dma_window d) e" using ok e by (simp add: dma_ok_def list_all_iff)
  moreover have "w_active (dma_window d)" using ok nz by (simp add: dma_ok_def window_ok_def)
  ultimately show ?thesis
    using nz by (simp add: kb_subsystem_dma_window_end_def dma_window_release_mapping_def Let_def)
qed

text \<open>A back-end at address 0x8000 with one device that maps every page to itself.\<close>

definition sample_backends :: "unit backends" where
  "sample_backends backend = (0x9000,
     \<lparr>op_device_at = Some (\<lambda>b i w. (KB_OK, 0x7000)), op_dma_alloc = None, op_dma_free = None,
      op_dma_map = Some (\<lambda>device cpu_addr sz direction w. (KB_OK, cpu_addr, w)),
      op_dma_map_pages = Some (\<lambda>device cpu_addr sz direction pages capacity w.
        (KB_OK, map (\<lambda>i. cpu_addr + of_nat i * 4096) [0..<length pages], w)),
      op_dma_map_fixed = None, op_dma_unmap = Some (\<lambda>device a sz direction w. w)\<rparr>)"

definition sample_window :: "kb_status \<times> dma_state \<times> unit" where
  "sample_window = kb_subsystem_dma_window_begin sample_backends dma_initial 0x8000 0 0x10000 0x3000 KB_DMA_FROM_DEVICE ()"

definition sample_lent :: "kb_status \<times> u64 list option \<times> dma_state \<times> unit" where
  "sample_lent = kb_subsystem_dma_map_pages sample_backends True (fst (snd sample_window)) 0x8000 0 0x11000 0x1800
     KB_DMA_FROM_DEVICE (Some [0, 0]) 2 ()"

lemma sample_backends_ok: "backends_ok sample_backends"
  by (auto simp: backends_ok_def kb_device_backend_get_ops_def sample_backends_def split: if_splits)

lemma sample_window_step: "dma_step sample_backends dma_initial (fst (snd sample_window))"
proof -
  obtain st d' w' where e: "sample_window = (st, d', w')" by (metis prod_cases3)
  show ?thesis unfolding e using dma_step.window_begin [OF e [unfolded sample_window_def]] by simp
qed

lemma sample_lent_step: "dma_step sample_backends (fst (snd sample_window)) (fst (snd (snd sample_lent)))"
proof -
  have "w_borrowers (dma_window (fst (snd sample_window))) \<noteq> UINT64_MAX" by code_simp
  moreover obtain st out d' w' where e: "sample_lent = (st, out, d', w')" by (metis prod_cases4)
  ultimately show ?thesis unfolding e using dma_step.map_pages [OF e [unfolded sample_lent_def]] by simp
qed

lemma sample_lent_entry:
  "dma_mappings (fst (snd (snd sample_lent))) =
     [\<lparr>m_cpu_addr = 0x11000, m_dma_addr = 0x11000, m_size = 0x1800, m_device = 0x7000,
       m_borrowed_window = True, m_persistent_allocation = False\<rparr>]"
  by code_simp

lemma sample_lent_steps: "(dma_step sample_backends)\<^sup>*\<^sup>* dma_initial (fst (snd (snd sample_lent)))"
  using sample_window_step sample_lent_step by (meson converse_rtranclp_into_rtranclp rtranclp.rtrancl_refl)

theorem dma_lent_mappings_valid_witness:
  "\<exists>d e. (dma_step sample_backends)\<^sup>*\<^sup>* dma_initial d \<and> e \<in> set (dma_mappings d) \<and> m_borrowed_window e \<and>
     lent_ok (dma_window d) e \<and> w_borrowers (dma_window d) \<noteq> 0"
proof -
  let ?d = "fst (snd (snd sample_lent))"
  have steps: "(dma_step sample_backends)\<^sup>*\<^sup>* dma_initial ?d"
    by (rule sample_lent_steps)
  obtain e where "e \<in> set (dma_mappings ?d)" "m_borrowed_window e" unfolding sample_lent_entry by auto
  with dma_lent_mappings_valid [OF sample_backends_ok steps] steps show ?thesis by metis
qed

text \<open>C20.  The page list of a request inside a persistent mapping addresses exactly the requested
  bytes.  When the lookup succeeds, some persistent mapping of the device covers the request, the
  list has one entry per page the request touches and fits the caller's array, and, for a mapping
  that keeps the offset in the page, the device address the list gives for byte \<open>k\<close> is the mapping's
  address plus the byte's offset in the mapping, for every byte of the request.\<close>

theorem dma_preallocated_pages_exact:
  assumes "kb_subsystem_dma_preallocated_pages d device cpu_addr sz True capacity = Done pages"
  shows "\<exists>e \<in> set (dma_mappings d). m_persistent_allocation e \<and> m_device e = device \<and>
    m_cpu_addr e \<le> cpu_addr \<and> unat cpu_addr + unat sz \<le> unat (m_cpu_addr e) + unat (m_size e) \<and>
    length pages = (unat cpu_addr mod 4096 + unat sz + 4095) div 4096 \<and> length pages \<le> unat capacity \<and>
    (unat (m_dma_addr e) mod 4096 = unat (m_cpu_addr e) mod 4096 \<longrightarrow>
      (\<forall>k < unat sz. page_list_byte pages cpu_addr k = m_dma_addr e + (cpu_addr - m_cpu_addr e) + of_nat k))"
proof -
  from assms obtain e where e: "e \<in> set (dma_mappings d)" "preallocated_covers device cpu_addr sz e"
    and pages: "preallocated_entry_pages e cpu_addr sz capacity = Done pages" and nowrap: "cpu_addr \<le> UINT64_MAX - sz"
    by (auto simp: kb_subsystem_dma_preallocated_pages_def not_less split: if_splits option.splits dest!: find_SomeD)
  have covers: "m_persistent_allocation e" "m_device e = device" "m_cpu_addr e \<le> cpu_addr" "m_cpu_addr e \<le> UINT64_MAX - m_size e"
    "cpu_addr + sz \<le> m_cpu_addr e + m_size e"
    using e(2) by (auto simp: preallocated_covers_def not_less)
  have range: "unat cpu_addr + unat sz \<le> unat (m_cpu_addr e) + unat (m_size e)"
    using covers(5) unat_add_le [OF nowrap] unat_add_le [OF covers(4)] by (simp add: word_le_nat_alt)
  note p = preallocated_entry_pages_Done [OF pages covers(3)]
  let ?base = "m_dma_addr e + (cpu_addr - m_cpu_addr e)"
  have bytes: "page_list_byte pages cpu_addr k = ?base + of_nat k"
    if cong: "unat (m_dma_addr e) mod 4096 = unat (m_cpu_addr e) mod 4096" and k: "k < unat sz" for k
  proof (cases "unat cpu_addr mod 4096 + k < 4096")
    case False
    let ?p = "unat cpu_addr mod 4096 + k"
    have "unat ?base mod 4096 = unat cpu_addr mod 4096"
      unfolding p(4) using cong covers(3) by (intro mod_shift_cong) (simp_all add: word_le_nat_alt)
    moreover have "?p div 4096 < length pages" unfolding p(1) using k by linarith
    moreover have "0 < ?p div 4096" using False by simp
    ultimately have "page_list_byte pages cpu_addr k =
        ?base - of_nat (unat cpu_addr mod 4096) + of_nat (?p div 4096 * 4096) + of_nat (?p mod 4096)"
      using p(5) [of "?p div 4096"] False by (simp add: page_list_byte_def Let_def)
    also have "\<dots> = ?base - of_nat (unat cpu_addr mod 4096) + of_nat (?p div 4096 * 4096 + ?p mod 4096)"
      by (simp only: of_nat_add add.assoc)
    also have "\<dots> = ?base + of_nat k" unfolding div_mult_mod_eq by (simp only: of_nat_add) simp
    finally show ?thesis .
  qed (simp add: page_list_byte_def p(3))
  show ?thesis using e(1) covers(1-3) range p(1,2) bytes by blast
qed

theorem dma_preallocated_pages_exact_witness:
  "kb_subsystem_dma_preallocated_pages
     (dma_initial\<lparr>dma_mappings := [\<lparr>m_cpu_addr = 0x10100, m_dma_addr = 0x90100, m_size = 0x4000, m_device = 5,
        m_borrowed_window = False, m_persistent_allocation = True\<rparr>]\<rparr>) 5 0x10f00 0x1200 True 4 = Done [0x90f00, 0x91000, 0x92000] \<and>
   page_list_byte [0x90f00, 0x91000, 0x92000] 0x10f00 0x1101 = 0x92001"
proof -
  let ?e = "\<lparr>m_cpu_addr = 0x10100, m_dma_addr = 0x90100, m_size = 0x4000, m_device = 5,
        m_borrowed_window = False, m_persistent_allocation = True\<rparr>"
  have call: "kb_subsystem_dma_preallocated_pages (dma_initial\<lparr>dma_mappings := [?e]\<rparr>) 5 0x10f00 0x1200 True 4 =
      Done [0x90f00, 0x91000, 0x92000]"
    by code_simp
  from dma_preallocated_pages_exact [OF call] call show ?thesis by simp
qed

text \<open>C30.  Lending from a mapped window is exact and returning undoes it.  A page-aligned request
  inside the active window and inside its mapped range, with enough room in the caller's array and
  where the allocation of the record of the mapping succeeds, succeeds without a call of the back-end,
  yields the window's pages from the request's first page on, one per page of the request, and the
  matching unmap gives back the very state before, again without a call of the back-end.\<close>

theorem dma_window_lend_return:
  assumes "dma_ok d" and "w_active (dma_window d)" and "w_mapped (dma_window d)"
    and "kb_device_backend_get_ops mem (w_backend (dma_window d)) = Some ops" and "op_dma_map_pages ops \<noteq> None"
    and "w_device (dma_window d) \<noteq> NULL" and "w_direction (dma_window d) = Some direction"
    and "cpu_addr \<noteq> NULL" and "sz \<noteq> 0" and "unat cpu_addr mod 4096 = 0"
    and "w_scope_start (dma_window d) \<le> cpu_addr"
    and "unat cpu_addr + unat sz \<le> unat (w_scope_start (dma_window d)) + unat (w_scope_size (dma_window d))"
    and "w_mapped_start (dma_window d) \<le> cpu_addr"
    and "unat cpu_addr + unat sz \<le> unat (w_mapped_start (dma_window d)) + unat (w_mapped_size (dma_window d))"
    and "page_count sz \<le> capacity" and "w_borrowers (dma_window d) \<noteq> UINT64_MAX"
  shows "\<exists>out' d'. kb_subsystem_dma_map_pages mem True d (w_backend (dma_window d)) (w_device (dma_window d))
      cpu_addr sz direction (Some out) capacity w = (KB_OK, Some out', d', w) \<and>
    take (unat (page_count sz)) out' = take (unat (page_count sz))
      (drop (unat (cpu_addr - w_mapped_start (dma_window d)) div 4096) (w_page_dma (dma_window d))) \<and>
    kb_subsystem_dma_unmap mem d' (w_backend (dma_window d)) (w_device (dma_window d)) (out' ! 0) sz direction w = (d, w)"
proof -
  let ?win = "dma_window d" and ?n = "unat (page_count sz)"
  let ?f = "(cpu_addr - w_mapped_start ?win) div KB_SUBSYSTEM_DMA_PAGE_SIZE"
  have win: "window_ok ?win" using assms(1) by (simp add: dma_ok_def)
  have backend: "w_backend ?win \<noteq> NULL"
    using assms(4) by (auto simp: kb_device_backend_get_ops_def)
  have scope: "unat (w_scope_start ?win + w_scope_size ?win) = unat (w_scope_start ?win) + unat (w_scope_size ?win)"
    and mapped: "unat (w_mapped_start ?win + w_mapped_size ?win) = unat (w_mapped_start ?win) + unat (w_mapped_size ?win)"
    and count: "unat (w_mapped_page_count ?win) \<le> 512" and len: "length (w_page_dma ?win) = 512"
    using win assms(2,3) by (auto simp: window_ok_def unat_add_no_wrap word_le_nat_alt)
  have nowrap: "unat cpu_addr + unat sz < 2 ^ 64"
    using assms(12) scope unat_u64_bound [of "w_scope_start ?win + w_scope_size ?win"] by simp
  then have req: "\<not> cpu_addr > UINT64_MAX - sz" "unat (cpu_addr + sz) = unat cpu_addr + unat sz"
    by (simp_all add: not_less no_wrap_iff unat_add_no_wrap)
  note fit = window_pages_fit [OF win assms(3,10,13,14)]
  have n: "0 < ?n" "?n \<le> 512" using page_count_pos [OF assms(9)] fit count by simp_all
  let ?out = "take ?n (drop (unat ?f) (w_page_dma ?win)) @ drop ?n out"
  let ?e = "\<lparr>m_cpu_addr = cpu_addr, m_dma_addr = ?out ! 0, m_size = sz, m_device = w_device ?win,
      m_borrowed_window = True, m_persistent_allocation = False\<rparr>"
  let ?d = "d\<lparr>dma_mappings := ?e # dma_mappings d, dma_window := ?win\<lparr>w_borrowers := w_borrowers ?win + 1\<rparr>\<rparr>"
  have f_le: "?f \<le> w_mapped_page_count ?win" using fit by (simp add: word_le_nat_alt)
  have lend: "dma_window_lend True d (w_device ?win) cpu_addr sz (page_count sz) out = (KB_OK, ?out, ?d)"
    using f_le fit unat_sub_le [OF f_le] assms(8,9)
    by (simp add: dma_window_lend_def Let_def remember_dma_mapping_def remember_dma_mapping_full_def word_less_nat_alt)
  have aligned: "cpu_addr AND (KB_SUBSYSTEM_DMA_PAGE_SIZE - 1) = 0"
    using and_page_mask [of cpu_addr] assms(10) by (simp flip: unat_eq_0)
  have guards: "\<not> cpu_addr < w_scope_start ?win" "\<not> cpu_addr + sz > w_scope_start ?win + w_scope_size ?win"
    "\<not> page_count sz > capacity" "\<not> page_count sz > 512" "page_count sz \<noteq> 0"
    "cpu_addr + sz \<le> w_mapped_start ?win + w_mapped_size ?win"
    using assms(11,12,14,15) scope mapped req(2) n by (auto simp: word_less_nat_alt word_le_nat_alt not_less)
  have window: "dma_window_map_pages mem True d (w_backend ?win) (w_device ?win) cpu_addr sz direction out capacity w =
      (KB_OK, ?out, True, ?d, w)"
    unfolding dma_window_map_pages_def Let_def
    using assms(2,3,7,13) req(1) guards aligned lend by simp
  have "0 < capacity" using guards(3) n(1) by (auto simp: word_less_nat_alt not_less)
  then have map: "kb_subsystem_dma_map_pages mem True d (w_backend ?win) (w_device ?win) cpu_addr sz direction (Some out) capacity w =
      (KB_OK, Some ?out, ?d, w)"
    using assms(4-6,8,9) backend window
    by (auto simp: kb_subsystem_dma_map_pages_def device_or_default_def Let_def)
  have "w_borrowers ?win + 1 \<noteq> 0" using assms(16) by (simp flip: eq_neg_iff_add_eq_0)
  then have "kb_subsystem_dma_unmap mem ?d (w_backend ?win) (w_device ?win) (?out ! 0) sz direction w = (d, w)"
    using backend assms(6,9)
    by (simp add: kb_subsystem_dma_unmap_def device_or_default_def take_dma_mapping_def Let_def)
  moreover have "take ?n ?out = take ?n (drop (unat (cpu_addr - w_mapped_start ?win) div 4096) (w_page_dma ?win))"
    using fit count len by (simp add: unat_div)
  ultimately show ?thesis using map by blast
qed

theorem dma_window_lend_return_witness:
  "\<exists>out' d'. kb_subsystem_dma_map_pages sample_backends True (fst (snd (snd sample_lent))) 0x8000 0x7000 0x12000 0x800
      KB_DMA_FROM_DEVICE (Some [0]) 1 () = (KB_OK, Some out', d', ()) \<and>
    kb_subsystem_dma_unmap sample_backends d' 0x8000 0x7000 (out' ! 0) 0x800 KB_DMA_FROM_DEVICE () =
      (fst (snd (snd sample_lent)), ())"
proof -
  let ?d = "fst (snd (snd sample_lent))"
  have ok: "dma_ok ?d" by (rule dma_reachable_ok [OF sample_backends_ok sample_lent_steps])
  have win: "(dma_window ?d)\<lparr>w_page_dma := []\<rparr> = \<lparr>w_backend = 0x8000, w_device = 0x7000, w_scope_start = 0x10000, w_scope_size = 0x3000,
      w_direction = Some KB_DMA_FROM_DEVICE, w_mapped_start = 0x11000, w_mapped_size = 0x2000, w_mapped_page_count = 2,
      w_page_dma = [], w_borrowers = 1, w_active = True, w_mapped = True\<rparr>"
    by code_simp
  have sel: "w_backend (dma_window ?d) = 0x8000" "w_device (dma_window ?d) = 0x7000" "w_scope_start (dma_window ?d) = 0x10000"
    "w_scope_size (dma_window ?d) = 0x3000" "w_direction (dma_window ?d) = Some KB_DMA_FROM_DEVICE"
    "w_mapped_start (dma_window ?d) = 0x11000" "w_mapped_size (dma_window ?d) = 0x2000" "w_borrowers (dma_window ?d) = 1"
    "w_active (dma_window ?d)" "w_mapped (dma_window ?d)"
    using win by (cases "dma_window ?d"; simp)+
  have "\<exists>ops. kb_device_backend_get_ops sample_backends 0x8000 = Some ops \<and> op_dma_map_pages ops \<noteq> None"
    by (simp add: kb_device_backend_get_ops_def pointer_is_error_value_def sample_backends_def)
  then obtain ops where ops: "kb_device_backend_get_ops sample_backends 0x8000 = Some ops" "op_dma_map_pages ops \<noteq> None" by blast
  have pc: "page_count 0x800 \<le> 1" by (simp add: page_count_def)
  have "\<exists>out' d'. kb_subsystem_dma_map_pages sample_backends True ?d 0x8000 0x7000 0x12000 0x800
      KB_DMA_FROM_DEVICE (Some [0]) 1 () = (KB_OK, Some out', d', ()) \<and>
    take (unat (page_count 0x800)) out' = take (unat (page_count 0x800)) (drop (unat (0x12000 - 0x11000 :: u64) div 4096) (w_page_dma (dma_window ?d))) \<and>
    kb_subsystem_dma_unmap sample_backends d' 0x8000 0x7000 (out' ! 0) 0x800 KB_DMA_FROM_DEVICE () = (?d, ())"
    by (rule dma_window_lend_return [of ?d sample_backends ops KB_DMA_FROM_DEVICE "0x12000" "0x800" 1, unfolded sel])
      (use ok ops pc in \<open>simp_all add: sel\<close>)
  then show ?thesis by blast
qed

end
