(* ===== verification/Device_Mock.thy ===== *)
theory Device_Mock
  imports Dma_Properties
begin

text \<open>
  The mock device back-end, \<^verbatim>\<open>src/device/linux_mock/device_linux_mock.c\<close>: one device with six
  memory regions, a configuration space that reads as zero, and DMA addresses equal to CPU
  addresses.  The locale \<open>dma_backend\<close> states what the DMA subsystem needs from a back-end to
  translate device addresses back; the mock's operations satisfy it.
\<close>

section \<open>The device\<close>

record kb_pci_id =
  vendor_id :: u16
  device_id :: u16
  subsystem_vendor_id :: u16
  subsystem_device_id :: u16
  class_code :: u8
  sub_class :: u8
  prog_if :: u8
  revision :: u8

record kb_pci_location =
  loc_segment :: u16
  loc_bus :: u8
  loc_device :: u8
  loc_function :: u8

text \<open>A region: its contents (\<open>None\<close> when not allocated), size, start and flags.\<close>

record mock_bar =
  bar_mem :: "bytes option"
  bar_addr :: ptr
  bar_size :: u64
  bar_start :: u64
  bar_flags :: u64

record kb_mock_device =
  pci_id :: kb_pci_id
  location :: kb_pci_location
  bars :: "mock_bar list"

record kb_mmio_region =
  mmio_addr :: ptr
  mmio_size :: u64
  mmio_host_phys :: u64
  mmio_flags :: u32

record kb_pci_bar_info =
  info_start :: u64
  info_end :: u64
  info_size :: u64
  info_flags :: u64
  info_present :: int

abbreviation (input) KB_MOCK_PCI_BAR_COUNT :: nat where "KB_MOCK_PCI_BAR_COUNT \<equiv> 6"
abbreviation (input) KB_MOCK_IORESOURCE_MEM :: u64 where "KB_MOCK_IORESOURCE_MEM \<equiv> 0x200"

section \<open>Registers\<close>

text \<open>The four bytes of a word, as the little-endian host stores them.\<close>

definition word32_bytes :: "u32 \<Rightarrow> bytes" where
  "word32_bytes v = [ucast v, ucast (drop_bit 8 v), ucast (drop_bit 16 v), ucast (drop_bit 24 v)]"

definition mock_mmio_write32 :: "bytes option \<Rightarrow> u64 \<Rightarrow> u64 \<Rightarrow> u32 \<Rightarrow> bytes option" where
  "mock_mmio_write32 bar sz offset v = (case bar of
       None \<Rightarrow> None
     | Some b \<Rightarrow>
         if offset + 4 > sz then Some b
         else Some (take (unat offset) b @ word32_bytes v @ drop (unat offset + 4) b))"

definition on_bar :: "nat \<Rightarrow> (bytes option \<Rightarrow> u64 \<Rightarrow> bytes option) \<Rightarrow> kb_mock_device \<Rightarrow> kb_mock_device" where
  "on_bar i f device =
     (let b = bars device ! i in device\<lparr>bars := (bars device)[i := b\<lparr>bar_mem := f (bar_mem b) (bar_size b)\<rparr>]\<rparr>)"

definition initialize_mock_gpu_mmio :: "kb_mock_device \<Rightarrow> kb_mock_device" where
  "initialize_mock_gpu_mmio device =
     (if vendor_id (pci_id device) \<noteq> 0x10de \<or> bar_mem (bars device ! 0) = None then device
      else on_bar 0 (\<lambda>m sz. mock_mmio_write32 (mock_mmio_write32 m sz 0 0xb77000a1) sz 0xa00 0x17700000) device)"

definition initialize_mock_ahci_mmio :: "kb_mock_device \<Rightarrow> kb_mock_device" where
  "initialize_mock_ahci_mmio device =
     (if class_code (pci_id device) \<noteq> 1 \<or> sub_class (pci_id device) \<noteq> 6 \<or> prog_if (pci_id device) \<noteq> 1 \<or>
         bar_mem (bars device ! 5) = None
      then device
      else on_bar 5
        (\<lambda>m sz. foldl (\<lambda>m (offset, v). mock_mmio_write32 m sz offset v) m
           [(0x00, push_bit 20 2), (0x0c, 1), (0x10, 0x00010300),
            (0x100 + 0x20, push_bit 6 1), (0x100 + 0x24, 0x00000101), (0x100 + 0x28, 0x00000123)]) device)"

section \<open>Device operations\<close>

definition mock_device_count :: "bool \<Rightarrow> u64 outcome" where
  "mock_device_count out = (if \<not> out then Fail KB_ERR_INVALID else Done 1)"

text \<open>The device is the member that follows the back-end's \<^verbatim>\<open>ops\<close> pointer.\<close>

definition mock_device_at :: "ptr \<Rightarrow> u64 \<Rightarrow> bool \<Rightarrow> ptr outcome" where
  "mock_device_at backend index out =
     (if backend = NULL \<or> \<not> out then Fail KB_ERR_INVALID
      else if index \<noteq> 0 then Fail KB_ERR_NOT_FOUND
      else Done (backend + 8))"

definition mock_device_pci_id :: "kb_mock_device option \<Rightarrow> bool \<Rightarrow> kb_pci_id outcome" where
  "mock_device_pci_id device out = (case device of
       None \<Rightarrow> Fail KB_ERR_INVALID
     | Some dev \<Rightarrow> if \<not> out then Fail KB_ERR_INVALID else Done (pci_id dev))"

definition mock_device_pci_location :: "kb_mock_device option \<Rightarrow> bool \<Rightarrow> kb_pci_location outcome" where
  "mock_device_pci_location device out = (case device of
       None \<Rightarrow> Fail KB_ERR_INVALID
     | Some dev \<Rightarrow> if \<not> out then Fail KB_ERR_INVALID else Done (location dev))"

text \<open>The bytes a successful read stores; \<open>dst\<close> says that the destination is not null.\<close>

definition mock_pci_config_read :: "u16 \<Rightarrow> bool \<Rightarrow> u64 \<Rightarrow> bytes outcome" where
  "mock_pci_config_read offset dst len =
     (if \<not> dst \<or> len = 0 \<or> offset > 4096 \<or> len > 4096 \<or> ucast offset + len > 4096 then Fail KB_ERR_INVALID
      else Done (replicate (unat len) 0))"

definition mock_pci_config_write :: "u16 \<Rightarrow> u64 \<Rightarrow> unit outcome" where
  "mock_pci_config_write offset len =
     (if len \<noteq> 0 \<and> (offset > 4096 \<or> len > 4096 \<or> ucast offset + len > 4096) then Fail KB_ERR_INVALID
      else Done ())"

definition mock_pci_bar_info :: "kb_mock_device option \<Rightarrow> u32 \<Rightarrow> bool \<Rightarrow> kb_pci_bar_info outcome" where
  "mock_pci_bar_info device bar_index out = (case device of
       None \<Rightarrow> Fail KB_ERR_INVALID
     | Some dev \<Rightarrow>
         if \<not> out then Fail KB_ERR_INVALID
         else if unat bar_index \<ge> KB_MOCK_PCI_BAR_COUNT then Fail KB_ERR_NOT_FOUND
         else let b = bars dev ! unat bar_index in
           if bar_mem b = None then Fail KB_ERR_NOT_FOUND
           else Done \<lparr>info_start = bar_start b, info_end = bar_start b + bar_size b - 1, info_size = bar_size b,
             info_flags = bar_flags b, info_present = 1\<rparr>)"

definition mock_map_bar :: "kb_mock_device option \<Rightarrow> u32 \<Rightarrow> bool \<Rightarrow> kb_mmio_region outcome" where
  "mock_map_bar device bar_index out = (case device of
       None \<Rightarrow> Fail KB_ERR_INVALID
     | Some dev \<Rightarrow>
         if \<not> out then Fail KB_ERR_INVALID
         else if unat bar_index \<ge> KB_MOCK_PCI_BAR_COUNT then Fail KB_ERR_NOT_FOUND
         else let b = bars dev ! unat bar_index in
           if bar_mem b = None then Fail KB_ERR_NOT_FOUND
           else Done \<lparr>mmio_addr = bar_addr b, mmio_size = bar_size b, mmio_host_phys = bar_start b,
             mmio_flags = ucast (bar_flags b)\<rparr>)"

definition mock_unmap_bar :: "kb_mmio_region option \<Rightarrow> kb_mmio_region option" where
  "mock_unmap_bar region =
     map_option (\<lambda>_. \<lparr>mmio_addr = NULL, mmio_size = 0, mmio_host_phys = 0, mmio_flags = 0\<rparr>) region"

section \<open>DMA and interrupts\<close>

text \<open>
  The state of the back-end is the allocator: the addresses that calls of \<^verbatim>\<open>calloc\<close> will
  return (0 when they fail) and the live allocations with their sizes.
\<close>

record mock_heap =
  heap_future :: "ptr list"
  heap_live :: "(ptr \<times> u64) list"

definition mock_calloc :: "u64 \<Rightarrow> mock_heap \<Rightarrow> ptr \<times> mock_heap" where
  "mock_calloc sz h = (case heap_future h of
       [] \<Rightarrow> (NULL, h)
     | p # ps \<Rightarrow> (p, h\<lparr>heap_future := ps, heap_live := if p = NULL then heap_live h else (p, sz) # heap_live h\<rparr>))"

definition mock_dma_alloc ::
  "ptr \<Rightarrow> u64 \<Rightarrow> u64 \<Rightarrow> kb_dma_dir \<Rightarrow> mock_heap \<Rightarrow> kb_status \<times> kb_dma_buffer \<times> mock_heap" where
  "mock_dma_alloc device sz alignment direction h =
     (let none = \<lparr>buf_cpu_addr = NULL, buf_dma_addr = 0, buf_size = 0, buf_flags = 0\<rparr> in
      if sz = 0 then (KB_ERR_INVALID, none, h)
      else case mock_calloc sz h of (p, h') \<Rightarrow>
        if p = NULL then (KB_ERR_NOMEM, none, h')
        else (KB_OK, \<lparr>buf_cpu_addr = p, buf_dma_addr = p, buf_size = sz, buf_flags = 0\<rparr>, h'))"

definition mock_dma_free :: "ptr \<Rightarrow> kb_dma_buffer \<Rightarrow> mock_heap \<Rightarrow> mock_heap" where
  "mock_dma_free device buffer h = h\<lparr>heap_live := filter (\<lambda>(p, _). p \<noteq> buf_cpu_addr buffer) (heap_live h)\<rparr>"

definition mock_dma_map :: "ptr \<Rightarrow> ptr \<Rightarrow> u64 \<Rightarrow> kb_dma_dir \<Rightarrow> 'w \<Rightarrow> kb_status \<times> u64 \<times> 'w" where
  "mock_dma_map device cpu_addr sz direction w =
     (if cpu_addr = NULL \<or> sz = 0 then (KB_ERR_INVALID, 0, w) else (KB_OK, cpu_addr, w))"

definition mock_dma_unmap :: "ptr \<Rightarrow> u64 \<Rightarrow> u64 \<Rightarrow> kb_dma_dir \<Rightarrow> 'w \<Rightarrow> 'w" where
  "mock_dma_unmap device dma_addr sz direction w = w"

text \<open>The part of \<^verbatim>\<open>mock_ops\<close> that the DMA subsystem uses.\<close>

definition mock_ops :: "mock_heap kb_device_backend_ops" where
  "mock_ops =
     \<lparr>op_device_at = Some (\<lambda>backend index w. case mock_device_at backend index True of
          Done device \<Rightarrow> (KB_OK, device) | Fail e \<Rightarrow> (e, NULL) | Fault \<Rightarrow> (KB_ERR_INVALID, NULL)),
      op_dma_alloc = Some mock_dma_alloc, op_dma_free = Some mock_dma_free, op_dma_map = Some mock_dma_map,
      op_dma_map_pages = None, op_dma_map_fixed = None, op_dma_unmap = Some mock_dma_unmap\<rparr>"

record 'w kb_device_irq =
  irq_handler :: "(ptr \<Rightarrow> 'w \<Rightarrow> 'w) option"
  irq_ctx :: ptr

definition mock_irq_register ::
  "(ptr \<Rightarrow> 'w \<Rightarrow> 'w) option \<Rightarrow> ptr \<Rightarrow> bool \<Rightarrow> bool \<Rightarrow> 'w kb_device_irq outcome" where
  "mock_irq_register handler ctx out calloc_ok = (case handler of
       None \<Rightarrow> Fail KB_ERR_INVALID
     | Some f \<Rightarrow>
         if \<not> out then Fail KB_ERR_INVALID
         else if \<not> calloc_ok then Fail KB_ERR_NOMEM
         else Done \<lparr>irq_handler = Some f, irq_ctx = ctx\<rparr>)"

definition mock_irq_wait :: "'w kb_device_irq option \<Rightarrow> 'w \<Rightarrow> kb_status \<times> 'w" where
  "mock_irq_wait irq w = (case irq of
       None \<Rightarrow> (KB_ERR_INVALID, w)
     | Some i \<Rightarrow> (case irq_handler i of None \<Rightarrow> (KB_ERR_INVALID, w) | Some handler \<Rightarrow> (KB_OK, handler (irq_ctx i) w)))"

section \<open>Translation of device addresses\<close>

text \<open>
  What translation relies on: a mapping that a back-end reports as made has a device address that
  is not zero and does not run past the end of the 64 bit address space, for buffers that do not.
\<close>

locale dma_backend =
  fixes dma_map :: "ptr \<Rightarrow> ptr \<Rightarrow> u64 \<Rightarrow> kb_dma_dir \<Rightarrow> 'w \<Rightarrow> kb_status \<times> u64 \<times> 'w"
  assumes map_no_wrap: "dma_map device cpu_addr sz direction w = (KB_OK, a, w') \<Longrightarrow>
      unat cpu_addr + unat sz < 2 ^ 64 \<Longrightarrow> a \<noteq> 0 \<and> unat a + unat sz < 2 ^ 64"
begin

lemma map_then_translate:
  assumes "dma_map_with_lifetime mem alloc_ok d backend device cpu_addr sz direction persistent w = (a, KB_OK, d', w')"
    and "kb_device_backend_get_ops mem backend = Some ops" and "op_dma_map ops = Some dma_map"
    and "unat cpu_addr + unat sz < 2 ^ 64" and "k < unat sz"
  shows "kb_subsystem_dma_cpu_addr d' (a + of_nat k) = (cpu_addr + of_nat k, sz - of_nat k)"
proof -
  let ?dev = "device_or_default mem backend device w"
  obtain w1 where map: "dma_map ?dev cpu_addr sz direction w = (KB_OK, a, w1)"
    and d': "d' = d\<lparr>dma_mappings := \<lparr>m_cpu_addr = cpu_addr, m_dma_addr = a, m_size = sz, m_device = ?dev,
        m_borrowed_window = False, m_persistent_allocation = persistent\<rparr> # dma_mappings d\<rparr>"
    using assms(1-3)
    by (auto simp: dma_map_with_lifetime_def remember_dma_mapping_full_def Let_def split: if_splits prod.splits)
  have nw: "unat a + unat sz < 2 ^ 64" using map_no_wrap [OF map assms(4)] by simp
  have k: "unat (of_nat k :: u64) = k" using assms(5) unat_u64_bound [of sz] by (simp add: unat_of_nat)
  have "unat (a + of_nat k) = unat a + k" using nw assms(5) k by (simp add: unat_add_no_wrap)
  then have "dma_contains (a + of_nat k) (hd (dma_mappings d'))"
    using nw assms(5) by (simp add: d' dma_contains_def word_less_nat_alt word_le_nat_alt unat_add_no_wrap not_le)
  then show ?thesis by (simp add: kb_subsystem_dma_cpu_addr_def d' Let_def)
qed

end

interpretation mock: dma_backend mock_dma_map
  by unfold_locales (auto simp: mock_dma_map_def split: if_splits)

section \<open>Properties\<close>

text \<open>The mock back-end at an address: its first member points to \<^verbatim>\<open>mock_ops\<close>.\<close>

definition mock_at :: "mock_heap backends \<Rightarrow> ptr \<Rightarrow> bool" where
  "mock_at mem backend \<longleftrightarrow> 4096 \<le> backend \<and> 4096 \<le> fst (mem backend) \<and> snd (mem backend) = mock_ops"

lemma mock_at_ops: "mock_at mem backend \<Longrightarrow> kb_device_backend_get_ops mem backend = Some mock_ops"
  by (cases "mem backend")
    (auto simp: mock_at_def kb_device_backend_get_ops_def pointer_is_error_value_def not_less word_le_nat_alt)

definition sample_mock :: "mock_heap backends" where
  "sample_mock backend = (0x9000, mock_ops)"

lemma sample_mock_at: "mock_at sample_mock 0x8000"
  by (simp add: mock_at_def sample_mock_def)

text \<open>C31.  Mapping and translation are inverse.  After a buffer that does not wrap the address space
  has been mapped through the mock back-end, translating the device address of any of its bytes
  gives the byte's CPU address and the number of bytes left, whatever was mapped before.\<close>

theorem dma_map_translates:
  assumes "mock_at mem backend"
    and "kb_subsystem_dma_map mem alloc_ok d backend device cpu_addr sz direction h = (a, KB_OK, d', h')"
    and "unat cpu_addr + unat sz < 2 ^ 64" and "k < unat sz"
  shows "kb_subsystem_dma_cpu_addr d' (a + of_nat k) = (cpu_addr + of_nat k, sz - of_nat k)"
proof -
  have "op_dma_map mock_ops = Some mock_dma_map" by (simp add: mock_ops_def)
  from mock.map_then_translate [OF assms(2) [unfolded kb_subsystem_dma_map_def] mock_at_ops [OF assms(1)] this assms(3,4)]
  show ?thesis .
qed

theorem dma_map_translates_witness:
  "\<exists>d'. kb_subsystem_dma_map sample_mock True dma_initial 0x8000 0 0x5000 0x300 KB_DMA_TO_DEVICE
       \<lparr>heap_future = [], heap_live = []\<rparr> = (0x5000, KB_OK, d', \<lparr>heap_future = [], heap_live = []\<rparr>) \<and>
     kb_subsystem_dma_cpu_addr d' 0x5010 = (0x5010, 0x2f0)"
proof -
  obtain d' where "kb_subsystem_dma_map sample_mock True dma_initial 0x8000 0 0x5000 0x300 KB_DMA_TO_DEVICE
      \<lparr>heap_future = [], heap_live = []\<rparr> = (0x5000, KB_OK, d', \<lparr>heap_future = [], heap_live = []\<rparr>)"
    by (simp add: kb_subsystem_dma_map_def dma_map_with_lifetime_def device_or_default_def Let_def
        kb_subsystem_dma_default_device_def mock_at_ops [OF sample_mock_at] mock_ops_def mock_device_at_def
        mock_dma_map_def remember_dma_mapping_full_def)
  with dma_map_translates [OF sample_mock_at this, of "0x10"] show ?thesis by simp
qed

text \<open>C33.  A coherent allocation that is freed leaves nothing behind: freeing the buffer through its
  two addresses unlinks exactly the remembered mapping and returns the memory, so the list of
  mappings and the live allocations are those before the allocation.\<close>

theorem dma_alloc_free_roundtrip:
  assumes "mock_at mem backend"
    and "kb_subsystem_dma_alloc mem True d backend device sz True h = (p, Some a, d', h')"
    and "\<forall>q \<in> set (heap_live h). fst q \<noteq> p"
  shows "p \<noteq> NULL \<and> (p, sz) \<in> set (heap_live h') \<and>
    (\<exists>h''. kb_subsystem_dma_free mem d' backend 0 p a h' = (d, h'') \<and> heap_live h'' = heap_live h)"
proof -
  have ops: "op_dma_alloc mock_ops = Some mock_dma_alloc" "op_dma_free mock_ops = Some mock_dma_free"
    by (simp_all add: mock_ops_def)
  let ?dev = "device_or_default mem backend device h"
  have "p \<noteq> NULL" "a = p" "h' = h\<lparr>heap_future := tl (heap_future h), heap_live := (p, sz) # heap_live h\<rparr>"
    "d' = d\<lparr>dma_mappings := \<lparr>m_cpu_addr = p, m_dma_addr = p, m_size = sz, m_device = ?dev,
        m_borrowed_window = False, m_persistent_allocation = True\<rparr> # dma_mappings d\<rparr>"
    using assms(2) mock_at_ops [OF assms(1)] ops
    by (auto simp: kb_subsystem_dma_alloc_def mock_dma_alloc_def mock_calloc_def remember_dma_mapping_full_def Let_def
        split: if_splits list.splits)
  then show ?thesis
    using assms(3) mock_at_ops [OF assms(1)] ops
    by (auto simp: kb_subsystem_dma_free_def mock_dma_free_def filter_id_conv)
qed

theorem dma_alloc_free_roundtrip_witness:
  "\<exists>d' h' h''. kb_subsystem_dma_alloc sample_mock True dma_initial 0x8000 0 0x100 True
       \<lparr>heap_future = [0x6000], heap_live = [(0x5000, 8)]\<rparr> = (0x6000, Some 0x6000, d', h') \<and>
     kb_subsystem_dma_free sample_mock d' 0x8000 0 0x6000 0x6000 h' = (dma_initial, h'') \<and> heap_live h'' = [(0x5000, 8)]"
proof -
  let ?h = "\<lparr>heap_future = [0x6000], heap_live = [(0x5000, 8)]\<rparr>"
  obtain d' h' where alloc: "kb_subsystem_dma_alloc sample_mock True dma_initial 0x8000 0 0x100 True ?h =
      (0x6000, Some 0x6000, d', h')"
    by (simp add: kb_subsystem_dma_alloc_def device_or_default_def Let_def
        kb_subsystem_dma_default_device_def mock_at_ops [OF sample_mock_at] mock_ops_def mock_device_at_def
        mock_dma_alloc_def mock_calloc_def remember_dma_mapping_full_def)
  with dma_alloc_free_roundtrip [OF sample_mock_at alloc] show ?thesis by auto
qed

text \<open>C34.  The mock's configuration space is accessed in bounds only: a read or a write of at least one
  byte is accepted exactly when it stays inside the 4096 bytes, with no wrap of the 64 bit sum, and
  a read then stores as many zero bytes as were asked for.\<close>

theorem mock_pci_config_bounds:
  "mock_pci_config_read offset True len =
     (if 0 < unat len \<and> unat offset + unat len \<le> 4096 then Done (replicate (unat len) 0) else Fail KB_ERR_INVALID) \<and>
   mock_pci_config_write offset len =
     (if unat len = 0 \<or> unat offset + unat len \<le> 4096 then Done () else Fail KB_ERR_INVALID)"
proof -
  have o64: "unat (ucast offset :: u64) = unat offset" by simp
  have sum: "unat (ucast offset + len) = unat offset + unat len" if "len \<le> 4096"
    using that unat_u16_bound [of offset] by (simp add: unat_add_no_wrap word_le_nat_alt)
  show ?thesis
    using sum
    by (auto simp: mock_pci_config_read_def mock_pci_config_write_def word_less_nat_alt word_le_nat_alt not_less
        unat_gt_0 unat_eq_zero)
qed

end
