(* ===== verification/Machine.thy ===== *)
theory Machine
  imports Kobox_Prelude
begin

text \<open>
  The machine that the module loader works on: byte-addressed memory with the list of mapped
  regions, and programs over a state that may crash.  A program maps a state to a result and a new
  state; \<open>None\<close> is an access outside every mapped region.  Total correctness triples with one rule
  per combinator carry the proofs about the loader.
\<close>

section \<open>Programs\<close>

type_synonym ('a, 's) prog = "'s \<Rightarrow> ('a \<times> 's) option"

definition returnP :: "'a \<Rightarrow> ('a, 's) prog" where
  "returnP a s = Some (a, s)"

definition crashP :: "('a, 's) prog" where
  "crashP s = None"

definition bindP :: "('a, 's) prog \<Rightarrow> ('a \<Rightarrow> ('b, 's) prog) \<Rightarrow> ('b, 's) prog" where
  "bindP m k s = (case m s of None \<Rightarrow> None | Some (a, s') \<Rightarrow> k a s')"

definition getP :: "('s \<Rightarrow> 'a) \<Rightarrow> ('a, 's) prog" where
  "getP f s = Some (f s, s)"

definition modifyP :: "('s \<Rightarrow> 's) \<Rightarrow> (unit, 's) prog" where
  "modifyP f s = Some ((), f s)"

text \<open>Sequencing of calls that return a status: the first status other than \<open>KB_OK\<close> is returned.\<close>

definition thenP :: "(kb_status, 's) prog \<Rightarrow> (kb_status, 's) prog \<Rightarrow> (kb_status, 's) prog" where
  "thenP m k = bindP m (\<lambda>status. if status \<noteq> KB_OK then returnP status else k)"

fun for_ok :: "('i \<Rightarrow> (kb_status, 's) prog) \<Rightarrow> 'i list \<Rightarrow> (kb_status, 's) prog" where
  "for_ok body [] = returnP KB_OK"
| "for_ok body (i # is) = thenP (body i) (for_ok body is)"

fun for_each :: "('i \<Rightarrow> (unit, 's) prog) \<Rightarrow> 'i list \<Rightarrow> (unit, 's) prog" where
  "for_each body [] = returnP ()"
| "for_each body (i # is) = bindP (body i) (\<lambda>_. for_each body is)"

text \<open>A call that fills an out-parameter, from the readers of the image.\<close>

definition outcomeP :: "'a outcome \<Rightarrow> (kb_status + 'a, 's) prog" where
  "outcomeP m = (case m of Fault \<Rightarrow> crashP | Fail e \<Rightarrow> returnP (Inl e) | Done v \<Rightarrow> returnP (Inr v))"

definition withP :: "(kb_status + 'a, 's) prog \<Rightarrow> ('a \<Rightarrow> (kb_status, 's) prog) \<Rightarrow> (kb_status, 's) prog" where
  "withP m k = bindP m (\<lambda>r. case r of Inl e \<Rightarrow> returnP e | Inr v \<Rightarrow> k v)"

lemmas prog_defs = returnP_def crashP_def bindP_def getP_def modifyP_def thenP_def outcomeP_def withP_def

lemma bindP_run [simp]:
  "m s = Some (a, s') \<Longrightarrow> bindP m k s = k a s'"
  "m s = None \<Longrightarrow> bindP m k s = None"
  by (simp_all add: bindP_def)

lemma prog_run [simp]:
  "returnP a s = Some (a, s)"
  "crashP s = None"
  "getP f s = Some (f s, s)"
  "modifyP g s = Some ((), g s)"
  by (simp_all add: prog_defs)

section \<open>Triples\<close>

text \<open>From every state with \<open>P\<close> the program returns, without a crash, in a state with \<open>Q\<close>.\<close>

definition triple :: "('s \<Rightarrow> bool) \<Rightarrow> ('a, 's) prog \<Rightarrow> ('a \<Rightarrow> 's \<Rightarrow> bool) \<Rightarrow> bool" where
  "triple P m Q \<longleftrightarrow> (\<forall>s. P s \<longrightarrow> (\<exists>a s'. m s = Some (a, s') \<and> Q a s'))"

lemma tripleI: "(\<And>s. P s \<Longrightarrow> \<exists>a s'. m s = Some (a, s') \<and> Q a s') \<Longrightarrow> triple P m Q"
  by (simp add: triple_def)

lemma tripleD: "triple P m Q \<Longrightarrow> P s \<Longrightarrow> \<exists>a s'. m s = Some (a, s') \<and> Q a s'"
  by (simp add: triple_def)

lemma tripleE:
  assumes "triple P m Q" and "P s"
  obtains a s' where "m s = Some (a, s')" and "Q a s'"
  using assms by (auto simp: triple_def)

lemma triple_weaken:
  "triple P' m Q' \<Longrightarrow> (\<And>s. P s \<Longrightarrow> P' s) \<Longrightarrow> (\<And>a s. Q' a s \<Longrightarrow> Q a s) \<Longrightarrow> triple P m Q"
  unfolding triple_def by blast

lemma triple_return: "(\<And>s. P s \<Longrightarrow> Q a s) \<Longrightarrow> triple P (returnP a) Q"
  by (simp add: triple_def)

lemma triple_get: "(\<And>s. P s \<Longrightarrow> Q (f s) s) \<Longrightarrow> triple P (getP f) Q"
  by (simp add: triple_def)

lemma triple_modify: "(\<And>s. P s \<Longrightarrow> Q () (f s)) \<Longrightarrow> triple P (modifyP f) Q"
  by (simp add: triple_def)

lemma triple_bind:
  assumes "triple P m R" and "\<And>a. triple (R a) (k a) Q"
  shows "triple P (bindP m k) Q"
  using assms unfolding triple_def bindP_def by (metis (no_types, lifting) case_prod_conv option.simps(5))

lemma triple_if:
  "(c \<Longrightarrow> triple P a Q) \<Longrightarrow> (\<not> c \<Longrightarrow> triple P b Q) \<Longrightarrow> triple P (if c then a else b) Q"
  by simp

lemma triple_pure: "(\<And>s. P s \<Longrightarrow> c) \<Longrightarrow> (c \<Longrightarrow> triple P m Q) \<Longrightarrow> triple P m Q"
  by (auto simp: triple_def)

lemma triple_then:
  assumes "triple P m (\<lambda>status s. if status = KB_OK then R s else Q status s)"
    and "triple R k Q"
  shows "triple P (thenP m k) Q"
  unfolding thenP_def by (rule triple_bind [OF assms(1)]) (use assms(2) in \<open>auto simp: triple_def\<close>)

lemma triple_with:
  assumes "triple P m (\<lambda>r s. case r of Inl e \<Rightarrow> Q e s | Inr v \<Rightarrow> R v s)"
    and "\<And>v. triple (R v) (k v) Q"
  shows "triple P (withP m k) Q"
  unfolding withP_def
proof (rule triple_bind [OF assms(1)])
  fix r show "triple (\<lambda>s. case r of Inl e \<Rightarrow> Q e s | Inr v \<Rightarrow> R v s)
      (case r of Inl e \<Rightarrow> returnP e | Inr v \<Rightarrow> k v) Q"
    using assms(2) by (cases r) (auto simp: triple_def)
qed

lemma triple_outcome:
  assumes "safe m"
  shows "triple P (outcomeP m) (\<lambda>r s. P s \<and> (case r of Inl e \<Rightarrow> m = Fail e | Inr v \<Rightarrow> m = Done v))"
  using assms by (cases m) (auto simp: triple_def outcomeP_def)

lemma triple_for_ok:
  assumes "\<And>i. i \<in> set is \<Longrightarrow> triple I (body i) (\<lambda>status s. I s)"
  shows "triple I (for_ok body is) (\<lambda>status s. I s)"
  using assms
proof (induction "is")
  case Nil show ?case by (simp only: for_ok.simps triple_return)
next
  case (Cons i "is")
  have "triple I (body i) (\<lambda>status s. if status = KB_OK then I s else I s)"
    using Cons.prems unfolding if_cancel by simp
  moreover have "triple I (for_ok body is) (\<lambda>status s. I s)" using Cons by simp
  ultimately show ?case unfolding for_ok.simps by (rule triple_then)
qed

lemma triple_for_each:
  assumes "\<And>i. i \<in> set is \<Longrightarrow> triple I (body i) (\<lambda>_. I)"
  shows "triple I (for_each body is) (\<lambda>_. I)"
  using assms by (induction "is") (auto intro: triple_return triple_bind)

text \<open>Two triples of the same program hold together.\<close>

lemma triple_conj:
  "triple P m Q \<Longrightarrow> triple P' m Q' \<Longrightarrow> triple (\<lambda>s. P s \<and> P' s) m (\<lambda>a s. Q a s \<and> Q' a s)"
  unfolding triple_def by force

section \<open>Invariants\<close>

text \<open>
  A program that keeps an invariant never crashes where it holds.  \<open>yields\<close> adds a fact about the
  result that does not depend on the state.
\<close>

named_theorems keeps \<open>rules that decompose a program over an invariant\<close>

definition keeps :: "('s \<Rightarrow> bool) \<Rightarrow> ('a, 's) prog \<Rightarrow> bool" where
  "keeps I m \<longleftrightarrow> triple I m (\<lambda>_. I)"

definition yields :: "('s \<Rightarrow> bool) \<Rightarrow> ('a, 's) prog \<Rightarrow> ('a \<Rightarrow> bool) \<Rightarrow> bool" where
  "yields I m Q \<longleftrightarrow> triple I m (\<lambda>a s. I s \<and> Q a)"

lemma yields_keeps: "yields I m Q \<Longrightarrow> keeps I m"
  unfolding yields_def keeps_def triple_def by blast

lemma keepsE:
  assumes "keeps I m" and "I s"
  obtains a s' where "m s = Some (a, s')" and "I s'"
  using assms by (auto simp: keeps_def triple_def)

lemma yieldsI: "(\<And>s. I s \<Longrightarrow> \<exists>a s'. m s = Some (a, s') \<and> I s' \<and> Q a) \<Longrightarrow> yields I m Q"
  by (simp add: yields_def triple_def)

lemma keepsI: "(\<And>s. I s \<Longrightarrow> \<exists>a s'. m s = Some (a, s') \<and> I s') \<Longrightarrow> keeps I m"
  by (simp add: keeps_def triple_def)

lemma keeps_return [keeps]: "keeps I (returnP a)"
  by (rule keepsI) simp

lemma keeps_get [keeps]: "keeps I (getP f)"
  by (rule keepsI) simp

lemma keeps_modify: "(\<And>s. I s \<Longrightarrow> I (f s)) \<Longrightarrow> keeps I (modifyP f)"
  by (rule keepsI) simp

lemma keeps_bind [keeps]: "keeps I m \<Longrightarrow> (\<And>a. keeps I (k a)) \<Longrightarrow> keeps I (bindP m k)"
  unfolding keeps_def by (rule triple_bind)

lemma keeps_bind_yields:
  assumes "yields I m Q" and "\<And>a. Q a \<Longrightarrow> keeps I (k a)"
  shows "keeps I (bindP m k)"
  using assms unfolding keeps_def yields_def by (auto intro!: triple_bind simp: triple_def)

lemma yields_bind:
  assumes "keeps I m" and "\<And>a. yields I (k a) Q"
  shows "yields I (bindP m k) Q"
  using assms unfolding keeps_def yields_def by (auto intro!: triple_bind)

lemma yields_bind_yields:
  assumes "yields I m R" and "\<And>a. R a \<Longrightarrow> yields I (k a) Q"
  shows "yields I (bindP m k) Q"
  using assms unfolding yields_def by (auto intro!: triple_bind simp: triple_def)

lemma triple_bind_yields:
  assumes "yields I m Q" and "\<And>a. Q a \<Longrightarrow> triple I (k a) R"
  shows "triple I (bindP m k) R"
  using assms unfolding yields_def by (auto intro!: triple_bind simp: triple_def)

lemma triple_bind_keeps:
  assumes "keeps I m" and "\<And>a. triple I (k a) R"
  shows "triple I (bindP m k) R"
  using assms unfolding keeps_def by (rule triple_bind)

lemma yields_return: "Q a \<Longrightarrow> yields I (returnP a) Q"
  by (rule yieldsI) simp

lemma yields_weaken: "yields I m Q \<Longrightarrow> (\<And>a. Q a \<Longrightarrow> R a) \<Longrightarrow> yields I m R"
  unfolding yields_def triple_def by blast

lemma yields_if: "(c \<Longrightarrow> yields I a Q) \<Longrightarrow> (\<not> c \<Longrightarrow> yields I b Q) \<Longrightarrow> yields I (if c then a else b) Q"
  by simp

lemma keeps_if [keeps]: "(c \<Longrightarrow> keeps I a) \<Longrightarrow> (\<not> c \<Longrightarrow> keeps I b) \<Longrightarrow> keeps I (if c then a else b)"
  by simp

lemma keeps_Let [keeps]: "(\<And>x. x = t \<Longrightarrow> keeps I (f x)) \<Longrightarrow> keeps I (let x = t in f x)"
  by simp

lemma keeps_option [keeps]:
  "(x = None \<Longrightarrow> keeps I a) \<Longrightarrow> (\<And>v. x = Some v \<Longrightarrow> keeps I (b v)) \<Longrightarrow>
    keeps I (case x of None \<Rightarrow> a | Some v \<Rightarrow> b v)"
  by (cases x) auto

lemma keeps_sum [keeps]:
  "(\<And>v. x = Inl v \<Longrightarrow> keeps I (a v)) \<Longrightarrow> (\<And>v. x = Inr v \<Longrightarrow> keeps I (b v)) \<Longrightarrow>
    keeps I (case x of Inl v \<Rightarrow> a v | Inr v \<Rightarrow> b v)"
  by (cases x) auto

lemma keeps_prod [keeps]:
  "(\<And>u v. x = (u, v) \<Longrightarrow> keeps I (f u v)) \<Longrightarrow> keeps I (case x of (u, v) \<Rightarrow> f u v)"
  by (cases x) auto

lemma keeps_then [keeps]: "keeps I m \<Longrightarrow> keeps I k \<Longrightarrow> keeps I (thenP m k)"
  unfolding thenP_def by (intro keeps)

lemma keeps_then_yields:
  assumes "yields I m Q" and "Q KB_OK \<Longrightarrow> keeps I k"
  shows "keeps I (thenP m k)"
  unfolding thenP_def by (rule keeps_bind_yields [OF assms(1)]) (auto intro: keeps_return assms(2))

lemma keeps_outcome [keeps]: "safe m \<Longrightarrow> keeps I (outcomeP m)"
  by (cases m) (auto simp: outcomeP_def intro: keeps)

lemma yields_outcome:
  "safe m \<Longrightarrow> yields I (outcomeP m) (\<lambda>r. case r of Inl e \<Rightarrow> m = Fail e | Inr v \<Rightarrow> m = Done v)"
  by (cases m) (auto simp: outcomeP_def intro: yields_return)

lemma keeps_with [keeps]: "keeps I m \<Longrightarrow> (\<And>v. keeps I (k v)) \<Longrightarrow> keeps I (withP m k)"
  unfolding withP_def by (intro keeps)

text \<open>The continuation after a read of the image knows what was read.\<close>

lemma keeps_with_outcome:
  assumes "safe m" and "\<And>v. m = Done v \<Longrightarrow> keeps I (k v)"
  shows "keeps I (withP (outcomeP m) k)"
  unfolding withP_def
  by (rule keeps_bind_yields [OF yields_outcome [OF assms(1)]])
    (auto split: sum.splits intro: keeps_return assms(2))

lemma keeps_with_return:
  assumes "\<And>v. r = Inr v \<Longrightarrow> keeps I (k v)"
  shows "keeps I (withP (returnP r) k)"
  unfolding withP_def
  by (rule keeps_bind_yields [OF yields_return [of "\<lambda>x. x = r"]])
    (auto split: sum.splits intro: keeps_return assms)

lemma keeps_for_ok [keeps]: "(\<And>i. i \<in> set is \<Longrightarrow> keeps I (body i)) \<Longrightarrow> keeps I (for_ok body is)"
  unfolding keeps_def by (rule triple_for_ok)

lemma keeps_for_each [keeps]: "(\<And>i. i \<in> set is \<Longrightarrow> keeps I (body i)) \<Longrightarrow> keeps I (for_each body is)"
  unfolding keeps_def by (rule triple_for_each)

section \<open>Frame properties\<close>

text \<open>What a program leaves unchanged whenever it returns.\<close>

named_theorems preserves \<open>rules that decompose a program over a frame property\<close>

definition preserves :: "('s \<Rightarrow> bool) \<Rightarrow> ('a, 's) prog \<Rightarrow> bool" where
  "preserves P m \<longleftrightarrow> (\<forall>s a s'. m s = Some (a, s') \<longrightarrow> P s \<longrightarrow> P s')"

lemma preservesD: "preserves P m \<Longrightarrow> m s = Some (a, s') \<Longrightarrow> P s \<Longrightarrow> P s'"
  by (auto simp: preserves_def)

lemma preservesI: "(\<And>s a s'. m s = Some (a, s') \<Longrightarrow> P s \<Longrightarrow> P s') \<Longrightarrow> preserves P m"
  by (auto simp: preserves_def)

lemma preserves_return [preserves]: "preserves P (returnP a)"
  by (simp add: preserves_def)

lemma preserves_crash [preserves]: "preserves P crashP"
  by (simp add: preserves_def)

lemma preserves_get [preserves]: "preserves P (getP f)"
  by (simp add: preserves_def)

lemma preserves_modify: "(\<And>s. P s \<Longrightarrow> P (f s)) \<Longrightarrow> preserves P (modifyP f)"
  by (simp add: preserves_def)

lemma preserves_bind [preserves]: "preserves P m \<Longrightarrow> (\<And>a. preserves P (k a)) \<Longrightarrow> preserves P (bindP m k)"
  unfolding preserves_def bindP_def by (fastforce split: option.splits)

lemma preserves_if [preserves]: "(c \<Longrightarrow> preserves P a) \<Longrightarrow> (\<not> c \<Longrightarrow> preserves P b) \<Longrightarrow> preserves P (if c then a else b)"
  by simp

lemma preserves_Let [preserves]: "(\<And>x. preserves P (f x)) \<Longrightarrow> preserves P (let x = t in f x)"
  by simp

lemma preserves_option [preserves]:
  "preserves P a \<Longrightarrow> (\<And>v. preserves P (b v)) \<Longrightarrow> preserves P (case x of None \<Rightarrow> a | Some v \<Rightarrow> b v)"
  by (cases x) auto

lemma preserves_sum [preserves]:
  "(\<And>v. preserves P (a v)) \<Longrightarrow> (\<And>v. preserves P (b v)) \<Longrightarrow> preserves P (case x of Inl v \<Rightarrow> a v | Inr v \<Rightarrow> b v)"
  by (cases x) auto

lemma preserves_prod [preserves]: "(\<And>u v. preserves P (f u v)) \<Longrightarrow> preserves P (case x of (u, v) \<Rightarrow> f u v)"
  by (cases x) auto

lemma preserves_then [preserves]: "preserves P m \<Longrightarrow> preserves P k \<Longrightarrow> preserves P (thenP m k)"
  unfolding thenP_def by (intro preserves)

lemma preserves_outcome [preserves]: "preserves P (outcomeP m)"
  by (cases m) (auto simp: outcomeP_def intro: preserves)

lemma preserves_with [preserves]: "preserves P m \<Longrightarrow> (\<And>v. preserves P (k v)) \<Longrightarrow> preserves P (withP m k)"
  unfolding withP_def by (intro preserves)

lemma preserves_for_ok [preserves]: "(\<And>i. preserves P (body i)) \<Longrightarrow> preserves P (for_ok body is)"
  by (induction "is") (simp_all only: for_ok.simps preserves_return preserves_then)

lemma preserves_for_each [preserves]: "(\<And>i. preserves P (body i)) \<Longrightarrow> preserves P (for_each body is)"
  by (induction "is") (simp_all only: for_each.simps preserves_return preserves_bind)

text \<open>The same with a different property of the final state.\<close>

definition moves :: "('s \<Rightarrow> bool) \<Rightarrow> ('a, 's) prog \<Rightarrow> ('s \<Rightarrow> bool) \<Rightarrow> bool" where
  "moves P m Q \<longleftrightarrow> (\<forall>s a s'. m s = Some (a, s') \<longrightarrow> P s \<longrightarrow> Q s')"

lemma movesD: "moves P m Q \<Longrightarrow> m s = Some (a, s') \<Longrightarrow> P s \<Longrightarrow> Q s'"
  by (auto simp: moves_def)

lemma movesI: "(\<And>s a s'. m s = Some (a, s') \<Longrightarrow> P s \<Longrightarrow> Q s') \<Longrightarrow> moves P m Q"
  by (auto simp: moves_def)

lemma moves_bind: "moves P m R \<Longrightarrow> (\<And>a. moves R (k a) Q) \<Longrightarrow> moves P (bindP m k) Q"
  unfolding moves_def bindP_def by (fastforce split: option.splits)

lemma moves_bind_preserves: "preserves P m \<Longrightarrow> (\<And>a. moves P (k a) Q) \<Longrightarrow> moves P (bindP m k) Q"
  by (rule moves_bind [of P m P]) (simp_all add: moves_def preserves_def)

lemma moves_if: "(c \<Longrightarrow> moves P a Q) \<Longrightarrow> (\<not> c \<Longrightarrow> moves P b Q) \<Longrightarrow> moves P (if c then a else b) Q"
  by simp

lemma moves_return: "(\<And>s. P s \<Longrightarrow> Q s) \<Longrightarrow> moves P (returnP a) Q"
  by (simp add: moves_def)

lemma moves_preserves: "preserves P m \<Longrightarrow> (\<And>s. P s \<Longrightarrow> Q s) \<Longrightarrow> moves P m Q"
  by (auto simp: moves_def preserves_def)

lemma moves_with:
  "preserves P m \<Longrightarrow> (\<And>v. moves P (k v) Q) \<Longrightarrow> (\<And>s. P s \<Longrightarrow> Q s) \<Longrightarrow> moves P (withP m k) Q"
  unfolding withP_def by (rule moves_bind_preserves) (auto split: sum.split intro: moves_return)

lemma moves_then: "moves P m Q \<Longrightarrow> preserves Q k \<Longrightarrow> moves P (thenP m k) Q"
  unfolding thenP_def by (rule moves_bind) (auto simp: moves_def preserves_def)

section \<open>Memory\<close>

type_synonym memory = "u64 \<Rightarrow> u8"

text \<open>A mapped region is a base address and a length.\<close>

type_synonym region = "u64 \<times> nat"

definition in_region :: "u64 \<Rightarrow> nat \<Rightarrow> region \<Rightarrow> bool" where
  "in_region p n r \<longleftrightarrow> unat (p - fst r) + n \<le> snd r"

definition mapped :: "region list \<Rightarrow> u64 \<Rightarrow> nat \<Rightarrow> bool" where
  "mapped rs p n \<longleftrightarrow> n = 0 \<or> list_ex (in_region p n) rs"

definition store :: "u64 \<Rightarrow> bytes \<Rightarrow> memory \<Rightarrow> memory" where
  "store p bs m = (\<lambda>a. if unat (a - p) < length bs then bs ! unat (a - p) else m a)"

definition load :: "memory \<Rightarrow> u64 \<Rightarrow> nat \<Rightarrow> bytes" where
  "load m p n = map (\<lambda>i. m (p + of_nat i)) [0..<n]"

lemma length_load [simp]: "length (load m p n) = n"
  by (simp add: load_def)

lemma store_outside: "\<not> unat (a - p) < length bs \<Longrightarrow> store p bs m a = m a"
  by (simp add: store_def)

lemma load_store_same:
  assumes "length bs \<le> 2 ^ 64"
  shows "load (store p bs m) p (length bs) = bs"
proof (rule nth_equalityI)
  fix i assume "i < length (load (store p bs m) p (length bs))"
  then have i: "i < length bs" by simp
  then have "unat (of_nat i :: u64) = i" using assms by (simp add: unat_of_nat)
  then show "load (store p bs m) p (length bs) ! i = bs ! i" using i by (simp add: load_def store_def)
qed simp

text \<open>
  Two ranges are apart when neither contains the start of the other; addresses wrap around, so
  this is stated with differences.
\<close>

definition apart :: "u64 \<Rightarrow> nat \<Rightarrow> u64 \<Rightarrow> nat \<Rightarrow> bool" where
  "apart p n q k \<longleftrightarrow> (\<forall>i<n. k \<le> unat (p + of_nat i - q))"

lemma load_store_apart:
  "apart q n p (length bs) \<Longrightarrow> load (store p bs m) q n = load m q n"
  unfolding load_def apart_def by (auto intro!: store_outside dest: leD)

lemma in_region_apart:
  assumes "in_region p n r" and "\<not> unat (a - fst r) < snd r"
  shows "\<not> unat (a - p) < n"
proof
  assume less: "unat (a - p) < n"
  have "a - fst r = (a - p) + (p - fst r)" by simp
  then have "unat (a - fst r) = (unat (a - p) + unat (p - fst r)) mod 2 ^ 64"
    by (simp only: unat_word_ariths) simp
  then have "unat (a - fst r) \<le> unat (a - p) + unat (p - fst r)" by (metis mod_less_eq_dividend)
  then show False using assms less by (simp add: in_region_def)
qed

end
