(* ===== verification/Loader_State.thy ===== *)
theory Loader_State
  imports Machine Elf_Reader Symbol_Registry Shim_Symbols "HOL-Library.Sublist"
begin

text \<open>
  State and environment of the module loader, \<^verbatim>\<open>src/loader/module_loader.c\<close>, in its Linux
  x86-64 configuration: the structures, the constants of the shim region, access to memory, the
  encoders of call stubs, section memory and the objects that all modules share.

  The environment holds what lies outside the loader: the operating system's calls, the addresses of
  C functions, the providers' symbol tables and the environment variables.  Names are byte strings;
  \<open>e_name_at\<close> gives the address at which the image holds a name.  Trace output is not modelled.
\<close>

section \<open>Constants\<close>

abbreviation (input) KB_LOCAL_SHIM_STUB_SIZE :: u64 where "KB_LOCAL_SHIM_STUB_SIZE \<equiv> 48"
abbreviation (input) KB_LOCAL_SHIM_DATA_SIZE :: u64 where "KB_LOCAL_SHIM_DATA_SIZE \<equiv> 32768"
abbreviation (input) KB_LOCAL_SHIM_DATA_OFFSET :: u64 where "KB_LOCAL_SHIM_DATA_OFFSET \<equiv> 196608"
abbreviation (input) KB_LOCAL_SHIM_REGION_SIZE :: u64 where "KB_LOCAL_SHIM_REGION_SIZE \<equiv> 229376"
abbreviation (input) KB_LOCAL_USB_DATA_OFFSET :: u64 where "KB_LOCAL_USB_DATA_OFFSET \<equiv> 196608 + 11264"
abbreviation (input) KB_LOCAL_USB_CONTROL_MSG_STUB_OFFSET :: u64 where
  "KB_LOCAL_USB_CONTROL_MSG_STUB_OFFSET \<equiv> 196608 + 11264 + 1024"
abbreviation (input) KB_LOCAL_JIFFIES_OFFSET :: u64 where "KB_LOCAL_JIFFIES_OFFSET \<equiv> 196608 + 4096"
abbreviation (input) KB_LOCAL_PAGE_OFFSET_BASE_OFFSET :: u64 where "KB_LOCAL_PAGE_OFFSET_BASE_OFFSET \<equiv> 196608 + 7168"
abbreviation (input) KB_LOCAL_VMEMMAP_BASE_OFFSET :: u64 where "KB_LOCAL_VMEMMAP_BASE_OFFSET \<equiv> 196608 + 7176"
abbreviation (input) KB_LOCAL_PHYS_BASE_OFFSET :: u64 where "KB_LOCAL_PHYS_BASE_OFFSET \<equiv> 196608 + 7184"
abbreviation (input) KB_LOCAL_DMA_OPS_PTR_OFFSET :: u64 where "KB_LOCAL_DMA_OPS_PTR_OFFSET \<equiv> 196608 + 7192"
abbreviation (input) KB_LOCAL_INIT_USER_NS_OFFSET :: u64 where "KB_LOCAL_INIT_USER_NS_OFFSET \<equiv> 196608 + 7200"
abbreviation (input) KB_LOCAL_CURRENT_NSPROXY_OFFSET :: u64 where "KB_LOCAL_CURRENT_NSPROXY_OFFSET \<equiv> 196608 + 7296"
abbreviation (input) KB_LOCAL_CURRENT_MNT_NS_OFFSET :: u64 where "KB_LOCAL_CURRENT_MNT_NS_OFFSET \<equiv> 196608 + 7360"
abbreviation (input) KB_LOCAL_CURRENT_CRED_OFFSET :: u64 where "KB_LOCAL_CURRENT_CRED_OFFSET \<equiv> 196608 + 7680"
abbreviation (input) KB_LOCAL_GS_SIZE :: u64 where "KB_LOCAL_GS_SIZE \<equiv> 1048576"
abbreviation (input) KB_LOCAL_GS_PCPU_HOT_OFFSET :: u64 where "KB_LOCAL_GS_PCPU_HOT_OFFSET \<equiv> 0x100"
abbreviation (input) KB_LOCAL_GS_STACK_CHK_GUARD_OFFSET :: u64 where "KB_LOCAL_GS_STACK_CHK_GUARD_OFFSET \<equiv> 0x180"
abbreviation (input) KB_LOCAL_GS_PREEMPT_COUNT_OFFSET :: u64 where "KB_LOCAL_GS_PREEMPT_COUNT_OFFSET \<equiv> 0x188"
abbreviation (input) KB_LOCAL_GS_CPU_NUMBER_OFFSET :: u64 where "KB_LOCAL_GS_CPU_NUMBER_OFFSET \<equiv> 0x190"
abbreviation (input) KB_LOCAL_GS_NUMA_NODE_OFFSET :: u64 where "KB_LOCAL_GS_NUMA_NODE_OFFSET \<equiv> 0x198"
abbreviation (input) KB_LOCAL_GS_CPU_INFO_OFFSET :: u64 where "KB_LOCAL_GS_CPU_INFO_OFFSET \<equiv> 0x200"
abbreviation (input) KB_LOCAL_GS_MODULE_PERCPU_OFFSET :: u64 where "KB_LOCAL_GS_MODULE_PERCPU_OFFSET \<equiv> 0x800"
abbreviation (input) JOURNAL_INFO_OFFSET :: u64 where "JOURNAL_INFO_OFFSET \<equiv> 0x930"
abbreviation (input) KB_JIFFIES_STORAGE_MAX :: nat where "KB_JIFFIES_STORAGE_MAX \<equiv> 64"

abbreviation (input) KB_ELF_SHF_WRITE :: u64 where "KB_ELF_SHF_WRITE \<equiv> 1"
abbreviation (input) KB_ELF_SHF_ALLOC :: u64 where "KB_ELF_SHF_ALLOC \<equiv> 2"
abbreviation (input) KB_ELF_SHF_EXECINSTR :: u64 where "KB_ELF_SHF_EXECINSTR \<equiv> 4"
abbreviation (input) KB_ELF_SHN_UNDEF :: u16 where "KB_ELF_SHN_UNDEF \<equiv> 0"
abbreviation (input) KB_ELF_SHN_ABS :: u16 where "KB_ELF_SHN_ABS \<equiv> 0xfff1"
abbreviation (input) KB_ELF_STB_GLOBAL :: u8 where "KB_ELF_STB_GLOBAL \<equiv> 1"
abbreviation (input) KB_ELF_ET_REL :: u16 where "KB_ELF_ET_REL \<equiv> 1"
abbreviation (input) KB_ELF_EM_X86_64 :: u16 where "KB_ELF_EM_X86_64 \<equiv> 62"
abbreviation (input) KB_ELF_R_X86_64_NONE :: u32 where "KB_ELF_R_X86_64_NONE \<equiv> 0"
abbreviation (input) KB_ELF_R_X86_64_64 :: u32 where "KB_ELF_R_X86_64_64 \<equiv> 1"
abbreviation (input) KB_ELF_R_X86_64_PC32 :: u32 where "KB_ELF_R_X86_64_PC32 \<equiv> 2"
abbreviation (input) KB_ELF_R_X86_64_PLT32 :: u32 where "KB_ELF_R_X86_64_PLT32 \<equiv> 4"
abbreviation (input) KB_ELF_R_X86_64_32 :: u32 where "KB_ELF_R_X86_64_32 \<equiv> 10"
abbreviation (input) KB_ELF_R_X86_64_32S :: u32 where "KB_ELF_R_X86_64_32S \<equiv> 11"
abbreviation (input) KB_ELF_R_X86_64_PC64 :: u32 where "KB_ELF_R_X86_64_PC64 \<equiv> 24"

text \<open>A string literal of the source as bytes.\<close>

definition cstr :: "string \<Rightarrow> bytes" where
  "cstr s = map of_char s"

section \<open>Structures\<close>

record loaded_section =
  ls_base :: ptr
  ls_size :: u64
  ls_offset :: u64
  ls_alignment :: u64
  ls_flags :: u64

text \<open>
  The structure \<^verbatim>\<open>kb_module\<close>.  Its \<^verbatim>\<open>shim_*\<close> members that point into the shim region are
  the function \<open>m_shim\<close> of the member's name.  The name and the section table are allocated apart
  from the structure: \<open>m_name_at\<close> and \<open>m_sections_at\<close> are the pointers \<^verbatim>\<open>module_name\<close> and \<^verbatim>\<open>sections\<close>,
  \<open>m_module_name\<close> and \<open>m_sections\<close> what they point to.  \<^verbatim>\<open>section_count\<close> is the length of \<open>m_sections\<close>.
\<close>

record kb_module =
  m_backend :: ptr
  m_elf :: kb_elf_file
  m_image_base :: ptr
  m_image_size :: u64
  m_shim_region :: ptr
  m_shim_symbol_stubs :: ptr
  m_shim :: "string \<Rightarrow> ptr"
  m_shim_node0 :: ptr
  m_name_at :: ptr
  m_module_name :: "bytes option"
  m_sections_at :: ptr
  m_sections :: "loaded_section list"
  m_external_stub_count :: nat
  m_init_module :: ptr
  m_cleanup_module :: ptr
  m_kernel_gs :: ptr
  m_percpu_offset :: u64
  m_percpu_size :: u64

datatype protection = PROT_R | PROT_RW | PROT_RX

text \<open>
  What the loader relies on: \<open>e_mmap\<close>, \<open>e_munmap\<close>, \<open>e_mprotect\<close>, \<open>e_malloc\<close>, \<open>e_free\<close>, \<open>e_get_gs\<close>,
  \<open>e_set_gs\<close> and \<open>e_call\<close> (a call of module code) act on the rest of the system \<open>'w\<close>; a null result
  of \<open>e_malloc\<close> and \<open>None\<close> of \<open>e_mmap\<close> are failures.
\<close>

record 'w loader_env =
  e_sysconf_page_size :: int
  e_mmap :: "ptr \<Rightarrow> u64 \<Rightarrow> 'w \<Rightarrow> ptr option \<times> 'w"
  e_munmap :: "ptr \<Rightarrow> u64 \<Rightarrow> 'w \<Rightarrow> 'w"
  e_mprotect :: "ptr \<Rightarrow> u64 \<Rightarrow> protection \<Rightarrow> 'w \<Rightarrow> bool \<times> 'w"
  e_malloc :: "nat \<Rightarrow> 'w \<Rightarrow> ptr \<times> 'w"
  e_free :: "ptr \<Rightarrow> 'w \<Rightarrow> 'w"
  e_get_gs :: "'w \<Rightarrow> u64 option"
  e_set_gs :: "u64 \<Rightarrow> 'w \<Rightarrow> bool \<times> 'w"
  e_set_backend :: "ptr \<Rightarrow> 'w \<Rightarrow> 'w"
  e_call :: "ptr \<Rightarrow> 'w \<Rightarrow> int \<times> 'w"
  e_getenv :: "string \<Rightarrow> bytes option"
  e_address_of :: "string \<Rightarrow> ptr"
  e_providers :: providers
  e_kvm_symbols :: "kb_linux_symbol list"
  e_str :: strings
  e_name_at :: "bytes \<Rightarrow> ptr"
  e_page_offset_base :: "'w \<Rightarrow> u64"
  e_vmemmap_base :: "'w \<Rightarrow> u64"
  e_phys_base :: "'w \<Rightarrow> u64"
  e_dma_ops :: "'w \<Rightarrow> u64"
  e_elapsed_jiffies :: "'w \<Rightarrow> u64"

text \<open>
  The loader's static variables with the memory they point into.  \<open>regions\<close> are the mapped objects,
  \<open>page_prot\<close> the protection of each byte, and \<open>modules\<close> the module structures by address.
\<close>

record 'w loader =
  mem :: memory
  regions :: "region list"
  page_prot :: "u64 \<Rightarrow> protection"
  world :: 'w
  next_module_hint :: u64
  shared_object :: ptr
  shared_task :: ptr
  shared_lock :: ptr
  kb_published_current_task :: ptr
  kb_execution_task_template :: bytes
  kb_execution_task_template_valid :: bool
  kb_shared_kernel_percpu_next :: u64
  kb_active_module :: ptr
  modules :: "ptr \<Rightarrow> kb_module option"
  kb_loaded_modules :: "ptr list"
  exported :: exports
  shim_table :: shim_symbol_table
  jiffies_storages :: "ptr list"

definition loader_initial :: "memory \<Rightarrow> ptr \<Rightarrow> 'w \<Rightarrow> 'w loader" where
  "loader_initial m gs w = \<lparr>mem = m, regions = [(gs, unat KB_LOCAL_GS_SIZE)], page_prot = (\<lambda>_. PROT_RW), world = w,
     next_module_hint = 0x40000000, shared_object = NULL, shared_task = NULL, shared_lock = NULL,
     kb_published_current_task = NULL, kb_execution_task_template = replicate 4096 0,
     kb_execution_task_template_valid = False, kb_shared_kernel_percpu_next = KB_LOCAL_GS_MODULE_PERCPU_OFFSET,
     kb_active_module = NULL, modules = (\<lambda>_. None), kb_loaded_modules = [], exported = exported_symbols,
     shim_table = shim_symbols_zero, jiffies_storages = replicate KB_JIFFIES_STORAGE_MAX NULL\<rparr>"

type_synonym ('a, 'w) lprog = "('a, 'w loader) prog"

section \<open>Memory and structures\<close>

text \<open>
  Stores and loads crash outside the mapped regions.  The protection of a page is recorded in
  \<open>page_prot\<close> by \<^verbatim>\<open>mprotect\<close> and does not make a store crash.
\<close>

definition pokeP :: "ptr \<Rightarrow> bytes \<Rightarrow> (unit, 'w) lprog" where
  "pokeP p bs s =
     (if mapped (regions s) p (length bs) then Some ((), s\<lparr>mem := store p bs (mem s)\<rparr>) else None)"

definition peekP :: "ptr \<Rightarrow> nat \<Rightarrow> (bytes, 'w) lprog" where
  "peekP p n s = (if mapped (regions s) p n then Some (load (mem s) p n, s) else None)"

definition memsetP :: "ptr \<Rightarrow> u8 \<Rightarrow> nat \<Rightarrow> (unit, 'w) lprog" where
  "memsetP p v n s =
     (if mapped (regions s) p n then Some ((), s\<lparr>mem := \<lambda>a. if unat (a - p) < n then v else mem s a\<rparr>) else None)"

definition moduleP :: "ptr \<Rightarrow> (kb_module, 'w) lprog" where
  "moduleP p s = (case modules s p of None \<Rightarrow> None | Some m \<Rightarrow> Some (m, s))"

definition set_moduleP :: "ptr \<Rightarrow> (kb_module \<Rightarrow> kb_module) \<Rightarrow> (unit, 'w) lprog" where
  "set_moduleP p f s =
     (case modules s p of None \<Rightarrow> None | Some m \<Rightarrow> Some ((), s\<lparr>modules := (modules s)(p \<mapsto> f m)\<rparr>))"

definition worldP :: "('w \<Rightarrow> 'a \<times> 'w) \<Rightarrow> ('a, 'w) lprog" where
  "worldP f s = (case f (world s) of (a, w) \<Rightarrow> Some (a, s\<lparr>world := w\<rparr>))"

definition shimP :: "(shim_symbol_table \<Rightarrow> 'a \<times> shim_symbol_table) \<Rightarrow> ('a, 'w) lprog" where
  "shimP f s = (case f (shim_table s) of (a, t) \<Rightarrow> Some (a, s\<lparr>shim_table := t\<rparr>))"

definition u32_bytes :: "u32 \<Rightarrow> bytes" where
  "u32_bytes value = [ucast (value AND 0xff), ucast (drop_bit 8 value AND 0xff),
     ucast (drop_bit 16 value AND 0xff), ucast (drop_bit 24 value AND 0xff)]"

definition u64_bytes :: "u64 \<Rightarrow> bytes" where
  "u64_bytes value = u32_bytes (ucast (value AND 0xffffffff)) @ u32_bytes (ucast (drop_bit 32 value))"

definition write_u32le :: "ptr \<Rightarrow> u32 \<Rightarrow> (unit, 'w) lprog" where
  "write_u32le p value = pokeP p (u32_bytes value)"

definition write_u64le :: "ptr \<Rightarrow> u64 \<Rightarrow> (unit, 'w) lprog" where
  "write_u64le p value =
     bindP (write_u32le p (ucast (value AND 0xffffffff))) (\<lambda>_.
       write_u32le (p + 4) (ucast (drop_bit 32 value)))"

text \<open>A pointer read with \<^verbatim>\<open>memcpy\<close> into a 64 or 32 bit variable.\<close>

definition word_of_bytes :: "bytes \<Rightarrow> u64" where
  "word_of_bytes bs = foldr (\<lambda>b w. ucast b OR push_bit 8 w) bs 0"

section \<open>Call stubs\<close>

definition abs_jump_stub :: "ptr \<Rightarrow> ptr \<Rightarrow> ptr \<Rightarrow> ptr \<Rightarrow> bytes" where
  "abs_jump_stub trampoline target caller_gs callee_gs =
     [0x49, 0xbb] @ u64_bytes target @ [0x49, 0xba] @ u64_bytes caller_gs @
     [0x48, 0xb8] @ u64_bytes callee_gs @ [0xff, 0x25] @ u32_bytes 0 @ u64_bytes trampoline"

definition write_abs_jump_stub :: "'w loader_env \<Rightarrow> ptr \<Rightarrow> ptr \<Rightarrow> ptr \<Rightarrow> ptr \<Rightarrow> (unit, 'w) lprog" where
  "write_abs_jump_stub e p target caller_gs callee_gs =
     bindP (memsetP p 0x90 (unat KB_LOCAL_SHIM_STUB_SIZE)) (\<lambda>_.
       pokeP p (abs_jump_stub (e_address_of e ''kb_shim_external_call_trampoline'') target caller_gs callee_gs))"

definition write_abs_jump_raw_stub :: "ptr \<Rightarrow> ptr \<Rightarrow> (unit, 'w) lprog" where
  "write_abs_jump_raw_stub p target =
     bindP (memsetP p 0x90 (unat KB_LOCAL_SHIM_STUB_SIZE)) (\<lambda>_.
       pokeP p ([0x49, 0xbb] @ u64_bytes target @ [0x41, 0xff, 0xe3]))"

definition write_ret_stub :: "ptr \<Rightarrow> (unit, 'w) lprog" where
  "write_ret_stub p =
     bindP (memsetP p 0x90 (unat KB_LOCAL_SHIM_STUB_SIZE)) (\<lambda>_. pokeP p [0xc3])"

definition shim_symbol_count :: "'w loader_env \<Rightarrow> (nat, 'w) lprog" where
  "shim_symbol_count e = shimP (shim_symbol_table_count (e_providers e))"

definition shim_symbol_at :: "'w loader_env \<Rightarrow> nat \<Rightarrow> (kb_linux_symbol option, 'w) lprog" where
  "shim_symbol_at e index = shimP (\<lambda>t. shim_symbol_table_at (e_providers e) t index)"

definition lookup_shim_symbol :: "'w loader_env \<Rightarrow> bytes \<Rightarrow> (ptr, 'w) lprog" where
  "lookup_shim_symbol e name = shimP (\<lambda>t. shim_symbol_find_address (e_providers e) t (Some name))"

definition allocate_external_call_stub_for_caller ::
  "'w loader_env \<Rightarrow> ptr \<Rightarrow> ptr \<Rightarrow> ptr \<Rightarrow> ptr \<Rightarrow> (ptr, 'w) lprog" where
  "allocate_external_call_stub_for_caller e module target caller_gs callee_gs =
     bindP (shim_symbol_count e) (\<lambda>symbol_count.
     if module = NULL then returnP NULL else
     bindP (moduleP module) (\<lambda>m.
     if m_shim_symbol_stubs m = NULL \<or> target = NULL \<or> caller_gs = NULL \<or> callee_gs = NULL then returnP NULL
     else if symbol_count + m_external_stub_count m \<ge> KB_LOCAL_SHIM_STUB_COUNT then returnP NULL
     else let stub = m_shim_symbol_stubs m +
            of_nat (symbol_count + m_external_stub_count m) * KB_LOCAL_SHIM_STUB_SIZE in
       bindP (set_moduleP module (m_external_stub_count_update Suc)) (\<lambda>_.
       bindP (write_abs_jump_stub e stub target caller_gs callee_gs) (\<lambda>_. returnP stub))))"

definition allocate_external_call_stub :: "'w loader_env \<Rightarrow> ptr \<Rightarrow> ptr \<Rightarrow> ptr \<Rightarrow> (ptr, 'w) lprog" where
  "allocate_external_call_stub e module target callee_gs =
     bindP (moduleP module) (\<lambda>m.
       allocate_external_call_stub_for_caller e module target (m_kernel_gs m) callee_gs)"

definition symbol_uses_linux_user_access_abi :: "bytes \<Rightarrow> bool" where
  "symbol_uses_linux_user_access_abi name \<longleftrightarrow> name \<in> set (map cstr
     [''__get_user_1'', ''__get_user_2'', ''__get_user_4'', ''__get_user_8'', ''__put_user_4'', ''__put_user_8''])"

section \<open>Section memory\<close>

definition page_size :: "'w loader_env \<Rightarrow> u64" where
  "page_size e = (if e_sysconf_page_size e > 0 then of_int (e_sysconf_page_size e) else 4096)"

definition align_up_u64 :: "u64 \<Rightarrow> u64 \<Rightarrow> u64" where
  "align_up_u64 value alignment =
     (if alignment = 0 then value
      else let mask = alignment - 1 in (value + mask) AND NOT mask)"

text \<open>
  The operating system and the allocator only hand out memory that is not in use.  The model builds
  that in: an answer that overlaps a mapped region counts as a failure.
\<close>

definition fresh_region :: "region list \<Rightarrow> ptr \<Rightarrow> nat \<Rightarrow> bool" where
  "fresh_region rs p n \<longleftrightarrow> p \<noteq> NULL \<and> 0 < n \<and>
     list_all (\<lambda>(b, k). n \<le> unat (b - p) \<and> k \<le> unat (p - b)) rs"

definition mmapP :: "'w loader_env \<Rightarrow> ptr \<Rightarrow> u64 \<Rightarrow> (ptr option, 'w) lprog" where
  "mmapP e hint sz s = (case e_mmap e hint sz (world s) of
       (None, w) \<Rightarrow> Some (None, s\<lparr>world := w\<rparr>)
     | (Some p, w) \<Rightarrow>
         if fresh_region (regions s) p (unat sz)
         then Some (Some p, s\<lparr>world := w, regions := (p, unat sz) # regions s\<rparr>)
         else Some (None, s\<lparr>world := w\<rparr>))"

text \<open>Memory is given back as it was handed out: another address or size counts as a crash.\<close>

definition munmapP :: "'w loader_env \<Rightarrow> ptr \<Rightarrow> u64 \<Rightarrow> (unit, 'w) lprog" where
  "munmapP e p sz s =
     (if (p, unat sz) \<in> set (regions s)
      then Some ((), s\<lparr>world := e_munmap e p sz (world s), regions := filter (\<lambda>r. fst r \<noteq> p) (regions s)\<rparr>)
      else None)"

abbreviation (input) min_exec_hint :: u64 where "min_exec_hint \<equiv> 0x40000000"
abbreviation (input) max_exec_hint :: u64 where "max_exec_hint \<equiv> 0x78000000"

fun alloc_attempts :: "'w loader_env \<Rightarrow> u64 \<Rightarrow> nat \<Rightarrow> (ptr option, 'w) lprog" where
  "alloc_attempts e rounded_size 0 = returnP None"
| "alloc_attempts e rounded_size (Suc attempts) =
     bindP (getP next_module_hint) (\<lambda>h.
     let hint = (if h < min_exec_hint \<or> h \<ge> max_exec_hint then min_exec_hint else h) in
     bindP (modifyP (next_module_hint_update (\<lambda>_. hint + 0x02000000))) (\<lambda>_.
     bindP (mmapP e hint rounded_size) (\<lambda>memory.
     case memory of None \<Rightarrow> alloc_attempts e rounded_size attempts
     | Some p \<Rightarrow>
         if p \<ge> min_exec_hint \<and> p < max_exec_hint then returnP (Some p)
         else bindP (munmapP e p rounded_size) (\<lambda>_. alloc_attempts e rounded_size attempts))))"

definition alloc_section_memory :: "'w loader_env \<Rightarrow> u64 \<Rightarrow> (ptr, 'w) lprog" where
  "alloc_section_memory e sz =
     (if sz = 0 then returnP NULL
      else let rounded_size = align_up_u64 sz (page_size e) in
        bindP (alloc_attempts e rounded_size 16) (\<lambda>memory.
        case memory of Some p \<Rightarrow> returnP p
        | None \<Rightarrow> bindP (mmapP e NULL rounded_size) (\<lambda>memory.
            returnP (case memory of None \<Rightarrow> NULL | Some p \<Rightarrow> p))))"

definition free_section_memory :: "'w loader_env \<Rightarrow> ptr \<Rightarrow> u64 \<Rightarrow> (unit, 'w) lprog" where
  "free_section_memory e memory sz =
     (if memory = NULL \<or> sz = 0 then returnP ()
      else munmapP e memory (align_up_u64 sz (page_size e)))"

text \<open>
  \<^verbatim>\<open>malloc\<close>, \<^verbatim>\<open>calloc\<close> of a zeroed object, and \<^verbatim>\<open>free\<close>, which only takes an address that was handed out.
\<close>

definition mallocP :: "'w loader_env \<Rightarrow> nat \<Rightarrow> (ptr, 'w) lprog" where
  "mallocP e n s = (case e_malloc e n (world s) of (p, w) \<Rightarrow>
     if \<not> fresh_region (regions s) p n then Some (NULL, s\<lparr>world := w\<rparr>)
     else Some (p, s\<lparr>world := w, regions := (p, n) # regions s\<rparr>))"

definition callocP :: "'w loader_env \<Rightarrow> nat \<Rightarrow> (ptr, 'w) lprog" where
  "callocP e n s = (case e_malloc e n (world s) of (p, w) \<Rightarrow>
     if \<not> fresh_region (regions s) p n then Some (NULL, s\<lparr>world := w\<rparr>)
     else Some (p, s\<lparr>world := w, regions := (p, n) # regions s,
            mem := \<lambda>a. if unat (a - p) < n then 0 else mem s a\<rparr>))"

definition freeP :: "'w loader_env \<Rightarrow> ptr \<Rightarrow> (unit, 'w) lprog" where
  "freeP e p s =
     (if p = NULL then Some ((), s)
      else if p \<notin> fst ` set (regions s) then None
      else Some ((), s\<lparr>world := e_free e p (world s), regions := filter (\<lambda>r. fst r \<noteq> p) (regions s)\<rparr>))"

section \<open>Shared objects and tasks\<close>

text \<open>
  A zeroed page that is allocated on first use and kept in a static variable: the pattern of the
  three functions below.
\<close>

definition shared_page ::
  "'w loader_env \<Rightarrow> ('w loader \<Rightarrow> ptr) \<Rightarrow> (ptr \<Rightarrow> 'w loader \<Rightarrow> 'w loader) \<Rightarrow> (ptr \<Rightarrow> (unit, 'w) lprog) \<Rightarrow> (ptr, 'w) lprog" where
  "shared_page e get put init =
     bindP (getP get) (\<lambda>p. if p \<noteq> NULL then returnP p else
     bindP (alloc_section_memory e 4096) (\<lambda>p.
     bindP (modifyP (put p)) (\<lambda>_.
     if p = NULL then returnP p else
     bindP (memsetP p 0 4096) (\<lambda>_.
     bindP (init p) (\<lambda>_. returnP p)))))"

definition kb_module_shared_blockdev_superblock :: "'w loader_env \<Rightarrow> (ptr, 'w) lprog" where
  "kb_module_shared_blockdev_superblock e =
     shared_page e shared_object (\<lambda>p. shared_object_update (\<lambda>_. p)) (\<lambda>p. pokeP p (u64_bytes (p + 64)))"

definition shared_current_task :: "'w loader_env \<Rightarrow> (ptr, 'w) lprog" where
  "shared_current_task e =
     shared_page e shared_task (\<lambda>p. shared_task_update (\<lambda>_. p)) (\<lambda>_. returnP ())"

definition shared_tasklist_lock :: "'w loader_env \<Rightarrow> (ptr, 'w) lprog" where
  "shared_tasklist_lock e =
     shared_page e shared_lock (\<lambda>p. shared_lock_update (\<lambda>_. p)) (\<lambda>_. returnP ())"

definition kb_loader_default_current_task :: "'w loader_env \<Rightarrow> (ptr, 'w) lprog" where
  "kb_loader_default_current_task e = shared_current_task e"

definition kb_loader_current_task :: "'w loader_env \<Rightarrow> (ptr, 'w) lprog" where
  "kb_loader_current_task e =
     bindP (getP kb_published_current_task) (\<lambda>p. if p \<noteq> NULL then returnP p else
     bindP (shared_current_task e) (\<lambda>p.
     bindP (modifyP (kb_published_current_task_update (\<lambda>_. p))) (\<lambda>_. returnP p)))"

text \<open>The copy of a task, with the journal handle cleared.\<close>

definition kb_loader_clone_execution_task :: "'w loader_env \<Rightarrow> (ptr, 'w) lprog" where
  "kb_loader_clone_execution_task e =
     bindP (callocP e 4096) (\<lambda>task.
     bindP (getP kb_execution_task_template_valid) (\<lambda>valid.
     bindP (if valid then bindP (getP kb_execution_task_template) (\<lambda>bs. returnP (Some bs))
            else bindP (shared_current_task e) (\<lambda>p.
              if p = NULL then returnP None else bindP (peekP p 4096) (\<lambda>bs. returnP (Some bs)))) (\<lambda>template.
     case template of
       None \<Rightarrow> bindP (freeP e task) (\<lambda>_. returnP NULL)
     | Some bs \<Rightarrow>
         if task = NULL then returnP NULL else
         bindP (pokeP task bs) (\<lambda>_.
         bindP (memsetP (task + JOURNAL_INFO_OFFSET) 0 8) (\<lambda>_.
         bindP (write_u64le (task + 0x950) (task + 0x9b8)) (\<lambda>_. returnP task))))))"

definition kb_loader_task_journal_info :: "ptr \<Rightarrow> (u64, 'w) lprog" where
  "kb_loader_task_journal_info task =
     (if task = NULL then returnP 0
      else bindP (peekP (task + JOURNAL_INFO_OFFSET) 8) (\<lambda>bs. returnP (word_of_bytes bs)))"

definition kb_loader_task_state :: "ptr \<Rightarrow> (u32, 'w) lprog" where
  "kb_loader_task_state task =
     (if task = NULL then returnP 0
      else bindP (peekP (task + 0x18) 4) (\<lambda>bs. returnP (ucast (word_of_bytes bs))))"

definition kb_loader_active_module :: "(ptr, 'w) lprog" where
  "kb_loader_active_module = getP kb_active_module"

definition kb_loader_set_active_module :: "ptr \<Rightarrow> (unit, 'w) lprog" where
  "kb_loader_set_active_module module = modifyP (kb_active_module_update (\<lambda>_. module))"

definition kb_loader_module_current_mm :: "ptr \<Rightarrow> (ptr, 'w) lprog" where
  "kb_loader_module_current_mm module =
     (if module = NULL then returnP NULL else bindP (moduleP module) (\<lambda>m. returnP (m_shim m ''current_mm'')))"

definition kb_loader_module_current_task :: "ptr \<Rightarrow> (ptr, 'w) lprog" where
  "kb_loader_module_current_task module =
     (if module = NULL then returnP NULL else bindP (moduleP module) (\<lambda>m.
      bindP (peekP (m_kernel_gs m + KB_LOCAL_GS_PCPU_HOT_OFFSET) 8) (\<lambda>bs. returnP (word_of_bytes bs))))"

definition kb_loader_set_current_task_for_all_modules :: "'w loader_env \<Rightarrow> ptr \<Rightarrow> (unit, 'w) lprog" where
  "kb_loader_set_current_task_for_all_modules e task =
     bindP (if task = NULL then shared_current_task e else returnP task) (\<lambda>task.
     bindP (modifyP (kb_published_current_task_update (\<lambda>_. task))) (\<lambda>_.
     bindP (getP kb_loaded_modules) (for_each (\<lambda>module.
       bindP (moduleP module) (\<lambda>m. write_u64le (m_kernel_gs m + KB_LOCAL_GS_PCPU_HOT_OFFSET) task)))))"

definition kb_loader_refresh_page_model_for_all_modules :: "'w loader_env \<Rightarrow> (unit, 'w) lprog" where
  "kb_loader_refresh_page_model_for_all_modules e =
     bindP (getP (\<lambda>s. e_page_offset_base e (world s))) (\<lambda>page_offset_base.
     bindP (getP (\<lambda>s. e_vmemmap_base e (world s))) (\<lambda>vmemmap_base.
     bindP (getP (\<lambda>s. e_phys_base e (world s))) (\<lambda>phys_base.
     bindP (getP kb_loaded_modules) (for_each (\<lambda>module.
       bindP (moduleP module) (\<lambda>m.
       bindP (write_u64le (m_shim_region m + KB_LOCAL_PAGE_OFFSET_BASE_OFFSET) page_offset_base) (\<lambda>_.
       bindP (write_u64le (m_shim_region m + KB_LOCAL_VMEMMAP_BASE_OFFSET) vmemmap_base) (\<lambda>_.
         write_u64le (m_shim_region m + KB_LOCAL_PHYS_BASE_OFFSET) phys_base))))))))"

section \<open>The jiffies cells\<close>

text \<open>
  From \<^verbatim>\<open>src/linux_personality/linux_work.c\<close>: the addresses at which modules read the tick counter.
\<close>

definition refresh_linux_jiffies :: "'w loader_env \<Rightarrow> (unit, 'w) lprog" where
  "refresh_linux_jiffies e =
     bindP (getP (\<lambda>s. e_elapsed_jiffies e (world s))) (\<lambda>linux_jiffies.
     bindP (getP jiffies_storages) (for_each (\<lambda>storage.
       if storage = NULL then returnP () else pokeP storage (u64_bytes linux_jiffies))))"

fun store_first_null :: "ptr \<Rightarrow> ptr list \<Rightarrow> ptr list" where
  "store_first_null p [] = []"
| "store_first_null p (x # xs) = (if x = NULL then p # xs else x # store_first_null p xs)"

definition kb_register_jiffies_storage :: "'w loader_env \<Rightarrow> ptr \<Rightarrow> (unit, 'w) lprog" where
  "kb_register_jiffies_storage e storage =
     (if storage = NULL then returnP ()
      else bindP (getP jiffies_storages) (\<lambda>storages.
        if storage \<in> set storages then refresh_linux_jiffies e
        else bindP (modifyP (jiffies_storages_update (store_first_null storage))) (\<lambda>_.
          refresh_linux_jiffies e)))"

end
