(* ===== verification/Module_Loader.thy ===== *)
theory Module_Loader
  imports Loader_State
begin

text \<open>
  The operations of \<^verbatim>\<open>src/loader/module_loader.c\<close> in the order of the source: the owners of
  addresses, the resolution of symbols, loading of sections, relocation, code patches and the life
  cycle of a module.  A module pointer is the key of the module structure; a dereference of a freed
  module crashes like an access to unmapped memory.
\<close>

section \<open>Named stubs and protections\<close>

definition module_shim_stub_by_name :: "'w loader_env \<Rightarrow> ptr \<Rightarrow> bytes \<Rightarrow> (ptr, 'w) lprog" where
  "module_shim_stub_by_name e module name =
     bindP (moduleP module) (\<lambda>m.
     if m_shim_symbol_stubs m = NULL then returnP NULL else
     bindP (shimP (\<lambda>t. shim_symbol_find_index (e_providers e) t (Some name))) (\<lambda>index.
     returnP (case index of
         Some i \<Rightarrow> m_shim_symbol_stubs m + of_nat i * KB_LOCAL_SHIM_STUB_SIZE
       | None \<Rightarrow> NULL)))"

text \<open>The members that name a stub, with the symbol each is bound to.\<close>

definition named_stubs :: "(string \<times> string) list" where
  "named_stubs = [(''printk'', ''_printk''), (''kfree'', ''kfree''), (''kmalloc'', ''kmalloc''),
     (''kzalloc'', ''kzalloc''), (''kmalloc_trace'', ''kmalloc_trace''),
     (''request_threaded_irq'', ''request_threaded_irq''), (''free_irq'', ''free_irq''),
     (''dma_alloc_attrs'', ''dma_alloc_attrs''), (''dma_free_attrs'', ''dma_free_attrs''),
     (''stack_chk_fail'', ''__stack_chk_fail''), (''pci_register_driver'', ''__pci_register_driver''),
     (''pci_unregister_driver'', ''pci_unregister_driver''), (''pci_enable_device'', ''pci_enable_device''),
     (''pci_disable_device'', ''pci_disable_device''), (''pci_set_master'', ''pci_set_master''),
     (''pci_iomap'', ''pci_iomap''), (''pci_iounmap'', ''pci_iounmap''), (''ioread32'', ''ioread32''),
     (''iowrite32'', ''iowrite32'')]"

definition bind_named_shim_stubs :: "'w loader_env \<Rightarrow> ptr \<Rightarrow> (kb_status, 'w) lprog" where
  "bind_named_shim_stubs e module =
     bindP (for_each (\<lambda>(member, name).
         bindP (module_shim_stub_by_name e module (cstr name)) (\<lambda>stub.
           set_moduleP module (m_shim_update (\<lambda>f. f(member := stub))))) named_stubs) (\<lambda>_.
     bindP (moduleP module) (\<lambda>m.
     returnP (if list_ex (\<lambda>(member, _). m_shim m member = NULL) named_stubs then KB_ERR_INVALID else KB_OK)))"

definition section_protection :: "u64 \<Rightarrow> protection" where
  "section_protection flags =
     (if flags AND KB_ELF_SHF_EXECINSTR \<noteq> 0 then PROT_RX
      else if flags AND KB_ELF_SHF_WRITE \<noteq> 0 then PROT_RW
      else PROT_R)"

text \<open>A successful \<^verbatim>\<open>mprotect\<close> changes the protection of the range; the result says whether it failed.\<close>

definition mprotectP :: "'w loader_env \<Rightarrow> ptr \<Rightarrow> u64 \<Rightarrow> protection \<Rightarrow> (bool, 'w) lprog" where
  "mprotectP e p sz prot s = (case e_mprotect e p sz prot (world s) of
       (True, w) \<Rightarrow> Some (False, s\<lparr>world := w,
          page_prot := \<lambda>a. if unat (a - p) < unat sz then prot else page_prot s a\<rparr>)
     | (False, w) \<Rightarrow> Some (True, s\<lparr>world := w\<rparr>))"

definition protect_section_run ::
  "'w loader_env \<Rightarrow> ptr \<Rightarrow> u64 \<Rightarrow> u64 \<Rightarrow> protection \<Rightarrow> (bool, 'w) lprog" where
  "protect_section_run e module start finish prot =
     bindP (moduleP module) (\<lambda>m. mprotectP e (m_image_base m + start) (finish - start) prot)"

text \<open>The loop over the sections; the current run is its start, end and protection, or \<open>None\<close>.\<close>

fun protect_runs ::
  "'w loader_env \<Rightarrow> ptr \<Rightarrow> (u64 \<times> u64 \<times> protection) option \<Rightarrow> loaded_section list \<Rightarrow> (kb_status, 'w) lprog" where
  "protect_runs e module run [] =
     (case run of None \<Rightarrow> returnP KB_OK
      | Some (start, finish, prot) \<Rightarrow>
          bindP (protect_section_run e module start finish prot) (\<lambda>failed.
            returnP (if failed then KB_ERR_UNSUPPORTED else KB_OK)))"
| "protect_runs e module run (section # sections) =
     (if ls_base section = NULL \<or> ls_size section = 0 then protect_runs e module run sections
      else
       let page = page_size e;
           start = ls_offset section AND NOT (page - 1);
           finish = align_up_u64 (ls_offset section + ls_size section) page;
           prot = section_protection (ls_flags section) in
       case run of
         None \<Rightarrow> protect_runs e module (Some (start, finish, prot)) sections
       | Some (run_start, run_end, run_prot) \<Rightarrow>
           if run_prot = prot \<and> start \<le> run_end then
             protect_runs e module (Some (run_start, if finish > run_end then finish else run_end, run_prot)) sections
           else
             bindP (protect_section_run e module run_start run_end run_prot) (\<lambda>failed.
               if failed then returnP KB_ERR_UNSUPPORTED
               else protect_runs e module (Some (start, finish, prot)) sections))"

definition finalize_section_protections :: "'w loader_env \<Rightarrow> ptr \<Rightarrow> (kb_status, 'w) lprog" where
  "finalize_section_protections e module =
     bindP (moduleP module) (\<lambda>m.
     bindP (mprotectP e (m_image_base m) (align_up_u64 (m_image_size m) (page_size e)) PROT_R) (\<lambda>failed.
     if failed then returnP KB_ERR_UNSUPPORTED else
     thenP (protect_runs e module None (m_sections m))
       (bindP (mprotectP e (m_shim_region m) KB_LOCAL_SHIM_DATA_OFFSET PROT_RX) (\<lambda>failed.
        if failed then returnP KB_ERR_UNSUPPORTED else
        bindP (mprotectP e (m_shim_region m + KB_LOCAL_SHIM_DATA_OFFSET) KB_LOCAL_SHIM_DATA_SIZE PROT_RW) (\<lambda>failed.
        returnP (if failed then KB_ERR_UNSUPPORTED else KB_OK))))))"

section \<open>Symbols of the KVM provider\<close>

definition module_prefers_kvm_symbols :: "kb_module \<Rightarrow> bool" where
  "module_prefers_kvm_symbols m = (case m_module_name m of
       None \<Rightarrow> False
     | Some name \<Rightarrow> list_ex (\<lambda>part. sublist (cstr part) name)
         [''kvm.ko'', ''kvm-amd.ko'', ''kvm-intel.ko'', ''/kvm/'', [CHR 0x5c] @ ''kvm'' @ [CHR 0x5c]])"

text \<open>A table entry whose name is null crashes the comparison.\<close>

fun symbol_scan :: "bytes \<Rightarrow> kb_linux_symbol list \<Rightarrow> (ptr, 'w) lprog" where
  "symbol_scan name [] = returnP NULL"
| "symbol_scan name (s # ss) = (case lsym_name s of
       None \<Rightarrow> crashP
     | Some n \<Rightarrow> if n = name then returnP (lsym_address s) else symbol_scan name ss)"

definition lookup_kvm_provider_symbol :: "'w loader_env \<Rightarrow> bytes \<Rightarrow> (ptr, 'w) lprog" where
  "lookup_kvm_provider_symbol e name =
     (if name \<notin> set (map cstr [''anon_inode_getfd'', ''anon_inode_getfile'', ''anon_inode_getfile_fmode'',
          ''fd_install'', ''get_unused_fd_flags'', ''put_unused_fd'']) then returnP NULL
      else symbol_scan name (e_kvm_symbols e))"

fun kvm_stub_scan :: "'w loader_env \<Rightarrow> bytes \<Rightarrow> ptr \<Rightarrow> ptr \<Rightarrow> nat list \<Rightarrow> (ptr, 'w) lprog" where
  "kvm_stub_scan e name provider stubs [] = returnP NULL"
| "kvm_stub_scan e name provider stubs (i # is) =
     bindP (shim_symbol_at e i) (\<lambda>symbol. case symbol of
         None \<Rightarrow> kvm_stub_scan e name provider stubs is
       | Some s \<Rightarrow> (case lsym_name s of
             None \<Rightarrow> crashP
           | Some n \<Rightarrow>
               if n = name \<and> lsym_address s = provider then returnP (stubs + of_nat i * KB_LOCAL_SHIM_STUB_SIZE)
               else kvm_stub_scan e name provider stubs is))"

definition module_kvm_provider_stub_by_name :: "'w loader_env \<Rightarrow> ptr \<Rightarrow> bytes \<Rightarrow> (ptr, 'w) lprog" where
  "module_kvm_provider_stub_by_name e module name =
     bindP (moduleP module) (\<lambda>m.
     if m_shim_symbol_stubs m = NULL then returnP NULL else
     bindP (lookup_kvm_provider_symbol e name) (\<lambda>provider.
     if provider = NULL then returnP NULL else
     bindP (shim_symbol_count e) (\<lambda>n.
       kvm_stub_scan e name provider (m_shim_symbol_stubs m) [0..<n])))"

section \<open>Owners of addresses\<close>

definition section_contains :: "u64 \<Rightarrow> loaded_section \<Rightarrow> bool" where
  "section_contains address section \<longleftrightarrow>
     (if ls_base section = NULL \<or> ls_size section = 0 then False
      else address \<ge> ls_base section \<and> address < ls_base section + ls_size section)"

definition module_contains_address :: "kb_module \<Rightarrow> u64 \<Rightarrow> bool" where
  "module_contains_address m address \<longleftrightarrow>
     (if address = 0 then False else list_ex (section_contains address) (m_sections m))"

definition module_contains_executable_address :: "kb_module \<Rightarrow> u64 \<Rightarrow> bool" where
  "module_contains_executable_address m address \<longleftrightarrow>
     (if address = 0 then False
      else list_ex (\<lambda>section. ls_flags section AND KB_ELF_SHF_EXECINSTR \<noteq> 0 \<and> section_contains address section)
        (m_sections m))"

fun find_module :: "(kb_module \<Rightarrow> bool) \<Rightarrow> ptr list \<Rightarrow> (ptr, 'w) lprog" where
  "find_module P [] = returnP NULL"
| "find_module P (p # ps) = bindP (moduleP p) (\<lambda>m. if P m then returnP p else find_module P ps)"

definition module_for_address :: "ptr \<Rightarrow> (ptr, 'w) lprog" where
  "module_for_address address =
     bindP (getP kb_loaded_modules) (find_module (\<lambda>m. module_contains_address m address))"

definition kb_module_find_owner_for_address :: "ptr \<Rightarrow> (ptr, 'w) lprog" where
  "kb_module_find_owner_for_address address = module_for_address address"

definition kb_module_is_executable_address :: "ptr \<Rightarrow> (bool, 'w) lprog" where
  "kb_module_is_executable_address address =
     bindP (bindP (getP kb_loaded_modules) (find_module (\<lambda>m. module_contains_executable_address m address)))
       (\<lambda>p. returnP (p \<noteq> NULL))"

definition kb_module_kernel_gs_for_address :: "ptr \<Rightarrow> (u64, 'w) lprog" where
  "kb_module_kernel_gs_for_address address =
     bindP (module_for_address address) (\<lambda>module.
     if module = NULL then returnP 0 else bindP (moduleP module) (\<lambda>m. returnP (m_kernel_gs m)))"

definition kb_module_make_gs_call_stub :: "'w loader_env \<Rightarrow> ptr \<Rightarrow> u64 \<Rightarrow> (ptr, 'w) lprog" where
  "kb_module_make_gs_call_stub e target caller_gs =
     bindP (module_for_address target) (\<lambda>callee.
     bindP (kb_module_kernel_gs_for_address target) (\<lambda>callee_gs.
     if callee = NULL \<or> caller_gs = 0 \<or> callee_gs = 0 then returnP NULL
     else allocate_external_call_stub_for_caller e callee target caller_gs callee_gs))"

definition register_loaded_module :: "ptr \<Rightarrow> (unit, 'w) lprog" where
  "register_loaded_module module =
     (if module = NULL then returnP () else modifyP (kb_loaded_modules_update (Cons module)))"

definition unregister_loaded_module :: "ptr \<Rightarrow> (unit, 'w) lprog" where
  "unregister_loaded_module module = modifyP (kb_loaded_modules_update (remove1 module))"

section \<open>Symbols of the shim layer\<close>

definition by_name :: "(string \<times> 'a) list \<Rightarrow> bytes \<Rightarrow> 'a option" where
  "by_name tab name = map_of (map (\<lambda>(n, v). (cstr n, v)) tab) name"

text \<open>The data symbols that are looked up before the stubs, in two groups.\<close>

definition early_data_symbols :: "kb_module \<Rightarrow> (string \<times> ptr) list" where
  "early_data_symbols m =
    [(''__num_online_cpus'', m_shim_region m + KB_LOCAL_USB_DATA_OFFSET),
     (''pcpu_hot'', KB_LOCAL_GS_PCPU_HOT_OFFSET), (''const_current_task'', KB_LOCAL_GS_PCPU_HOT_OFFSET),
     (''__ref_stack_chk_guard'', KB_LOCAL_GS_STACK_CHK_GUARD_OFFSET),
     (''__preempt_count'', KB_LOCAL_GS_PREEMPT_COUNT_OFFSET), (''cpu_number'', KB_LOCAL_GS_CPU_NUMBER_OFFSET),
     (''numa_node'', KB_LOCAL_GS_NUMA_NODE_OFFSET), (''cpu_info'', KB_LOCAL_GS_CPU_INFO_OFFSET),
     (''page_offset_base'', m_shim_region m + KB_LOCAL_PAGE_OFFSET_BASE_OFFSET),
     (''vmemmap_base'', m_shim_region m + KB_LOCAL_VMEMMAP_BASE_OFFSET),
     (''phys_base'', m_shim_region m + KB_LOCAL_PHYS_BASE_OFFSET),
     (''init_task'', m_shim m ''current_task''),
     (''init_user_ns'', m_shim_region m + KB_LOCAL_INIT_USER_NS_OFFSET)]"

definition usb_data_symbols :: "kb_module \<Rightarrow> (string \<times> ptr) list" where
  "usb_data_symbols m =
    [(''pm_suspend_target_state'', m_shim_region m + KB_LOCAL_USB_DATA_OFFSET + 320),
     (''usb_hcd_pci_pm_ops'', m_shim_region m + KB_LOCAL_USB_DATA_OFFSET + 384),
     (''__tracepoint_xhci_dbg_init'', m_shim_region m + KB_LOCAL_USB_DATA_OFFSET + 704),
     (''__tracepoint_xhci_dbg_quirks'', m_shim_region m + KB_LOCAL_USB_DATA_OFFSET + 704)]"

text \<open>The symbols that resolve to a member of the module after the stubs were tried.\<close>

definition member_symbols :: "(string \<times> string) list" where
  "member_symbols =
    [(''_printk'', ''printk''), (''printk'', ''printk''), (''kfree'', ''kfree''), (''kmalloc'', ''kmalloc''),
     (''kzalloc'', ''kzalloc''), (''kmalloc_trace'', ''kmalloc_trace''),
     (''request_threaded_irq'', ''request_threaded_irq''), (''free_irq'', ''free_irq''),
     (''dma_alloc_attrs'', ''dma_alloc_attrs''), (''dma_free_attrs'', ''dma_free_attrs''),
     (''__stack_chk_fail'', ''stack_chk_fail''), (''__pci_register_driver'', ''pci_register_driver''),
     (''pci_unregister_driver'', ''pci_unregister_driver''), (''pci_enable_device'', ''pci_enable_device''),
     (''pci_disable_device'', ''pci_disable_device''), (''pci_set_master'', ''pci_set_master''),
     (''pci_iomap'', ''pci_iomap''), (''pci_iounmap'', ''pci_iounmap''), (''ioread32'', ''ioread32''),
     (''iowrite32'', ''iowrite32''), (''kmalloc_caches'', ''kmalloc_caches''),
     (''random_kmalloc_seed'', ''random_kmalloc_seed''), (''param_ops_int'', ''param_ops_int''),
     (''param_ops_uint'', ''param_ops_uint''), (''param_ops_bool'', ''param_ops_bool''),
     (''param_ops_bint'', ''param_ops_bool''), (''param_ops_byte'', ''param_ops_byte''),
     (''param_ops_ulong'', ''param_ops_ulong''), (''param_ops_charp'', ''param_ops_ulong''),
     (''param_array_ops'', ''param_ops_ulong''), (''__cpu_possible_mask'', ''cpu_possible_mask''),
     (''cpu_possible_mask'', ''cpu_possible_mask_ptr''), (''__cpu_online_mask'', ''cpu_online_mask''),
     (''cpu_online_mask'', ''cpu_online_mask_ptr''), (''nr_cpu_ids'', ''nr_cpu_ids''),
     (''percpu_counter_batch'', ''percpu_counter_batch'')]"

definition late_member_symbols :: "(string \<times> string) list" where
  "late_member_symbols =
    [(''this_cpu_off'', ''this_cpu_off''), (''__per_cpu_offset'', ''per_cpu_offset''),
     (''pernet_ops_rwsem'', ''pernet_ops_rwsem''), (''panic_notifier_list'', ''panic_notifier_list''),
     (''pv_ops'', ''pv_ops''), (''pv_irq_ops'', ''pv_ops''), (''pv_lock_ops'', ''pv_ops''),
     (''node_data'', ''node_data''), (''node_states'', ''node_states''), (''boot_cpu_data'', ''boot_cpu_data'')]"

definition misc_data_names :: "string list" where
  "misc_data_names =
    [''__default_kernel_pte_mask'', ''_ctype'', ''acpi_gbl_FADT'', ''cpu_bit_bitmap'', ''debug_locks_silent'',
     ''devmap_managed_key'', ''dotdot_name'', ''efi'', ''hugetlb_optimize_vmemmap_key'', ''iomem_resource'',
     ''ioport_resource'', ''init_uts_ns'', ''hv_vp_assist_page'', ''fs_overflowgid'', ''fs_overflowuid'',
     ''fs_bio_set'', ''fs_holder_ops'', ''gdt_page'', ''__tss_limit_invalid'', ''fs_kobj'', ''latent_entropy'',
     ''l1tf_mitigation'', ''kfree_link'', ''kmalloc_caches'', ''ms_hyperv'', ''nop_posix_acl_access'',
     ''nop_posix_acl_default'', ''nop_mnt_idmap'', ''oops_in_progress'', ''dquot_quotactl_sysfile_ops'',
     ''pci_bus_type'', ''pci_power_names'', ''pm_wq'', ''preempt_model_full'', ''power_group_name'',
     ''screen_info'', ''sme_me_mask'', ''system_freezable_wq'', ''system_long_wq'', ''system_percpu_wq'',
     ''system_state'', ''system_unbound_wq'', ''system_power_efficient_wq'', ''system_wq'', ''param_ops_string'',
     ''param_ops_ushort'', ''param_ops_ullong'', ''usb_debug_root'', ''uuid_null'', ''pm_suspend_global_flags'',
     ''freezer_active'', ''x86_cpu_to_apicid'', ''x2apic_mode'', ''x86_verw_sel'', ''x86_virt_spec_ctrl'',
     ''__x86_call_depth'', ''irq_stat'', ''x86_spec_ctrl_current'', ''sched_smt_present'']"

text \<open>The tail of the lookup: members, shared data, the tick counter and the providers' own address.\<close>

definition lookup_member_symbol :: "'w loader_env \<Rightarrow> kb_module \<Rightarrow> bytes \<Rightarrow> (ptr, 'w) lprog" where
  "lookup_member_symbol e m name = (case by_name member_symbols name of
       Some member \<Rightarrow> returnP (m_shim m member)
     | None \<Rightarrow>
       if name = cstr ''const_pcpu_hot'' then returnP KB_LOCAL_GS_PCPU_HOT_OFFSET
       else case by_name late_member_symbols name of
         Some member \<Rightarrow> returnP (m_shim m member)
       | None \<Rightarrow>
         if name \<in> set (map cstr misc_data_names) then returnP (m_shim m ''misc_data'')
         else if name = cstr ''jiffies'' then
           let storage = m_shim_region m + KB_LOCAL_JIFFIES_OFFSET in
           bindP (kb_register_jiffies_storage e storage) (\<lambda>_. returnP storage)
         else lookup_shim_symbol e name)"

definition lookup_module_shim_symbol :: "'w loader_env \<Rightarrow> ptr \<Rightarrow> bytes \<Rightarrow> (ptr, 'w) lprog" where
  "lookup_module_shim_symbol e module name =
     (if name = cstr ''blockdev_superblock'' then kb_module_shared_blockdev_superblock e
      else if name = cstr ''tasklist_lock'' then shared_tasklist_lock e
      else bindP (moduleP module) (\<lambda>m.
        case by_name (early_data_symbols m) name of
          Some address \<Rightarrow> returnP address
        | None \<Rightarrow>
          if name = cstr ''dma_ops'' then
            let storage = m_shim_region m + KB_LOCAL_DMA_OPS_PTR_OFFSET in
            bindP (getP (\<lambda>s. e_dma_ops e (world s))) (\<lambda>ops.
            bindP (pokeP storage (u64_bytes ops)) (\<lambda>_. returnP storage))
          else
            bindP (if module_prefers_kvm_symbols m then module_kvm_provider_stub_by_name e module name
                   else returnP NULL) (\<lambda>kvm_stub.
            if kvm_stub \<noteq> NULL then returnP kvm_stub
            else case by_name (usb_data_symbols m) name of
              Some address \<Rightarrow> returnP address
            | None \<Rightarrow>
                bindP (module_shim_stub_by_name e module name) (\<lambda>symbol_stub.
                if symbol_stub \<noteq> NULL then returnP symbol_stub
                else lookup_member_symbol e m name))))"

section \<open>Resolution of symbols\<close>

definition loaded_section_address :: "kb_module \<Rightarrow> u16 \<Rightarrow> u64 \<Rightarrow> kb_status + u64" where
  "loaded_section_address m section_index value =
     (if unat section_index \<ge> length (m_sections m) then Inl KB_ERR_INVALID
      else let section = m_sections m ! unat section_index in
        if ls_base section = NULL \<or> value > ls_size section then Inl KB_ERR_INVALID
        else Inr (ls_base section + value))"

definition percpu_name :: bytes where
  "percpu_name = cstr ''.data..percpu''"

definition symbol_is_percpu_offset :: "kb_module \<Rightarrow> kb_elf_symbol \<Rightarrow> bool outcome" where
  "symbol_is_percpu_offset m symbol =
     (if unat (sym_section_index symbol) \<ge> length (m_sections m) then Done False
      else case kb_elf_section (Some (m_elf m)) (ucast (sym_section_index symbol)) True of
        Fault \<Rightarrow> Fault
      | Fail _ \<Rightarrow> Done False
      | Done section \<Rightarrow> Done (sec_name section = percpu_name))"

text \<open>Two calls in sequence where the first may return an error status.\<close>

definition bindE :: "(kb_status + 'a, 's) prog \<Rightarrow> ('a \<Rightarrow> (kb_status + 'b, 's) prog) \<Rightarrow> (kb_status + 'b, 's) prog" where
  "bindE m k = bindP m (\<lambda>r. case r of Inl e \<Rightarrow> returnP (Inl e) | Inr v \<Rightarrow> k v)"

definition resolve_symbol :: "'w loader_env \<Rightarrow> ptr \<Rightarrow> u32 \<Rightarrow> u32 \<Rightarrow> (kb_status + u64, 'w) lprog" where
  "resolve_symbol e module symbol_table_section_index symbol_index =
     bindP (moduleP module) (\<lambda>m.
     bindE (outcomeP (kb_elf_symbol (Some (m_elf m)) (ucast symbol_table_section_index) (ucast symbol_index) True)) (\<lambda>symbol.
     if sym_section_index symbol = KB_ELF_SHN_UNDEF then
       bindP (lookup_shim_symbol e (sym_name symbol)) (\<lambda>address.
         returnP (if address = NULL then Inl KB_ERR_UNSUPPORTED else Inr address))
     else if sym_section_index symbol = KB_ELF_SHN_ABS then returnP (Inr (sym_value symbol))
     else bindE (outcomeP (symbol_is_percpu_offset m symbol)) (\<lambda>percpu.
       returnP (if percpu then
           if m_percpu_offset m = 0 \<or> sym_value symbol > m_percpu_size m then Inl KB_ERR_INVALID
           else Inr (m_percpu_offset m + sym_value symbol)
         else loaded_section_address m (sym_section_index symbol) (sym_value symbol)))))"

text \<open>A loop with an early return: \<open>None\<close> continues with the next index.\<close>

fun for_find :: "('i \<Rightarrow> ('r option, 's) prog) \<Rightarrow> 'i list \<Rightarrow> ('r option, 's) prog" where
  "for_find body [] = returnP None"
| "for_find body (i # is) =
     bindP (body i) (\<lambda>r. case r of Some v \<Rightarrow> returnP (Some v) | None \<Rightarrow> for_find body is)"

definition outcomeR :: "'a outcome \<Rightarrow> ('a \<Rightarrow> ((kb_status + 'r) option, 's) prog) \<Rightarrow> ((kb_status + 'r) option, 's) prog" where
  "outcomeR m k = bindP (outcomeP m) (\<lambda>r. case r of Inl e \<Rightarrow> returnP (Some (Inl e)) | Inr v \<Rightarrow> k v)"

definition is_symbol_table :: "kb_elf_section \<Rightarrow> bool" where
  "is_symbol_table section \<longleftrightarrow> \<not> (sec_type section \<noteq> KB_ELF_SHT_SYMTAB \<and> sec_type section \<noteq> KB_ELF_SHT_DYNSYM)"

definition find_symbol_address :: "'w loader_env \<Rightarrow> ptr \<Rightarrow> bytes \<Rightarrow> (kb_status + u64, 'w) lprog" where
  "find_symbol_address e module name =
     bindP (moduleP module) (\<lambda>m. let f = Some (m_elf m) in
     bindP (for_find (\<lambda>section_index.
       outcomeR (kb_elf_section f (of_nat section_index) True) (\<lambda>section.
       if \<not> is_symbol_table section then returnP None else
       outcomeR (kb_elf_symbol_count f (of_nat section_index) True) (\<lambda>symbol_count.
       for_find (\<lambda>symbol_index.
         outcomeR (kb_elf_symbol f (of_nat section_index) (of_nat symbol_index) True) (\<lambda>symbol.
         if sym_name symbol \<noteq> name then returnP None
         else bindP (resolve_symbol e module (of_nat section_index) (of_nat symbol_index)) (\<lambda>r. returnP (Some r))))
         [0..<unat symbol_count])))
       [0..<unat (kb_elf_section_count f)]) (\<lambda>r.
     returnP (case r of None \<Rightarrow> Inl KB_ERR_NOT_FOUND | Some v \<Rightarrow> v)))"

definition kb_low_or_err_pointer :: "ptr \<Rightarrow> bool" where
  "kb_low_or_err_pointer p \<longleftrightarrow>
     p = NULL \<or> p < 4096 \<or> p \<ge> -1 - 4095 \<or> (p > 0x00007fffffffffff \<and> p < 0xffff800000000000)"

definition symbol_name_pointer_is_valid :: "ptr \<Rightarrow> bool" where
  "symbol_name_pointer_is_valid name \<longleftrightarrow> \<not> kb_low_or_err_pointer name"

definition add_exportP :: "'w loader_env \<Rightarrow> bytes \<Rightarrow> u64 \<Rightarrow> ptr \<Rightarrow> (kb_status, 'w) lprog" where
  "add_exportP e name address module s =
     (case kb_loader_symbol_registry_add_export (e_str e) (exported s) (e_name_at e name) address module of
        (status, tab) \<Rightarrow> Some (status, s\<lparr>exported := tab\<rparr>))"

definition register_module_exports :: "'w loader_env \<Rightarrow> ptr \<Rightarrow> (kb_status, 'w) lprog" where
  "register_module_exports e module =
     bindP (moduleP module) (\<lambda>m. let f = Some (m_elf m) in
     for_ok (\<lambda>section_index.
       withP (outcomeP (kb_elf_section f (of_nat section_index) True)) (\<lambda>section.
       if \<not> is_symbol_table section then returnP KB_OK else
       withP (outcomeP (kb_elf_symbol_count f (of_nat section_index) True)) (\<lambda>symbol_count.
       for_ok (\<lambda>symbol_index.
         withP (outcomeP (kb_elf_symbol f (of_nat section_index) (of_nat symbol_index) True)) (\<lambda>symbol.
         if sym_binding symbol \<noteq> KB_ELF_STB_GLOBAL \<or> sym_section_index symbol = KB_ELF_SHN_UNDEF \<or>
            \<not> symbol_name_pointer_is_valid (e_name_at e (sym_name symbol)) \<or> sym_name symbol = []
         then returnP KB_OK
         else bindP (resolve_symbol e module (of_nat section_index) (of_nat symbol_index)) (\<lambda>r.
           case r of Inl _ \<Rightarrow> returnP KB_OK
           | Inr address \<Rightarrow> add_exportP e (sym_name symbol) address module)))
         [0..<unat symbol_count])))
       [0..<unat (kb_elf_section_count f)])"

end
