(* ===== verification/Module_Sections.thy ===== *)
theory Module_Sections
  imports Module_Loader
begin

text \<open>
  \<^verbatim>\<open>load_sections\<close> of \<^verbatim>\<open>src/loader/module_loader.c\<close>, in the four stages that the function
  runs through: the layout of the sections, the allocation of the image with the members that point
  into its shim region, the contents of that region, and the copy of the sections from the file.
\<close>

section \<open>Layout\<close>

text \<open>The part of the loop body for a section named \<^verbatim>\<open>.data..percpu\<close>.\<close>

definition reserve_percpu :: "ptr \<Rightarrow> u64 \<Rightarrow> u64 \<Rightarrow> (kb_status, 'w) lprog" where
  "reserve_percpu module alignment sz =
     bindP (moduleP module) (\<lambda>m.
     if m_percpu_offset m \<noteq> 0 then returnP KB_ERR_INVALID else
     let percpu_alignment = (if alignment < 8 then 8 else alignment) in
     bindP (getP kb_shared_kernel_percpu_next) (\<lambda>next.
     let percpu_offset = align_up_u64 next percpu_alignment in
     if percpu_offset > KB_LOCAL_GS_SIZE \<or> sz > KB_LOCAL_GS_SIZE - percpu_offset then returnP KB_ERR_NOMEM
     else
       bindP (set_moduleP module (\<lambda>m. m\<lparr>m_percpu_offset := percpu_offset, m_percpu_size := sz\<rparr>)) (\<lambda>_.
       bindP (modifyP (kb_shared_kernel_percpu_next_update (\<lambda>_. percpu_offset + sz))) (\<lambda>_.
       returnP KB_OK))))"

text \<open>The rest of the loop body for a section that is part of the image.\<close>

definition layout_section ::
  "'w loader_env \<Rightarrow> ptr \<Rightarrow> nat \<Rightarrow> kb_elf_section \<Rightarrow> u64 \<Rightarrow> protection option \<Rightarrow>
    (kb_status + u64 \<times> protection option, 'w) lprog" where
  "layout_section e module i section image_size previous =
     (let prot = section_protection (sec_flags section);
          image_size = (if previous \<noteq> None \<and> previous \<noteq> Some prot
            then align_up_u64 image_size (page_size e) else image_size);
          alignment = (if sec_alignment section = 0 then 1 else sec_alignment section) in
      bindP (if sec_name section = percpu_name then reserve_percpu module alignment (sec_size section)
             else returnP KB_OK) (\<lambda>status.
      if status \<noteq> KB_OK then returnP (Inl status)
      else
        let offset = align_up_u64 image_size alignment in
        bindP (set_moduleP module (\<lambda>m. m\<lparr>m_sections := (m_sections m)[i := (m_sections m ! i)\<lparr>
            ls_offset := offset, ls_size := sec_size section, ls_alignment := alignment,
            ls_flags := sec_flags section\<rparr>]\<rparr>)) (\<lambda>_.
        returnP (Inr (offset + sec_size section, if sec_size section \<noteq> 0 then Some prot else previous)))))"

text \<open>The loop over the sections; its result is the size of the image.\<close>

fun layout_sections ::
  "'w loader_env \<Rightarrow> ptr \<Rightarrow> nat list \<Rightarrow> u64 \<Rightarrow> protection option \<Rightarrow> (kb_status + u64, 'w) lprog" where
  "layout_sections e module [] image_size previous = returnP (Inr image_size)"
| "layout_sections e module (i # is) image_size previous =
     bindP (moduleP module) (\<lambda>m.
     bindE (outcomeP (kb_elf_section (Some (m_elf m)) (of_nat i) True)) (\<lambda>section.
     if sec_flags section AND KB_ELF_SHF_ALLOC = 0 then layout_sections e module is image_size previous
     else bindE (layout_section e module i section image_size previous) (\<lambda>(image_size, previous).
       layout_sections e module is image_size previous)))"

section \<open>The image and the shim region\<close>

text \<open>The members that point into the shim region, with their offsets.\<close>

definition shim_members :: "(string \<times> u64) list" where
  "shim_members =
    [(''printk'', 0), (''kfree'', 48), (''kmalloc'', 96), (''kzalloc'', 144), (''kmalloc_trace'', 192),
     (''request_threaded_irq'', 240), (''free_irq'', 288), (''dma_alloc_attrs'', 336), (''dma_free_attrs'', 384),
     (''stack_chk_fail'', 432), (''pci_register_driver'', 480), (''pci_unregister_driver'', 528),
     (''pci_enable_device'', 576), (''pci_disable_device'', 624), (''pci_set_master'', 672), (''pci_iomap'', 720),
     (''pci_iounmap'', 768), (''ioread32'', 816), (''iowrite32'', 864),
     (''kmalloc_caches'', 196608), (''random_kmalloc_seed'', 196608 + 2048), (''param_ops_int'', 196608 + 3072),
     (''param_ops_uint'', 196608 + 3136), (''param_ops_bool'', 196608 + 3200), (''param_ops_byte'', 196608 + 3264),
     (''param_ops_ulong'', 196608 + 3328), (''cpu_possible_mask'', 196608 + 3392),
     (''cpu_online_mask'', 196608 + 3408), (''cpu_possible_mask_ptr'', 196608 + 3424),
     (''cpu_online_mask_ptr'', 196608 + 3432), (''nr_cpu_ids'', 196608 + 3440),
     (''percpu_counter_batch'', 196608 + 3448), (''const_pcpu_hot'', 196608 + 3452),
     (''this_cpu_off'', 196608 + 3456), (''per_cpu_offset'', 196608 + 3568),
     (''pernet_ops_rwsem'', 196608 + 3472), (''panic_notifier_list'', 196608 + 3520),
     (''pv_ops'', 196608 + 3840), (''misc_data'', 196608 + 3584), (''node_data'', 196608 + 6144),
     (''node_states'', 196608 + 6400), (''boot_cpu_data'', 196608 + 6656), (''current_mm'', 196608 + 4608)]"

definition assign_task :: "'w loader_env \<Rightarrow> ptr \<Rightarrow> ptr \<Rightarrow> (kb_status, 'w) lprog" where
  "assign_task e module shim_region =
     bindP (shared_current_task e) (\<lambda>task.
     bindP (set_moduleP module (m_shim_update (\<lambda>f. f(''current_task'' := task)))) (\<lambda>_.
     if task = NULL then returnP KB_ERR_NOMEM else
     bindP (set_moduleP module (m_shim_update (\<lambda>f. f(''current_signal'' := shim_region + (196608 + 13312),
         ''current_sighand'' := shim_region + (196608 + 15360))))) (\<lambda>_. returnP KB_OK)))"

definition place_image :: "'w loader_env \<Rightarrow> ptr \<Rightarrow> ptr \<Rightarrow> ptr \<Rightarrow> u64 \<Rightarrow> (kb_status, 'w) lprog" where
  "place_image e module base shim_region image_size =
     bindP (set_moduleP module (m_image_size_update (\<lambda>_. image_size))) (\<lambda>_.
     bindP (memsetP base 0 (unat image_size)) (\<lambda>_.
     bindP (set_moduleP module (\<lambda>m. m\<lparr>m_shim_region := shim_region, m_shim_symbol_stubs := shim_region,
         m_shim := (\<lambda>n. case map_of shim_members n of Some offset \<Rightarrow> shim_region + offset | None \<Rightarrow> m_shim m n)\<rparr>)) (\<lambda>_.
     assign_task e module shim_region)))"

definition allocate_image :: "'w loader_env \<Rightarrow> ptr \<Rightarrow> u64 \<Rightarrow> (kb_status, 'w) lprog" where
  "allocate_image e module image_size =
     (if image_size = 0 then returnP KB_ERR_INVALID else
      let shim_region_offset = align_up_u64 image_size (page_size e);
          image_size = shim_region_offset + KB_LOCAL_SHIM_REGION_SIZE in
      bindP (alloc_section_memory e image_size) (\<lambda>base.
      bindP (set_moduleP module (m_image_base_update (\<lambda>_. base))) (\<lambda>_.
      if base = NULL then returnP KB_ERR_NOMEM
      else place_image e module base (base + shim_region_offset) image_size)))"

text \<open>A list of stores, executed in order.\<close>

definition pokes :: "(ptr \<times> bytes) list \<Rightarrow> (unit, 'w) lprog" where
  "pokes ws = for_each (\<lambda>(p, bs). pokeP p bs) ws"

text \<open>The first block of stores, before the stubs are written.\<close>

definition region_stores :: "'w loader_env \<Rightarrow> kb_module \<Rightarrow> 'w \<Rightarrow> (ptr \<times> bytes) list" where
  "region_stores e m w =
    [(m_shim m ''cpu_possible_mask'', u64_bytes 1), (m_shim m ''cpu_online_mask'', u64_bytes 1),
     (m_shim m ''cpu_possible_mask_ptr'', u64_bytes (m_shim m ''cpu_possible_mask'')),
     (m_shim m ''cpu_online_mask_ptr'', u64_bytes (m_shim m ''cpu_online_mask'')),
     (m_shim m ''nr_cpu_ids'', u32_bytes 1), (m_shim m ''percpu_counter_batch'', u32_bytes 32),
     (m_shim m ''const_pcpu_hot'', u32_bytes 0), (m_shim m ''this_cpu_off'', u64_bytes 0),
     (m_shim m ''per_cpu_offset'', u64_bytes (m_kernel_gs m)), (m_kernel_gs m, u64_bytes (m_kernel_gs m)),
     (m_shim m ''pv_ops'' + 0x98, u64_bytes (e_address_of e ''kb_return_zero'')),
     (m_shim_region m + KB_LOCAL_USB_DATA_OFFSET, u32_bytes 1),
     (m_shim_region m + KB_LOCAL_PAGE_OFFSET_BASE_OFFSET, u64_bytes (e_page_offset_base e w)),
     (m_shim_region m + KB_LOCAL_VMEMMAP_BASE_OFFSET, u64_bytes (e_vmemmap_base e w)),
     (m_shim_region m + KB_LOCAL_PHYS_BASE_OFFSET, u64_bytes (e_phys_base e w))]"

text \<open>The body of the loop that writes one stub per symbol.\<close>

definition write_symbol_stub :: "'w loader_env \<Rightarrow> ptr \<Rightarrow> nat \<Rightarrow> (kb_status, 'w) lprog" where
  "write_symbol_stub e module i =
     bindP (shim_symbol_at e i) (\<lambda>symbol.
     bindP (moduleP module) (\<lambda>m.
     case symbol of None \<Rightarrow> returnP KB_ERR_INVALID
     | Some s \<Rightarrow>
       let stub = m_shim_symbol_stubs m + of_nat i * KB_LOCAL_SHIM_STUB_SIZE in
       if lsym_address s = e_address_of e ''kb_static_call_preserve_noop'' then
         bindP (write_ret_stub stub) (\<lambda>_. returnP KB_OK)
       else case lsym_name s of None \<Rightarrow> crashP
       | Some name \<Rightarrow>
         bindP (if name = cstr ''stackleak_track_stack'' then write_ret_stub stub
                else if symbol_uses_linux_user_access_abi name then write_abs_jump_raw_stub stub (lsym_address s)
                else write_abs_jump_stub e stub (lsym_address s) (m_kernel_gs m) (m_kernel_gs m)) (\<lambda>_.
         returnP KB_OK)))"

definition pv_ops_stores :: "ptr \<Rightarrow> ptr \<Rightarrow> ptr \<Rightarrow> ptr \<Rightarrow> ptr \<Rightarrow> ptr \<Rightarrow> ptr \<Rightarrow> ptr \<Rightarrow> (ptr \<times> bytes) list" where
  "pv_ops_stores pv return_zero cpuid read_msr read_msr_safe save_flags write_msr write_msr_safe =
     map (\<lambda>i. (pv + of_nat (8 * i), u64_bytes return_zero)) [0..<64] @
     [(pv + 0x94, u64_bytes cpuid), (pv + 0x9c, u64_bytes read_msr), (pv + 0xa4, u64_bytes write_msr),
      (pv + 0xac, u64_bytes read_msr_safe), (pv + 0xb4, u64_bytes write_msr_safe),
      (pv + 0xd4, u64_bytes return_zero), (pv + 0xdc, u64_bytes return_zero), (pv + 0xe4, u64_bytes return_zero),
      (pv + 0xf0, u64_bytes save_flags)]"

definition cpu_stores :: "kb_module \<Rightarrow> ptr \<Rightarrow> (ptr \<times> bytes) list" where
  "cpu_stores m task = (let gs = m_kernel_gs m in
    [(gs + KB_LOCAL_GS_PCPU_HOT_OFFSET, u64_bytes task),
     (gs + KB_LOCAL_GS_STACK_CHK_GUARD_OFFSET, u64_bytes 0x6b6f626f785f7370),
     (gs + KB_LOCAL_GS_PREEMPT_COUNT_OFFSET, u32_bytes 0), (gs + KB_LOCAL_GS_CPU_NUMBER_OFFSET, u32_bytes 0),
     (gs + KB_LOCAL_GS_NUMA_NODE_OFFSET, u32_bytes 0),
     (gs + KB_LOCAL_GS_CPU_INFO_OFFSET, replicate 512 0),
     (m_shim m ''boot_cpu_data'', replicate 512 0),
     (gs + KB_LOCAL_GS_CPU_INFO_OFFSET + 2, [2]), (m_shim m ''boot_cpu_data'' + 2, [2]),
     (gs + KB_LOCAL_GS_CPU_INFO_OFFSET + 0x48, u64_bytes 4),
     (m_shim m ''current_signal'', replicate 2048 0), (m_shim m ''current_sighand'', replicate 4096 0)])"

definition task_stores :: "kb_module \<Rightarrow> (ptr \<times> bytes) list" where
  "task_stores m = (let task = m_shim m ''current_task''; region = m_shim_region m; mm = m_shim m ''current_mm'';
       signal = m_shim m ''current_signal''; sighand = m_shim m ''current_sighand'';
       cred = region + KB_LOCAL_CURRENT_CRED_OFFSET; nsproxy = region + KB_LOCAL_CURRENT_NSPROXY_OFFSET in
    [(task + 0xe8, u64_bytes mm), (task + 0x548, u64_bytes mm),
     (task + 0x758, u64_bytes signal), (task + 0x760, u64_bytes sighand),
     (task + 0x848, u64_bytes signal), (task + 0x850, u64_bytes sighand),
     (signal + 0x190, u32_bytes 0), (signal + 0x198, u64_bytes 0), (signal + 0x190, u64_bytes 0),
     (signal + 0x198, u32_bytes 0), (signal + 0x1a0, u64_bytes 0),
     (cred + 0x08, u32_bytes 0), (cred + 0x0c, u32_bytes 0), (cred + 0x20, u32_bytes 0), (cred + 0x24, u32_bytes 0),
     (cred + 0x90, u64_bytes (region + KB_LOCAL_INIT_USER_NS_OFFSET)),
     (task + 0x6f0, u64_bytes cred), (task + 0x6f8, u64_bytes cred), (task + 0x7d0, u64_bytes cred),
     (task + 0x7d8, u64_bytes cred), (task + 0x7f0, u64_bytes cred),
     (nsproxy + 0x18, u64_bytes (region + KB_LOCAL_CURRENT_MNT_NS_OFFSET)),
     (task + 0x750, u64_bytes nsproxy), (task + 0x840, u64_bytes nsproxy),
     (task + 0x938, u64_bytes mm), (task + 0x950, u64_bytes (task + 0x9b8)), (task + 0x9b8, u32_bytes 1),
     (task + 0x7e8, cstr ''kobox-run'' @ [0]), (task + 0xbd8, cstr ''kobox-run'' @ [0]),
     (m_shim m ''node_data'', u64_bytes (m_shim_node0 m)), (m_shim m ''node_states'' + 0x80, u64_bytes 1),
     (m_shim m ''boot_cpu_data'' + 0x30, u32_bytes 0x10000),
     (m_shim m ''boot_cpu_data'' + 0x2c, u64_bytes (push_bit 52 1))])"

text \<open>The stores after the stubs; the lookups run in the order of the source.\<close>

definition initialize_cpu_and_task :: "'w loader_env \<Rightarrow> ptr \<Rightarrow> (kb_status, 'w) lprog" where
  "initialize_cpu_and_task e module =
     bindP (moduleP module) (\<lambda>m.
     bindP (write_abs_jump_raw_stub (m_shim_region m + KB_LOCAL_USB_CONTROL_MSG_STUB_OFFSET)
       (e_address_of e ''kb_usb_control_msg_entry'')) (\<lambda>_.
     bindP (lookup_module_shim_symbol e module (cstr ''kobox_x86_cpuid'')) (\<lambda>cpuid.
     bindP (lookup_module_shim_symbol e module (cstr ''kobox_x86_read_msr'')) (\<lambda>read_msr.
     bindP (lookup_module_shim_symbol e module (cstr ''kobox_x86_read_msr_safe'')) (\<lambda>read_msr_safe.
     bindP (lookup_module_shim_symbol e module (cstr ''kobox_x86_save_flags_if_enabled'')) (\<lambda>save_flags.
     bindP (lookup_module_shim_symbol e module (cstr ''kobox_x86_write_msr'')) (\<lambda>write_msr.
     bindP (lookup_module_shim_symbol e module (cstr ''kobox_x86_write_msr_safe'')) (\<lambda>write_msr_safe.
     bindP (pokes (pv_ops_stores (m_shim m ''pv_ops'') (e_address_of e ''kb_return_zero'')
       cpuid read_msr read_msr_safe save_flags write_msr write_msr_safe)) (\<lambda>_.
     bindP (kb_loader_current_task e) (\<lambda>task.
     bindP (pokes (cpu_stores m task)) (\<lambda>_.
     bindP (pokes (task_stores m)) (\<lambda>_.
     bindP (if m_shim_node0 m \<noteq> NULL then pokeP (m_shim_node0 m + 0x29e30) (u64_bytes 262144) else returnP ()) (\<lambda>_.
     returnP KB_OK)))))))))))))"

definition initialize_shim_region :: "'w loader_env \<Rightarrow> ptr \<Rightarrow> (kb_status, 'w) lprog" where
  "initialize_shim_region e module =
     bindP (moduleP module) (\<lambda>m.
     bindP (getP world) (\<lambda>w.
     bindP (pokes (region_stores e m w)) (\<lambda>_.
     bindP (shim_symbol_count e) (\<lambda>symbol_count.
     if symbol_count > KB_LOCAL_SHIM_STUB_COUNT then returnP KB_ERR_NOMEM
     else thenP (for_ok (write_symbol_stub e module) [0..<symbol_count])
       (thenP (bind_named_shim_stubs e module) (initialize_cpu_and_task e module))))))"

section \<open>Contents of the sections\<close>

text \<open>The source of a copy: the bytes of the file, where reading past its end crashes.\<close>

definition image_bytesP :: "kb_elf_file \<Rightarrow> u64 \<Rightarrow> u64 \<Rightarrow> (bytes, 'w) lprog" where
  "image_bytesP f offset sz =
     (if unat offset + unat sz \<le> length (elf_data f) then returnP (take (unat sz) (drop (unat offset) (elf_data f)))
      else crashP)"

definition set_section_base :: "ptr \<Rightarrow> nat \<Rightarrow> ptr \<Rightarrow> (kb_status, 'w) lprog" where
  "set_section_base module i base =
     bindP (set_moduleP module (\<lambda>m. m\<lparr>m_sections := (m_sections m)[i := (m_sections m ! i)\<lparr>ls_base := base\<rparr>]\<rparr>))
       (\<lambda>_. returnP KB_OK)"

definition copy_bytes :: "kb_elf_file \<Rightarrow> kb_elf_section \<Rightarrow> ptr \<Rightarrow> (kb_status, 'w) lprog" where
  "copy_bytes f section memory =
     (if sec_type section = KB_ELF_SHT_NOBITS then returnP KB_OK
      else if \<not> range_fits (elf_size f) (sec_offset section) (sec_size section) then returnP KB_ERR_INVALID
      else bindP (image_bytesP f (sec_offset section) (sec_size section)) (\<lambda>bs.
        bindP (pokeP memory bs) (\<lambda>_. returnP KB_OK)))"

definition copy_percpu :: "ptr \<Rightarrow> kb_elf_section \<Rightarrow> (kb_status, 'w) lprog" where
  "copy_percpu module section =
     bindP (moduleP module) (\<lambda>m.
     if m_percpu_offset m = 0 \<or> sec_size section \<noteq> m_percpu_size m \<or>
        sec_size section > KB_LOCAL_GS_SIZE - m_percpu_offset m then returnP KB_ERR_INVALID
     else if sec_type section \<noteq> KB_ELF_SHT_NOBITS \<and> sec_size section \<noteq> 0 then
       bindP (image_bytesP (m_elf m) (sec_offset section) (sec_size section)) (\<lambda>bs.
       bindP (pokeP (m_kernel_gs m + m_percpu_offset m) bs) (\<lambda>_. returnP KB_OK))
     else returnP KB_OK)"

definition copy_section :: "ptr \<Rightarrow> nat \<Rightarrow> (kb_status, 'w) lprog" where
  "copy_section module i =
     bindP (moduleP module) (\<lambda>m.
     withP (outcomeP (kb_elf_section (Some (m_elf m)) (of_nat i) True)) (\<lambda>section.
     if sec_flags section AND KB_ELF_SHF_ALLOC = 0 then returnP KB_OK
     else let memory = m_image_base m + ls_offset (m_sections m ! i) in
     if ls_size (m_sections m ! i) = 0 then set_section_base module i memory
     else
       thenP (copy_bytes (m_elf m) section memory)
       (thenP (if sec_name section = percpu_name then copy_percpu module section else returnP KB_OK)
         (set_section_base module i memory))))"

definition capture_task_template :: "'w loader_env \<Rightarrow> (kb_status, 'w) lprog" where
  "capture_task_template e =
     bindP (shared_current_task e) (\<lambda>default_task.
     bindP (kb_loader_current_task e) (\<lambda>current.
     if current \<noteq> default_task then returnP KB_OK else
     bindP (kb_loader_task_journal_info default_task) (\<lambda>journal.
     if journal \<noteq> 0 then returnP KB_OK else
     bindP (peekP default_task 4096) (\<lambda>bs.
     bindP (modifyP (\<lambda>s. s\<lparr>kb_execution_task_template :=
           take 0x930 bs @ replicate 8 0 @ drop 0x938 bs,
         kb_execution_task_template_valid := True\<rparr>)) (\<lambda>_. returnP KB_OK)))))"

definition load_sections :: "'w loader_env \<Rightarrow> ptr \<Rightarrow> (kb_status, 'w) lprog" where
  "load_sections e module =
     bindP (moduleP module) (\<lambda>m.
     let indices = [0..<length (m_sections m)] in
     withP (layout_sections e module indices 0 None) (\<lambda>image_size.
     thenP (allocate_image e module image_size)
     (thenP (initialize_shim_region e module)
     (thenP (for_ok (copy_section module) indices)
       (capture_task_template e)))))"

end
