(* ===== verification/Module_Relocation.thy ===== *)
theory Module_Relocation
  imports Module_Sections
begin

text \<open>
  Relocation and the code patches of \<^verbatim>\<open>src/loader/module_loader.c\<close>: the place and the operand of
  a relocation, the patches for compiler thunks, the address of the symbol, the x86-64 relocation
  types, static trace calls and the doorbell helper of the xHCI driver.  The signed 64 bit values of
  the source are words with their two's complement reading.
\<close>

section \<open>Place and operand\<close>

definition relocation_target :: "kb_module \<Rightarrow> kb_elf_relocation \<Rightarrow> kb_status + ptr" where
  "relocation_target m relocation =
     (if unat (rel_target_section_index relocation) \<ge> length (m_sections m) then Inl KB_ERR_INVALID
      else let section = m_sections m ! unat (rel_target_section_index relocation) in
        if ls_base section = NULL \<or> rel_offset relocation \<ge> ls_size section then Inl KB_ERR_INVALID
        else Inr (ls_base section + rel_offset relocation))"

definition relocation_operand_fits :: "kb_module \<Rightarrow> kb_elf_relocation \<Rightarrow> u64 \<Rightarrow> bool" where
  "relocation_operand_fits m relocation width \<longleftrightarrow>
     (if unat (rel_target_section_index relocation) \<ge> length (m_sections m) then False
      else let section = m_sections m ! unat (rel_target_section_index relocation) in
        ls_base section \<noteq> NULL \<and> rel_offset relocation \<le> ls_size section \<and>
        width \<le> ls_size section - rel_offset relocation)"

definition value_fits_u32 :: "u64 \<Rightarrow> bool" where
  "value_fits_u32 value \<longleftrightarrow> sint value \<ge> 0 \<and> value \<le> 0xffffffff"

definition value_fits_i32 :: "u64 \<Rightarrow> bool" where
  "value_fits_i32 value \<longleftrightarrow> - (2 ^ 31) \<le> sint value \<and> sint value \<le> 2 ^ 31 - 1"

definition is_pc_relative :: "kb_elf_relocation \<Rightarrow> bool" where
  "is_pc_relative relocation \<longleftrightarrow>
     rel_type relocation = KB_ELF_R_X86_64_PC32 \<or> rel_type relocation = KB_ELF_R_X86_64_PLT32"

definition module_backend_is_pachaos :: "'w loader_env \<Rightarrow> bool" where
  "module_backend_is_pachaos e = (case e_getenv e ''KOBOX_DEVICE_BACKEND'' of
       None \<Rightarrow> False
     | Some backend \<Rightarrow> backend = cstr ''pachaos'' \<or> backend = cstr ''pachaos_capsule'')"

section \<open>Thunks of the compiler\<close>

definition thunk_registers :: "(string \<times> nat) list" where
  "thunk_registers =
    [(''__x86_indirect_thunk_rax'', 0), (''__x86_indirect_thunk_rcx'', 1), (''__x86_indirect_thunk_rdx'', 2),
     (''__x86_indirect_thunk_rbx'', 3), (''__x86_indirect_thunk_rbp'', 5), (''__x86_indirect_thunk_rsi'', 6),
     (''__x86_indirect_thunk_r8'', 8), (''__x86_indirect_thunk_r9'', 9), (''__x86_indirect_thunk_r10'', 10),
     (''__x86_indirect_thunk_r11'', 11), (''__x86_indirect_thunk_r12'', 12), (''__x86_indirect_thunk_r13'', 13),
     (''__x86_indirect_thunk_r14'', 14), (''__x86_indirect_thunk_r15'', 15)]"

text \<open>The five bytes that replace a call (\<open>0xe8\<close>) or a jump (\<open>0xe9\<close>) to the thunk of a register.\<close>

definition thunk_code :: "u8 \<Rightarrow> nat \<Rightarrow> bytes" where
  "thunk_code opcode register =
     (let modrm_base = (if opcode = 0xe8 then 0xd0 else 0xe0 :: u8) in
      if register < 8 then [0xff, modrm_base + of_nat register, 0x90, 0x90, 0x90]
      else [0x41, 0xff, modrm_base + of_nat (register - 8), 0x90, 0x90])"

text \<open>The four special cases at the end of the function.\<close>

definition late_thunks :: "(string \<times> bytes \<times> bytes) list" where
  "late_thunks =
    [(''__x86_indirect_thunk_rax'', [0xff, 0xd0, 0x90, 0x90, 0x90], [0xff, 0xe0, 0x90, 0x90, 0x90]),
     (''__x86_indirect_thunk_rdx'', [0xff, 0xd2, 0x90, 0x90, 0x90], [0xff, 0xe2, 0x90, 0x90, 0x90]),
     (''__x86_indirect_thunk_r8'', [0x41, 0xff, 0xd0, 0x90, 0x90], [0x41, 0xff, 0xe0, 0x90, 0x90]),
     (''__x86_indirect_thunk_r10'', [0x41, 0xff, 0xd2, 0x90, 0x90], [0x41, 0xff, 0xe2, 0x90, 0x90])]"

definition patch_local_x86_64_external ::
  "kb_elf_symbol \<Rightarrow> kb_elf_relocation \<Rightarrow> ptr \<Rightarrow> (bool, 'w) lprog" where
  "patch_local_x86_64_external symbol relocation target =
     (if \<not> is_pc_relative relocation then returnP False
      else if sym_name symbol = cstr ''__x86_return_thunk'' then
        bindP (pokeP (target - 1) [0xc3, 0x90, 0x90, 0x90, 0x90]) (\<lambda>_. returnP True)
      else if sym_name symbol = cstr ''__fentry__'' then
        bindP (pokeP (target - 1) [0x90, 0x90, 0x90, 0x90, 0x90]) (\<lambda>_. returnP True)
      else case by_name thunk_registers (sym_name symbol) of
        None \<Rightarrow> returnP False
      | Some register \<Rightarrow>
          bindP (peekP (target - 1) 1) (\<lambda>bs. let opcode = hd bs in
          if opcode = 0xe8 \<or> opcode = 0xe9 then
            bindP (pokeP (target - 1) (thunk_code opcode register)) (\<lambda>_. returnP True)
          else case by_name late_thunks (sym_name symbol) of
            None \<Rightarrow> returnP False
          | Some (call, jump) \<Rightarrow>
              if opcode = 0xe8 then bindP (pokeP (target - 1) call) (\<lambda>_. returnP True)
              else if opcode = 0xe9 then bindP (pokeP (target - 1) jump) (\<lambda>_. returnP True)
              else returnP False))"

section \<open>The address of the symbol\<close>

definition lookup_internal_symbol_override :: "'w loader_env \<Rightarrow> ptr \<Rightarrow> bytes \<Rightarrow> (ptr, 'w) lprog" where
  "lookup_internal_symbol_override e module name =
     (if name \<in> set (map cstr [''_nv037805rm'', ''nv_kthread_q_stop'', ''os_flush_cpu_cache'',
          ''os_flush_cpu_cache_all'', ''usb_enable_lpm'', ''usb_disable_lpm'', ''usb_unlocked_enable_lpm'',
          ''usb_unlocked_disable_lpm'', ''usb_device_supports_lpm'', ''usb_enable_usb2_hardware_lpm'',
          ''usb_disable_usb2_hardware_lpm'']) then returnP (e_address_of e ''kb_return_zero'')
      else if name = cstr ''usb_control_msg'' then
        bindP (moduleP module) (\<lambda>m. returnP (m_shim_region m + KB_LOCAL_USB_CONTROL_MSG_STUB_OFFSET))
      else if name = cstr ''hub_port_debounce'' \<and> e_getenv e ''KOBOX_DEVICE_BACKEND'' = Some (cstr ''pachaos'') then
        lookup_module_shim_symbol e module (cstr ''hub_port_debounce'')
      else if name \<in> set (map cstr [''kvm_configure_mmu'', ''kvm_mmu_set_me_spte_mask'', ''kvm_mmu_set_mmio_spte_mask''])
      then lookup_module_shim_symbol e module name
      else if name = cstr ''__SCT__kvm_x86_vcpu_precreate'' then
        lookup_module_shim_symbol e module (cstr ''__static_call_return0'')
      else if name = cstr ''__SCT__kvm_x86_vcpu_pre_run'' then
        lookup_module_shim_symbol e module (cstr ''__static_call_return1'')
      else if name = cstr ''__SCT__kvm_x86_vcpu_run'' then
        lookup_module_shim_symbol e module (cstr ''__kobox_kvm_vcpu_run_exit'')
      else if name \<in> set (map cstr [''__SCT__kvm_x86_is_valid_cr0'', ''__SCT__kvm_x86_is_valid_cr4'']) then
        lookup_module_shim_symbol e module (cstr ''__static_call_return1'')
      else if name = cstr ''kvm_lapic_hv_timer_in_use'' then
        lookup_module_shim_symbol e module (cstr ''__static_call_return0'')
      else if name \<in> set (map cstr [''__kvm_vcpu_update_apicv'', ''__ext4_fc_track_create'', ''__ext4_fc_track_link'',
          ''__ext4_fc_track_unlink'', ''ext4_fc_track_create'', ''ext4_fc_track_link'', ''ext4_fc_track_unlink'',
          ''ext4_fc_track_inode'', ''ext4_fc_track_range'']) then
        lookup_module_shim_symbol e module (cstr ''rep_stos_alternative'')
      else returnP NULL)"

definition should_interpose_exported_symbol :: "bytes \<Rightarrow> bool" where
  "should_interpose_exported_symbol name \<longleftrightarrow> name \<in> set (map cstr
     [''usb_deregister'', ''usb_deregister_dev'', ''usb_find_common_endpoints'', ''usb_find_interface'',
      ''usb_hcd_pci_probe'', ''usb_hcd_pci_remove'', ''usb_hcd_pci_shutdown'', ''usb_kill_urb'',
      ''usb_register_driver'', ''usb_submit_urb'', ''usb_unlink_urb'', ''kvm_configure_mmu'',
      ''kvm_mmu_set_me_spte_mask'', ''kvm_mmu_set_mmio_spte_mask''])"

definition relocation_is_direct_call :: "ptr \<Rightarrow> (bool, 'w) lprog" where
  "relocation_is_direct_call target =
     (if target = NULL then returnP False
      else bindP (peekP (target - 1) 1) (\<lambda>bs. returnP (hd bs = 0xe8)))"

text \<open>
  The address of an undefined symbol: an interposed shim symbol, an export of another module (through
  a stub that switches the GS base when it is code), or a shim symbol.
\<close>

definition undefined_symbol_address ::
  "'w loader_env \<Rightarrow> ptr \<Rightarrow> kb_elf_symbol \<Rightarrow> kb_elf_relocation \<Rightarrow> (kb_status + u64, 'w) lprog" where
  "undefined_symbol_address e module symbol relocation =
     (let name = sym_name symbol in
      bindP (if should_interpose_exported_symbol name then lookup_module_shim_symbol e module name
             else returnP NULL) (\<lambda>interposed.
      bindP (getP exported) (\<lambda>tab.
      let export = (if interposed = NULL
            then kb_loader_symbol_registry_lookup_export (e_str e) tab (e_name_at e name) else NULL) in
      bindP (if interposed \<noteq> NULL then returnP interposed
             else if export \<noteq> NULL then returnP export
             else lookup_module_shim_symbol e module name) (\<lambda>address.
      if address = NULL then returnP (Inl KB_ERR_UNSUPPORTED) else
      bindP (if export \<noteq> NULL then kb_module_is_executable_address address else returnP False) (\<lambda>exec.
      bindE (if \<not> exec then returnP (Inr address)
             else bindP (kb_module_kernel_gs_for_address address) (\<lambda>callee_gs.
               if callee_gs = 0 then returnP (Inr address)
               else bindP (allocate_external_call_stub e module address callee_gs) (\<lambda>stub.
                 returnP (if stub = NULL then Inl KB_ERR_NOMEM else Inr stub)))) (\<lambda>address.
      returnP (Inr
        (if name = cstr ''softnet_data'' \<and> is_pc_relative relocation then KB_LOCAL_GS_PCPU_HOT_OFFSET
         else if name = cstr ''this_cpu_off'' \<and> is_pc_relative relocation then 0
         else address))))))))"

definition defined_symbol_address ::
  "'w loader_env \<Rightarrow> ptr \<Rightarrow> kb_elf_symbol \<Rightarrow> (kb_status + u64, 'w) lprog" where
  "defined_symbol_address e module symbol =
     (if sym_section_index symbol = KB_ELF_SHN_ABS then returnP (Inr (sym_value symbol)) else
      bindP (moduleP module) (\<lambda>m.
      bindE (outcomeP (symbol_is_percpu_offset m symbol)) (\<lambda>percpu.
      if percpu then
        returnP (if m_percpu_offset m = 0 \<or> sym_value symbol > m_percpu_size m then Inl KB_ERR_INVALID
                 else Inr (m_percpu_offset m + sym_value symbol))
      else bindE (returnP (loaded_section_address m (sym_section_index symbol) (sym_value symbol))) (\<lambda>address.
        bindP (lookup_internal_symbol_override e module (sym_name symbol)) (\<lambda>override.
        returnP (Inr (if override \<noteq> NULL then override else address)))))))"

text \<open>The replacement of one function of the Nvidia driver, on request of an environment variable.\<close>

definition mock_nvidia_address ::
  "'w loader_env \<Rightarrow> ptr \<Rightarrow> kb_elf_symbol \<Rightarrow> kb_elf_relocation \<Rightarrow> ptr \<Rightarrow> u64 \<Rightarrow> (u64, 'w) lprog" where
  "mock_nvidia_address e module symbol relocation target symbol_address =
     (if sym_section_index symbol \<noteq> KB_ELF_SHN_UNDEF \<and> is_pc_relative relocation \<and> rel_offset relocation > 0 then
        bindP (relocation_is_direct_call target) (\<lambda>direct.
        if direct \<and> sym_name symbol = cstr ''nv_pci_count_devices'' \<and>
           e_getenv e ''KOBOX_MOCK_NVIDIA_PROBE_COUNT'' \<noteq> None
        then bindP (lookup_module_shim_symbol e module (cstr ''kobox_nvidia_mock_nv_pci_count_devices'')) (\<lambda>stub.
          returnP (if stub \<noteq> NULL then stub else symbol_address))
        else returnP symbol_address)
      else returnP symbol_address)"

section \<open>Relocation\<close>

text \<open>The switch over the relocation types; \<open>place\<close> is the address of the operand.\<close>

definition store_relocation :: "ptr \<Rightarrow> kb_elf_relocation \<Rightarrow> ptr \<Rightarrow> u64 \<Rightarrow> (kb_status, 'w) lprog" where
  "store_relocation module relocation place value =
     bindP (moduleP module) (\<lambda>m.
     if rel_type relocation = KB_ELF_R_X86_64_NONE then returnP KB_OK
     else if rel_type relocation = KB_ELF_R_X86_64_64 then
       if \<not> relocation_operand_fits m relocation 8 then returnP KB_ERR_INVALID
       else bindP (write_u64le place value) (\<lambda>_. returnP KB_OK)
     else if is_pc_relative relocation then
       if \<not> relocation_operand_fits m relocation 4 then returnP KB_ERR_INVALID
       else if \<not> value_fits_i32 (value - place) then returnP KB_ERR_UNSUPPORTED
       else bindP (write_u32le place (ucast (value - place))) (\<lambda>_. returnP KB_OK)
     else if rel_type relocation = KB_ELF_R_X86_64_PC64 then
       if \<not> relocation_operand_fits m relocation 8 then returnP KB_ERR_INVALID
       else bindP (write_u64le place (value - place)) (\<lambda>_. returnP KB_OK)
     else if rel_type relocation = KB_ELF_R_X86_64_32 then
       if \<not> relocation_operand_fits m relocation 4 then returnP KB_ERR_INVALID
       else if \<not> value_fits_u32 value then returnP KB_ERR_UNSUPPORTED
       else bindP (write_u32le place (ucast value)) (\<lambda>_. returnP KB_OK)
     else if rel_type relocation = KB_ELF_R_X86_64_32S then
       if \<not> relocation_operand_fits m relocation 4 then returnP KB_ERR_INVALID
       else if \<not> value_fits_i32 value then returnP KB_ERR_UNSUPPORTED
       else bindP (write_u32le place (ucast value)) (\<lambda>_. returnP KB_OK)
     else returnP KB_ERR_UNSUPPORTED)"

definition apply_one_relocation :: "'w loader_env \<Rightarrow> ptr \<Rightarrow> kb_elf_relocation \<Rightarrow> (kb_status, 'w) lprog" where
  "apply_one_relocation e module relocation =
     bindP (moduleP module) (\<lambda>m.
     withP (returnP (relocation_target m relocation)) (\<lambda>target.
     withP (outcomeP (kb_elf_symbol (Some (m_elf m)) (ucast (rel_symbol_table_section_index relocation))
         (ucast (rel_symbol_index relocation)) True)) (\<lambda>symbol.
     bindP (if sym_section_index symbol = KB_ELF_SHN_UNDEF \<and> rel_offset relocation > 0 \<and>
               relocation_operand_fits m relocation 4
            then patch_local_x86_64_external symbol relocation target else returnP False) (\<lambda>patched.
     if patched then returnP KB_OK else
     withP (if sym_section_index symbol = KB_ELF_SHN_UNDEF then undefined_symbol_address e module symbol relocation
            else defined_symbol_address e module symbol) (\<lambda>symbol_address.
     let addend = (if rel_has_addend relocation then rel_addend relocation else 0) in
     bindP (mock_nvidia_address e module symbol relocation target symbol_address) (\<lambda>relocated.
     store_relocation module relocation target (relocated + addend)))))))"

definition apply_relocations :: "'w loader_env \<Rightarrow> ptr \<Rightarrow> (kb_status, 'w) lprog" where
  "apply_relocations e module =
     bindP (moduleP module) (\<lambda>m. let f = Some (m_elf m) in
     for_ok (\<lambda>section_index.
       withP (outcomeP (kb_elf_section f (of_nat section_index) True)) (\<lambda>section.
       if sec_type section \<noteq> KB_ELF_SHT_RELA \<and> sec_type section \<noteq> KB_ELF_SHT_REL then returnP KB_OK
       else if unat (sec_info section) \<ge> length (m_sections m) \<or>
               ls_base (m_sections m ! unat (sec_info section)) = NULL then returnP KB_OK
       else withP (outcomeP (kb_elf_relocation_count f (of_nat section_index) True)) (\<lambda>relocation_count.
         for_ok (\<lambda>relocation_index.
           withP (outcomeP (kb_elf_relocation f (of_nat section_index) (of_nat relocation_index) True))
             (apply_one_relocation e module))
           [0..<unat relocation_count])))
       [0..<unat (kb_elf_section_count f)])"

section \<open>Code patches\<close>

definition symbol_is_static_trace_call :: "'w loader_env \<Rightarrow> kb_elf_symbol \<Rightarrow> bool" where
  "symbol_is_static_trace_call e symbol \<longleftrightarrow>
     symbol_name_pointer_is_valid (e_name_at e (sym_name symbol)) \<and>
     take 15 (sym_name symbol) = cstr ''__SCT__tp_func_''"

text \<open>The body of the inner loop: a return instruction, padded with no-operations.\<close>

definition patch_static_trace_call :: "'w loader_env \<Rightarrow> ptr \<Rightarrow> kb_elf_symbol \<Rightarrow> (kb_status, 'w) lprog" where
  "patch_static_trace_call e module symbol =
     bindP (moduleP module) (\<lambda>m.
     if \<not> symbol_is_static_trace_call e symbol \<or> sym_section_index symbol = KB_ELF_SHN_UNDEF \<or>
        unat (sym_section_index symbol) \<ge> length (m_sections m) then returnP KB_OK
     else withP (outcomeP (kb_elf_section (Some (m_elf m)) (ucast (sym_section_index symbol)) True)) (\<lambda>target_section.
       let loaded = m_sections m ! unat (sym_section_index symbol) in
       if ls_base loaded = NULL \<or> sec_flags target_section AND KB_ELF_SHF_EXECINSTR = 0 \<or>
          sym_value symbol \<ge> ls_size loaded then returnP KB_OK
       else
         let code = ls_base loaded + sym_value symbol;
             remaining = ls_size loaded - sym_value symbol;
             patch_size = (if sym_size symbol \<noteq> 0 \<and> sym_size symbol < remaining then sym_size symbol else remaining);
             patch_size = (if patch_size > 8 then 8 else patch_size) in
         if patch_size = 0 then returnP KB_OK
         else bindP (pokeP code (0xc3 # replicate (unat patch_size - 1) 0x90)) (\<lambda>_. returnP KB_OK)))"

definition patch_module_static_trace_calls :: "'w loader_env \<Rightarrow> ptr \<Rightarrow> (kb_status, 'w) lprog" where
  "patch_module_static_trace_calls e module =
     bindP (moduleP module) (\<lambda>m. let f = Some (m_elf m) in
     for_ok (\<lambda>section_index.
       withP (outcomeP (kb_elf_section f (of_nat section_index) True)) (\<lambda>section.
       if \<not> is_symbol_table section then returnP KB_OK else
       withP (outcomeP (kb_elf_symbol_count f (of_nat section_index) True)) (\<lambda>symbol_count.
       for_ok (\<lambda>symbol_index.
         withP (outcomeP (kb_elf_symbol f (of_nat section_index) (of_nat symbol_index) True))
           (patch_static_trace_call e module))
         [0..<unat symbol_count])))
       [0..<unat (kb_elf_section_count f)])"

definition doorbell_suffix :: bytes where
  "doorbell_suffix = [0x55, 0x48, 0x89, 0xe5, 0x53, 0x48, 0x89, 0xfb, 0x66, 0x90, 0x66, 0x90,
     0x48, 0x8b, 0x53, 0x28, 0x31, 0xc0, 0x89, 0x02, 0x48, 0x8b, 0x43, 0x28, 0x8b, 0x00]"

definition xhci_command_doorbell_helper_matches :: "ptr \<Rightarrow> u64 \<Rightarrow> (bool, 'w) lprog" where
  "xhci_command_doorbell_helper_matches code remaining =
     (if remaining < 31 then returnP False else
      bindP (peekP code 31) (\<lambda>bs.
      returnP ((bs ! 0 = 0xe8 \<or> take 5 bs = [0x90, 0x90, 0x90, 0x90, 0x90]) \<and> drop 5 bs = doorbell_suffix)))"

definition patch_relative_jump :: "ptr \<Rightarrow> ptr \<Rightarrow> (kb_status, 'w) lprog" where
  "patch_relative_jump code target =
     (let rel = target - (code + 5) in
      if \<not> value_fits_i32 rel then returnP KB_ERR_UNSUPPORTED
      else bindP (pokeP code [0xe9]) (\<lambda>_. bindP (write_u32le (code + 1) (ucast rel)) (\<lambda>_. returnP KB_OK)))"

definition patch_module_xhci_command_doorbell :: "'w loader_env \<Rightarrow> ptr \<Rightarrow> (kb_status, 'w) lprog" where
  "patch_module_xhci_command_doorbell e module =
     bindP (moduleP module) (\<lambda>m.
     if (case m_module_name m of None \<Rightarrow> True | Some name \<Rightarrow> \<not> sublist (cstr ''xhci-hcd'') name) \<or>
        \<not> module_backend_is_pachaos e then returnP KB_OK
     else bindP (lookup_module_shim_symbol e module (cstr ''kobox_xhci_ring_cmd_db'')) (\<lambda>stub.
       if stub = NULL then returnP KB_ERR_UNSUPPORTED
       else for_ok (\<lambda>section.
         if ls_base section = NULL \<or> ls_size section = 0 \<or> ls_flags section AND KB_ELF_SHF_EXECINSTR = 0
         then returnP KB_OK
         else for_ok (\<lambda>offset. let code = ls_base section + of_nat offset in
             bindP (xhci_command_doorbell_helper_matches code (ls_size section - of_nat offset)) (\<lambda>found.
             if found then patch_relative_jump code stub else returnP KB_OK))
           [0..<unat (ls_size section) - 30]) (m_sections m)))"

end
