(* ===== verification/Module_Lifecycle.thy ===== *)
theory Module_Lifecycle
  imports Module_Relocation
begin

text \<open>
  The life cycle of a module in \<^verbatim>\<open>src/loader/module_loader.c\<close>: preparation, opening an image,
  the calls of its entry points and closing.
\<close>

definition free_loaded_sections :: "'w loader_env \<Rightarrow> ptr \<Rightarrow> (unit, 'w) lprog" where
  "free_loaded_sections e module =
     (if module = NULL then returnP ()
      else bindP (moduleP module) (\<lambda>m. free_section_memory e (m_image_base m) (m_image_size m)))"

definition destroy_module :: "'w loader_env \<Rightarrow> ptr \<Rightarrow> (unit, 'w) lprog" where
  "destroy_module e module =
     (if module = NULL then returnP () else
      bindP (unregister_loaded_module module) (\<lambda>_.
      bindP (modifyP (exported_update (\<lambda>tab. kb_loader_symbol_registry_remove_owner tab module))) (\<lambda>_.
      bindP (free_loaded_sections e module) (\<lambda>_.
      bindP (moduleP module) (\<lambda>m.
      bindP (freeP e (m_shim_node0 m)) (\<lambda>_.
      bindP (freeP e (m_name_at m)) (\<lambda>_.
      bindP (freeP e (m_sections_at m)) (\<lambda>_.
      bindP (freeP e module) (\<lambda>_.
      modifyP (modules_update (\<lambda>ms. ms(module := None))))))))))))"

definition kb_loader_enter_module_context :: "'w loader_env \<Rightarrow> ptr \<Rightarrow> (kb_status + u64, 'w) lprog" where
  "kb_loader_enter_module_context e module =
     (if module = NULL then returnP (Inl KB_ERR_INVALID) else
      bindP (moduleP module) (\<lambda>m.
      bindP (worldP (\<lambda>w. ((), e_set_backend e (m_backend m) w))) (\<lambda>_.
      bindP (if module_backend_is_pachaos e then bindP (worldP (e_set_gs e 0)) (\<lambda>_. returnP ()) else returnP ()) (\<lambda>_.
      bindP (getP (\<lambda>s. e_get_gs e (world s))) (\<lambda>old.
      case old of
        None \<Rightarrow> bindP (worldP (\<lambda>w. ((), e_set_backend e NULL w))) (\<lambda>_. returnP (Inl KB_ERR_UNSUPPORTED))
      | Some old_gs \<Rightarrow>
          bindP (worldP (e_set_gs e (m_kernel_gs m))) (\<lambda>ok.
          if ok then returnP (Inr old_gs) else
          bindP (getP (\<lambda>s. e_get_gs e (world s))) (\<lambda>current.
          if current = Some (m_kernel_gs m) then returnP (Inr old_gs)
          else bindP (worldP (\<lambda>w. ((), e_set_backend e NULL w))) (\<lambda>_. returnP (Inl KB_ERR_UNSUPPORTED))))))))) "

definition kb_loader_leave_module_context :: "'w loader_env \<Rightarrow> u64 \<Rightarrow> (unit, 'w) lprog" where
  "kb_loader_leave_module_context e old_gs =
     bindP (worldP (e_set_gs e old_gs)) (\<lambda>_. worldP (\<lambda>w. ((), e_set_backend e NULL w)))"

text \<open>The entry points: a missing \<^verbatim>\<open>init_module\<close> or \<^verbatim>\<open>cleanup_module\<close> is not an error.\<close>

definition find_init :: "'w loader_env \<Rightarrow> ptr \<Rightarrow> (kb_status, 'w) lprog" where
  "find_init e module =
     bindP (find_symbol_address e module (cstr ''init_module'')) (\<lambda>r. case r of
         Inl status \<Rightarrow>
           if status = KB_ERR_NOT_FOUND
           then bindP (set_moduleP module (m_init_module_update (\<lambda>_. NULL))) (\<lambda>_. returnP KB_OK)
           else returnP status
       | Inr address \<Rightarrow> bindP (set_moduleP module (m_init_module_update (\<lambda>_. address))) (\<lambda>_. returnP KB_OK))"

definition find_cleanup :: "'w loader_env \<Rightarrow> ptr \<Rightarrow> (kb_status, 'w) lprog" where
  "find_cleanup e module =
     bindP (find_symbol_address e module (cstr ''cleanup_module'')) (\<lambda>r. case r of
         Inr address \<Rightarrow> bindP (set_moduleP module (m_cleanup_module_update (\<lambda>_. address))) (\<lambda>_. returnP KB_OK)
       | Inl status \<Rightarrow> returnP (if status \<noteq> KB_ERR_NOT_FOUND then status else KB_OK))"

definition prepare_module :: "'w loader_env \<Rightarrow> ptr \<Rightarrow> (kb_status, 'w) lprog" where
  "prepare_module e module =
     thenP (load_sections e module)
    (thenP (apply_relocations e module)
    (thenP (patch_module_static_trace_calls e module)
    (thenP (patch_module_xhci_command_doorbell e module)
    (thenP (register_module_exports e module)
    (thenP (find_init e module)
    (thenP (find_cleanup e module)
      (finalize_section_protections e module)))))))"

text \<open>The structure \<^verbatim>\<open>kb_module_image\<close>; \<open>None\<close> is a null data pointer.\<close>

record kb_module_image =
  img_data :: "bytes option"
  img_size :: u64
  img_name :: ptr

text \<open>The characters that are copied: at most 4096 of them.\<close>

definition copied_string :: "'w loader_env \<Rightarrow> ptr \<Rightarrow> bytes" where
  "copied_string e value = take 4096 (if kb_low_or_err_pointer value then cstr ''(unnamed)'' else e_str e value)"

definition kb_copy_string :: "'w loader_env \<Rightarrow> ptr \<Rightarrow> (ptr, 'w) lprog" where
  "kb_copy_string e value =
     bindP (mallocP e (length (copied_string e value) + 1)) (\<lambda>copy.
     if copy = NULL then returnP NULL else
     bindP (pokeP copy (copied_string e value @ [0])) (\<lambda>_. returnP copy))"

text \<open>The size of \<^verbatim>\<open>struct kb_module\<close>.\<close>

abbreviation (input) kb_module_bytes :: nat where "kb_module_bytes \<equiv> 544"

definition zero_module :: kb_module where
  "zero_module = \<lparr>m_backend = NULL,
     m_elf = \<lparr>elf_data = [], elf_size = 0, elf_type = 0, elf_machine = 0, elf_entry = 0, section_header_offset = 0,
       section_header_entry_size = 0, section_count = 0, section_name_index = 0\<rparr>,
     m_image_base = NULL, m_image_size = 0, m_shim_region = NULL, m_shim_symbol_stubs = NULL, m_shim = (\<lambda>_. NULL),
     m_shim_node0 = NULL, m_name_at = NULL, m_module_name = None, m_sections_at = NULL, m_sections = [], m_external_stub_count = 0, m_init_module = NULL,
     m_cleanup_module = NULL, m_kernel_gs = NULL, m_percpu_offset = 0, m_percpu_size = 0\<rparr>"

definition zero_section :: loaded_section where
  "zero_section = \<lparr>ls_base = NULL, ls_size = 0, ls_offset = 0, ls_alignment = 0, ls_flags = 0\<rparr>"

text \<open>
  The part of \<^verbatim>\<open>kb_module_open_image\<close> after the module structure was allocated; the second half
  starts with the file.
\<close>

definition open_elf :: "'w loader_env \<Rightarrow> ptr \<Rightarrow> kb_module_image \<Rightarrow> (kb_status, 'w) lprog" where
  "open_elf e module img =
     withP (outcomeP (kb_elf_open (img_data img) (img_size img) True)) (\<lambda>elf.
     bindP (set_moduleP module (m_elf_update (\<lambda>_. elf))) (\<lambda>_.
     if elf_type elf \<noteq> KB_ELF_ET_REL \<or> elf_machine elf \<noteq> KB_ELF_EM_X86_64 then returnP KB_ERR_UNSUPPORTED else
     let count = unat (kb_elf_section_count (Some elf)) in
     bindP (callocP e (count * 40)) (\<lambda>sections.
     bindP (set_moduleP module (\<lambda>m. m\<lparr>m_sections_at := sections, m_sections := replicate count zero_section\<rparr>)) (\<lambda>_.
     if sections = NULL then returnP KB_ERR_NOMEM else
     bindP (write_u64le (e_address_of e ''kb_shared_kernel_gs'' + 0x28) 0x6b6f626f785f6773) (\<lambda>_.
     prepare_module e module)))))"

definition open_module :: "'w loader_env \<Rightarrow> ptr \<Rightarrow> kb_module_image \<Rightarrow> ptr \<Rightarrow> (kb_status, 'w) lprog" where
  "open_module e module img backend =
     bindP (set_moduleP module (\<lambda>m. m\<lparr>m_kernel_gs := e_address_of e ''kb_shared_kernel_gs'', m_backend := backend\<rparr>)) (\<lambda>_.
     bindP (kb_copy_string e (img_name img)) (\<lambda>name.
     bindP (set_moduleP module (\<lambda>m. m\<lparr>m_name_at := name,
       m_module_name := if name = NULL then None else Some (copied_string e (img_name img))\<rparr>)) (\<lambda>_.
     if name = NULL then returnP KB_ERR_NOMEM else
     bindP (callocP e 0x2a000) (\<lambda>node0.
     bindP (set_moduleP module (m_shim_node0_update (\<lambda>_. node0))) (\<lambda>_.
     if node0 = NULL then returnP KB_ERR_NOMEM else
     open_elf e module img)))))"

definition kb_module_open_image ::
  "'w loader_env \<Rightarrow> kb_module_image option \<Rightarrow> ptr \<Rightarrow> bool \<Rightarrow> (kb_status + ptr, 'w) lprog" where
  "kb_module_open_image e img_opt backend out_module = (case img_opt of
       None \<Rightarrow> returnP (Inl KB_ERR_INVALID)
     | Some img \<Rightarrow>
       if img_data img = None \<or> img_size img = 0 \<or> backend = NULL \<or> \<not> out_module then returnP (Inl KB_ERR_INVALID)
       else bindP (callocP e kb_module_bytes) (\<lambda>module.
         if module = NULL then returnP (Inl KB_ERR_NOMEM) else
         bindP (modifyP (modules_update (\<lambda>ms. ms(module \<mapsto> zero_module)))) (\<lambda>_.
         bindP (open_module e module img backend) (\<lambda>status.
         if status \<noteq> KB_OK then bindP (destroy_module e module) (\<lambda>_. returnP (Inl status))
         else bindP (register_loaded_module module) (\<lambda>_. returnP (Inr module))))))"

definition kb_module_call_init :: "'w loader_env \<Rightarrow> ptr \<Rightarrow> bool \<Rightarrow> (kb_status + int, 'w) lprog" where
  "kb_module_call_init e module out_result =
     (if module = NULL \<or> \<not> out_result then returnP (Inl KB_ERR_INVALID) else
      bindP (moduleP module) (\<lambda>m.
      if m_init_module m = NULL then returnP (Inl KB_ERR_NOT_FOUND) else
      bindE (kb_loader_enter_module_context e module) (\<lambda>old_gs.
      bindP (kb_loader_set_active_module module) (\<lambda>_.
      bindP (worldP (e_call e (m_init_module m))) (\<lambda>result.
      bindP (kb_loader_leave_module_context e old_gs) (\<lambda>_.
      bindP (kb_loader_set_active_module NULL) (\<lambda>_. returnP (Inr result))))))))"

definition kb_module_call_cleanup :: "'w loader_env \<Rightarrow> ptr \<Rightarrow> (kb_status, 'w) lprog" where
  "kb_module_call_cleanup e module =
     (if module = NULL then returnP KB_ERR_INVALID else
      bindP (moduleP module) (\<lambda>m.
      if m_cleanup_module m = NULL then returnP KB_ERR_NOT_FOUND else
      withP (kb_loader_enter_module_context e module) (\<lambda>old_gs.
      bindP (kb_loader_set_active_module module) (\<lambda>_.
      bindP (worldP (e_call e (m_cleanup_module m))) (\<lambda>_.
      bindP (kb_loader_leave_module_context e old_gs) (\<lambda>_.
      bindP (kb_loader_set_active_module NULL) (\<lambda>_. returnP KB_OK)))))))"

definition kb_module_find_symbol :: "'w loader_env \<Rightarrow> ptr \<Rightarrow> bytes option \<Rightarrow> bool \<Rightarrow> (kb_status + ptr, 'w) lprog" where
  "kb_module_find_symbol e module name out_address =
     (if module = NULL \<or> name = None \<or> \<not> out_address then returnP (Inl KB_ERR_INVALID)
      else find_symbol_address e module (the name))"

definition kb_module_close :: "'w loader_env \<Rightarrow> ptr \<Rightarrow> (unit, 'w) lprog" where
  "kb_module_close e module = destroy_module e module"

end
