(* ===== verification/Loader_Invariant.thy ===== *)
theory Loader_Invariant
  imports Module_Lifecycle
begin

text \<open>
  The invariant of the module loader: every pointer that the loader keeps points into mapped
  memory, the mapped regions are disjoint, and every loaded module lies inside its image.  Each
  operation of the loader keeps it and therefore never touches unmapped memory.
\<close>

section \<open>Access to memory\<close>

lemma in_region_mapped: "(b, k) \<in> set rs \<Longrightarrow> in_region p n (b, k) \<Longrightarrow> mapped rs p n"
  by (auto simp: mapped_def list_ex_iff)

text \<open>An access at an offset from the base of a region.\<close>

lemma mapped_offset:
  "(b, k) \<in> set rs \<Longrightarrow> unat (p - b) + n \<le> k \<Longrightarrow> mapped rs p n"
  by (rule in_region_mapped) (simp_all add: in_region_def)

lemma length_u32_bytes [simp]: "length (u32_bytes v) = 4"
  by (simp add: u32_bytes_def)

lemma length_u64_bytes [simp]: "length (u64_bytes v) = 8"
  by (simp add: u64_bytes_def)

lemma length_cstr [simp]: "length (cstr s) = length s"
  by (simp add: cstr_def)

section \<open>Regions\<close>

fun regions_ok :: "region list \<Rightarrow> bool" where
  "regions_ok [] \<longleftrightarrow> True"
| "regions_ok ((p, n) # rs) \<longleftrightarrow> fresh_region rs p n \<and> regions_ok rs"

lemma regions_ok_filter: "regions_ok rs \<Longrightarrow> regions_ok (filter P rs)"
  by (induction rs rule: regions_ok.induct) (auto simp: fresh_region_def list_all_iff)

lemma regions_ok_apart:
  assumes "regions_ok rs" and "(b, k) \<in> set rs" and "(c, l) \<in> set rs" and "b \<noteq> c"
  shows "l \<le> unat (b - c)"
  using assms by (induction rs rule: regions_ok.induct) (auto simp: fresh_region_def list_all_iff)

lemma regions_ok_unique:
  assumes "regions_ok rs" and "(b, k) \<in> set rs" and "(b, l) \<in> set rs"
  shows "k = l"
  using assms by (induction rs rule: regions_ok.induct) (auto simp: fresh_region_def list_all_iff)

lemma fresh_not_base: "fresh_region rs p n \<Longrightarrow> (p, k) \<notin> set rs"
  by (auto simp: fresh_region_def list_all_iff)

section \<open>The table of shim symbols\<close>

definition shim_ok :: "providers \<Rightarrow> shim_symbol_table \<Rightarrow> bool" where
  "shim_ok ps t \<longleftrightarrow> t = shim_symbols_zero \<or> t = shim_symbol_table_init ps shim_symbols_zero"

text \<open>The provider tables have no null name and neither has the table of the KVM provider.\<close>

definition names_ok :: "'w loader_env \<Rightarrow> bool" where
  "names_ok e \<longleftrightarrow> (\<forall>ss. Some ss \<in> set (e_providers e) \<longrightarrow> (\<forall>s\<in>set ss. lsym_name s \<noteq> None)) \<and>
     (\<forall>s\<in>set (e_kvm_symbols e). lsym_name s \<noteq> None)"

lemma shim_init_ready [simp]: "shim_symbol_cache_ready (shim_symbol_table_init ps t)"
  by (simp add: shim_symbol_table_init_def)

lemma shim_ok_init:
  "shim_ok ps t \<Longrightarrow> shim_symbol_table_init ps t = shim_symbol_table_init ps shim_symbols_zero"
  unfolding shim_ok_def by (metis shim_init_ready shim_symbol_table_init_def)

lemma shim_ok_initI [simp]: "shim_ok ps (shim_symbol_table_init ps shim_symbols_zero)"
  by (simp add: shim_ok_def)

lemma shim_cache_length:
  "length (shim_symbol_cache (shim_symbol_table_init ps shim_symbols_zero)) \<le> KB_LOCAL_SHIM_STUB_COUNT"
  by (simp add: shim_init_facts(2))

lemma shim_cache_names:
  assumes "names_ok e" and "s \<in> set (shim_symbol_cache (shim_symbol_table_init (e_providers e) shim_symbols_zero))"
  shows "lsym_name s \<noteq> None"
proof -
  from assms(2) have "s \<in> set (concat (map (case_option [] id) (e_providers e)))"
    unfolding shim_init_facts(2) by (rule in_set_takeD)
  then show ?thesis using assms(1) by (auto simp: names_ok_def split: option.splits)
qed

lemma find_index_bound:
  assumes "shim_ok ps t" and "shim_symbol_find_index ps t (Some name) = (r, t')"
  shows "t' = shim_symbol_table_init ps shim_symbols_zero \<and> (\<forall>i. r = Some i \<longrightarrow> i < KB_LOCAL_SHIM_STUB_COUNT)"
proof -
  let ?t = "shim_symbol_table_init ps shim_symbols_zero"
  from assms have "t' = ?t" "r = first_index name (shim_symbol_cache ?t)"
    by (auto simp: shim_symbol_find_index_def shim_ok_init Let_def
        find_probe_first_index [OF shim_init_facts(1)] simp del: One_nat_def)
  then show ?thesis using first_index_Some [of name "shim_symbol_cache ?t"] shim_cache_length [of ps]
    by fastforce
qed

section \<open>The invariant\<close>

abbreviation (input) kernel_gs :: "'w loader_env \<Rightarrow> ptr" where
  "kernel_gs e \<equiv> e_address_of e ''kb_shared_kernel_gs''"

text \<open>A module inside its image: base and length of the image's region are \<open>base\<close> and \<open>n\<close>.\<close>

definition module_ready :: "'w loader_env \<Rightarrow> kb_elf_file \<Rightarrow> ptr \<Rightarrow> nat \<Rightarrow> kb_module \<Rightarrow> bool" where
  "module_ready e f base n m \<longleftrightarrow> m_elf m = f \<and> elf_wf f \<and> m_image_base m = base \<and> m_kernel_gs m = kernel_gs e \<and>
     (\<forall>sec\<in>set (m_sections m). unat (ls_offset sec) + unat (ls_size sec) \<le> n \<and>
        (ls_base sec = NULL \<or> ls_base sec = base + ls_offset sec)) \<and>
     unat (m_shim_region m - base) + unat KB_LOCAL_SHIM_REGION_SIZE \<le> n \<and>
     m_shim_symbol_stubs m = m_shim_region m"

text \<open>A shared object is either absent or a mapped page.\<close>

definition shared_ok :: "region list \<Rightarrow> ptr \<Rightarrow> bool" where
  "shared_ok rs p \<longleftrightarrow> p = NULL \<or> (\<exists>k\<ge>4096. (p, k) \<in> set rs)"

definition loader_ok :: "'w loader_env \<Rightarrow> 'w loader \<Rightarrow> bool" where
  "loader_ok e s \<longleftrightarrow> regions_ok (regions s) \<and> (kernel_gs e, unat KB_LOCAL_GS_SIZE) \<in> set (regions s) \<and>
     shared_ok (regions s) (shared_object s) \<and> shared_ok (regions s) (shared_task s) \<and>
     shared_ok (regions s) (shared_lock s) \<and>
     (\<forall>p\<in>set (jiffies_storages s). p = NULL \<or> mapped (regions s) p 8) \<and>
     shim_ok (e_providers e) (shim_table s) \<and>
     (\<forall>p\<in>set (kb_loaded_modules s). \<exists>m f base n. modules s p = Some m \<and>
        module_ready e f base n m \<and> (base, n) \<in> set (regions s))"

text \<open>
  While a module is being loaded: its structure has the property \<open>M\<close>, and the regions \<open>R\<close> stay mapped.
\<close>

definition loading ::
  "'w loader_env \<Rightarrow> ptr \<Rightarrow> region set \<Rightarrow> (kb_module \<Rightarrow> bool) \<Rightarrow> 'w loader \<Rightarrow> bool" where
  "loading e module R M s \<longleftrightarrow> loader_ok e s \<and> module \<notin> set (kb_loaded_modules s) \<and> R \<subseteq> set (regions s) \<and>
     (\<exists>m. modules s module = Some m \<and> M m)"

lemma shared_ok_mono: "shared_ok rs p \<Longrightarrow> set rs \<subseteq> set rs' \<Longrightarrow> shared_ok rs' p"
  by (auto simp: shared_ok_def)

lemma mapped_mono: "mapped rs p n \<Longrightarrow> set rs \<subseteq> set rs' \<Longrightarrow> mapped rs' p n"
  by (auto simp: mapped_def list_ex_iff)

lemma loader_ok_fields [simp]:
  "loader_ok e (s\<lparr>mem := x1\<rparr>) = loader_ok e s"
  "loader_ok e (s\<lparr>world := x2\<rparr>) = loader_ok e s"
  "loader_ok e (s\<lparr>page_prot := x3\<rparr>) = loader_ok e s"
  "loader_ok e (s\<lparr>next_module_hint := x4\<rparr>) = loader_ok e s"
  "loader_ok e (s\<lparr>kb_published_current_task := x5\<rparr>) = loader_ok e s"
  "loader_ok e (s\<lparr>kb_execution_task_template := x6\<rparr>) = loader_ok e s"
  "loader_ok e (s\<lparr>kb_execution_task_template_valid := x7\<rparr>) = loader_ok e s"
  "loader_ok e (s\<lparr>kb_shared_kernel_percpu_next := x8\<rparr>) = loader_ok e s"
  "loader_ok e (s\<lparr>kb_active_module := x9\<rparr>) = loader_ok e s"
  "loader_ok e (s\<lparr>exported := x10\<rparr>) = loader_ok e s"
  by (simp_all add: loader_ok_def)

lemma loader_ok_regions:
  assumes "loader_ok e s" and "fresh_region (regions s) p n"
  shows "loader_ok e (s\<lparr>regions := (p, n) # regions s\<rparr>)"
proof -
  have sub: "set (regions s) \<subseteq> set ((p, n) # regions s)" by auto
  show ?thesis
    using assms shared_ok_mono [OF _ sub] mapped_mono [OF _ sub]
    unfolding loader_ok_def by simp blast
qed

lemma loader_ok_modules:
  "loader_ok e s \<Longrightarrow> p \<notin> set (kb_loaded_modules s) \<Longrightarrow> loader_ok e (s\<lparr>modules := (modules s)(p := x)\<rparr>)"
  unfolding loader_ok_def by (simp add: Ball_def)

lemma loading_fields [simp]:
  "loading e q R M (s\<lparr>mem := x1\<rparr>) = loading e q R M s"
  "loading e q R M (s\<lparr>world := x2\<rparr>) = loading e q R M s"
  "loading e q R M (s\<lparr>page_prot := x3\<rparr>) = loading e q R M s"
  "loading e q R M (s\<lparr>next_module_hint := x4\<rparr>) = loading e q R M s"
  "loading e q R M (s\<lparr>kb_published_current_task := x5\<rparr>) = loading e q R M s"
  "loading e q R M (s\<lparr>kb_execution_task_template := x6\<rparr>) = loading e q R M s"
  "loading e q R M (s\<lparr>kb_execution_task_template_valid := x7\<rparr>) = loading e q R M s"
  "loading e q R M (s\<lparr>kb_shared_kernel_percpu_next := x8\<rparr>) = loading e q R M s"
  "loading e q R M (s\<lparr>kb_active_module := x9\<rparr>) = loading e q R M s"
  "loading e q R M (s\<lparr>exported := x10\<rparr>) = loading e q R M s"
  by (simp_all add: loading_def)

section \<open>Basic operations\<close>

text \<open>Programs that only change memory, the system and the loader's scalars keep the invariant.\<close>

lemma keeps_poke:
  assumes "\<And>s. I s \<Longrightarrow> mapped (regions s) p (length bs)" and "\<And>s x. I (s\<lparr>mem := x\<rparr>) = I s"
  shows "keeps I (pokeP p bs)"
  using assms by (auto intro!: keepsI simp: pokeP_def)

lemma keeps_memset:
  assumes "\<And>s. I s \<Longrightarrow> mapped (regions s) p n" and "\<And>s x. I (s\<lparr>mem := x\<rparr>) = I s"
  shows "keeps I (memsetP p v n)"
  using assms by (auto intro!: keepsI simp: memsetP_def)

lemma keeps_peek:
  assumes "\<And>s. I s \<Longrightarrow> mapped (regions s) p n"
  shows "keeps I (peekP p n)" and "yields I (peekP p n) (\<lambda>bs. length bs = n)"
  using assms by (auto intro!: keepsI yieldsI simp: peekP_def)

lemma loading_mapped:
  "loading e q R M s \<Longrightarrow> (b, k) \<in> R \<Longrightarrow> unat (p - b) + n \<le> k \<Longrightarrow> mapped (regions s) p n"
  unfolding loading_def by (rule mapped_offset) auto

lemma loading_gs_mapped:
  "loading e q R M s \<Longrightarrow> unat (p - kernel_gs e) + n \<le> unat KB_LOCAL_GS_SIZE \<Longrightarrow> mapped (regions s) p n"
  unfolding loading_def loader_ok_def by (rule mapped_offset) auto

lemmas keeps_access = keeps_poke [where I = "loading e q R M" for e q R M, OF _ loading_fields(1)]
  keeps_memset [where I = "loading e q R M" for e q R M, OF _ loading_fields(1)]
  keeps_peek(1) [where I = "loading e q R M" for e q R M]

lemma yields_module: "yields (loading e q R M) (moduleP q) M"
  by (rule yieldsI) (auto simp: moduleP_def loading_def)

lemma keeps_set_module:
  assumes "\<And>m. M m \<Longrightarrow> M (g m)"
  shows "keeps (loading e q R M) (set_moduleP q g)"
proof (rule keepsI)
  fix s assume s: "loading e q R M s"
  then obtain m where m: "modules s q = Some m" "M m" by (auto simp: loading_def)
  with s assms have "loading e q R M (s\<lparr>modules := (modules s)(q \<mapsto> g m)\<rparr>)"
    by (auto simp: loading_def intro: loader_ok_modules)
  with m show "\<exists>a s'. set_moduleP q g s = Some (a, s') \<and> loading e q R M s'"
    by (simp add: set_moduleP_def)
qed

lemma keeps_world [keeps]: "keeps (loading e q R M) (worldP f)"
  by (rule keepsI) (auto simp: worldP_def split: prod.splits)

text \<open>Lookups in the table of shim symbols.\<close>

lemma yields_shim:
  assumes "\<And>t. shim_ok (e_providers e) t \<Longrightarrow> shim_ok (e_providers e) (snd (f t)) \<and> Q (fst (f t))"
  shows "yields (loading e q R M) (shimP f) Q"
proof (rule yieldsI)
  fix s assume s: "loading e q R M s"
  then have ok: "shim_ok (e_providers e) (shim_table s)" by (simp add: loading_def loader_ok_def)
  obtain a t where f: "f (shim_table s) = (a, t)" by force
  with assms [OF ok] have "shim_ok (e_providers e) t" "Q a" by auto
  with s f show "\<exists>a s'. shimP f s = Some (a, s') \<and> loading e q R M s' \<and> Q a"
    by (auto simp: shimP_def loading_def loader_ok_def)
qed

lemma yields_shim_symbol_count:
  "yields (loading e q R M) (shim_symbol_count e) (\<lambda>n. n \<le> KB_LOCAL_SHIM_STUB_COUNT + 1)"
  unfolding shim_symbol_count_def
  using shim_cache_length [of "e_providers e"]
  by (intro yields_shim) (simp add: shim_symbol_table_count_def Let_def shim_ok_init)

lemma yields_shim_symbol_at:
  assumes "names_ok e"
  shows "yields (loading e q R M) (shim_symbol_at e i) (\<lambda>s. \<forall>v. s = Some v \<longrightarrow> lsym_name v \<noteq> None)"
  unfolding shim_symbol_at_def
  using shim_cache_names [OF assms]
  by (intro yields_shim) (auto simp: shim_symbol_table_at_def Let_def shim_ok_init)

lemma keeps_lookup_shim_symbol [keeps]: "keeps (loading e q R M) (lookup_shim_symbol e name)"
  unfolding lookup_shim_symbol_def
proof (rule yields_keeps [OF yields_shim [where Q = "\<lambda>_. True"]])
  fix t assume t: "shim_ok (e_providers e) t"
  obtain r t' where f: "shim_symbol_find_index (e_providers e) t (Some name) = (r, t')" by force
  from find_index_bound [OF t f]
  show "shim_ok (e_providers e) (snd (shim_symbol_find_address (e_providers e) t (Some name))) \<and> True"
    using f by (auto simp: shim_symbol_find_address_def shim_symbol_table_at_def Let_def shim_ok_init split: option.splits)
qed

lemma yields_find_index:
  "yields (loading e q R M) (shimP (\<lambda>t. shim_symbol_find_index (e_providers e) t (Some name)))
     (\<lambda>r. \<forall>i. r = Some i \<longrightarrow> i < KB_LOCAL_SHIM_STUB_COUNT)"
proof (rule yields_shim)
  fix t assume t: "shim_ok (e_providers e) t"
  obtain r t' where f: "shim_symbol_find_index (e_providers e) t (Some name) = (r, t')" by force
  from find_index_bound [OF t f] f
  show "shim_ok (e_providers e) (snd (shim_symbol_find_index (e_providers e) t (Some name))) \<and>
      (\<forall>i. fst (shim_symbol_find_index (e_providers e) t (Some name)) = Some i \<longrightarrow> i < KB_LOCAL_SHIM_STUB_COUNT)"
    by simp
qed

section \<open>Allocation\<close>

text \<open>A region that was just mapped can be unmapped without any other change.\<close>

lemma unmap_fresh: "fresh_region rs p n \<Longrightarrow> filter (\<lambda>r. fst r \<noteq> p) ((p, n) # rs) = rs"
  using fresh_not_base by (auto intro!: filter_True)

lemma loading_fresh:
  "loading e q R M s \<Longrightarrow> fresh_region (regions s) p n \<Longrightarrow>
    loading e q (insert (p, n) R) M (s\<lparr>regions := (p, n) # regions s\<rparr>)"
  by (auto simp: loading_def intro: loader_ok_regions)

lemma loading_subset: "loading e q R M s \<Longrightarrow> R' \<subseteq> R \<Longrightarrow> (\<And>m. M m \<Longrightarrow> M' m) \<Longrightarrow> loading e q R' M' s"
  by (auto simp: loading_def)

lemma mmap_loading:
  "triple (loading e q R M) (mmapP e hint sz)
     (\<lambda>p s. case p of None \<Rightarrow> loading e q R M s | Some b \<Rightarrow> loading e q (insert (b, unat sz) R) M s \<and> b \<noteq> NULL)"
proof (rule tripleI)
  fix s assume s: "loading e q R M s"
  obtain r w where e: "e_mmap e hint sz (world s) = (r, w)" by force
  have f: "loading e q (insert (b, unat sz) R) M (s\<lparr>world := w, regions := (b, unat sz) # regions s\<rparr>)"
    if "fresh_region (regions s) b (unat sz)" for b
    using loading_fresh [of e q R M "s\<lparr>world := w\<rparr>" b "unat sz"] s that by simp
  have nn: "b \<noteq> NULL" if "fresh_region (regions s) b (unat sz)" for b
    using that by (simp add: fresh_region_def)
  show "\<exists>p s'. mmapP e hint sz s = Some (p, s') \<and>
      (case p of None \<Rightarrow> loading e q R M s' | Some b \<Rightarrow> loading e q (insert (b, unat sz) R) M s' \<and> b \<noteq> NULL)"
    using s e f nn by (cases r) (auto simp: mmapP_def)
qed

lemma mmap_munmap_loading:
  assumes s: "loading e q R M s" and m: "mmapP e hint sz s = Some (Some p, s')"
  shows "\<exists>s''. munmapP e p sz s' = Some ((), s'') \<and> loading e q R M s''"
proof -
  obtain r w where e: "e_mmap e hint sz (world s) = (r, w)" by force
  with m have r: "r = Some p" "fresh_region (regions s) p (unat sz)"
    and s': "s' = s\<lparr>world := w, regions := (p, unat sz) # regions s\<rparr>"
    by (auto simp: mmapP_def split: option.splits if_splits)
  let ?s = "s'\<lparr>world := e_munmap e p sz w, regions := filter (\<lambda>r. fst r \<noteq> p) (regions s')\<rparr>"
  have "?s = s\<lparr>world := e_munmap e p sz w\<rparr>"
    using unmap_fresh [OF r(2)] unfolding s' by simp
  then have "loading e q R M ?s" using s by simp
  then show ?thesis unfolding munmapP_def s' by simp
qed

lemma alloc_attempts_loading:
  "triple (loading e q R M) (alloc_attempts e sz k)
     (\<lambda>p s. case p of None \<Rightarrow> loading e q R M s | Some b \<Rightarrow> loading e q (insert (b, unat sz) R) M s \<and> b \<noteq> NULL)"
proof (induction k)
  case 0
  show ?case by (simp only: alloc_attempts.simps) (rule triple_return, simp)
next
  case (Suc k)
  show ?case
  proof (rule tripleI)
    fix s assume s: "loading e q R M s"
    define hint where "hint = (if next_module_hint s < min_exec_hint \<or> next_module_hint s \<ge> max_exec_hint
      then min_exec_hint else next_module_hint s)"
    let ?s = "s\<lparr>next_module_hint := hint + 0x02000000\<rparr>"
    have s1: "loading e q R M ?s" using s by simp
    from tripleD [OF mmap_loading s1] obtain p s2 where m: "mmapP e hint sz ?s = Some (p, s2)"
      and p: "case p of None \<Rightarrow> loading e q R M s2 | Some b \<Rightarrow> loading e q (insert (b, unat sz) R) M s2 \<and> b \<noteq> NULL"
      by blast
    have run: "alloc_attempts e sz (Suc k) s = (case p of None \<Rightarrow> alloc_attempts e sz k s2
       | Some b \<Rightarrow> if b \<ge> min_exec_hint \<and> b < max_exec_hint then Some (Some b, s2)
           else bindP (munmapP e b sz) (\<lambda>_. alloc_attempts e sz k) s2)"
      using m by (simp add: hint_def Let_def split: option.splits)
    show "\<exists>a s'. alloc_attempts e sz (Suc k) s = Some (a, s') \<and>
      (case a of None \<Rightarrow> loading e q R M s' | Some b \<Rightarrow> loading e q (insert (b, unat sz) R) M s' \<and> b \<noteq> NULL)"
    proof (cases p)
      case None
      with p tripleD [OF Suc] show ?thesis unfolding run by simp
    next
      case (Some b)
      from mmap_munmap_loading [OF s1 m [unfolded Some]] obtain s3
        where u: "munmapP e b sz s2 = Some ((), s3)" and s3: "loading e q R M s3" by blast
      show ?thesis
        using p u tripleD [OF Suc s3] unfolding run Some by auto
    qed
  qed
qed

definition region_bytes :: "'w loader_env \<Rightarrow> u64 \<Rightarrow> nat" where
  "region_bytes e sz = unat (align_up_u64 sz (page_size e))"

lemma alloc_section_loading:
  "triple (loading e q R M) (alloc_section_memory e sz)
     (\<lambda>p s. if p = NULL then loading e q R M s else loading e q (insert (p, region_bytes e sz) R) M s)"
proof (cases "sz = 0")
  case True
  show ?thesis unfolding alloc_section_memory_def True by (simp add: triple_return)
next
  case False
  show ?thesis
    unfolding alloc_section_memory_def Let_def using False
    by (auto intro!: triple_bind [OF alloc_attempts_loading] triple_bind [OF mmap_loading] triple_return simp: region_bytes_def
        split: option.splits)
qed

text \<open>Rounding up: the result is not below the value, and less than one step above it.\<close>

lemma align_up_bounds:
  assumes "0 < a" and "unat v + unat a \<le> 2 ^ 64"
  shows "unat v \<le> unat (align_up_u64 v a)" and "unat (align_up_u64 v a) < unat v + unat a"
proof -
  define k where "k = a - 1"
  have a: "0 < unat a" using assms(1) by (simp add: word_less_nat_alt)
  then have k: "unat k = unat a - 1"
    unfolding k_def by (subst unat_sub_le) (simp_all add: word_le_nat_alt)
  have sum: "unat (v + k) = unat v + unat k" using assms(2) a k by (intro unat_add_no_wrap) simp
  let ?x = "v + k"
  have "(?x AND NOT k) AND (?x AND k) = 0" "(?x AND NOT k) OR (?x AND k) = ?x"
    by (auto intro!: bit_eqI simp: bit_simps)
  then have split: "(?x AND NOT k) + (?x AND k) = ?x"
    using word_plus_and_or [of "?x AND NOT k" "?x AND k"] by simp
  have "unat (?x AND NOT k) + unat (?x AND k) = unat ?x"
    using unat_plus_simple [of "?x AND NOT k" "?x AND k"] unfolding split by (simp add: word_and_le2)
  moreover have le: "unat (?x AND k) \<le> unat k"
    using word_and_le1 [of ?x k] by (simp only: word_le_nat_alt)
  moreover note sum k a
  ultimately show "unat v \<le> unat (align_up_u64 v a)" "unat (align_up_u64 v a) < unat v + unat a"
    using assms(1) by (auto simp: align_up_u64_def k_def [symmetric])
qed

definition env_ok :: "'w loader_env \<Rightarrow> bool" where
  "env_ok e \<longleftrightarrow> names_ok e \<and> page_size e = 4096"

lemma region_bytes_ge:
  assumes "env_ok e" and "unat sz + 4096 \<le> 2 ^ 64"
  shows "unat sz \<le> region_bytes e sz"
  using align_up_bounds(1) [of 4096 sz] assms by (simp add: env_ok_def region_bytes_def)

section \<open>Shared objects\<close>

lemma loading_shared:
  "loading e q R M s \<Longrightarrow> (p, k) \<in> R \<Longrightarrow> 4096 \<le> k \<Longrightarrow> loading e q R M (s\<lparr>shared_object := p\<rparr>)"
  "loading e q R M s \<Longrightarrow> (p, k) \<in> R \<Longrightarrow> 4096 \<le> k \<Longrightarrow> loading e q R M (s\<lparr>shared_task := p\<rparr>)"
  "loading e q R M s \<Longrightarrow> (p, k) \<in> R \<Longrightarrow> 4096 \<le> k \<Longrightarrow> loading e q R M (s\<lparr>shared_lock := p\<rparr>)"
  "loading e q R M s \<Longrightarrow> loading e q R M (s\<lparr>shared_object := NULL\<rparr>)"
  "loading e q R M s \<Longrightarrow> loading e q R M (s\<lparr>shared_task := NULL\<rparr>)"
  "loading e q R M s \<Longrightarrow> loading e q R M (s\<lparr>shared_lock := NULL\<rparr>)"
  by (auto simp: loading_def loader_ok_def shared_ok_def)

lemma shared_page_loading:
  assumes "env_ok e"
    and get: "\<And>s. loading e q R M s \<Longrightarrow> shared_ok (regions s) (get s)"
    and put: "\<And>R s p k. loading e q R M s \<Longrightarrow> (p, k) \<in> R \<Longrightarrow> 4096 \<le> k \<Longrightarrow> loading e q R M (put p s)"
    and null: "\<And>s. loading e q R M s \<Longrightarrow> loading e q R M (put NULL s)"
    and init: "\<And>R p k. (p, k) \<in> R \<Longrightarrow> 4096 \<le> k \<Longrightarrow> keeps (loading e q R M) (init p)"
  shows "triple (loading e q R M) (shared_page e get put init)
    (\<lambda>p s. if p = NULL then loading e q R M s else \<exists>k\<ge>4096. loading e q (insert (p, k) R) M s)"
proof (rule tripleI)
  fix s assume s: "loading e q R M s"
  show "\<exists>p s'. shared_page e get put init s = Some (p, s') \<and>
      (if p = NULL then loading e q R M s' else \<exists>k\<ge>4096. loading e q (insert (p, k) R) M s')"
  proof (cases "get s = NULL")
    case False
    with get [OF s] obtain k where "4096 \<le> k" "(get s, k) \<in> set (regions s)" by (auto simp: shared_ok_def)
    with s have "\<exists>k\<ge>4096. loading e q (insert (get s, k) R) M s" by (auto simp: loading_def)
    with False show ?thesis by (simp add: shared_page_def)
  next
    case True
    from tripleD [OF alloc_section_loading s] obtain p s1
      where a: "alloc_section_memory e 4096 s = Some (p, s1)"
        and p: "if p = NULL then loading e q R M s1 else loading e q (insert (p, region_bytes e 4096) R) M s1"
      by blast
    show ?thesis
    proof (cases "p = NULL")
      case True
      with \<open>get s = NULL\<close> a p null show ?thesis by (simp add: shared_page_def)
    next
      case False
      define k where "k = region_bytes e 4096"
      have k: "4096 \<le> k" using region_bytes_ge [OF assms(1), of 4096] by (simp add: k_def)
      let ?R = "insert (p, k) R"
      have s2: "loading e q ?R M (put p s1)" using False p k by (auto simp: k_def [symmetric] intro: put)
      have "keeps (loading e q ?R M) (bindP (memsetP p 0 4096) (\<lambda>_. bindP (init p) (\<lambda>_. returnP p)))"
        using k by (intro keeps keeps_access(2) init) (auto intro!: loading_mapped)
      from keepsE [OF this s2] obtain r s3
        where "bindP (memsetP p 0 4096) (\<lambda>_. bindP (init p) (\<lambda>_. returnP p)) (put p s1) = Some (r, s3)"
          and "loading e q ?R M s3" by blast
      moreover from this(1) have "r = p" by (auto simp: bindP_def split: option.splits prod.splits)
      ultimately show ?thesis using False \<open>get s = NULL\<close> a k by (auto simp: shared_page_def)
    qed
  qed
qed

lemma loading_shared_ok:
  assumes "loading e q R M s"
  shows "shared_ok (regions s) (shared_object s)" "shared_ok (regions s) (shared_task s)"
    "shared_ok (regions s) (shared_lock s)"
  using assms by (simp_all add: loading_def loader_ok_def)

text \<open>A program that returns null or the address of a mapped page.\<close>

definition gives_page :: "'w loader_env \<Rightarrow> ptr \<Rightarrow> region set \<Rightarrow> (kb_module \<Rightarrow> bool) \<Rightarrow> (ptr, 'w) lprog \<Rightarrow> bool" where
  "gives_page e q R M m \<longleftrightarrow> triple (loading e q R M) m
    (\<lambda>p s. if p = NULL then loading e q R M s else \<exists>k\<ge>4096. loading e q (insert (p, k) R) M s)"

lemma gives_page_keeps: "gives_page e q R M m \<Longrightarrow> keeps (loading e q R M) m"
  unfolding gives_page_def keeps_def by (erule triple_weaken) (auto split: if_splits intro: loading_subset)

lemma shared_pages:
  assumes "env_ok e"
  shows "gives_page e q R M (kb_module_shared_blockdev_superblock e)"
    "gives_page e q R M (shared_current_task e)"
    "gives_page e q R M (shared_tasklist_lock e)"
  unfolding gives_page_def kb_module_shared_blockdev_superblock_def shared_current_task_def shared_tasklist_lock_def
  by (rule shared_page_loading [OF assms];
      auto intro: loading_shared loading_shared_ok keeps_return intro!: keeps_access(1) loading_mapped)+

lemmas keeps_shared = shared_pages [THEN gives_page_keeps]

lemma keeps_current_task [keeps]:
  assumes "env_ok e"
  shows "keeps (loading e q R M) (kb_loader_current_task e)"
  unfolding kb_loader_current_task_def
  by (intro keeps keeps_modify keeps_shared assms) simp

section \<open>The jiffies cells\<close>

lemma keeps_refresh_jiffies: "keeps (loading e q R M) (refresh_linux_jiffies e)"
proof (rule keepsI)
  fix s assume s: "loading e q R M s"
  define J where "J s' \<longleftrightarrow> loading e q R M s' \<and> (\<forall>p\<in>set (jiffies_storages s). p = NULL \<or> mapped (regions s') p 8)" for s'
  define v where "v = e_elapsed_jiffies e (world s)"
  have J: "J s" using s by (auto simp: J_def loading_def loader_ok_def)
  let ?loop = "for_each (\<lambda>storage. if storage = NULL then returnP () else pokeP storage (u64_bytes v))
      (jiffies_storages s)"
  have "keeps J ?loop"
    by (intro keeps keeps_poke) (auto simp: J_def)
  from keepsE [OF this J] obtain a s' where "?loop s = Some (a, s')" "J s'" by blast
  moreover have "refresh_linux_jiffies e s = ?loop s" unfolding refresh_linux_jiffies_def v_def by simp
  ultimately show "\<exists>a s'. refresh_linux_jiffies e s = Some (a, s') \<and> loading e q R M s'"
    by (auto simp: J_def)
qed

lemma set_store_first_null: "set (store_first_null p xs) \<subseteq> insert p (set xs)"
  by (induction xs) auto

lemma keeps_register_jiffies:
  assumes "(b, k) \<in> R" and "unat (p - b) + 8 \<le> k"
  shows "keeps (loading e q R M) (kb_register_jiffies_storage e p)"
  unfolding kb_register_jiffies_storage_def
proof (intro keeps keeps_refresh_jiffies keeps_modify)
  fix s assume s: "loading e q R M s"
  then have "mapped (regions s) p 8" using assms by (rule loading_mapped)
  then show "loading e q R M (jiffies_storages_update (store_first_null p) s)"
    using s set_store_first_null [of p "jiffies_storages s"] by (auto simp: loading_def loader_ok_def)
qed

section \<open>Lookups\<close>

text \<open>The module under load lies in one of the regions that stay mapped.\<close>

definition placed :: "'w loader_env \<Rightarrow> region set \<Rightarrow> (kb_module \<Rightarrow> bool) \<Rightarrow> bool" where
  "placed e R M \<longleftrightarrow> (\<forall>m. M m \<longrightarrow> (\<exists>f base n. module_ready e f base n m \<and> (base, n) \<in> R))"

lemma unat_add_le_sum: "unat (a + b :: u64) \<le> unat a + unat b"
  by (simp add: unat_word_ariths)

lemma placed_shim:
  assumes "placed e R M" and "M m" and "unat off + k \<le> unat KB_LOCAL_SHIM_REGION_SIZE"
  obtains b n where "(b, n) \<in> R" and "unat (m_shim_region m + off - b) + k \<le> n"
proof -
  from assms obtain f b n where ready: "module_ready e f b n m" and b: "(b, n) \<in> R" by (auto simp: placed_def)
  have "m_shim_region m + off - b = (m_shim_region m - b) + off" by simp
  then have "unat (m_shim_region m + off - b) \<le> unat (m_shim_region m - b) + unat off"
    using unat_add_le_sum by metis
  with ready assms(3) have "unat (m_shim_region m + off - b) + k \<le> n" by (simp add: module_ready_def)
  with b that show ?thesis by blast
qed

lemma loading_shim_mapped:
  assumes "loading e q R M s" and "placed e R M" and "M m" and "unat off + k \<le> unat KB_LOCAL_SHIM_REGION_SIZE"
  shows "mapped (regions s) (m_shim_region m + off) k"
  using assms(1) placed_shim [OF assms(2-4)] loading_mapped by metis

text \<open>The stub of the symbol with index \<open>i\<close>.\<close>

lemma stub_offset: "i < KB_LOCAL_SHIM_STUB_COUNT \<Longrightarrow> unat (of_nat i * KB_LOCAL_SHIM_STUB_SIZE) = i * 48"
  by (subst unat_mult_no_wrap) (simp_all add: unat_of_nat)

lemma loading_stub_mapped:
  assumes "loading e q R M s" and "placed e R M" and "M m" and "i < KB_LOCAL_SHIM_STUB_COUNT" and "k \<le> 48"
  shows "mapped (regions s) (m_shim_symbol_stubs m + of_nat i * KB_LOCAL_SHIM_STUB_SIZE) k"
proof -
  have "m_shim_symbol_stubs m = m_shim_region m" using assms(2,3) by (auto simp: placed_def module_ready_def)
  moreover have "unat (of_nat i * KB_LOCAL_SHIM_STUB_SIZE) + k \<le> unat KB_LOCAL_SHIM_REGION_SIZE"
    using stub_offset [OF assms(4)] assms(4,5) by simp
  ultimately show ?thesis using loading_shim_mapped [OF assms(1-3)] by simp
qed

lemma keeps_moduleP:
  "(\<And>m. M m \<Longrightarrow> keeps (loading e q R M) (k m)) \<Longrightarrow> keeps (loading e q R M) (bindP (moduleP q) k)"
  by (rule keeps_bind_yields [OF yields_module])

lemma keeps_module_shim_stub_by_name [keeps]:
  "keeps (loading e q R M) (module_shim_stub_by_name e q name)"
  unfolding module_shim_stub_by_name_def
  by (intro keeps_moduleP keeps yields_keeps [OF yields_find_index])

lemma keeps_symbol_scan: "\<forall>s\<in>set ss. lsym_name s \<noteq> None \<Longrightarrow> keeps I (symbol_scan name ss)"
  by (induction ss) (auto intro: keeps)

lemma keeps_kvm_stub_scan:
  assumes "names_ok e"
  shows "keeps (loading e q R M) (kvm_stub_scan e name provider stubs is)"
proof (induction "is")
  case Nil
  show ?case unfolding kvm_stub_scan.simps by (rule keeps)
next
  case (Cons i "is")
  show ?case unfolding kvm_stub_scan.simps
    by (rule keeps_bind_yields [OF yields_shim_symbol_at [OF assms]]) (auto intro!: keeps Cons split: option.splits)
qed

lemma keeps_module_kvm_provider_stub [keeps]:
  assumes "env_ok e"
  shows "keeps (loading e q R M) (module_kvm_provider_stub_by_name e q name)"
  unfolding module_kvm_provider_stub_by_name_def lookup_kvm_provider_symbol_def
  using assms
  by (intro keeps_moduleP keeps yields_keeps [OF yields_shim_symbol_count] keeps_kvm_stub_scan keeps_symbol_scan)
    (auto simp: env_ok_def names_ok_def)

lemma keeps_lookup_member_symbol:
  assumes "placed e R M" and "M m"
  shows "keeps (loading e q R M) (lookup_member_symbol e m name)"
proof -
  obtain b n where b: "(b, n) \<in> R" "unat (m_shim_region m + KB_LOCAL_JIFFIES_OFFSET - b) + 8 \<le> n"
    using placed_shim [OF assms, of KB_LOCAL_JIFFIES_OFFSET 8] by auto
  show ?thesis unfolding lookup_member_symbol_def
    by (intro keeps keeps_register_jiffies) (use b in auto)
qed

lemma keeps_lookup_module_shim_symbol:
  assumes "env_ok e" and "placed e R M"
  shows "keeps (loading e q R M) (lookup_module_shim_symbol e q name)"
  unfolding lookup_module_shim_symbol_def
  using assms
  by (intro keeps_moduleP keeps keeps_shared keeps_lookup_member_symbol keeps_access(1))
    (auto intro!: loading_shim_mapped)

end
