(* ===== verification/Loader_Safety.thy ===== *)
theory Loader_Safety
  imports Loader_Invariant
begin

text \<open>
  Relocation, patching and the registration of exports keep the loader's invariant: on a module
  whose sections lie inside its image, they never touch unmapped memory, whatever the file contains.
\<close>

section \<open>Stubs\<close>

lemma mapped_shrink: "mapped rs p n \<Longrightarrow> k \<le> n \<Longrightarrow> mapped rs p k"
  by (fastforce simp: mapped_def list_ex_iff in_region_def)

lemma length_abs_jump_stub [simp]: "length (abs_jump_stub t a b c) = 44"
  by (simp add: abs_jump_stub_def)

lemma keeps_write_u32le: "(\<And>s. loading e q R M s \<Longrightarrow> mapped (regions s) p 4) \<Longrightarrow> keeps (loading e q R M) (write_u32le p v)"
  unfolding write_u32le_def by (intro keeps_access) auto

lemma mapped_second_half:
  assumes "mapped rs p 8"
  shows "mapped rs (p + 4) 4"
proof -
  from assms obtain b k where r: "(b, k) \<in> set rs" "unat (p - b) + 8 \<le> k"
    by (auto simp: mapped_def list_ex_iff in_region_def)
  have sum: "p + 4 - b = (p - b) + 4" by simp
  have "unat (p + 4 - b) \<le> unat (p - b) + unat (4 :: u64)" unfolding sum by (rule unat_add_le_sum)
  with r show ?thesis by (intro mapped_offset [OF r(1)]) simp
qed

lemma keeps_write_u64le:
  assumes "\<And>s. loading e q R M s \<Longrightarrow> mapped (regions s) p 8"
  shows "keeps (loading e q R M) (write_u64le p v)"
  unfolding write_u64le_def
  by (intro keeps keeps_write_u32le) (auto intro: mapped_shrink [OF assms] mapped_second_half [OF assms])

lemma keeps_stubs:
  assumes "\<And>s. loading e q R M s \<Longrightarrow> mapped (regions s) p 48"
  shows "keeps (loading e q R M) (write_abs_jump_stub e p target caller callee)"
    "keeps (loading e q R M) (write_abs_jump_raw_stub p target)"
    "keeps (loading e q R M) (write_ret_stub p)"
  unfolding write_abs_jump_stub_def write_abs_jump_raw_stub_def write_ret_stub_def
  by (intro keeps keeps_access; simp; fastforce intro: mapped_shrink [OF assms])+

lemma keeps_allocate_external_call_stub:
  assumes "placed e R M" and count: "\<And>m. M m \<Longrightarrow> M (m_external_stub_count_update Suc m)"
  shows "keeps (loading e q R M) (allocate_external_call_stub_for_caller e q target caller_gs callee_gs)"
    "keeps (loading e q R M) (allocate_external_call_stub e q target callee_gs)"
proof -
  show k: "keeps (loading e q R M) (allocate_external_call_stub_for_caller e q target caller_gs callee_gs)"
    for caller_gs
    unfolding allocate_external_call_stub_for_caller_def
    by (rule keeps_bind_yields [OF yields_shim_symbol_count])
      (intro keeps_moduleP keeps keeps_set_module count keeps_stubs;
        (assumption | auto intro!: loading_stub_mapped [OF _ assms(1)] simp: not_le simp del: of_nat_add))
  show "keeps (loading e q R M) (allocate_external_call_stub e q target callee_gs)"
    unfolding allocate_external_call_stub_def by (intro keeps_moduleP k)
qed

section \<open>Owners of addresses\<close>

lemma find_module_run:
  "\<forall>p\<in>set ps. modules s p \<noteq> None \<Longrightarrow>
    \<exists>r. find_module P ps s = Some (r, s) \<and> (r = NULL \<or> r \<in> set ps)"
  by (induction ps) (auto simp: moduleP_def bindP_def)

lemma loading_loaded: "loading e q R M s \<Longrightarrow> p \<in> set (kb_loaded_modules s) \<Longrightarrow> modules s p \<noteq> None"
  by (fastforce simp: loading_def loader_ok_def)

lemma find_loaded_run:
  assumes "loading e q R M s"
  shows "\<exists>r. bindP (getP kb_loaded_modules) (find_module P) s = Some (r, s) \<and> (r = NULL \<or> r \<in> set (kb_loaded_modules s))"
  using find_module_run [of "kb_loaded_modules s" s P] loading_loaded [OF assms] by auto

lemma keeps_owner_queries [keeps]:
  "keeps (loading e q R M) (kb_module_is_executable_address address)"
  "keeps (loading e q R M) (kb_module_kernel_gs_for_address address)"
  "keeps (loading e q R M) (module_for_address address)"
proof -
  note run = find_loaded_run
  show "keeps (loading e q R M) (kb_module_is_executable_address address)"
    unfolding kb_module_is_executable_address_def
    by (rule keepsI) (use run [where P = "\<lambda>m. module_contains_executable_address m address"] in fastforce)
  show "keeps (loading e q R M) (module_for_address address)"
    unfolding module_for_address_def
    by (rule keepsI) (use run [where P = "\<lambda>m. module_contains_address m address"] in fastforce)
  show "keeps (loading e q R M) (kb_module_kernel_gs_for_address address)"
  proof (rule keepsI)
    fix s assume s: "loading e q R M s"
    from run [OF this, of "\<lambda>m. module_contains_address m address"] obtain r
      where r: "module_for_address address s = Some (r, s)" "r = NULL \<or> r \<in> set (kb_loaded_modules s)"
      unfolding module_for_address_def by blast
    with loading_loaded [OF s] have "r = NULL \<or> (\<exists>m. modules s r = Some m)" by auto
    with r s show "\<exists>a s'. kb_module_kernel_gs_for_address address s = Some (a, s') \<and> loading e q R M s'"
      by (auto simp: kb_module_kernel_gs_for_address_def moduleP_def bindP_def)
  qed
qed

section \<open>Modules with their sections\<close>

text \<open>The module under load with the section table \<open>secs\<close>.\<close>

definition with_sections ::
  "'w loader_env \<Rightarrow> kb_elf_file \<Rightarrow> ptr \<Rightarrow> nat \<Rightarrow> loaded_section list \<Rightarrow> kb_module \<Rightarrow> bool" where
  "with_sections e f base n secs m \<longleftrightarrow> module_ready e f base n m \<and> m_sections m = secs"

lemma with_sections_placed: "(base, n) \<in> R \<Longrightarrow> placed e R (with_sections e f base n secs)"
  by (auto simp: placed_def with_sections_def)

lemma with_sections_update [simp]:
  "with_sections e f base n secs (m_external_stub_count_update g m) = with_sections e f base n secs m"
  "with_sections e f base n secs (m_init_module_update h m) = with_sections e f base n secs m"
  "with_sections e f base n secs (m_cleanup_module_update h m) = with_sections e f base n secs m"
  "with_sections e f base n secs (m_shim_update k m) = with_sections e f base n secs m"
  by (simp_all add: with_sections_def module_ready_def)

lemma with_sections_elf: "with_sections e f base n secs m \<Longrightarrow> m_elf m = f \<and> elf_wf f \<and> m_sections m = secs"
  by (simp add: with_sections_def module_ready_def)

lemma section_range:
  assumes "with_sections e f base n secs m" and "sec \<in> set secs" and "ls_base sec \<noteq> NULL"
    and "unat off + k \<le> unat (ls_size sec)"
  shows "unat (ls_base sec + off - base) + k \<le> n"
proof -
  from assms have b: "ls_base sec = base + ls_offset sec" "unat (ls_offset sec) + unat (ls_size sec) \<le> n"
    by (auto simp: with_sections_def module_ready_def)
  have "ls_base sec + off - base = ls_offset sec + off" using b(1) by simp
  then have "unat (ls_base sec + off - base) \<le> unat (ls_offset sec) + unat off"
    using unat_add_le_sum by metis
  with b(2) assms(4) show ?thesis by simp
qed

lemma relocation_range:
  assumes "with_sections e f base n secs m" and "relocation_target m rel = Inr place"
    and "relocation_operand_fits m rel w"
  shows "unat (place - base) + unat w \<le> n"
    and "rel_offset rel > 0 \<Longrightarrow> unat (place - 1 - base) + 1 + unat w \<le> n"
proof -
  define sec where "sec = secs ! unat (rel_target_section_index rel)"
  from assms(1) have secs: "m_sections m = secs" by (simp add: with_sections_def)
  from assms(2) have t: "unat (rel_target_section_index rel) < length secs" "ls_base sec \<noteq> NULL"
    "place = ls_base sec + rel_offset rel"
    by (auto simp: relocation_target_def secs sec_def Let_def split: if_splits)
  then have sec: "sec \<in> set secs" by (simp add: sec_def)
  from assms(3) t(1) have "rel_offset rel \<le> ls_size sec" "w \<le> ls_size sec - rel_offset rel"
    by (auto simp: relocation_operand_fits_def secs sec_def Let_def)
  then have fits: "unat (rel_offset rel) + unat w \<le> unat (ls_size sec)"
    by (simp add: word_le_nat_alt unat_sub)
  from section_range [OF assms(1) sec t(2) fits] t(3) show "unat (place - base) + unat w \<le> n" by simp
  assume pos: "rel_offset rel > 0"
  then have "unat (rel_offset rel - 1) = unat (rel_offset rel) - 1" "0 < unat (rel_offset rel)"
    by (simp_all add: word_less_nat_alt unat_sub_le word_le_nat_alt)
  with fits have "unat (rel_offset rel - 1) + (1 + unat w) \<le> unat (ls_size sec)" by simp
  from section_range [OF assms(1) sec t(2) this] t(3) show "unat (place - 1 - base) + 1 + unat w \<le> n"
    by (simp add: algebra_simps)
qed

section \<open>Relocation\<close>

lemma keeps_bindE [keeps]: "keeps I m \<Longrightarrow> (\<And>v. keeps I (k v)) \<Longrightarrow> keeps I (bindE m k)"
  unfolding bindE_def by (intro keeps)

lemma safe_symbol_is_percpu_offset [intro]:
  assumes "elf_wf (m_elf m)"
  shows "safe (symbol_is_percpu_offset m symbol)"
proof -
  have "safe (kb_elf_section (Some (m_elf m)) (ucast (sym_section_index symbol)) True)" using assms by auto
  then show ?thesis by (auto simp: symbol_is_percpu_offset_def split: outcome.splits)
qed

lemma keeps_patch_local:
  assumes "with_sections e f base n secs m" and "(base, n) \<in> R"
    and "relocation_target m rel = Inr place" and "relocation_operand_fits m rel 4" and "rel_offset rel > 0"
  shows "keeps (loading e q R M) (patch_local_x86_64_external symbol rel place)"
proof -
  have "unat (place - 1 - base) + 5 \<le> n" using relocation_range(2) [OF assms(1,3,4,5)] by simp
  then have mapped: "mapped (regions s) (place - 1) k" if "loading e q R M s" "k \<le> 5" for s k
    using loading_mapped [OF that(1) assms(2), of "place - 1" k] that(2) by simp
  have len: "length (thunk_code opcode r) = 5" for opcode r by (simp add: thunk_code_def Let_def)
  have late: "length c = 5 \<and> length j = 5" if "by_name late_thunks name = Some (c, j)" for name c j
    using that by (auto simp: by_name_def late_thunks_def split: if_splits)
  show ?thesis unfolding patch_local_x86_64_external_def
    by (intro keeps keeps_access) (auto intro!: mapped simp: len dest!: late)
qed

lemma keeps_override:
  assumes "env_ok e" and "placed e R M"
  shows "keeps (loading e q R M) (lookup_internal_symbol_override e q name)"
  unfolding lookup_internal_symbol_override_def
  by (intro keeps_moduleP keeps keeps_lookup_module_shim_symbol assms)

lemma keeps_undefined_symbol_address:
  assumes "env_ok e" and "placed e R M" and "\<And>m. M m \<Longrightarrow> M (m_external_stub_count_update Suc m)"
  shows "keeps (loading e q R M) (undefined_symbol_address e q symbol rel)"
  unfolding undefined_symbol_address_def
  by (intro keeps keeps_lookup_module_shim_symbol keeps_allocate_external_call_stub assms)

lemma keeps_defined_symbol_address:
  assumes "env_ok e" and "(base, n) \<in> R"
  shows "keeps (loading e q R (with_sections e f base n secs)) (defined_symbol_address e q symbol)"
  unfolding defined_symbol_address_def
  by (intro keeps_moduleP keeps keeps_override assms with_sections_placed safe_symbol_is_percpu_offset)
    (auto dest: with_sections_elf)

lemma keeps_mock_nvidia_address:
  assumes "env_ok e" and "with_sections e f base n secs m" and "(base, n) \<in> R"
    and "relocation_target m rel = Inr place"
  shows "keeps (loading e q R (with_sections e f base n secs)) (mock_nvidia_address e q symbol rel place address)"
proof -
  have zero: "relocation_operand_fits m rel 0"
    using assms(4) by (auto simp: relocation_target_def relocation_operand_fits_def Let_def split: if_splits)
  have "mapped (regions s) (place - 1) 1"
    if "loading e q R (with_sections e f base n secs) s" "rel_offset rel > 0" for s
    using relocation_range(2) [OF assms(2,4) zero that(2)] by (intro loading_mapped [OF that(1) assms(3)]) simp
  then show ?thesis unfolding mock_nvidia_address_def relocation_is_direct_call_def
    by (intro keeps keeps_access keeps_lookup_module_shim_symbol with_sections_placed assms) auto
qed

lemma keeps_store_relocation:
  assumes "with_sections e f base n secs m" and "(base, n) \<in> R" and "relocation_target m rel = Inr place"
  shows "keeps (loading e q R (with_sections e f base n secs)) (store_relocation q rel place value)"
proof -
  have mapped: "mapped (regions s) place (unat w)"
    if "loading e q R (with_sections e f base n secs) s" "with_sections e f base n secs m'"
      "relocation_operand_fits m' rel w" for s m' w
  proof -
    have eq: "m_sections m' = m_sections m" using that(2) assms(1) by (simp add: with_sections_def)
    have "relocation_operand_fits m rel w" using that(3) unfolding relocation_operand_fits_def eq .
    from relocation_range(1) [OF assms(1,3) this] show ?thesis by (intro loading_mapped [OF that(1) assms(2)])
  qed
  show ?thesis unfolding store_relocation_def
    by (intro keeps_moduleP keeps keeps_write_u32le keeps_write_u64le)
      (use mapped [where w = 4] mapped [where w = 8] in auto)
qed

lemma keeps_apply_one_relocation:
  assumes "env_ok e" and "(base, n) \<in> R"
  shows "keeps (loading e q R (with_sections e f base n secs)) (apply_one_relocation e q rel)"
  unfolding apply_one_relocation_def
proof (intro keeps_moduleP keeps_with_return keeps_with_outcome)
  fix m place symbol
  assume m: "with_sections e f base n secs m" and t: "relocation_target m rel = Inr place"
  show "safe (kb_elf_symbol (Some (m_elf m)) (ucast (rel_symbol_table_section_index rel)) (ucast (rel_symbol_index rel)) True)"
    using with_sections_elf [OF m] by auto
  let ?I = "loading e q R (with_sections e f base n secs)"
  have local: "keeps ?I (patch_local_x86_64_external symbol rel place)"
    if "sym_section_index symbol = KB_ELF_SHN_UNDEF \<and> rel_offset rel > 0 \<and> relocation_operand_fits m rel 4"
    using keeps_patch_local [OF m assms(2) t] that by auto
  show "keeps ?I (bindP (if sym_section_index symbol = KB_ELF_SHN_UNDEF \<and> rel_offset rel > 0 \<and>
        relocation_operand_fits m rel 4 then patch_local_x86_64_external symbol rel place else returnP False) (\<lambda>patched.
     if patched then returnP KB_OK else
     withP (if sym_section_index symbol = KB_ELF_SHN_UNDEF then undefined_symbol_address e q symbol rel
            else defined_symbol_address e q symbol) (\<lambda>symbol_address.
     let addend = (if rel_has_addend rel then rel_addend rel else 0) in
     bindP (mock_nvidia_address e q symbol rel place symbol_address) (\<lambda>relocated.
     store_relocation q rel place (relocated + addend)))))"
    by (intro keeps local keeps_undefined_symbol_address keeps_defined_symbol_address
        keeps_mock_nvidia_address [OF assms(1) m assms(2) t] keeps_store_relocation [OF m assms(2) t]
        with_sections_placed assms) simp_all
qed

lemma keeps_apply_relocations:
  assumes "env_ok e" and "(base, n) \<in> R"
  shows "keeps (loading e q R (with_sections e f base n secs)) (apply_relocations e q)"
  unfolding apply_relocations_def Let_def
  by (intro keeps_moduleP keeps_with_outcome keeps keeps_apply_one_relocation assms) (auto dest!: with_sections_elf)

section \<open>Patches, exports and entry points\<close>

lemma keeps_patch_static_trace_call:
  assumes "(base, n) \<in> R"
  shows "keeps (loading e q R (with_sections e f base n secs)) (patch_static_trace_call e q symbol)"
  unfolding patch_static_trace_call_def Let_def
proof (intro keeps_moduleP keeps_with_outcome keeps keeps_access)
  fix m :: kb_module assume m: "with_sections e f base n secs m"
  show "safe (kb_elf_section (Some (m_elf m)) (ucast (sym_section_index symbol)) True)"
    using with_sections_elf [OF m] by auto
next
  fix m :: kb_module and sc :: kb_elf_section and s
  let ?sec = "m_sections m ! unat (sym_section_index symbol)"
  let ?rem = "ls_size ?sec - sym_value symbol"
  let ?size = "if sym_size symbol \<noteq> 0 \<and> sym_size symbol < ?rem then sym_size symbol else ?rem"
  let ?patch = "if 8 < ?size then 8 else ?size"
  assume m: "with_sections e f base n secs m" and s: "loading e q R (with_sections e f base n secs) s"
    and guard: "\<not> (\<not> symbol_is_static_trace_call e symbol \<or> sym_section_index symbol = KB_ELF_SHN_UNDEF \<or>
        length (m_sections m) \<le> unat (sym_section_index symbol))"
    and ok: "\<not> (ls_base ?sec = NULL \<or> sec_flags sc AND KB_ELF_SHF_EXECINSTR = 0 \<or> ls_size ?sec \<le> sym_value symbol)"
    and nz: "?patch \<noteq> 0"
  define patch where "patch = ?patch"
  have sec: "?sec \<in> set secs" using guard with_sections_elf [OF m] by auto
  have "unat patch \<le> unat ?rem" by (auto simp: patch_def word_less_nat_alt not_less)
  then have "unat (sym_value symbol) + unat patch \<le> unat (ls_size ?sec)"
    using ok by (auto simp: word_le_nat_alt unat_sub_le not_le)
  from section_range [OF m sec _ this] ok have "unat (ls_base ?sec + sym_value symbol - base) + unat patch \<le> n" by simp
  moreover have "0 < unat patch" using nz unfolding patch_def [symmetric] by (simp add: unat_gt_0)
  ultimately show "mapped (regions s) (ls_base ?sec + sym_value symbol)
      (length (0xc3 # replicate (unat ?patch - 1) (0x90 :: u8)))"
    unfolding patch_def [symmetric] by (intro loading_mapped [OF s assms]) simp
qed

lemma keeps_patch_module_static_trace_calls:
  assumes "(base, n) \<in> R"
  shows "keeps (loading e q R (with_sections e f base n secs)) (patch_module_static_trace_calls e q)"
  unfolding patch_module_static_trace_calls_def Let_def
  by (intro keeps_moduleP keeps_with_outcome keeps keeps_patch_static_trace_call assms) (auto dest!: with_sections_elf)

lemma keeps_patch_relative_jump:
  assumes "\<And>s. loading e q R M s \<Longrightarrow> mapped (regions s) code 5"
  shows "keeps (loading e q R M) (patch_relative_jump code target)"
proof -
  have "mapped (regions s) (code + 1) 4" if "loading e q R M s" for s
  proof -
    from assms [OF that] obtain b k where r: "(b, k) \<in> set (regions s)" "unat (code - b) + 5 \<le> k"
      by (auto simp: mapped_def list_ex_iff in_region_def)
    have sum: "code + 1 - b = (code - b) + 1" by simp
    have "unat (code + 1 - b) \<le> unat (code - b) + unat (1 :: u64)" unfolding sum by (rule unat_add_le_sum)
    with r show ?thesis by (intro mapped_offset [OF r(1)]) simp
  qed
  then show ?thesis unfolding patch_relative_jump_def Let_def
    by (intro keeps keeps_access keeps_write_u32le) (auto intro: mapped_shrink [OF assms])
qed

lemma keeps_patch_xhci:
  assumes "env_ok e" and "(base, n) \<in> R"
  shows "keeps (loading e q R (with_sections e f base n secs)) (patch_module_xhci_command_doorbell e q)"
  unfolding patch_module_xhci_command_doorbell_def xhci_command_doorbell_helper_matches_def Let_def
proof (intro keeps_moduleP keeps keeps_lookup_module_shim_symbol with_sections_placed assms
    keeps_patch_relative_jump keeps_access)
  fix m :: kb_module and sec offset s
  assume m: "with_sections e f base n secs m" and sec: "sec \<in> set (m_sections m)"
    and nn: "\<not> (ls_base sec = NULL \<or> ls_size sec = 0 \<or> ls_flags sec AND KB_ELF_SHF_EXECINSTR = 0)"
    and off: "offset \<in> set [0..<unat (ls_size sec) - 30]"
    and s: "loading e q R (with_sections e f base n secs) s"
  have "offset < 2 ^ 64" using off unat_u64_bound [of "ls_size sec"] by simp
  then have "unat (of_nat offset :: u64) + 31 \<le> unat (ls_size sec)" using off by (simp add: unat_of_nat_u64)
  from section_range [OF m _ _ this] sec nn with_sections_elf [OF m]
  have "unat (ls_base sec + of_nat offset - base) + 31 \<le> n" by simp
  then show "mapped (regions s) (ls_base sec + of_nat offset) 31" "mapped (regions s) (ls_base sec + of_nat offset) 5"
    by (auto intro: loading_mapped [OF s assms(2)])
qed

text \<open>Symbol addresses, exports and entry points only read the file and the tables.\<close>

lemma keeps_resolve_symbol:
  assumes "\<And>m. M m \<Longrightarrow> elf_wf (m_elf m)"
  shows "keeps (loading e q R M) (resolve_symbol e q table index)"
  unfolding resolve_symbol_def
  by (intro keeps_moduleP keeps safe_symbol_is_percpu_offset) (auto dest!: assms)

lemma keeps_for_find [keeps]: "(\<And>i. i \<in> set is \<Longrightarrow> keeps I (body i)) \<Longrightarrow> keeps I (for_find body is)"
  by (induction "is") (auto intro!: keeps)

lemma keeps_outcomeR [keeps]: "safe m \<Longrightarrow> (\<And>v. keeps I (k v)) \<Longrightarrow> keeps I (outcomeR m k)"
  unfolding outcomeR_def by (intro keeps)

lemma keeps_find_symbol_address:
  assumes "\<And>m. M m \<Longrightarrow> elf_wf (m_elf m)"
  shows "keeps (loading e q R M) (find_symbol_address e q name)"
  unfolding find_symbol_address_def Let_def
  by (intro keeps_moduleP keeps keeps_resolve_symbol assms) (auto dest!: assms)

lemma keeps_add_export: "keeps (loading e q R M) (add_exportP e name address owner)"
  by (rule keepsI) (auto simp: add_exportP_def split: prod.splits)

lemma keeps_register_module_exports:
  assumes "\<And>m. M m \<Longrightarrow> elf_wf (m_elf m)"
  shows "keeps (loading e q R M) (register_module_exports e q)"
  unfolding register_module_exports_def Let_def
  by (intro keeps_moduleP keeps keeps_resolve_symbol keeps_add_export assms) (auto dest!: assms)

lemma keeps_entry_points:
  "keeps (loading e q R (with_sections e f base n secs)) (find_init e q)"
  "keeps (loading e q R (with_sections e f base n secs)) (find_cleanup e q)"
  unfolding find_init_def find_cleanup_def
  by (intro keeps keeps_find_symbol_address keeps_set_module; simp add: with_sections_def module_ready_def)+

lemma keeps_mprotect: "keeps (loading e q R M) (mprotectP e p sz prot)"
  by (rule keepsI) (auto simp: mprotectP_def split: prod.splits bool.splits)

lemma keeps_protect_runs: "keeps (loading e q R M) (protect_runs e q run secs)"
proof (induction secs arbitrary: run)
  case Nil
  show ?case unfolding protect_runs.simps protect_section_run_def by (intro keeps_moduleP keeps keeps_mprotect)
next
  case (Cons sec secs)
  show ?case unfolding protect_runs.simps protect_section_run_def by (intro keeps_moduleP keeps keeps_mprotect Cons)
qed

lemma keeps_finalize: "keeps (loading e q R M) (finalize_section_protections e q)"
  unfolding finalize_section_protections_def by (intro keeps_moduleP keeps keeps_mprotect keeps_protect_runs)

text \<open>Everything that follows the loading of the sections.\<close>

lemma keeps_after_sections:
  assumes "env_ok e" and "(base, n) \<in> R"
  shows "keeps (loading e q R (with_sections e f base n secs))
    (thenP (apply_relocations e q)
    (thenP (patch_module_static_trace_calls e q)
    (thenP (patch_module_xhci_command_doorbell e q)
    (thenP (register_module_exports e q)
    (thenP (find_init e q)
    (thenP (find_cleanup e q)
      (finalize_section_protections e q)))))))"
  by (intro keeps_then keeps_apply_relocations keeps_patch_module_static_trace_calls keeps_patch_xhci
      keeps_register_module_exports keeps_entry_points keeps_finalize assms) (simp add: with_sections_elf)

end
