(* ===== verification/Loader_Layout.thy ===== *)
theory Loader_Layout
  imports Loader_Safety
begin

text \<open>
  \<^verbatim>\<open>load_sections\<close> keeps the loader's invariant when the sizes and alignments of the sections do
  not add up to more than the address space.  The layout places every section inside the image, so
  the copies from the file stay inside it.
\<close>

section \<open>Layout\<close>

definition is_alloc :: "kb_elf_section \<Rightarrow> bool" where
  "is_alloc sc \<longleftrightarrow> sec_flags sc AND KB_ELF_SHF_ALLOC \<noteq> 0"

text \<open>What a section can add to the image: its size, its alignment and a page.\<close>

definition section_cost :: "kb_elf_file \<Rightarrow> nat \<Rightarrow> nat" where
  "section_cost f i = (case kb_elf_section (Some f) (of_nat i) True of
       Done sc \<Rightarrow> if is_alloc sc then unat (sec_size sc) + unat (sec_alignment sc) + 1 + 4096 else 0
     | _ \<Rightarrow> 0)"

definition sections_bounded :: "kb_elf_file \<Rightarrow> bool" where
  "sections_bounded f \<longleftrightarrow> sum_list (map (section_cost f) [0..<unat (section_count f)]) + 2 ^ 20 \<le> 2 ^ 64"

text \<open>
  The module during the layout: no section has an address yet, all of them end below \<open>limit\<close>, and
  the sections in \<open>D\<close> have the size that the file gives them.
\<close>

definition laid_out ::
  "'w loader_env \<Rightarrow> kb_elf_file \<Rightarrow> ptr \<Rightarrow> u64 \<Rightarrow> nat set \<Rightarrow> kb_module \<Rightarrow> bool" where
  "laid_out e f node0 limit D m \<longleftrightarrow> m_elf m = f \<and> elf_wf f \<and> m_kernel_gs m = kernel_gs e \<and> m_shim_node0 m = node0 \<and>
     length (m_sections m) = unat (section_count f) \<and>
     unat (m_percpu_offset m) + unat (m_percpu_size m) \<le> unat KB_LOCAL_GS_SIZE \<and>
     (\<forall>sec\<in>set (m_sections m). ls_base sec = NULL \<and> unat (ls_offset sec) + unat (ls_size sec) \<le> unat limit) \<and>
     (\<forall>i\<in>D. \<forall>sc. kb_elf_section (Some f) (of_nat i) True = Done sc \<and> is_alloc sc \<longrightarrow>
        ls_size (m_sections m ! i) = sec_size sc)"

lemma laid_out_elf: "laid_out e f node0 limit D m \<Longrightarrow> m_elf m = f \<and> elf_wf f"
  by (simp add: laid_out_def)

lemma keeps_reserve_percpu:
  "keeps (loading e q R (laid_out e f node0 limit D)) (reserve_percpu q alignment sz)"
  unfolding reserve_percpu_def Let_def
proof (intro keeps_moduleP keeps keeps_set_module keeps_modify)
  fix m m' next' offset
  assume "laid_out e f node0 limit D m'"
    and "\<not> (KB_LOCAL_GS_SIZE < align_up_u64 offset (if alignment < 8 then 8 else alignment) \<or>
      KB_LOCAL_GS_SIZE - align_up_u64 offset (if alignment < 8 then 8 else alignment) < sz)"
  then show "laid_out e f node0 limit D
      (m'\<lparr>m_percpu_offset := align_up_u64 offset (if alignment < 8 then 8 else alignment), m_percpu_size := sz\<rparr>)"
    by (auto simp: laid_out_def word_less_nat_alt not_less unat_sub_le word_le_nat_alt)
qed simp

text \<open>One section: where it is placed and what is left of the bound.\<close>

lemma place_section:
  assumes "unat img + (unat sz + unat al + 1 + 4096) + 2 ^ 20 \<le> 2 ^ 64"
    and "img' = (if c then align_up_u64 img 4096 else img)" and "al' = (if al = 0 then 1 else al)"
  shows "unat (align_up_u64 img' al' + sz) = unat (align_up_u64 img' al') + unat sz"
    and "unat img \<le> unat (align_up_u64 img' al')"
    and "unat (align_up_u64 img' al' + sz) \<le> unat img + (unat sz + unat al + 1 + 4096)"
proof -
  have i: "unat img \<le> unat img'" "unat img' \<le> unat img + 4096"
    using align_up_bounds [of 4096 img] assms(1,2) by auto
  have al: "0 < al'" "unat al' \<le> unat al + 1" using assms(3) by (auto simp: word_gt_0)
  have o': "unat img' \<le> unat (align_up_u64 img' al')" "unat (align_up_u64 img' al') < unat img' + unat al'"
    using align_up_bounds [OF al(1), of img'] i al assms(1) by auto
  with i al assms(1) show sum: "unat (align_up_u64 img' al' + sz) = unat (align_up_u64 img' al') + unat sz"
    by (intro unat_add_no_wrap) simp
  show "unat img \<le> unat (align_up_u64 img' al')" using i o' by simp
  show "unat (align_up_u64 img' al' + sz) \<le> unat img + (unat sz + unat al + 1 + 4096)"
    using sum i o' al by simp
qed

lemma laid_out_step:
  assumes "laid_out e f node0 img D m" and "kb_elf_section (Some f) (of_nat i) True = Done sc"
    and "i < unat (section_count f)"
    and "unat img \<le> unat off" and "unat (off + sec_size sc) = unat off + unat (sec_size sc)"
  shows "laid_out e f node0 (off + sec_size sc) (insert i D) (m\<lparr>m_sections := (m_sections m)[i := (m_sections m ! i)\<lparr>
      ls_offset := off, ls_size := sec_size sc, ls_alignment := al, ls_flags := sec_flags sc\<rparr>]\<rparr>)"
    (is "laid_out _ _ _ _ _ (m\<lparr>m_sections := _[i := ?sec]\<rparr>)")
proof -
  have i: "i < length (m_sections m)" using assms(1,3) by (simp add: laid_out_def)
  have base: "ls_base ?sec = NULL" using assms(1) i by (simp add: laid_out_def)
  have "unat (ls_offset sec) + unat (ls_size sec) \<le> unat (off + sec_size sc)" if "sec \<in> set (m_sections m)" for sec
    using that assms by (fastforce simp: laid_out_def)
  with assms base i show ?thesis
    by (auto simp: laid_out_def nth_list_update dest!: set_update_subset_insert [THEN subsetD])
qed

lemma loading_set_module:
  assumes "loading e q R M s" and "\<And>m. M m \<Longrightarrow> M' (g m)"
  shows "\<exists>s'. set_moduleP q g s = Some ((), s') \<and> loading e q R M' s'"
proof -
  from assms(1) obtain m where m: "modules s q = Some m" "M m" by (auto simp: loading_def)
  with assms have "loading e q R M' (s\<lparr>modules := (modules s)(q \<mapsto> g m)\<rparr>)"
    by (auto simp: loading_def intro: loader_ok_modules)
  with m show ?thesis by (simp add: set_moduleP_def)
qed

lemma triple_set_module:
  "(\<And>m. M m \<Longrightarrow> M' (g m)) \<Longrightarrow> triple (loading e q R M) (set_moduleP q g) (\<lambda>_. loading e q R M')"
  by (rule tripleI) (use loading_set_module in blast)

lemma loading_any: "loading e q R M s \<Longrightarrow> loading e q R (\<lambda>_. True) s"
  by (auto simp: loading_def)

text \<open>The result of the layout when it fails, and when it succeeds.\<close>

definition layout_result ::
  "'w loader_env \<Rightarrow> ptr \<Rightarrow> region set \<Rightarrow> kb_elf_file \<Rightarrow> ptr \<Rightarrow> nat \<Rightarrow> nat set \<Rightarrow> kb_status + u64 \<Rightarrow> 'w loader \<Rightarrow> bool" where
  "layout_result e q R f node0 bound D r s \<longleftrightarrow> (case r of
       Inl _ \<Rightarrow> loading e q R (\<lambda>_. True) s
     | Inr img \<Rightarrow> loading e q R (laid_out e f node0 img D) s \<and> unat img \<le> bound)"

lemma triple_bindE:
  assumes "triple P m (\<lambda>r s. case r of Inl e \<Rightarrow> Q (Inl e) s | Inr v \<Rightarrow> S v s)" and "\<And>v. triple (S v) (k v) Q"
  shows "triple P (bindE m k) Q"
  unfolding bindE_def
proof (rule triple_bind [OF assms(1)])
  fix r show "triple (\<lambda>s. case r of Inl e \<Rightarrow> Q (Inl e) s | Inr v \<Rightarrow> S v s)
      (case r of Inl e \<Rightarrow> returnP (Inl e) | Inr v \<Rightarrow> k v) Q"
    using assms(2) by (cases r) (auto simp: triple_def)
qed

lemma triple_bindE_outcome:
  assumes "safe m" and "\<And>err. m = Fail err \<Longrightarrow> triple P (returnP (Inl err)) Q"
    and "\<And>v. m = Done v \<Longrightarrow> triple P (k v) Q"
  shows "triple P (bindE (outcomeP m) k) Q"
  using assms by (cases m) (auto simp: bindE_def outcomeP_def triple_def)

lemma layout_section_loading:
  assumes "env_ok e" and "kb_elf_section (Some f) (of_nat i) True = Done sc" and "i < unat (section_count f)"
    and "unat img + (unat (sec_size sc) + unat (sec_alignment sc) + 1 + 4096) + 2 ^ 20 \<le> 2 ^ 64"
  shows "triple (loading e q R (laid_out e f node0 img D)) (layout_section e q i sc img prev)
    (\<lambda>r s. case r of Inl _ \<Rightarrow> loading e q R (\<lambda>_. True) s
      | Inr (img', _) \<Rightarrow> loading e q R (laid_out e f node0 img' (insert i D)) s \<and>
          unat img' \<le> unat img + (unat (sec_size sc) + unat (sec_alignment sc) + 1 + 4096))"
proof -
  let ?I = "loading e q R (laid_out e f node0 img D)"
  define prot where "prot = section_protection (sec_flags sc)"
  define img' where "img' = (if prev \<noteq> None \<and> prev \<noteq> Some prot then align_up_u64 img 4096 else img)"
  define al where "al = (if sec_alignment sc = 0 then 1 else sec_alignment sc)"
  define off where "off = align_up_u64 img' al"
  note place = place_section [OF assms(4) img'_def al_def, folded off_def]
  have page: "page_size e = 4096" using assms(1) by (simp add: env_ok_def)
  have percpu: "keeps ?I (if sec_name sc = percpu_name then reserve_percpu q al (sec_size sc) else returnP KB_OK)"
    by (intro keeps keeps_reserve_percpu)
  have set: "triple ?I (set_moduleP q (\<lambda>m. m\<lparr>m_sections := (m_sections m)[i := (m_sections m ! i)\<lparr>
      ls_offset := off, ls_size := sec_size sc, ls_alignment := al, ls_flags := sec_flags sc\<rparr>]\<rparr>))
      (\<lambda>_. loading e q R (laid_out e f node0 (off + sec_size sc) (insert i D)))"
    by (rule triple_set_module) (rule laid_out_step [OF _ assms(2,3) place(2,1)])
  show ?thesis
    unfolding layout_section_def Let_def page prot_def [symmetric] img'_def [symmetric] al_def [symmetric] off_def [symmetric]
    using place(3)
    by (intro triple_bind_keeps [OF percpu] triple_if triple_return triple_bind [OF set])
      (auto intro: loading_any)
qed

lemma layout_sections_loading:
  assumes "env_ok e" and "elf_wf f" and "\<forall>i\<in>set is. i < unat (section_count f)"
    and "unat img + sum_list (map (section_cost f) is) + 2 ^ 20 \<le> 2 ^ 64"
  shows "triple (loading e q R (laid_out e f node0 img D)) (layout_sections e q is img prev)
    (layout_result e q R f node0 (unat img + sum_list (map (section_cost f) is)) (D \<union> set is))"
  using assms(3,4)
proof (induction "is" arbitrary: img prev D)
  case Nil
  show ?case by (simp only: layout_sections.simps) (rule triple_return, simp add: layout_result_def)
next
  case (Cons i "is")
  let ?I = "loading e q R (laid_out e f node0 img D)"
  let ?post = "layout_result e q R f node0 (unat img + sum_list (map (section_cost f) (i # is))) (D \<union> set (i # is))"
  have "triple ?I (bindE (outcomeP (kb_elf_section (Some f) (of_nat i) True)) (\<lambda>sc.
     if sec_flags sc AND KB_ELF_SHF_ALLOC = 0 then layout_sections e q is img prev
     else bindE (layout_section e q i sc img prev) (\<lambda>(img, prev). layout_sections e q is img prev))) ?post"
  proof (rule triple_bindE_outcome)
    show "safe (kb_elf_section (Some f) (of_nat i) True)" using assms(2) by auto
    show "triple ?I (returnP (Inl err)) ?post" for err
      by (rule triple_return) (auto simp: layout_result_def intro: loading_any)
    fix sc assume sc: "kb_elf_section (Some f) (of_nat i) True = Done sc"
    show "triple ?I (if sec_flags sc AND KB_ELF_SHF_ALLOC = 0 then layout_sections e q is img prev
      else bindE (layout_section e q i sc img prev) (\<lambda>(img, prev). layout_sections e q is img prev)) ?post"
    proof (rule triple_if)
      assume na: "sec_flags sc AND KB_ELF_SHF_ALLOC = 0"
      have cost: "section_cost f i = 0" using na sc by (simp add: section_cost_def is_alloc_def)
      have "triple (loading e q R (laid_out e f node0 img (insert i D))) (layout_sections e q is img prev) ?post"
        using Cons.IH [of img "insert i D" prev] Cons.prems cost by simp
      then show "triple ?I (layout_sections e q is img prev) ?post"
        by (rule triple_weaken) (use na sc in \<open>auto simp: laid_out_def is_alloc_def elim!: loading_subset\<close>)
    next
      assume "sec_flags sc AND KB_ELF_SHF_ALLOC \<noteq> 0"
      then have cost: "section_cost f i = unat (sec_size sc) + unat (sec_alignment sc) + 1 + 4096"
        using sc by (simp add: section_cost_def is_alloc_def)
      have bound: "unat img + (unat (sec_size sc) + unat (sec_alignment sc) + 1 + 4096) + 2 ^ 20 \<le> 2 ^ 64"
        using Cons.prems(2) cost by simp
      have i: "i < unat (section_count f)" using Cons.prems(1) by simp
      let ?S = "\<lambda>v s. case v of (img', _) \<Rightarrow> loading e q R (laid_out e f node0 img' (insert i D)) s \<and>
          unat img' \<le> unat img + section_cost f i"
      show "triple ?I (bindE (layout_section e q i sc img prev) (\<lambda>(img, prev). layout_sections e q is img prev)) ?post"
      proof (rule triple_bindE [where S = ?S])
        show "triple ?I (layout_section e q i sc img prev)
            (\<lambda>r s. case r of Inl err \<Rightarrow> ?post (Inl err) s | Inr v \<Rightarrow> ?S v s)"
          by (rule triple_weaken [OF layout_section_loading [OF assms(1) sc i bound]])
            (auto simp: layout_result_def cost split: sum.splits)
      next
        fix v :: "u64 \<times> protection option"
        obtain img' prev' where v: "v = (img', prev')" by force
        show "triple (?S v) (case v of (img, prev) \<Rightarrow> layout_sections e q is img prev) ?post"
        proof (cases "unat img' \<le> unat img + section_cost f i")
          case True
          then have "unat img' + sum_list (map (section_cost f) is) + 2 ^ 20 \<le> 2 ^ 64" using Cons.prems(2) by simp
          from Cons.IH [OF _ this, of "insert i D" prev'] Cons.prems(1) show ?thesis
            unfolding v using True
            by (auto elim!: triple_weaken simp: layout_result_def split: sum.splits)
        qed (simp add: v triple_def)
      qed
    qed
  qed
  then show ?case unfolding layout_sections.simps
    by (intro triple_bind_yields [OF yields_module]) (auto dest: laid_out_elf)
qed

section \<open>The image\<close>

text \<open>The members behind the 19 named stubs keep their place in the shim region.\<close>

definition shim_placed :: "kb_module \<Rightarrow> bool" where
  "shim_placed m \<longleftrightarrow> (\<forall>(x, off) \<in> set (drop 19 shim_members). m_shim m x = m_shim_region m + off)"

definition sizes_ok :: "kb_elf_file \<Rightarrow> kb_module \<Rightarrow> bool" where
  "sizes_ok f m \<longleftrightarrow> length (m_sections m) = unat (section_count f) \<and>
     unat (m_percpu_offset m) + unat (m_percpu_size m) \<le> unat KB_LOCAL_GS_SIZE \<and>
     (\<forall>i<unat (section_count f). \<forall>sc. kb_elf_section (Some f) (of_nat i) True = Done sc \<and> is_alloc sc \<longrightarrow>
        ls_size (m_sections m ! i) = sec_size sc)"

definition imaged :: "'w loader_env \<Rightarrow> kb_elf_file \<Rightarrow> ptr \<Rightarrow> ptr \<Rightarrow> nat \<Rightarrow> kb_module \<Rightarrow> bool" where
  "imaged e f node0 base n m \<longleftrightarrow> module_ready e f base n m \<and> m_shim_node0 m = node0 \<and> sizes_ok f m \<and> shim_placed m"

definition tasked :: "'w loader_env \<Rightarrow> kb_elf_file \<Rightarrow> ptr \<Rightarrow> ptr \<Rightarrow> nat \<Rightarrow> ptr \<Rightarrow> kb_module \<Rightarrow> bool" where
  "tasked e f node0 base n task m \<longleftrightarrow> imaged e f node0 base n m \<and> m_shim m ''current_task'' = task \<and>
     m_shim m ''current_signal'' = m_shim_region m + (196608 + 13312) \<and>
     m_shim m ''current_sighand'' = m_shim_region m + (196608 + 15360)"

lemma shim_member_lookup:
  "(x, off) \<in> set (drop 19 shim_members) \<Longrightarrow> map_of shim_members x = Some off"
  by (simp add: shim_members_def) (elim disjE; clarsimp)

lemma imaged_allocated:
  assumes "laid_out e f node0 img D m" and "D = {0..<unat (section_count f)}" and "m_image_base m = base"
    and "unat img \<le> unat off" and "unat off + 229376 \<le> n"
  shows "imaged e f node0 base n (m\<lparr>m_shim_region := base + off, m_shim_symbol_stubs := base + off,
    m_shim := \<lambda>x. case map_of shim_members x of Some o' \<Rightarrow> base + off + o' | None \<Rightarrow> m_shim m x\<rparr>)"
proof -
  have "module_ready e f base n (m\<lparr>m_shim_region := base + off, m_shim_symbol_stubs := base + off,
      m_shim := g\<rparr>)" for g
    using assms by (fastforce simp: module_ready_def laid_out_def)
  then show ?thesis
    using assms shim_member_lookup by (auto simp: imaged_def sizes_ok_def laid_out_def shim_placed_def)
qed

lemma imaged_members [simp]:
  "imaged e f node0 base n (m_shim_update (\<lambda>g. g(''current_task'' := p)) m) = imaged e f node0 base n m"
  "imaged e f node0 base n (m_shim_update (\<lambda>g. g(''current_signal'' := p, ''current_sighand'' := p')) m) =
    imaged e f node0 base n m"
  by (simp_all add: imaged_def module_ready_def sizes_ok_def shim_placed_def shim_members_def)

lemma loading_insert: "loading e q (insert r R) M s \<Longrightarrow> loading e q R M s"
  by (auto simp: loading_def)

text \<open>The result of the allocation, when it fails and when it succeeds.\<close>

definition allocate_result ::
  "'w loader_env \<Rightarrow> ptr \<Rightarrow> region set \<Rightarrow> kb_elf_file \<Rightarrow> ptr \<Rightarrow> kb_status \<Rightarrow> 'w loader \<Rightarrow> bool" where
  "allocate_result e q R f node0 status s \<longleftrightarrow>
     (if status = KB_OK then \<exists>base n task k. 4096 \<le> k \<and> task \<noteq> NULL \<and>
        loading e q (insert (task, k) (insert (base, n) R)) (tasked e f node0 base n task) s
      else loading e q R (\<lambda>_. True) s)"

lemma assign_task_loading:
  assumes "env_ok e"
  shows "triple (loading e q (insert (base, n) R) (\<lambda>m. imaged e f node0 base n m \<and> m_shim_region m = region))
    (assign_task e q region) (allocate_result e q R f node0)"
  unfolding assign_task_def
proof (rule triple_bind [OF shared_pages(2) [OF assms, unfolded gives_page_def]])
  fix task
  let ?R = "insert (base, n) R"
  let ?M = "\<lambda>m. imaged e f node0 base n m \<and> m_shim_region m = region"
  let ?M1 = "\<lambda>m. ?M m \<and> m_shim m ''current_task'' = task"
  let ?set = "set_moduleP q (m_shim_update (\<lambda>g. g(''current_task'' := task)))"
  let ?set' = "set_moduleP q (m_shim_update (\<lambda>g. g(''current_signal'' := region + (196608 + 13312),
      ''current_sighand'' := region + (196608 + 15360))))"
  have first: "triple (loading e q S ?M) ?set (\<lambda>_. loading e q S ?M1)" for S
    by (rule triple_set_module) simp
  have second: "triple (loading e q S ?M1) ?set' (\<lambda>_. loading e q S (tasked e f node0 base n task))" for S
    by (rule triple_set_module) (simp add: tasked_def)
  let ?k = "\<lambda>_. if task = NULL then returnP KB_ERR_NOMEM else bindP ?set' (\<lambda>_. returnP KB_OK)"
  have none: "triple (loading e q ?R ?M) (bindP ?set ?k) (allocate_result e q R f node0)" if "task = NULL"
    by (rule triple_bind [OF first], rule triple_if; use that in \<open>auto intro!: triple_return
        simp: allocate_result_def elim: loading_any [OF loading_insert]\<close>)
  have some: "triple (loading e q (insert (task, k) ?R) ?M) (bindP ?set ?k) (allocate_result e q R f node0)"
    if "task \<noteq> NULL" "4096 \<le> k" for k
    by (rule triple_bind [OF first], rule triple_if, use that in simp, rule triple_bind [OF second], rule triple_return)
      (use that in \<open>auto simp: allocate_result_def\<close>)
  show "triple (\<lambda>s. if task = NULL then loading e q ?R ?M s else \<exists>k\<ge>4096. loading e q (insert (task, k) ?R) ?M s)
     (bindP ?set ?k) (allocate_result e q R f node0)"
    using none some unfolding triple_def by (cases "task = NULL") auto
qed

text \<open>The image with its region, laid out up to \<open>img\<close>; the shim region follows at \<open>off\<close>.\<close>

lemma place_image_loading:
  assumes "env_ok e" and "unat img \<le> unat off" and "unat isz = unat off + 229376" and "unat isz \<le> n"
    and "D = {0..<unat (section_count f)}"
  shows "triple (loading e q (insert (base, n) R) (\<lambda>m. laid_out e f node0 img D m \<and> m_image_base m = base))
    (place_image e q base (base + off) isz) (allocate_result e q R f node0)"
  unfolding place_image_def
proof (intro triple_bind)
  let ?S = "insert (base, n) R"
  let ?M = "\<lambda>m. laid_out e f node0 img D m \<and> m_image_base m = base"
  show "triple (loading e q ?S ?M) (set_moduleP q (m_image_size_update (\<lambda>_. isz))) (\<lambda>_. loading e q ?S ?M)"
    by (rule triple_set_module) (simp add: laid_out_def)
  show "triple (loading e q ?S ?M) (memsetP base 0 (unat isz)) (\<lambda>_. loading e q ?S ?M)"
    unfolding keeps_def [symmetric] by (rule keeps_access(2)) (auto intro!: loading_mapped simp: assms(4))
  show "triple (loading e q ?S ?M) (set_moduleP q (\<lambda>m. m\<lparr>m_shim_region := base + off,
      m_shim_symbol_stubs := base + off,
      m_shim := (\<lambda>x. case map_of shim_members x of Some o' \<Rightarrow> base + off + o' | None \<Rightarrow> m_shim m x)\<rparr>))
      (\<lambda>_. loading e q ?S (\<lambda>m. imaged e f node0 base n m \<and> m_shim_region m = base + off))"
    by (rule triple_set_module) (use assms in \<open>auto intro!: imaged_allocated\<close>)
qed (rule assign_task_loading [OF assms(1)])

lemma allocate_image_loading:
  assumes "env_ok e" and "unat img + 2 ^ 20 \<le> 2 ^ 64" and "D = {0..<unat (section_count f)}"
  shows "triple (loading e q R (laid_out e f node0 img D)) (allocate_image e q img) (allocate_result e q R f node0)"
proof (cases "img = 0")
  case True
  then show ?thesis unfolding allocate_image_def
    by (auto intro!: triple_return simp: allocate_result_def elim: loading_any)
next
  case False
  define off where "off = align_up_u64 img 4096"
  define isz where "isz = off + KB_LOCAL_SHIM_REGION_SIZE"
  define n where "n = region_bytes e isz"
  have page: "page_size e = 4096" using assms(1) by (simp add: env_ok_def)
  have off: "unat img \<le> unat off" "unat off < unat img + 4096"
    using align_up_bounds [of 4096 img] assms(2) by (simp_all add: off_def)
  then have isz: "unat isz = unat off + 229376"
    unfolding isz_def using assms(2) by (subst unat_add_no_wrap) simp_all
  have n: "unat isz \<le> n" unfolding n_def using isz off assms(2) by (intro region_bytes_ge [OF assms(1)]) simp
  let ?M = "laid_out e f node0 img D"
  let ?set = "\<lambda>base. set_moduleP q (m_image_base_update (\<lambda>_. base))"
  have base: "triple (loading e q S ?M) (?set base) (\<lambda>_. loading e q S (\<lambda>m. ?M m \<and> m_image_base m = base))" for S base
    by (rule triple_set_module) (simp add: laid_out_def)
  have some: "triple (loading e q (insert (base, n) R) ?M)
      (bindP (?set base) (\<lambda>_. place_image e q base (base + off) isz)) (allocate_result e q R f node0)" for base
    by (intro triple_bind [OF base] place_image_loading assms(1,3) off isz n)
  have none: "triple (loading e q R ?M) (bindP (?set NULL) (\<lambda>_. returnP KB_ERR_NOMEM)) (allocate_result e q R f node0)"
    by (intro triple_bind [OF base] triple_return) (auto simp: allocate_result_def elim: loading_any)
  show ?thesis
    unfolding allocate_image_def Let_def page off_def [symmetric] isz_def [symmetric] using False
    by (simp only: if_False) (rule triple_bind [OF alloc_section_loading], unfold n_def [symmetric],
        use some none in \<open>auto split: if_splits\<close>)
qed

section \<open>The shim region\<close>

lemma keeps_pokes:
  assumes "\<And>s p bs. loading e q R M s \<Longrightarrow> (p, bs) \<in> set ws \<Longrightarrow> mapped (regions s) p (length bs)"
  shows "keeps (loading e q R M) (pokes ws)"
  unfolding pokes_def using assms by (intro keeps_for_each) (auto intro!: keeps_access(1))

lemma tasked_facts:
  assumes "tasked e f node0 base n task m"
  shows "module_ready e f base n m" "m_shim_node0 m = node0" "sizes_ok f m" "m_kernel_gs m = kernel_gs e"
    "m_shim m ''current_task'' = task"
  using assms by (simp_all add: tasked_def imaged_def module_ready_def)

text \<open>The places of the members, as offsets in the shim region.\<close>

lemma tasked_shim:
  assumes "tasked e f node0 base n task m"
  shows "m_shim m ''cpu_possible_mask'' = m_shim_region m + 200000" "m_shim m ''cpu_online_mask'' = m_shim_region m + 200016"
    "m_shim m ''cpu_possible_mask_ptr'' = m_shim_region m + 200032" "m_shim m ''cpu_online_mask_ptr'' = m_shim_region m + 200040"
    "m_shim m ''nr_cpu_ids'' = m_shim_region m + 200048" "m_shim m ''percpu_counter_batch'' = m_shim_region m + 200056"
    "m_shim m ''const_pcpu_hot'' = m_shim_region m + 200060" "m_shim m ''this_cpu_off'' = m_shim_region m + 200064"
    "m_shim m ''per_cpu_offset'' = m_shim_region m + 200176" "m_shim m ''pv_ops'' = m_shim_region m + 200448"
    "m_shim m ''node_data'' = m_shim_region m + 202752" "m_shim m ''node_states'' = m_shim_region m + 203008"
    "m_shim m ''boot_cpu_data'' = m_shim_region m + 203264" "m_shim m ''current_mm'' = m_shim_region m + 201216"
    "m_shim m ''current_signal'' = m_shim_region m + 209920" "m_shim m ''current_sighand'' = m_shim_region m + 211968"
  using assms by (simp_all add: tasked_def imaged_def shim_placed_def shim_members_def)

lemma named_stub_members:
  "(member, name) \<in> set named_stubs \<Longrightarrow>
    tasked e f node0 base n task (m_shim_update (\<lambda>g. g(member := p)) m) = tasked e f node0 base n task m"
  unfolding named_stubs_def
  by (simp only: list.set insert_iff empty_iff prod.inject simp_thms)
    (elim disjE conjE; simp add: tasked_def imaged_def module_ready_def sizes_ok_def shim_placed_def shim_members_def)

lemma keeps_bind_named_shim_stubs:
  "keeps (loading e q R (tasked e f node0 base n task)) (bind_named_shim_stubs e q)"
  unfolding bind_named_shim_stubs_def
  by (intro keeps_moduleP keeps keeps_set_module) (auto simp: named_stub_members)

text \<open>The regions of the image, the shared task and the node data.\<close>

definition image_regions :: "region set \<Rightarrow> ptr \<Rightarrow> ptr \<Rightarrow> nat \<Rightarrow> ptr \<Rightarrow> bool" where
  "image_regions R node0 base n task \<longleftrightarrow> (base, n) \<in> R \<and> (\<exists>k\<ge>4096. (task, k) \<in> R) \<and> (node0, 0x2a000) \<in> R"

lemma tasked_placed: "image_regions R node0 base n task \<Longrightarrow> placed e R (tasked e f node0 base n task)"
  using tasked_facts(1) by (fastforce simp: placed_def image_regions_def)

lemma tasked_mapped:
  assumes "image_regions R node0 base n task" and "loading e q R (tasked e f node0 base n task) s"
  shows "tasked e f node0 base n task m \<Longrightarrow> unat off + l \<le> 229376 \<Longrightarrow> mapped (regions s) (m_shim_region m + off) l"
    "unat off + l \<le> 1048576 \<Longrightarrow> mapped (regions s) (kernel_gs e + off) l"
    "l \<le> 1048576 \<Longrightarrow> mapped (regions s) (kernel_gs e) l"
    "unat off + l \<le> 4096 \<Longrightarrow> mapped (regions s) (task + off) l"
    "unat off + l \<le> 0x2a000 \<Longrightarrow> mapped (regions s) (node0 + off) l"
proof -
  obtain k where k: "(task, k) \<in> R" "4096 \<le> k" "(node0, 0x2a000) \<in> R" using assms(1) by (auto simp: image_regions_def)
  show "tasked e f node0 base n task m \<Longrightarrow> unat off + l \<le> 229376 \<Longrightarrow> mapped (regions s) (m_shim_region m + off) l"
    using loading_shim_mapped [OF assms(2) tasked_placed [OF assms(1)]] by simp
  show "unat off + l \<le> 1048576 \<Longrightarrow> mapped (regions s) (kernel_gs e + off) l"
    "l \<le> 1048576 \<Longrightarrow> mapped (regions s) (kernel_gs e) l"
    using loading_gs_mapped [OF assms(2)] by simp_all
  show "unat off + l \<le> 4096 \<Longrightarrow> mapped (regions s) (task + off) l"
    using loading_mapped [OF assms(2) k(1)] k(2) by simp
  show "unat off + l \<le> 0x2a000 \<Longrightarrow> mapped (regions s) (node0 + off) l"
    using loading_mapped [OF assms(2) k(3)] by simp
qed

lemma keeps_store_lists:
  assumes r: "image_regions R node0 base n task" and m: "tasked e f node0 base n task m"
  shows "keeps (loading e q R (tasked e f node0 base n task)) (pokes (region_stores e m w))"
    "keeps (loading e q R (tasked e f node0 base n task)) (pokes (pv_ops_stores (m_shim m ''pv_ops'') z a b c d g h))"
    "keeps (loading e q R (tasked e f node0 base n task)) (pokes (cpu_stores m t))"
    "keeps (loading e q R (tasked e f node0 base n task)) (pokes (task_stores m))"
proof -
  note mapped = tasked_mapped [OF r]
  note facts = tasked_shim [OF m] tasked_facts [OF m] Let_def add.assoc
  show "keeps (loading e q R (tasked e f node0 base n task)) (pokes (region_stores e m w))"
    by (rule keeps_pokes) (auto simp: region_stores_def facts intro!: mapped m)
  show "keeps (loading e q R (tasked e f node0 base n task)) (pokes (cpu_stores m t))"
    by (rule keeps_pokes) (auto simp: cpu_stores_def facts intro!: mapped m)
  show "keeps (loading e q R (tasked e f node0 base n task)) (pokes (task_stores m))"
    by (rule keeps_pokes) (auto simp: task_stores_def facts intro!: mapped m)
  have "unat (200448 + of_nat (8 * i) :: u64) + 8 \<le> 229376" if "i < 64" for i
    using that unat_add_le_sum [of 200448 "of_nat (8 * i)"] by (simp add: unat_of_nat del: of_nat_mult)
  then show "keeps (loading e q R (tasked e f node0 base n task)) (pokes (pv_ops_stores (m_shim m ''pv_ops'') z a b c d g h))"
    by (intro keeps_pokes) (auto simp: pv_ops_stores_def facts intro!: mapped m simp del: of_nat_mult)
qed

lemma keeps_write_symbol_stub:
  assumes "env_ok e" and r: "image_regions R node0 base n task" and "i < KB_LOCAL_SHIM_STUB_COUNT"
  shows "keeps (loading e q R (tasked e f node0 base n task)) (write_symbol_stub e q i)"
proof -
  have names: "names_ok e" using assms(1) by (simp add: env_ok_def)
  note stub = loading_stub_mapped [OF _ tasked_placed [OF r] _ assms(3)]
  show ?thesis unfolding write_symbol_stub_def Let_def
    by (rule keeps_bind_yields [OF yields_shim_symbol_at [OF names]])
      (intro keeps_moduleP keeps keeps_stubs; auto intro: stub)
qed

lemma keeps_initialize:
  assumes "env_ok e" and r: "image_regions R node0 base n task"
  shows "keeps (loading e q R (tasked e f node0 base n task)) (initialize_cpu_and_task e q)"
    "keeps (loading e q R (tasked e f node0 base n task)) (initialize_shim_region e q)"
proof -
  let ?I = "loading e q R (tasked e f node0 base n task)"
  note mapped = tasked_mapped [OF r]
  show cpu: "keeps ?I (initialize_cpu_and_task e q)"
    unfolding initialize_cpu_and_task_def
    by (intro keeps_moduleP keeps keeps_stubs keeps_lookup_module_shim_symbol tasked_placed keeps_store_lists
        keeps_access assms) (auto intro!: mapped simp: tasked_facts(2))
  show "keeps ?I (initialize_shim_region e q)"
    unfolding initialize_shim_region_def
    by (intro keeps_moduleP keeps_bind [OF keeps_get] keeps_bind [OF keeps_store_lists(1) [OF r]]
        keeps_bind_yields [OF yields_shim_symbol_count] keeps cpu keeps_bind_named_shim_stubs
        keeps_write_symbol_stub assms) auto
qed

section \<open>Contents of the sections\<close>

text \<open>During the copies the offsets of the sections stay fixed.\<close>

definition copying :: "'w loader_env \<Rightarrow> kb_elf_file \<Rightarrow> ptr \<Rightarrow> ptr \<Rightarrow> nat \<Rightarrow> ptr \<Rightarrow> u64 list \<Rightarrow> kb_module \<Rightarrow> bool" where
  "copying e f node0 base n task offs m \<longleftrightarrow> tasked e f node0 base n task m \<and> map ls_offset (m_sections m) = offs"

lemma copying_tasked: "copying e f node0 base n task offs m \<Longrightarrow> tasked e f node0 base n task m"
  by (simp add: copying_def)

lemma copying_loading: "loading e q R (copying e f node0 base n task offs) s \<Longrightarrow> loading e q R (tasked e f node0 base n task) s"
  by (auto elim!: loading_subset dest: copying_tasked)

lemma keeps_set_section_base:
  assumes "i < unat (section_count f)" and "p = base + offs ! i"
  shows "keeps (loading e q R (copying e f node0 base n task offs)) (set_section_base q i p)"
  unfolding set_section_base_def
proof (intro keeps keeps_set_module)
  fix m assume c: "copying e f node0 base n task offs m"
  note m = copying_tasked [OF c]
  have i: "i < length (m_sections m)" using tasked_facts(3) [OF m] assms(1) by (simp add: sizes_ok_def)
  have p: "p = base + ls_offset (m_sections m ! i)" using c assms(2) i by (auto simp: copying_def)
  let ?m = "m\<lparr>m_sections := (m_sections m)[i := (m_sections m ! i)\<lparr>ls_base := p\<rparr>]\<rparr>"
  have "module_ready e f base n ?m"
    using m i p by (auto simp: tasked_def imaged_def module_ready_def dest!: set_update_subset_insert [THEN subsetD])
  with m i have "tasked e f node0 base n task ?m"
    by (auto simp: tasked_def imaged_def sizes_ok_def shim_placed_def nth_list_update)
  moreover have "map ls_offset (m_sections ?m) = offs"
    using c i by (simp add: copying_def map_update list_update_same_conv) (metis length_map list_update_id nth_map)
  ultimately show "copying e f node0 base n task offs ?m" by (simp add: copying_def)
qed

lemma yields_image_bytes:
  assumes "unat offset + unat sz \<le> length (elf_data f)"
  shows "yields I (image_bytesP f offset sz) (\<lambda>bs. length bs = unat sz)"
  unfolding image_bytesP_def using assms by (auto intro!: yields_return)

lemma range_fits_data: "elf_wf f \<Longrightarrow> range_fits (elf_size f) offset sz \<Longrightarrow> unat offset + unat sz \<le> length (elf_data f)"
  using elf_wf_view [of f] by (auto simp: range_fits_iff elf_view_def)

lemma yields_copy_bytes:
  assumes "elf_wf f" and "\<And>s. I s \<Longrightarrow> mapped (regions s) p (unat (sec_size sc))" and "\<And>s x. I (s\<lparr>mem := x\<rparr>) = I s"
  shows "yields I (copy_bytes f sc p) (\<lambda>status. status = KB_OK \<longrightarrow> sec_type sc \<noteq> KB_ELF_SHT_NOBITS \<longrightarrow>
    range_fits (elf_size f) (sec_offset sc) (sec_size sc))"
  unfolding copy_bytes_def
  by (intro yields_if yields_bind_yields [OF yields_image_bytes] yields_bind [OF keeps_poke] yields_return)
    (auto simp: assms intro: range_fits_data assms)

lemma keeps_copy_percpu:
  assumes r: "image_regions R node0 base n task"
    and "sec_type sc \<noteq> KB_ELF_SHT_NOBITS \<longrightarrow> range_fits (elf_size f) (sec_offset sc) (sec_size sc)"
  shows "keeps (loading e q R (copying e f node0 base n task offs)) (copy_percpu q sc)"
  unfolding copy_percpu_def
proof (intro keeps_moduleP keeps_if keeps_bind_yields [OF yields_image_bytes] keeps keeps_access)
  fix m assume "copying e f node0 base n task offs m"
  then have m: "tasked e f node0 base n task m" by (rule copying_tasked)
  then have f: "m_elf m = f" "elf_wf f" by (simp_all add: tasked_def imaged_def module_ready_def)
  show "unat (sec_offset sc) + unat (sec_size sc) \<le> length (elf_data (m_elf m))"
    if "sec_type sc \<noteq> KB_ELF_SHT_NOBITS \<and> sec_size sc \<noteq> 0"
    using that assms(2) f by (auto intro: range_fits_data)
  fix s and bs :: bytes
  assume ok: "\<not> (m_percpu_offset m = 0 \<or> sec_size sc \<noteq> m_percpu_size m \<or> KB_LOCAL_GS_SIZE - m_percpu_offset m < sec_size sc)"
    and bs: "length bs = unat (sec_size sc)" and s: "loading e q R (copying e f node0 base n task offs) s"
  have "unat (m_percpu_offset m) + unat (m_percpu_size m) \<le> 1048576"
    using tasked_facts(3) [OF m] by (simp add: sizes_ok_def)
  then show "mapped (regions s) (m_kernel_gs m + m_percpu_offset m) (length bs)"
    unfolding tasked_facts(4) [OF m] using ok bs by (intro tasked_mapped(2) [OF r copying_loading [OF s]]) simp
qed

lemma keeps_copy_section:
  assumes r: "image_regions R node0 base n task" and i: "i < unat (section_count f)"
  shows "keeps (loading e q R (copying e f node0 base n task offs)) (copy_section q i)"
  unfolding copy_section_def Let_def
proof (intro keeps_moduleP keeps_with_outcome keeps_if keeps_return)
  fix m assume c: "copying e f node0 base n task offs m"
  note m = copying_tasked [OF c]
  have f: "m_elf m = f" "elf_wf f" "m_image_base m = base" using tasked_facts(1) [OF m] by (simp_all add: module_ready_def)
  have len: "i < length (m_sections m)" using tasked_facts(3) [OF m] i by (simp add: sizes_ok_def)
  have p: "m_image_base m + ls_offset (m_sections m ! i) = base + offs ! i" using c f len by (auto simp: copying_def)
  show "safe (kb_elf_section (Some (m_elf m)) (of_nat i) True)" using f by auto
  show set: "keeps (loading e q R (copying e f node0 base n task offs))
      (set_section_base q i (m_image_base m + ls_offset (m_sections m ! i)))"
    using i p by (intro keeps_set_section_base) auto
  fix sc assume sc: "kb_elf_section (Some (m_elf m)) (of_nat i) True = Done sc"
    and al: "sec_flags sc AND KB_ELF_SHF_ALLOC \<noteq> 0"
  have size: "ls_size (m_sections m ! i) = sec_size sc"
    using tasked_facts(3) [OF m] i sc al f by (simp add: sizes_ok_def is_alloc_def)
  have "unat (ls_offset (m_sections m ! i)) + unat (sec_size sc) \<le> n"
    using tasked_facts(1) [OF m] nth_mem [OF len] unfolding module_ready_def size [symmetric] by blast
  then have mapped: "mapped (regions s) (m_image_base m + ls_offset (m_sections m ! i)) (unat (sec_size sc))"
    if "loading e q R (copying e f node0 base n task offs) s" for s
    using that r f by (intro loading_mapped [OF that, of base n]) (auto simp: image_regions_def)
  show "keeps (loading e q R (copying e f node0 base n task offs))
     (thenP (copy_bytes (m_elf m) sc (m_image_base m + ls_offset (m_sections m ! i)))
       (thenP (if sec_name sc = percpu_name then copy_percpu q sc else returnP KB_OK)
         (set_section_base q i (m_image_base m + ls_offset (m_sections m ! i)))))"
    unfolding f(1)
    by (rule keeps_then_yields [OF yields_copy_bytes [OF f(2) mapped]])
      (auto intro!: keeps keeps_copy_percpu [OF r] set)
qed

end
