(* ===== verification/Loader_Frame.thy ===== *)
theory Loader_Frame
  imports Loader_Layout "HOL-Library.Multiset"
begin

text \<open>
  What loading a module leaves alone: the list of loaded modules, the structures of other modules,
  every mapped region and the exports of other modules.  Only exports of the module itself are added.
\<close>

text \<open>The bases of the mapped regions, and the pointers that are in use.\<close>

definition held :: "'w loader \<Rightarrow> ptr multiset" where
  "held s = mset (map fst (regions s))"

definition shared_ptrs :: "'w loader \<Rightarrow> ptr multiset" where
  "shared_ptrs s = mset (filter (\<lambda>p. p \<noteq> NULL) [shared_object s, shared_task s, shared_lock s])"

definition module_ptrs :: "ptr \<Rightarrow> kb_module \<Rightarrow> ptr multiset" where
  "module_ptrs q m = mset (filter (\<lambda>p. p \<noteq> NULL) [q, m_shim_node0 m, m_name_at m, m_sections_at m, m_image_base m])"

text \<open>Shared objects stay where they are; \<open>T\<close> is the shared task once it is known.\<close>

definition shared_kept :: "ptr \<Rightarrow> 'w loader \<Rightarrow> 'w loader \<Rightarrow> bool" where
  "shared_kept T s0 s \<longleftrightarrow> (shared_object s0 \<noteq> NULL \<longrightarrow> shared_object s = shared_object s0) \<and>
     (shared_task s0 \<noteq> NULL \<longrightarrow> shared_task s = shared_task s0) \<and>
     (shared_lock s0 \<noteq> NULL \<longrightarrow> shared_lock s = shared_lock s0) \<and> (T \<noteq> NULL \<longrightarrow> shared_task s = T)"

text \<open>
  What a module holds can be given back: the structure, the node data, the name, the section table and
  the image.
\<close>

definition returnable :: "'w loader_env \<Rightarrow> region list \<Rightarrow> ptr \<Rightarrow> kb_module \<Rightarrow> bool" where
  "returnable e rs q m \<longleftrightarrow> (q, 544) \<in> set rs \<and> (m_shim_node0 m = NULL \<or> (m_shim_node0 m, 0x2a000) \<in> set rs) \<and>
     (m_name_at m = NULL \<or> m_name_at m \<in> fst ` set rs) \<and> (m_sections_at m = NULL \<or> m_sections_at m \<in> fst ` set rs) \<and>
     (m_image_base m = NULL \<or> m_image_size m \<noteq> 0 \<and>
        (m_image_base m, unat (align_up_u64 (m_image_size m) (page_size e))) \<in> set rs)"

definition frame :: "'w loader_env \<Rightarrow> ptr \<Rightarrow> (ptr \<Rightarrow> ptr \<Rightarrow> ptr \<Rightarrow> ptr \<Rightarrow> bool) \<Rightarrow> ptr \<Rightarrow> 'w loader \<Rightarrow> 'w loader \<Rightarrow> bool" where
  "frame e q K T s0 s \<longleftrightarrow> kb_loaded_modules s = kb_loaded_modules s0 \<and> (\<forall>p. p \<noteq> q \<longrightarrow> modules s p = modules s0 p) \<and>
     (\<exists>es. exported s = fold (\<lambda>(n, a) t. snd (kb_loader_symbol_registry_add_export (e_str e) t n a q)) es (exported s0)) \<and>
     shared_kept T s0 s \<and> set (regions s0) \<subseteq> set (regions s) \<and>
     (\<exists>m. modules s q = Some m \<and> K (m_shim_node0 m) (m_name_at m) (m_sections_at m) (m_image_base m) \<and> returnable e (regions s) q m \<and>
        held s + shared_ptrs s0 = held s0 + shared_ptrs s + module_ptrs q m)"

lemmas frame_defs = frame_def held_def shared_ptrs_def shared_kept_def

lemma frame_fields [simp]:
  "frame e q K T s0 (mem_update x1 s) = frame e q K T s0 s"
  "frame e q K T s0 (world_update x2 s) = frame e q K T s0 s"
  "frame e q K T s0 (page_prot_update x3 s) = frame e q K T s0 s"
  "frame e q K T s0 (next_module_hint_update x4 s) = frame e q K T s0 s"
  "frame e q K T s0 (kb_published_current_task_update x5 s) = frame e q K T s0 s"
  "frame e q K T s0 (kb_execution_task_template_update x6 s) = frame e q K T s0 s"
  "frame e q K T s0 (kb_execution_task_template_valid_update x7 s) = frame e q K T s0 s"
  "frame e q K T s0 (kb_shared_kernel_percpu_next_update x8 s) = frame e q K T s0 s"
  "frame e q K T s0 (kb_active_module_update x9 s) = frame e q K T s0 s"
  "frame e q K T s0 (shim_table_update x10 s) = frame e q K T s0 s"
  "frame e q K T s0 (jiffies_storages_update x11 s) = frame e q K T s0 s"
  by (simp_all add: frame_defs)

lemma frame_mono: "frame e q K T s0 s \<Longrightarrow> (\<And>x y z u. K x y z u \<Longrightarrow> K' x y z u) \<Longrightarrow> frame e q K' T s0 s"
  unfolding frame_def by blast

section \<open>Basic operations\<close>

lemma preserves_basic [preserves]:
  "preserves (frame e q K T s0) (pokeP p bs)"
  "preserves (frame e q K T s0) (peekP p n)"
  "preserves (frame e q K T s0) (memsetP p v n)"
  "preserves (frame e q K T s0) (moduleP p)"
  "preserves (frame e q K T s0) (worldP h)"
  "preserves (frame e q K T s0) (shimP t)"
  "preserves (frame e q K T s0) (mprotectP e' p sz prot)"
  by (auto intro!: preservesI simp: pokeP_def peekP_def memsetP_def moduleP_def worldP_def shimP_def
      mprotectP_def split: if_splits option.splits prod.splits bool.splits)

text \<open>An update of the module's structure that leaves the pointers to owned memory alone.\<close>

lemma preserves_set_module [preserves]:
  assumes "\<And>m. m_shim_node0 (g m) = m_shim_node0 m" and "\<And>m. m_image_base (g m) = m_image_base m"
    and "\<And>m. m_name_at (g m) = m_name_at m" and "\<And>m. m_sections_at (g m) = m_sections_at m"
    and "\<And>m. m_image_size (g m) = m_image_size m"
  shows "preserves (frame e q K T s0) (set_moduleP q g)"
proof (rule preservesI)
  fix s a s' assume r: "set_moduleP q g s = Some (a, s')" and f: "frame e q K T s0 s"
  from f obtain m where m: "modules s q = Some m" "K (m_shim_node0 m) (m_name_at m) (m_sections_at m) (m_image_base m)" "returnable e (regions s) q m"
    "held s + shared_ptrs s0 = held s0 + shared_ptrs s + module_ptrs q m"
    unfolding frame_def by blast
  from r m(1) have s': "s' = s\<lparr>modules := (modules s)(q \<mapsto> g m)\<rparr>" by (simp add: set_moduleP_def)
  have "K (m_shim_node0 (g m)) (m_name_at (g m)) (m_sections_at (g m)) (m_image_base (g m)) \<and> returnable e (regions s) q (g m) \<and>
      held s + shared_ptrs s0 = held s0 + shared_ptrs s + module_ptrs q (g m)"
    using m by (simp add: returnable_def module_ptrs_def assms)
  moreover have "held s' = held s" "shared_ptrs s' = shared_ptrs s" "shared_kept T s0 s' = shared_kept T s0 s"
    by (simp_all add: s' held_def shared_ptrs_def shared_kept_def)
  ultimately show "frame e q K T s0 s'" using f unfolding frame_def by (simp add: s')
qed

lemma preserves_add_export [preserves]: "preserves (frame e q K T s0) (add_exportP e name address q)"
proof (rule preservesI)
  fix s a s' assume r: "add_exportP e name address q s = Some (a, s')" and f: "frame e q K T s0 s"
  from f obtain es where es: "exported s =
      fold (\<lambda>(n, a) t. snd (kb_loader_symbol_registry_add_export (e_str e) t n a q)) es (exported s0)"
    by (auto simp: frame_def)
  from r have "s' = s\<lparr>exported := snd (kb_loader_symbol_registry_add_export (e_str e) (exported s) (e_name_at e name) address q)\<rparr>"
    by (auto simp: add_exportP_def split: prod.splits)
  with f es show "frame e q K T s0 s'"
    by (auto simp: frame_defs intro!: exI [of _ "es @ [(e_name_at e name, address)]"])
qed

section \<open>Allocation and shared objects\<close>

text \<open>What an allocation does to the state.\<close>

definition allocated :: "'w loader \<Rightarrow> nat \<Rightarrow> ptr option \<Rightarrow> 'w loader \<Rightarrow> bool" where
  "allocated s n r s' \<longleftrightarrow> s' = s\<lparr>world := world s', next_module_hint := next_module_hint s',
       regions := (case r of None \<Rightarrow> regions s | Some p \<Rightarrow> (p, n) # regions s)\<rparr> \<and>
     (\<forall>p. r = Some p \<longrightarrow> fresh_region (regions s) p n)"

lemma mmap_allocated: "mmapP e hint sz s = Some (r, s') \<Longrightarrow> allocated s (unat sz) r s'"
  unfolding mmapP_def allocated_def
  by (auto split: prod.splits option.splits if_splits)

lemma allocatedE:
  assumes "allocated s n r s'"
  obtains w h where "s' = s\<lparr>world := w, next_module_hint := h,
      regions := (case r of None \<Rightarrow> regions s | Some p \<Rightarrow> (p, n) # regions s)\<rparr>"
    and "\<And>p. r = Some p \<Longrightarrow> fresh_region (regions s) p n"
  using assms unfolding allocated_def by blast

lemma allocated_None: "allocated s n None s' \<longleftrightarrow> (\<exists>w h. s' = s\<lparr>world := w, next_module_hint := h\<rparr>)"
  unfolding allocated_def by auto

lemma allocated_trans: "allocated s n None s1 \<Longrightarrow> allocated s1 n r s2 \<Longrightarrow> allocated s n r s2"
  unfolding allocated_None unfolding allocated_def by (cases r) auto

lemma munmap_allocated:
  assumes "allocated s (unat sz) (Some p) s1" and "munmapP e p sz s1 = Some (u, s2)"
  shows "allocated s (unat sz) None s2"
proof -
  from assms(1) obtain w h where s1: "s1 = s\<lparr>world := w, next_module_hint := h, regions := (p, unat sz) # regions s\<rparr>"
    and f: "fresh_region (regions s) p (unat sz)"
    unfolding allocated_def option.case by blast
  have "s2 = s1\<lparr>world := e_munmap e p sz w, regions := filter (\<lambda>r. fst r \<noteq> p) (regions s1)\<rparr>"
    using assms(2) by (simp add: munmapP_def s1)
  then have "s2 = s\<lparr>world := e_munmap e p sz w, next_module_hint := h, regions := regions s\<rparr>"
    using unmap_fresh [OF f] by (simp add: s1)
  then show ?thesis unfolding allocated_None by (intro exI [of _ "e_munmap e p sz w"] exI [of _ h]) simp
qed

lemma alloc_attempts_allocated:
  "alloc_attempts e sz k s = Some (r, s') \<Longrightarrow> allocated s (unat sz) r s'"
proof (induction k arbitrary: s)
  case 0
  then show ?case by (auto simp: allocated_def)
next
  case (Suc k)
  define hint where "hint = (if next_module_hint s < min_exec_hint \<or> max_exec_hint \<le> next_module_hint s
    then min_exec_hint else next_module_hint s)"
  define s1 where "s1 = s\<lparr>next_module_hint := hint + 0x02000000\<rparr>"
  have s1: "allocated s (unat sz) None s1" by (auto simp: allocated_def s1_def)
  have run: "bindP (mmapP e hint sz) (\<lambda>memory. case memory of None \<Rightarrow> alloc_attempts e sz k
     | Some p \<Rightarrow> if p \<ge> min_exec_hint \<and> p < max_exec_hint then returnP (Some p)
         else bindP (munmapP e p sz) (\<lambda>_. alloc_attempts e sz k)) s1 = Some (r, s')"
    using Suc.prems by (simp add: Let_def hint_def s1_def)
  then obtain a s2 where a: "mmapP e hint sz s1 = Some (a, s2)" by (auto simp: bindP_def split: option.splits)
  note al = allocated_trans [OF s1 mmap_allocated [OF a]]
  show ?case
  proof (cases a)
    case None
    with run a have "alloc_attempts e sz k s2 = Some (r, s')" by simp
    from allocated_trans [OF _ Suc.IH [OF this]] al None show ?thesis by simp
  next
    case (Some p)
    show ?thesis
    proof (cases "p \<ge> min_exec_hint \<and> p < max_exec_hint")
      case True
      with run a Some al show ?thesis by simp
    next
      case False
      with run a Some obtain u s3 where u: "munmapP e p sz s2 = Some (u, s3)" "alloc_attempts e sz k s3 = Some (r, s')"
        by (auto simp: bindP_def split: option.splits if_splits)
      show ?thesis
        using allocated_trans [OF munmap_allocated [OF al [unfolded Some] u(1)] Suc.IH [OF u(2)]] .
    qed
  qed
qed

lemma alloc_section_allocated:
  assumes "alloc_section_memory e sz s = Some (p, s')"
  shows "allocated s (unat (align_up_u64 sz (page_size e))) (if p = NULL then None else Some p) s'"
proof (cases "sz = 0")
  case True
  with assms show ?thesis by (auto simp: alloc_section_memory_def allocated_def)
next
  case False
  let ?n = "align_up_u64 sz (page_size e)"
  have nn: "q \<noteq> NULL" if "allocated t n (Some q) t'" for t n q t'
    using that by (simp add: allocated_def fresh_region_def)
  from assms False obtain a s1 where a: "alloc_attempts e ?n 16 s = Some (a, s1)"
    by (auto simp: alloc_section_memory_def Let_def bindP_def split: option.splits)
  note al = alloc_attempts_allocated [OF a]
  show ?thesis
  proof (cases a)
    case None
    with assms False a obtain b where b: "mmapP e NULL ?n s1 = Some (b, s')" "p = (case b of None \<Rightarrow> NULL | Some p \<Rightarrow> p)"
      by (auto simp: alloc_section_memory_def Let_def bindP_def split: option.splits)
    have "allocated s (unat ?n) b s'" using allocated_trans [OF al [unfolded None] mmap_allocated [OF b(1)]] .
    with nn b(2) show ?thesis by (cases b) auto
  next
    case (Some v)
    with assms False a have "p = v" "s' = s1" by (auto simp: alloc_section_memory_def Let_def)
    with al Some nn show ?thesis by auto
  qed
qed

text \<open>A page that becomes a shared object is accounted for as such.\<close>

lemma frame_allocated:
  assumes f: "frame e q K T s0 s" and al: "allocated s n (Some p) s1"
    and put: "kb_loaded_modules s2 = kb_loaded_modules s1" "modules s2 = modules s1" "exported s2 = exported s1"
      "regions s2 = regions s1" "shared_kept T s0 s2" "shared_ptrs s2 = add_mset p (shared_ptrs s1)"
  shows "frame e q K T s0 s2"
proof -
  from al have s1: "regions s1 = (p, n) # regions s" "kb_loaded_modules s1 = kb_loaded_modules s" "modules s1 = modules s"
    "exported s1 = exported s" "shared_ptrs s1 = shared_ptrs s"
    by (auto elim!: allocatedE simp: shared_ptrs_def)
  have h: "held s2 = add_mset p (held s)" using put(4) s1(1) by (simp add: held_def)
  have r: "returnable e (regions s) q m \<Longrightarrow> returnable e (regions s2) q m" for m
    using put(4) s1(1) by (auto simp: returnable_def)
  show ?thesis
    using f r h put s1 unfolding frame_def by fastforce
qed

lemma frame_not_allocated: "frame e q K T s0 s \<Longrightarrow> allocated s n None s1 \<Longrightarrow> frame e q K T s0 s1"
  by (auto simp: allocated_None)

lemma preserves_shared_page:
  assumes put: "\<And>s. put NULL s = s\<lparr>world := world s\<rparr> \<or> get s \<noteq> NULL"
    and kept: "\<And>s p. get s = NULL \<Longrightarrow> shared_kept T s0 s \<Longrightarrow> shared_kept T s0 (put p s)"
    and ptrs: "\<And>s p. get s = NULL \<Longrightarrow> p \<noteq> NULL \<Longrightarrow> shared_ptrs (put p s) = add_mset p (shared_ptrs s)"
    and rest: "\<And>s p. kb_loaded_modules (put p s) = kb_loaded_modules s" "\<And>s p. modules (put p s) = modules s"
      "\<And>s p. exported (put p s) = exported s" "\<And>s p. regions (put p s) = regions s"
    and stable: "\<And>s w h rs. get (s\<lparr>world := w, next_module_hint := h, regions := rs\<rparr>) = get s"
    and init: "\<And>p. preserves (frame e q K T s0) (init p)"
  shows "preserves (frame e q K T s0) (shared_page e' get put init)"
proof (rule preservesI)
  fix s a s' assume r: "shared_page e' get put init s = Some (a, s')" and f: "frame e q K T s0 s"
  show "frame e q K T s0 s'"
  proof (cases "get s = NULL")
    case False
    with r f show ?thesis by (simp add: shared_page_def)
  next
    case True
    with r obtain p s1 where p: "alloc_section_memory e' 4096 s = Some (p, s1)"
      by (auto simp: shared_page_def bindP_def split: option.splits)
    note al = alloc_section_allocated [OF p]
    have g: "get s1 = NULL" using al True stable by (auto elim!: allocatedE)
    have k: "shared_kept T s0 s1" using al f by (auto elim!: allocatedE simp: frame_def shared_kept_def)
    have rest': "bindP (memsetP p 0 4096) (\<lambda>_. bindP (init p) (\<lambda>_. returnP p)) (put p s1) = Some (a, s')" if "p \<noteq> NULL"
      using r True p that by (simp add: shared_page_def)
    have pres: "preserves (frame e q K T s0) (bindP (memsetP p 0 4096) (\<lambda>_. bindP (init p) (\<lambda>_. returnP p)))"
      by (intro preserves init)
    show ?thesis
    proof (cases "p = NULL")
      case True
      have "s' = put NULL s1" using r \<open>get s = NULL\<close> p True by (simp add: shared_page_def)
      then have "s' = s1" using put [of s1] g by simp
      then show ?thesis using al True frame_not_allocated [OF f] by simp
    next
      case False
      have "frame e q K T s0 (put p s1)"
        using False by (intro frame_allocated [OF f al [simplified if_not_P [OF False]]] rest kept [OF g k] ptrs [OF g])
      then show ?thesis using preservesD [OF pres rest' [OF False]] by blast
    qed
  qed
qed

lemma preserves_shared [preserves]:
  "preserves (frame e q K T s0) (kb_module_shared_blockdev_superblock e')"
  "preserves (frame e q K T s0) (shared_tasklist_lock e')"
  "preserves (frame e q K T s0) (shared_current_task e')"
  unfolding kb_module_shared_blockdev_superblock_def shared_tasklist_lock_def shared_current_task_def
  by (intro preserves_shared_page preserves; auto simp: shared_kept_def shared_ptrs_def)+

section \<open>Loading\<close>

lemma preserves_for_find [preserves]: "(\<And>i. preserves P (body i)) \<Longrightarrow> preserves P (for_find body is)"
proof (induction "is")
  case (Cons i "is")
  from Cons.IH [OF Cons.prems] show ?case unfolding for_find.simps by (intro preserves Cons.prems)
qed (simp add: preserves)

lemma preserves_bindE [preserves]: "preserves P m \<Longrightarrow> (\<And>v. preserves P (k v)) \<Longrightarrow> preserves P (bindE m k)"
  unfolding bindE_def by (intro preserves; simp)

lemma preserves_outcomeR [preserves]: "(\<And>v. preserves P (k v)) \<Longrightarrow> preserves P (outcomeR m k)"
  unfolding outcomeR_def by (intro preserves; simp)

lemma preserves_tasks [preserves]:
  "preserves (frame e q K T s0) (kb_loader_current_task e')"
  "preserves (frame e q K T s0) (kb_loader_task_journal_info task)"
  "preserves (frame e q K T s0) (refresh_linux_jiffies e')"
  "preserves (frame e q K T s0) (kb_register_jiffies_storage e' storage)"
  unfolding kb_loader_current_task_def kb_loader_default_current_task_def kb_loader_task_journal_info_def
    refresh_linux_jiffies_def kb_register_jiffies_storage_def
  by (intro preserves preserves_modify; simp)+

lemma preserves_stubs [preserves]:
  "preserves (frame e q K T s0) (write_u32le p v)"
  "preserves (frame e q K T s0) (write_u64le p x)"
  "preserves (frame e q K T s0) (write_abs_jump_stub e' p target gs gs')"
  "preserves (frame e q K T s0) (write_abs_jump_raw_stub p target)"
  "preserves (frame e q K T s0) (write_ret_stub p)"
  unfolding write_u32le_def write_u64le_def write_abs_jump_stub_def write_abs_jump_raw_stub_def write_ret_stub_def
  by (intro preserves; simp)+

lemma preserves_shims [preserves]:
  "preserves (frame e q K T s0) (shim_symbol_count e')"
  "preserves (frame e q K T s0) (shim_symbol_at e' i)"
  "preserves (frame e q K T s0) (lookup_shim_symbol e' name)"
  "preserves (frame e q K T s0) (allocate_external_call_stub_for_caller e' q target gs gs')"
  "preserves (frame e q K T s0) (module_shim_stub_by_name e' p name)"
  "preserves (frame e q K T s0) (bind_named_shim_stubs e' q)"
  unfolding shim_symbol_count_def shim_symbol_at_def lookup_shim_symbol_def
    allocate_external_call_stub_for_caller_def module_shim_stub_by_name_def bind_named_shim_stubs_def
  by (intro preserves; simp)+

lemma preserves_external_call_stub [preserves]:
  "preserves (frame e q K T s0) (allocate_external_call_stub e' q target gs)"
  unfolding allocate_external_call_stub_def by (intro preserves; simp)

lemma preserves_protect_runs [preserves]: "preserves (frame e q K T s0) (protect_runs e' q run secs)"
  by (induction secs arbitrary: run)
    (simp_all only: protect_runs.simps protect_section_run_def, (intro preserves; simp)+)

lemma preserves_finalize [preserves]: "preserves (frame e q K T s0) (finalize_section_protections e' q)"
  unfolding finalize_section_protections_def by (intro preserves; simp)

lemma preserves_scans [preserves]:
  "preserves (frame e q K T s0) (symbol_scan name syms)"
  "preserves (frame e q K T s0) (kvm_stub_scan e' name provider stubs is)"
  "preserves (frame e q K T s0) (find_module c ps)"
proof -
  show "preserves (frame e q K T s0) (symbol_scan name syms)"
    by (induction syms) (simp_all only: symbol_scan.simps, (intro preserves; simp)+)
  show "preserves (frame e q K T s0) (kvm_stub_scan e' name provider stubs is)"
    by (induction "is") (simp_all only: kvm_stub_scan.simps, (intro preserves; simp)+)
  show "preserves (frame e q K T s0) (find_module c ps)"
    by (induction ps) (simp_all only: find_module.simps, (intro preserves; simp)+)
qed

lemma preserves_owner_queries [preserves]:
  "preserves (frame e q K T s0) (kb_module_is_executable_address a)"
  "preserves (frame e q K T s0) (kb_module_kernel_gs_for_address a)"
  unfolding kb_module_is_executable_address_def kb_module_kernel_gs_for_address_def module_for_address_def
  by (intro preserves; simp)+

lemma preserves_lookup_module_shim_symbol [preserves]:
  "preserves (frame e q K T s0) (lookup_module_shim_symbol e' p name)"
  unfolding lookup_module_shim_symbol_def lookup_member_symbol_def module_kvm_provider_stub_by_name_def
    lookup_kvm_provider_symbol_def
  by (intro preserves; simp)

section \<open>Relocation, patches, exports and entry points\<close>

lemma preserves_symbol_addresses [preserves]:
  "preserves (frame e q K T s0) (resolve_symbol e' p tab i)"
  "preserves (frame e q K T s0) (lookup_internal_symbol_override e' p name)"
  "preserves (frame e q K T s0) (undefined_symbol_address e' q symbol rel)"
  "preserves (frame e q K T s0) (mock_nvidia_address e' p symbol rel target a)"
  unfolding resolve_symbol_def lookup_internal_symbol_override_def undefined_symbol_address_def
    mock_nvidia_address_def relocation_is_direct_call_def
  by (intro preserves; simp)+

lemma preserves_relocation [preserves]:
  "preserves (frame e q K T s0) (patch_local_x86_64_external symbol rel target)"
  "preserves (frame e q K T s0) (defined_symbol_address e' p symbol)"
  "preserves (frame e q K T s0) (store_relocation p rel place v)"
  unfolding patch_local_x86_64_external_def defined_symbol_address_def store_relocation_def
  by (intro preserves; simp)+

lemma preserves_apply_relocations [preserves]: "preserves (frame e q K T s0) (apply_relocations e' q)"
  unfolding apply_relocations_def apply_one_relocation_def by (intro preserves; simp)

lemma preserves_patches [preserves]:
  "preserves (frame e q K T s0) (patch_module_static_trace_calls e' p)"
  "preserves (frame e q K T s0) (patch_module_xhci_command_doorbell e' p)"
  unfolding patch_module_static_trace_calls_def patch_static_trace_call_def patch_module_xhci_command_doorbell_def
    xhci_command_doorbell_helper_matches_def patch_relative_jump_def
  by (intro preserves; simp)+

lemma preserves_find_symbol_address [preserves]: "preserves (frame e q K T s0) (find_symbol_address e' p name)"
  unfolding find_symbol_address_def by (intro preserves; simp)

lemma preserves_entry_points [preserves]:
  "preserves (frame e q K T s0) (register_module_exports e q)"
  "preserves (frame e q K T s0) (find_init e' q)"
  "preserves (frame e q K T s0) (find_cleanup e' q)"
  unfolding register_module_exports_def find_init_def find_cleanup_def by (intro preserves; simp)+

section \<open>Sections\<close>

lemma preserves_layout [preserves]: "preserves (frame e q K T s0) (layout_sections e' q is img prev)"
  by (induction "is" arbitrary: img prev)
    (simp_all only: layout_sections.simps layout_section_def reserve_percpu_def,
     intro preserves, intro preserves preserves_modify, simp_all)

lemma preserves_initialize [preserves]: "preserves (frame e q K T s0) (initialize_shim_region e' q)"
  unfolding initialize_shim_region_def initialize_cpu_and_task_def write_symbol_stub_def pokes_def
  by (intro preserves; simp)

lemma preserves_copy_section [preserves]: "preserves (frame e q K T s0) (copy_section q i)"
  unfolding copy_section_def set_section_base_def copy_bytes_def copy_percpu_def image_bytesP_def
  by (intro preserves; simp)

lemma preserves_capture [preserves]: "preserves (frame e q K T s0) (capture_task_template e')"
  unfolding capture_task_template_def by (intro preserves preserves_modify) simp

section \<open>Giving the image to the module\<close>

text \<open>The frame of a module without an image becomes the frame of one that may have one.\<close>

abbreviation (input) no_image :: "ptr \<Rightarrow> ptr \<Rightarrow> ptr \<Rightarrow> ptr \<Rightarrow> bool" where
  "no_image \<equiv> \<lambda>node0 name secs base. base = NULL"
abbreviation (input) anything :: "ptr \<Rightarrow> ptr \<Rightarrow> ptr \<Rightarrow> ptr \<Rightarrow> bool" where
  "anything \<equiv> \<lambda>node0 name secs base. True"

lemma preserves_place_tail:
  "preserves (frame e q K T s0) (bindP (memsetP base 0 n) (\<lambda>_.
     bindP (set_moduleP q (\<lambda>m. m\<lparr>m_shim_region := r, m_shim_symbol_stubs := r,
         m_shim := (\<lambda>n. case map_of shim_members n of Some offset \<Rightarrow> r + offset | None \<Rightarrow> m_shim m n)\<rparr>)) (\<lambda>_.
     assign_task e' q r)))"
  unfolding assign_task_def by (intro preserves; simp)

text \<open>A region that becomes part of the module is accounted for as such.\<close>

lemma frame_gain:
  assumes f: "frame e q K T s0 s" and m: "modules s q = Some m"
    and s1: "regions s1 = (p, n) # regions s" "kb_loaded_modules s1 = kb_loaded_modules s" "modules s1 = modules s"
      "exported s1 = exported s" "shared_object s1 = shared_object s" "shared_task s1 = shared_task s" "shared_lock s1 = shared_lock s"
    and m': "module_ptrs q m' = add_mset p (module_ptrs q m)" "returnable e ((p, n) # regions s) q m'"
      "K' (m_shim_node0 m') (m_name_at m') (m_sections_at m') (m_image_base m')"
  shows "frame e q K' T s0 (s1\<lparr>modules := (modules s1)(q \<mapsto> m')\<rparr>)" (is "frame _ _ _ _ _ ?s")
proof -
  from f m have eq: "held s + shared_ptrs s0 = held s0 + shared_ptrs s + module_ptrs q m"
    by (auto simp: frame_def)
  have "held ?s = add_mset p (held s)" "shared_ptrs ?s = shared_ptrs s" "shared_kept T s0 ?s = shared_kept T s0 s"
    by (simp_all add: s1 held_def shared_ptrs_def shared_kept_def)
  moreover from this have "held ?s + shared_ptrs s0 = held s0 + shared_ptrs ?s + module_ptrs q m'"
    using eq unfolding m'(1) by simp
  moreover have "set (regions s0) \<subseteq> set (regions ?s)" using f by (auto simp: frame_def s1)
  ultimately show ?thesis
    unfolding frame_def using f m'(2,3) by (auto simp: frame_def s1)
qed

lemma frame_image:
  assumes f: "frame e q no_image T s0 s" and al: "allocated s (unat (align_up_u64 isz (page_size e))) (Some base) s1"
    and "isz \<noteq> 0" and m: "modules s q = Some m"
  shows "frame e q anything T s0 (s1\<lparr>modules := (modules s1)(q \<mapsto> m\<lparr>m_image_base := base, m_image_size := isz\<rparr>)\<rparr>)"
proof (rule frame_gain [OF f m])
  from al show "regions s1 = (base, unat (align_up_u64 isz (page_size e))) # regions s" "kb_loaded_modules s1 = kb_loaded_modules s"
    "modules s1 = modules s" "exported s1 = exported s" "shared_object s1 = shared_object s"
    "shared_task s1 = shared_task s" "shared_lock s1 = shared_lock s"
    by (auto elim!: allocatedE)
  have "base \<noteq> NULL" using al by (simp add: allocated_def fresh_region_def)
  moreover from f m have "m_image_base m = NULL" "returnable e (regions s) q m" by (auto simp: frame_def)
  ultimately show "module_ptrs q (m\<lparr>m_image_base := base, m_image_size := isz\<rparr>) = add_mset base (module_ptrs q m)"
    "returnable e ((base, unat (align_up_u64 isz (page_size e))) # regions s) q (m\<lparr>m_image_base := base, m_image_size := isz\<rparr>)"
    using assms(3) by (auto simp: module_ptrs_def returnable_def)
qed simp

lemma moves_allocate_image: "moves (frame e q no_image T s0) (allocate_image e q img) (frame e q anything T s0)"
proof (rule movesI)
  fix s a s' assume r: "allocate_image e q img s = Some (a, s')" and f: "frame e q no_image T s0 s"
  let ?sz = "align_up_u64 img (page_size e) + KB_LOCAL_SHIM_REGION_SIZE"
  show "frame e q anything T s0 s'"
  proof (cases "img = 0")
    case True
    with r f show ?thesis by (auto simp: allocate_image_def intro: frame_mono)
  next
    case False
    with r obtain p s1 where p: "alloc_section_memory e ?sz s = Some (p, s1)"
      by (auto simp: allocate_image_def Let_def bindP_def split: option.splits)
    note al = alloc_section_allocated [OF p]
    from f obtain m where m: "modules s q = Some m" "m_image_base m = NULL" by (auto simp: frame_def)
    from al m(1) have m1: "modules s1 q = Some m" by (auto elim!: allocatedE)
    show ?thesis
    proof (cases "p = NULL")
      case True
      have "s' = s1\<lparr>modules := (modules s1)(q \<mapsto> m\<lparr>m_image_base := NULL\<rparr>)\<rparr>"
        using r False p True m1 by (auto simp: allocate_image_def set_moduleP_def Let_def)
      moreover have "m\<lparr>m_image_base := NULL\<rparr> = m" using m(2) by simp
      ultimately have "s' = s1" using m1 by (simp add: fun_upd_idem)
      then show ?thesis using al True frame_not_allocated [OF f] by (auto intro: frame_mono)
    next
      case p0: False
      have sz: "?sz \<noteq> 0" using p p0 by (auto simp: alloc_section_memory_def)
      let ?m = "m\<lparr>m_image_base := p, m_image_size := ?sz\<rparr>"
      let ?r = "p + align_up_u64 img (page_size e)"
      have "bindP (memsetP p 0 (unat ?sz)) (\<lambda>_.
         bindP (set_moduleP q (\<lambda>m. m\<lparr>m_shim_region := ?r, m_shim_symbol_stubs := ?r,
           m_shim := (\<lambda>n. case map_of shim_members n of Some offset \<Rightarrow> ?r + offset | None \<Rightarrow> m_shim m n)\<rparr>)) (\<lambda>_.
         assign_task e q ?r)) (s1\<lparr>modules := (modules s1)(q \<mapsto> ?m)\<rparr>) = Some (a, s')"
        using r False p p0 m1 by (simp add: allocate_image_def place_image_def set_moduleP_def Let_def)
      from preservesD [OF preserves_place_tail this] frame_image [OF f _ sz m(1)] al p0
      show ?thesis by simp
    qed
  qed
qed

lemma moves_prepare_module: "moves (frame e q no_image T s0) (prepare_module e q) (frame e q anything T s0)"
  unfolding prepare_module_def load_sections_def Let_def
  by (intro moves_then moves_bind_preserves moves_with moves_allocate_image preserves) (auto intro: frame_mono)

end
