(* ===== verification/Loader_Open.thy ===== *)
theory Loader_Open
  imports Loader_Frame
begin

text \<open>
  Opening and closing a module.  No image, whatever its bytes, makes the loader touch memory that it
  did not map, and a module that fails to load holds no memory afterwards.
\<close>

section \<open>The task template\<close>

lemma keeps_frame: "keeps I m \<Longrightarrow> preserves F m \<Longrightarrow> keeps (\<lambda>s. I s \<and> F s) m"
  unfolding keeps_def triple_def preserves_def by blast

lemma frame_task: "frame e q K T s0 s \<Longrightarrow> T \<noteq> NULL \<Longrightarrow> shared_task s = T"
  by (simp add: frame_def shared_kept_def)

lemma keeps_capture:
  assumes "env_ok e" and T: "T \<noteq> NULL"
  shows "keeps (\<lambda>s. loading e q R M s \<and> frame e q K T s0 s) (capture_task_template e)"
proof -
  let ?I = "\<lambda>s. loading e q R M s \<and> frame e q K T s0 s"
  have m: "mapped (regions s) (T + d) n" if "?I s" "unat d + n \<le> 4096" for s d n
  proof -
    have "shared_ok (regions s) T" using that(1) loading_shared_ok(2) frame_task T by metis
    then obtain k where "4096 \<le> k" "(T, k) \<in> set (regions s)" using T by (auto simp: shared_ok_def)
    then show ?thesis using that(2) by (intro mapped_offset) auto
  qed
  have task: "yields ?I (shared_current_task e) (\<lambda>p. p = T)"
    by (rule yieldsI) (use T in \<open>auto simp: shared_current_task_def shared_page_def dest: frame_task\<close>)
  have current: "keeps ?I (kb_loader_current_task e)"
    by (intro keeps_frame keeps_current_task assms preserves)
  have journal: "keeps ?I (kb_loader_task_journal_info T)"
    unfolding kb_loader_task_journal_info_def by (intro keeps keeps_peek(1) m) auto
  have peek: "keeps ?I (peekP T 4096)" using m [of _ 0 4096] by (intro keeps_peek(1)) auto
  show ?thesis
    unfolding capture_task_template_def
    by (intro keeps_bind_yields [OF task] keeps_bind [OF current] keeps journal peek keeps_modify; simp add: journal peek)
qed

section \<open>Loading the sections\<close>

lemma assign_task_shared:
  assumes "assign_task e q r s = Some (KB_OK, s')"
  shows "shared_task s' \<noteq> NULL"
proof -
  from assms obtain p s1 where p: "shared_current_task e s = Some (p, s1)" "p \<noteq> NULL" "shared_task s' = shared_task s1"
    by (auto simp: assign_task_def bindP_def set_moduleP_def split: option.splits if_splits)
  then have "shared_task s1 = p"
    by (auto simp: shared_current_task_def shared_page_def bindP_def memsetP_def split: option.splits if_splits)
  with p show ?thesis by simp
qed

lemma allocate_image_shared:
  "allocate_image e q img s = Some (KB_OK, s') \<Longrightarrow> shared_task s' \<noteq> NULL"
  unfolding allocate_image_def place_image_def Let_def
  by (auto simp: bindP_def split: option.splits if_splits) (metis assign_task_shared)

lemma frame_known_task: "frame e q K T s0 s \<Longrightarrow> shared_task s = T' \<Longrightarrow> frame e q K T' s0 s"
  by (auto simp: frame_def shared_kept_def)

lemma keeps_copy_sections:
  assumes "env_ok e" and "image_regions R node0 base n task" and "T \<noteq> NULL"
    and "\<forall>i\<in>set is. i < unat (section_count f)"
  shows "keeps (\<lambda>s. loading e q R (copying e f node0 base n task offs) s \<and> frame e q K T s0 s)
    (thenP (for_ok (copy_section q) is) (capture_task_template e))"
  by (intro keeps_then keeps_for_ok keeps_frame keeps_copy_section keeps_capture preserves assms)
    (use assms(4) in auto)

text \<open>A failure of the layout is an error status.\<close>

lemma scan_not_Fail: "scan_while P data base sz cur \<noteq> Fail e"
  by (induction P data base sz cur rule: scan_while.induct) (subst scan_while.simps, auto simp: bindO_Fail_iff)

lemma bounded_section_name_not_Fail: "bounded_section_name data strings sz offset \<noteq> Fail e"
  by (auto simp: bounded_section_name_def Let_def bindO_Fail_iff scan_not_Fail)

lemma bindO_not_Fail: "m \<noteq> Fail e \<Longrightarrow> (\<And>v. k v \<noteq> Fail e) \<Longrightarrow> bindO m k \<noteq> Fail e"
  by (simp add: bindO_Fail_iff)

lemma kb_elf_section_error: "kb_elf_section f i o' \<noteq> Fail KB_OK"
  unfolding kb_elf_section_def Let_def
  by (cases f) (simp_all add: bindO_not_Fail bounded_section_name_not_Fail)

definition proper_errors :: "(kb_status + 'a, 's) prog \<Rightarrow> bool" where
  "proper_errors m \<longleftrightarrow> (\<forall>s err s'. m s = Some (Inl err, s') \<longrightarrow> err \<noteq> KB_OK)"

lemma proper_errors_bindP: "(\<And>a. proper_errors (k a)) \<Longrightarrow> proper_errors (bindP m k)"
  unfolding proper_errors_def by (auto simp: bindP_def split: option.splits)

lemma proper_errors_bindE: "proper_errors m \<Longrightarrow> (\<And>a. proper_errors (k a)) \<Longrightarrow> proper_errors (bindE m k)"
  unfolding proper_errors_def bindE_def by (auto simp: bindP_def split: option.splits sum.splits)

lemma proper_errors_return: "proper_errors (returnP (Inr v))" "err \<noteq> KB_OK \<Longrightarrow> proper_errors (returnP (Inl err))"
  by (simp_all add: proper_errors_def)

lemma proper_errors_if: "(c \<Longrightarrow> proper_errors m) \<Longrightarrow> (\<not> c \<Longrightarrow> proper_errors k) \<Longrightarrow> proper_errors (if c then m else k)"
  by simp

lemma proper_errors_prod: "(\<And>u v. proper_errors (k u v)) \<Longrightarrow> proper_errors (case x of (u, v) \<Rightarrow> k u v)"
  by (cases x) simp

lemma proper_errors_outcome: "m \<noteq> Fail KB_OK \<Longrightarrow> proper_errors (outcomeP m)"
  by (cases m) (auto simp: proper_errors_def outcomeP_def)

lemmas proper_errors = proper_errors_bindE proper_errors_bindP proper_errors_if proper_errors_prod proper_errors_return
  proper_errors_outcome kb_elf_section_error

lemma layout_error: "proper_errors (layout_sections e q is img prev)"
proof (induction "is" arbitrary: img prev)
  case Nil
  show ?case unfolding layout_sections.simps by (rule proper_errors)
next
  case (Cons i "is")
  then show ?case unfolding layout_sections.simps layout_section_def Let_def by (intro proper_errors)
qed

definition sections_result ::
  "'w loader_env \<Rightarrow> ptr \<Rightarrow> region set \<Rightarrow> kb_elf_file \<Rightarrow> kb_status \<Rightarrow> 'w loader \<Rightarrow> bool" where
  "sections_result e q R f status s \<longleftrightarrow>
     (if status = KB_OK then \<exists>base n secs. loading e q (insert (base, n) R) (with_sections e f base n secs) s
      else loading e q R (\<lambda>_. True) s)"

text \<open>The part after the image was allocated.\<close>

lemma initialize_and_copy:
  assumes e: "env_ok e" and r: "image_regions R node0 base n task" and T: "T \<noteq> NULL"
    and "is": "\<forall>i\<in>set is. i < unat (section_count f)"
    and s: "loading e q R (tasked e f node0 base n task) s" and f: "frame e q K T s0 s"
  shows "\<exists>status s'. thenP (initialize_shim_region e q) (thenP (for_ok (copy_section q) is) (capture_task_template e)) s =
      Some (status, s') \<and> (\<exists>secs. loading e q R (with_sections e f base n secs) s')"
proof -
  let ?I = "\<lambda>s. loading e q R (tasked e f node0 base n task) s \<and> frame e q K T s0 s"
  have "keeps ?I (initialize_shim_region e q)" by (intro keeps_frame keeps_initialize preserves e r)
  then obtain st s1 where s1: "initialize_shim_region e q s = Some (st, s1)" "?I s1"
    using s f by (auto elim!: keepsE)
  from s1(2) obtain m where m: "modules s1 q = Some m" "tasked e f node0 base n task m" by (auto simp: loading_def)
  let ?J = "\<lambda>s. loading e q R (copying e f node0 base n task (map ls_offset (m_sections m))) s \<and> frame e q K T s0 s"
  have j: "?J s1" using s1(2) m by (auto simp: loading_def copying_def)
  obtain status s' where s': "thenP (initialize_shim_region e q)
      (thenP (for_ok (copy_section q) is) (capture_task_template e)) s = Some (status, s')" "?J s'"
  proof (cases "st = KB_OK")
    case True
    obtain status s' where
      "thenP (for_ok (copy_section q) is) (capture_task_template e) s1 = Some (status, s')" "?J s'"
      by (rule keepsE [OF keeps_copy_sections [OF e r T "is"] j])
    with s1(1) True that show ?thesis by (simp add: thenP_def)
  next
    case False
    with s1(1) j that show ?thesis by (simp add: thenP_def)
  qed
  from s'(2) obtain m' where "modules s' q = Some m'" "copying e f node0 base n task (map ls_offset (m_sections m)) m'"
    by (auto simp: loading_def)
  then have "loading e q R (with_sections e f base n (m_sections m')) s'"
    using s'(2) tasked_facts(1) by (auto simp: loading_def with_sections_def copying_def)
  with s'(1) show ?thesis by blast
qed

lemma allocate_and_copy:
  assumes e: "env_ok e" and node0: "(node0, 0x2a000) \<in> R" and b: "unat img + 2 ^ 20 \<le> 2 ^ 64"
    and s: "loading e q R (laid_out e f node0 img {0..<unat (section_count f)}) s" and fr: "frame e q no_image T s0 s"
  shows "\<exists>status s'. thenP (allocate_image e q img) (thenP (initialize_shim_region e q)
      (thenP (for_ok (copy_section q) [0..<unat (section_count f)]) (capture_task_template e))) s = Some (status, s') \<and>
    sections_result e q R f status s'"
proof -
  let ?is = "[0..<unat (section_count f)]"
  obtain st s2 where a: "allocate_image e q img s = Some (st, s2)" "allocate_result e q R f node0 st s2"
    by (rule tripleE [OF allocate_image_loading [OF e b refl] s])
  show ?thesis
  proof (cases "st = KB_OK")
    case False
    then show ?thesis using a by (auto simp: thenP_def allocate_result_def sections_result_def)
  next
    case True
    with a(2) obtain base n task k where t: "4096 \<le> k" "task \<noteq> NULL"
      "loading e q (insert (task, k) (insert (base, n) R)) (tasked e f node0 base n task) s2"
      by (auto simp: allocate_result_def)
    let ?R = "insert (task, k) (insert (base, n) R)"
    have T: "shared_task s2 \<noteq> NULL" using allocate_image_shared a(1) True by blast
    have f2: "frame e q anything (shared_task s2) s0 s2"
      using frame_known_task [OF movesD [OF moves_allocate_image a(1) fr] refl] .
    have i: "image_regions ?R node0 base n task" using node0 t(1) by (auto simp: image_regions_def)
    have lt: "\<forall>i\<in>set ?is. i < unat (section_count f)" by simp
    obtain status s' secs where s':
      "thenP (initialize_shim_region e q) (thenP (for_ok (copy_section q) ?is) (capture_task_template e)) s2 = Some (status, s')"
      "loading e q ?R (with_sections e f base n secs) s'"
      using initialize_and_copy [OF e i T lt t(3) f2] by (elim exE conjE)
    moreover have "sections_result e q R f status s'"
      using loading_subset [OF s'(2), of "insert (base, n) R"] loading_any [OF loading_insert [OF loading_insert [OF s'(2)]]]
      by (auto simp: sections_result_def)
    ultimately show ?thesis using a(1) True by (auto simp: thenP_def)
  qed
qed

lemma load_sections_loading:
  assumes e: "env_ok e" and "elf_wf f" and "sections_bounded f" and node0: "(node0, 0x2a000) \<in> R"
  shows "triple (\<lambda>s. loading e q R (laid_out e f node0 0 {}) s \<and> frame e q no_image T s0 s) (load_sections e q)
    (sections_result e q R f)"
proof (rule tripleI, elim conjE)
  fix s assume s: "loading e q R (laid_out e f node0 0 {}) s" and fr: "frame e q no_image T s0 s"
  let ?is = "[0..<unat (section_count f)]"
  let ?tail = "\<lambda>img. thenP (allocate_image e q img) (thenP (initialize_shim_region e q)
      (thenP (for_ok (copy_section q) ?is) (capture_task_template e)))"
  from s obtain m where m: "modules s q = Some m" "laid_out e f node0 0 {} m" by (auto simp: loading_def)
  then have run: "load_sections e q s = withP (layout_sections e q ?is 0 None) ?tail s"
    by (simp add: load_sections_def moduleP_def laid_out_def Let_def)
  have b: "sum_list (map (section_cost f) ?is) + 2 ^ 20 \<le> 2 ^ 64" using assms(3) by (simp add: sections_bounded_def)
  obtain r s1 where r: "layout_sections e q ?is 0 None s = Some (r, s1)"
    "layout_result e q R f node0 (sum_list (map (section_cost f) ?is)) (set ?is) r s1"
    by (rule tripleE [OF layout_sections_loading [OF e assms(2), of ?is 0 q R node0 "{}" None] s]) (use b in auto)
  have fr1: "frame e q no_image T s0 s1" by (rule preservesD [OF preserves_layout r(1) fr])
  show "\<exists>status s'. load_sections e q s = Some (status, s') \<and> sections_result e q R f status s'"
  proof (cases r)
    case (Inl err)
    have "err \<noteq> KB_OK" using layout_error r(1) Inl unfolding proper_errors_def by blast
    then show ?thesis using run r Inl by (simp add: withP_def layout_result_def sections_result_def)
  next
    case (Inr img)
    with r(2) have l: "loading e q R (laid_out e f node0 img {0..<unat (section_count f)}) s1"
      "unat img \<le> sum_list (map (section_cost f) ?is)" by (simp_all add: layout_result_def)
    then have "unat img + 2 ^ 20 \<le> 2 ^ 64" using b by simp
    from allocate_and_copy [OF e node0 this l(1) fr1] show ?thesis
      using run r(1) Inr by (simp add: withP_def)
  qed
qed

section \<open>Opening\<close>

lemma prepare_module_loading:
  assumes "env_ok e" and "elf_wf f" and "sections_bounded f" and "(node0, 0x2a000) \<in> R"
  shows "triple (\<lambda>s. loading e q R (laid_out e f node0 0 {}) s \<and> frame e q no_image T s0 s) (prepare_module e q)
    (sections_result e q R f)"
  unfolding prepare_module_def
proof (rule triple_then)
  let ?after = "\<lambda>s. \<exists>base n secs. loading e q (insert (base, n) R) (with_sections e f base n secs) s"
  show "triple (\<lambda>s. loading e q R (laid_out e f node0 0 {}) s \<and> frame e q no_image T s0 s) (load_sections e q)
      (\<lambda>status s. if status = KB_OK then ?after s else sections_result e q R f status s)"
    by (rule triple_weaken [OF load_sections_loading [OF assms]]) (auto simp: sections_result_def)
  show "triple ?after (thenP (apply_relocations e q) (thenP (patch_module_static_trace_calls e q)
      (thenP (patch_module_xhci_command_doorbell e q) (thenP (register_module_exports e q)
      (thenP (find_init e q) (thenP (find_cleanup e q) (finalize_section_protections e q)))))))
      (sections_result e q R f)"
  proof (rule tripleI, elim exE)
    fix s base n secs assume s: "loading e q (insert (base, n) R) (with_sections e f base n secs) s"
    show "\<exists>status s'. thenP (apply_relocations e q) (thenP (patch_module_static_trace_calls e q)
      (thenP (patch_module_xhci_command_doorbell e q) (thenP (register_module_exports e q)
      (thenP (find_init e q) (thenP (find_cleanup e q) (finalize_section_protections e q)))))) s = Some (status, s') \<and>
      sections_result e q R f status s'"
      by (rule keepsE [OF keeps_after_sections [OF assms(1), of base n "insert (base, n) R"] s])
        (auto simp: sections_result_def intro: loading_any [OF loading_insert])
  qed
qed

text \<open>The image that the caller passes: its size does not exceed its data, and its sections fit the address space.\<close>

definition image_ok :: "kb_module_image \<Rightarrow> bool" where
  "image_ok img \<longleftrightarrow> (\<forall>bs. img_data img = Some bs \<longrightarrow> unat (img_size img) \<le> length bs \<and>
     (\<forall>f. kb_elf_open (Some bs) (img_size img) True = Done f \<longrightarrow> sections_bounded f))"

text \<open>The structure before the file is opened.\<close>

definition blank :: "'w loader_env \<Rightarrow> ptr \<Rightarrow> kb_module \<Rightarrow> bool" where
  "blank e node0 m \<longleftrightarrow> m_kernel_gs m = kernel_gs e \<and> m_shim_node0 m = node0 \<and> m_percpu_offset m = 0 \<and> m_percpu_size m = 0"

definition open_result :: "'w loader_env \<Rightarrow> ptr \<Rightarrow> kb_status \<Rightarrow> 'w loader \<Rightarrow> bool" where
  "open_result e q status s \<longleftrightarrow>
     (if status = KB_OK then \<exists>f base n secs. loading e q {(base, n)} (with_sections e f base n secs) s
      else loading e q {} (\<lambda>_. True) s)"

text \<open>The result of opening, together with what stays as it was.\<close>

definition open_done :: "'w loader_env \<Rightarrow> ptr \<Rightarrow> 'w loader \<Rightarrow> kb_status \<Rightarrow> 'w loader \<Rightarrow> bool" where
  "open_done e q s0 status s \<longleftrightarrow> open_result e q status s \<and> frame e q anything NULL s0 s"

lemma sections_open_result: "sections_result e q R f status s \<Longrightarrow> open_result e q status s"
  unfolding sections_result_def open_result_def
  using loading_subset [where R' = "{(b, n)}" and R = "insert (b, n) R" for b n] loading_subset [where R' = "{}" and R = R]
  by (simp split: if_splits) blast

lemma open_done_failed:
  "loading e q R M s \<Longrightarrow> frame e q K NULL s0 s \<Longrightarrow> err \<noteq> KB_OK \<Longrightarrow> open_done e q s0 err s"
  by (auto simp: open_result_def open_done_def intro: loading_subset frame_mono)

lemma triple_frame: "triple P m Q \<Longrightarrow> preserves F m \<Longrightarrow> triple (\<lambda>s. P s \<and> F s) m (\<lambda>a s. Q a s \<and> F s)"
  unfolding triple_def preserves_def by blast

lemma triple_moves:
  "triple (\<lambda>s. P s \<and> F s) m Q \<Longrightarrow> moves F m G \<Longrightarrow> triple (\<lambda>s. P s \<and> F s) m (\<lambda>a s. Q a s \<and> G s)"
  unfolding triple_def moves_def by blast

lemma blank_laid_out:
  "blank e node0 m \<Longrightarrow> m_elf m = f \<Longrightarrow> elf_wf f \<Longrightarrow> laid_out e f node0 0 {}
    (m\<lparr>m_sections_at := p, m_sections := replicate (unat (kb_elf_section_count (Some f))) zero_section\<rparr>)"
  by (simp add: blank_def laid_out_def kb_elf_section_count_def zero_section_def)

lemma kb_elf_open_error: "kb_elf_open d sz o' \<noteq> Fail KB_OK"
  unfolding kb_elf_open_def Let_def
  by (cases d) (simp_all add: bindO_not_Fail)

section \<open>Memory that becomes part of the module\<close>

text \<open>What \<^verbatim>\<open>malloc\<close> and \<^verbatim>\<open>calloc\<close> do to the state.\<close>

definition gained :: "'w loader \<Rightarrow> nat \<Rightarrow> ptr \<Rightarrow> 'w loader \<Rightarrow> bool" where
  "gained s n p s1 \<longleftrightarrow> (\<exists>w x. if p = NULL then s1 = s\<lparr>world := w\<rparr> else fresh_region (regions s) p n \<and>
     s1 = s\<lparr>world := w, regions := (p, n) # regions s, mem := x\<rparr>)"

lemma calloc_gained: "callocP e n s = Some (p, s1) \<Longrightarrow> gained s n p s1"
  by (auto simp: callocP_def gained_def fresh_region_def split: prod.splits if_splits)

lemma copy_string_gained:
  assumes "kb_copy_string e v s = Some (p, s1)"
  shows "gained s (length (copied_string e v) + 1) p s1"
proof -
  obtain p' w where w: "e_malloc e (length (copied_string e v) + 1) (world s) = (p', w)" by force
  show ?thesis
  proof (cases "fresh_region (regions s) p' (length (copied_string e v) + 1)")
    case False
    with assms w show ?thesis by (auto simp: kb_copy_string_def mallocP_def bindP_def gained_def)
  next
    case True
    then have "p' \<noteq> NULL" by (simp add: fresh_region_def)
    with assms w True show ?thesis
      by (auto simp: kb_copy_string_def mallocP_def bindP_def gained_def pokeP_def split: option.splits if_splits)
  qed
qed

lemma gained_loading:
  assumes "gained s n p s1" and "loading e q R M s"
  shows "loading e q (if p = NULL then R else insert (p, n) R) M s1"
proof (cases "p = NULL")
  case False
  then obtain w x where "fresh_region (regions s) p n" "s1 = s\<lparr>world := w, regions := (p, n) # regions s, mem := x\<rparr>"
    using assms(1) by (auto simp: gained_def)
  with False show ?thesis using loading_fresh [of e q R M "s\<lparr>world := w\<rparr>" p n] assms(2) by simp
qed (use assms in \<open>auto simp: gained_def\<close>)

text \<open>The allocations that opening makes return.\<close>

lemma calloc_total: "callocP e n s \<noteq> None"
  by (simp add: callocP_def split: prod.splits)

lemma copy_string_total: "kb_copy_string e v s \<noteq> None"
proof -
  let ?n = "length (copied_string e v) + 1"
  have "mapped ((p, ?n) # rs) p ?n" for p :: ptr and rs by (rule mapped_offset [where b = p and k = ?n]) auto
  then show ?thesis by (auto simp: kb_copy_string_def mallocP_def bindP_def pokeP_def split: prod.splits)
qed

text \<open>The module keeps the address: \<open>m'\<close> holds the memory at \<open>p\<close> in addition to that of \<open>m\<close>.\<close>

definition holds_also :: "'w loader_env \<Rightarrow> ptr \<Rightarrow> nat \<Rightarrow> ptr \<Rightarrow> kb_module \<Rightarrow> kb_module \<Rightarrow> bool" where
  "holds_also e q n p m m' \<longleftrightarrow>
     module_ptrs q m' = (if p = NULL then module_ptrs q m else add_mset p (module_ptrs q m)) \<and>
     (\<forall>rs. returnable e rs q m \<longrightarrow> returnable e (if p = NULL then rs else (p, n) # rs) q m')"

lemma frame_store:
  assumes f: "frame e q K T s0 s" and g: "gained s n p s1" and u: "set_moduleP q g s1 = Some (a, s2)"
    and h: "\<And>m. K (m_shim_node0 m) (m_name_at m) (m_sections_at m) (m_image_base m) \<Longrightarrow> holds_also e q n p m (g m) \<and>
      K' (m_shim_node0 (g m)) (m_name_at (g m)) (m_sections_at (g m)) (m_image_base (g m))"
  shows "frame e q K' T s0 s2"
proof -
  from f obtain m where m: "modules s q = Some m" "K (m_shim_node0 m) (m_name_at m) (m_sections_at m) (m_image_base m)"
    "returnable e (regions s) q m" "held s + shared_ptrs s0 = held s0 + shared_ptrs s + module_ptrs q m"
    unfolding frame_def by blast
  note h = h [OF m(2)]
  have s2: "s2 = s1\<lparr>modules := (modules s1)(q \<mapsto> g m)\<rparr>" "modules s1 = modules s"
    using u g m(1) by (auto simp: gained_def set_moduleP_def split: if_splits)
  show ?thesis
  proof (cases "p = NULL")
    case True
    then obtain w where s1: "s1 = s\<lparr>world := w\<rparr>" using g by (auto simp: gained_def)
    have "held s2 = held s" "shared_ptrs s2 = shared_ptrs s" "shared_kept T s0 s2 = shared_kept T s0 s"
      by (simp_all add: s1 s2 held_def shared_ptrs_def shared_kept_def)
    then show ?thesis using f m(3,4) h True unfolding frame_def by (auto simp: s1 s2 holds_also_def)
  next
    case False
    then obtain w x where s1: "s1 = s\<lparr>world := w, regions := (p, n) # regions s, mem := x\<rparr>"
      using g by (auto simp: gained_def)
    show ?thesis
      unfolding s2(1) by (rule frame_gain [OF f m(1), where p = p and n = n]) (use h m(3) False in \<open>auto simp: s1 holds_also_def\<close>)
  qed
qed

lemma triple_store:
  assumes total: "\<And>s. alloc s \<noteq> None" and gain: "\<And>s p s1. alloc s = Some (p, s1) \<Longrightarrow> gained s n p s1"
    and M: "\<And>p m. M m \<Longrightarrow> M' p (g p m)"
    and h: "\<And>p m. K (m_shim_node0 m) (m_name_at m) (m_sections_at m) (m_image_base m) \<Longrightarrow> holds_also e q n p m (g p m) \<and>
      K' (m_shim_node0 (g p m)) (m_name_at (g p m)) (m_sections_at (g p m)) (m_image_base (g p m))"
    and k: "\<And>p. triple (\<lambda>s. loading e q (if p = NULL then R else insert (p, n) R) (M' p) s \<and> frame e q K' T s0 s) (k p) Q"
  shows "triple (\<lambda>s. loading e q R M s \<and> frame e q K T s0 s) (bindP alloc (\<lambda>p. bindP (set_moduleP q (g p)) (\<lambda>_. k p))) Q"
proof (rule tripleI, elim conjE)
  fix s assume s: "loading e q R M s" "frame e q K T s0 s"
  obtain p s1 where a: "alloc s = Some (p, s1)" using total [of s] by auto
  let ?R = "if p = NULL then R else insert (p, n) R"
  note l = gained_loading [OF gain [OF a] s(1)]
  have "triple (loading e q ?R M) (set_moduleP q (g p)) (\<lambda>_. loading e q ?R (M' p))"
    by (rule triple_set_module) (use M in simp)
  then obtain s2 where u: "set_moduleP q (g p) s1 = Some ((), s2)" "loading e q ?R (M' p) s2"
    using l by (auto elim!: tripleE)
  have "frame e q K' T s0 s2" by (rule frame_store [OF s(2) gain [OF a] u(1) h])
  with u(2) obtain r s3 where "k p s2 = Some (r, s3)" "Q r s3" using tripleD [OF k [of p], of s2] by blast
  with a u(1) show "\<exists>r s'. bindP alloc (\<lambda>p. bindP (set_moduleP q (g p)) (\<lambda>_. k p)) s = Some (r, s') \<and> Q r s'" by simp
qed

section \<open>The stages of opening\<close>

abbreviation (input) no_sections :: "ptr \<Rightarrow> ptr \<Rightarrow> ptr \<Rightarrow> ptr \<Rightarrow> bool" where
  "no_sections \<equiv> \<lambda>node0 name secs base. secs = NULL \<and> base = NULL"
abbreviation (input) name_only :: "ptr \<Rightarrow> ptr \<Rightarrow> ptr \<Rightarrow> ptr \<Rightarrow> bool" where
  "name_only \<equiv> \<lambda>node0 name secs base. node0 = NULL \<and> secs = NULL \<and> base = NULL"
abbreviation (input) no_memory :: "ptr \<Rightarrow> ptr \<Rightarrow> ptr \<Rightarrow> ptr \<Rightarrow> bool" where
  "no_memory \<equiv> \<lambda>node0 name secs base. node0 = NULL \<and> name = NULL \<and> secs = NULL \<and> base = NULL"

lemma triple_failed:
  "err \<noteq> KB_OK \<Longrightarrow> triple (\<lambda>s. loading e q R M s \<and> frame e q K NULL s0 s) (returnP err) (open_done e q s0)"
  by (rule triple_return) (auto intro: open_done_failed)

text \<open>The section table, and then the sections.\<close>

lemma sections_and_prepare:
  assumes e: "env_ok e" and wf: "elf_wf f" "sections_bounded f" and node0: "(node0, 0x2a000) \<in> R"
  shows "triple (\<lambda>s. loading e q R (\<lambda>m. blank e node0 m \<and> m_elf m = f) s \<and> frame e q no_sections NULL s0 s)
     (bindP (callocP e (unat (kb_elf_section_count (Some f)) * 40)) (\<lambda>sections.
      bindP (set_moduleP q (\<lambda>m. m\<lparr>m_sections_at := sections,
        m_sections := replicate (unat (kb_elf_section_count (Some f))) zero_section\<rparr>)) (\<lambda>_.
      if sections = NULL then returnP KB_ERR_NOMEM else
      bindP (write_u64le (kernel_gs e + 0x28) 0x6b6f626f785f6773) (\<lambda>_. prepare_module e q)))) (open_done e q s0)"
proof (rule triple_store [OF calloc_total calloc_gained, where M' = "\<lambda>_. laid_out e f node0 0 {}" and K' = no_image])
  show "laid_out e f node0 0 {} (m\<lparr>m_sections_at := p, m_sections := replicate (unat (kb_elf_section_count (Some f))) zero_section\<rparr>)"
    if "blank e node0 m \<and> m_elf m = f" for p m
    using blank_laid_out [of e node0 m f p] that wf(1) by simp
  fix p :: ptr
  let ?R = "if p = NULL then R else insert (p, unat (kb_elf_section_count (Some f)) * 40) R"
  let ?I = "\<lambda>s. loading e q ?R (laid_out e f node0 0 {}) s \<and> frame e q no_image NULL s0 s"
  have gs: "triple ?I (write_u64le (kernel_gs e + 0x28) 0x6b6f626f785f6773) (\<lambda>_. ?I)"
    unfolding keeps_def [symmetric] by (intro keeps_frame keeps_write_u64le loading_gs_mapped preserves) auto
  have "triple ?I (prepare_module e q) (\<lambda>a s. sections_result e q ?R f a s \<and> frame e q anything NULL s0 s)"
    by (intro triple_moves prepare_module_loading moves_prepare_module e wf) (use node0 in auto)
  then have prep: "triple ?I (prepare_module e q) (open_done e q s0)"
    by (rule triple_weaken) (auto simp: open_done_def intro: sections_open_result)
  show "triple ?I (if p = NULL then returnP KB_ERR_NOMEM else
      bindP (write_u64le (kernel_gs e + 0x28) 0x6b6f626f785f6773) (\<lambda>_. prepare_module e q)) (open_done e q s0)"
    by (intro triple_if triple_failed triple_bind [OF gs] prep) simp
qed (auto simp: holds_also_def module_ptrs_def returnable_def)

text \<open>The file.\<close>

lemma open_elf_loading:
  assumes e: "env_ok e" and img: "image_ok img" "img_data img = Some bs" and node0: "(node0, 0x2a000) \<in> R"
  shows "triple (\<lambda>s. loading e q R (blank e node0) s \<and> frame e q no_sections NULL s0 s) (open_elf e q img) (open_done e q s0)"
  unfolding open_elf_def
proof (rule triple_with)
  let ?I = "\<lambda>M s. loading e q R M s \<and> frame e q no_sections NULL s0 s"
  have safe: "safe (kb_elf_open (Some bs) (img_size img) True)" using img by (auto simp: image_ok_def)
  show "triple (?I (blank e node0)) (outcomeP (kb_elf_open (img_data img) (img_size img) True))
     (\<lambda>r s. case r of Inl err \<Rightarrow> open_done e q s0 err s
        | Inr f \<Rightarrow> ?I (blank e node0) s \<and> kb_elf_open (Some bs) (img_size img) True = Done f)"
    unfolding img(2) by (rule triple_weaken [OF triple_outcome [OF safe, of "?I (blank e node0)"]])
      (auto split: sum.splits intro: open_done_failed simp: kb_elf_open_error)
  fix f
  show "triple (\<lambda>s. ?I (blank e node0) s \<and> kb_elf_open (Some bs) (img_size img) True = Done f)
     (bindP (set_moduleP q (m_elf_update (\<lambda>_. f))) (\<lambda>_.
      if elf_type f \<noteq> KB_ELF_ET_REL \<or> elf_machine f \<noteq> KB_ELF_EM_X86_64 then returnP KB_ERR_UNSUPPORTED
      else let count = unat (kb_elf_section_count (Some f)) in
      bindP (callocP e (count * 40)) (\<lambda>sections.
      bindP (set_moduleP q (\<lambda>m. m\<lparr>m_sections_at := sections, m_sections := replicate count zero_section\<rparr>)) (\<lambda>_.
      if sections = NULL then returnP KB_ERR_NOMEM else
      bindP (write_u64le (kernel_gs e + 0x28) 0x6b6f626f785f6773) (\<lambda>_. prepare_module e q))))) (open_done e q s0)"
    (is "triple _ ?m _")
  proof (rule triple_pure)
    assume f: "kb_elf_open (Some bs) (img_size img) True = Done f"
    have wf: "elf_wf f" "sections_bounded f" using kb_elf_open_Done(1) [OF f] f img by (auto simp: image_ok_def)
    have 1: "triple (?I (blank e node0)) (set_moduleP q (m_elf_update (\<lambda>_. f))) (\<lambda>_. ?I (\<lambda>m. blank e node0 m \<and> m_elf m = f))"
      by (intro triple_frame triple_set_module preserves) (auto simp: blank_def)
    have "triple (?I (blank e node0)) ?m (open_done e q s0)"
      unfolding Let_def by (intro triple_bind [OF 1] triple_if triple_failed sections_and_prepare e wf node0) simp
    then show "triple (\<lambda>s. ?I (blank e node0) s \<and> kb_elf_open (Some bs) (img_size img) True = Done f) ?m (open_done e q s0)"
      by (rule triple_weaken) auto
  qed auto
qed

text \<open>The name, the node data, and then the file.\<close>

lemma open_module_loading:
  assumes e: "env_ok e" and img: "image_ok img" "img_data img = Some bs"
  shows "triple (\<lambda>s. loading e q {} (\<lambda>m. m = zero_module) s \<and> frame e q no_memory NULL s0 s)
    (open_module e q img backend) (open_done e q s0)"
proof -
  have 1: "triple (\<lambda>s. loading e q {} (\<lambda>m. m = zero_module) s \<and> frame e q no_memory NULL s0 s)
      (set_moduleP q (\<lambda>m. m\<lparr>m_kernel_gs := kernel_gs e, m_backend := backend\<rparr>))
      (\<lambda>_ s. loading e q {} (blank e NULL) s \<and> frame e q no_memory NULL s0 s)"
    by (intro triple_frame triple_set_module preserves) (auto simp: blank_def zero_module_def)
  have 2: "triple (\<lambda>s. loading e q R (blank e NULL) s \<and> frame e q name_only NULL s0 s)
      (bindP (callocP e 0x2a000) (\<lambda>node0. bindP (set_moduleP q (m_shim_node0_update (\<lambda>_. node0))) (\<lambda>_.
        if node0 = NULL then returnP KB_ERR_NOMEM else open_elf e q img))) (open_done e q s0)" for R
    by (rule triple_store [OF calloc_total calloc_gained, where M' = "blank e" and K' = no_sections])
      (auto simp: blank_def holds_also_def module_ptrs_def returnable_def intro!: triple_failed open_elf_loading [OF e img] split: if_splits)
  show ?thesis
    unfolding open_module_def
    by (rule triple_bind [OF 1], rule triple_store [OF copy_string_total copy_string_gained, where M' = "\<lambda>_. blank e NULL" and K' = name_only])
      (auto simp: blank_def holds_also_def module_ptrs_def returnable_def intro!: triple_failed 2)
qed

end
