(* ===== verification/Loader_Properties.thy ===== *)
theory Loader_Properties
  imports Loader_Open Elf_Properties
begin

text \<open>
  The invariant of the loader between calls, and the theorems about opening and closing modules.
\<close>

section \<open>The invariant between calls\<close>

definition mods :: "(ptr \<Rightarrow> kb_module option) \<Rightarrow> ptr list \<Rightarrow> ptr multiset" where
  "mods ms ps = sum_list (map (\<lambda>p. module_ptrs p (the (ms p))) ps)"

text \<open>The memory that the loader needs: the per-CPU area, the shared pages and what the modules hold.\<close>

definition in_use :: "'w loader_env \<Rightarrow> 'w loader \<Rightarrow> ptr list \<Rightarrow> ptr multiset" where
  "in_use e s ps = add_mset (kernel_gs e) (shared_ptrs s + mods (modules s) ps)"

definition jiffies_ok :: "'w loader \<Rightarrow> bool" where
  "jiffies_ok s \<longleftrightarrow> (\<forall>p\<in>set (jiffies_storages s). p = NULL \<or> mapped (regions s) p 8)"

text \<open>Everything but the registered tick counters.\<close>

definition loader_base :: "'w loader_env \<Rightarrow> 'w loader \<Rightarrow> bool" where
  "loader_base e s \<longleftrightarrow> loader_ok e (s\<lparr>jiffies_storages := []\<rparr>) \<and> exports_ok (e_str e) (exported s) \<and>
     (\<forall>(v, p) \<in> ran (exports_map (e_str e) (exported s)). p \<in> set (kb_loaded_modules s)) \<and>
     dom (modules s) = set (kb_loaded_modules s) \<and> NULL \<notin> set (kb_loaded_modules s) \<and>
     (\<forall>p\<in>set (kb_loaded_modules s). returnable e (regions s) p (the (modules s p))) \<and>
     in_use e s (kb_loaded_modules s) \<subseteq># held s"

definition loader_inv :: "'w loader_env \<Rightarrow> 'w loader \<Rightarrow> bool" where
  "loader_inv e s \<longleftrightarrow> loader_base e s \<and> jiffies_ok s"

lemma loader_ok_jiffies: "loader_ok e s \<longleftrightarrow> loader_ok e (s\<lparr>jiffies_storages := []\<rparr>) \<and> jiffies_ok s"
  by (auto simp: loader_ok_def jiffies_ok_def)

lemma loader_inv_ok: "loader_inv e s \<Longrightarrow> loader_ok e s"
  unfolding loader_inv_def loader_base_def using loader_ok_jiffies by blast

section \<open>Giving memory back\<close>

lemma regions_ok_distinct: "regions_ok rs \<Longrightarrow> distinct (map fst rs) \<and> NULL \<notin> set (map fst rs)"
  by (induction rs rule: regions_ok.induct) (auto simp: fresh_region_def list_all_iff)

lemma distinct_submset: "mset xs \<subseteq># mset ys \<Longrightarrow> distinct ys \<Longrightarrow> distinct xs"
proof (induction xs arbitrary: ys)
  case (Cons x xs)
  then have x: "x \<in> set ys" by (metis insert_subset list.simps(15) set_mset_mono set_mset_mset)
  with Cons.prems have "mset xs \<subseteq># mset (remove1 x ys)" by (simp add: insert_subset_eq_iff)
  moreover have "distinct (remove1 x ys)" "set (remove1 x ys) = set ys - {x}" using Cons.prems(2) by simp_all
  ultimately show ?case using Cons.IH [of "remove1 x ys"] by (metis Diff_iff distinct.simps(2) insertI1 set_mset_mono set_mset_mset subset_iff)
qed simp

lemma held_filter:
  assumes "distinct (map fst rs)" and "mset ps \<subseteq># mset (map fst rs)"
  shows "mset (map fst (filter (\<lambda>r. fst r \<notin> set ps) rs)) = mset (map fst rs) - mset ps"
proof (rule multiset_eqI)
  fix x
  have f: "mset (map fst (filter (\<lambda>r. fst r \<notin> set ps) rs)) = filter_mset (\<lambda>x. x \<notin> set ps) (mset (map fst rs))"
    by (induction rs) auto
  have 1: "count (mset (map fst rs)) x \<le> 1"
    using assms(1) by (simp add: distinct_count_atmost_1 split: if_splits)
  have 2: "c \<le> Suc 0 \<Longrightarrow> x \<in> set ps \<Longrightarrow> c \<le> count (mset ps) x" for c
    by (metis One_nat_def count_greater_eq_one_iff le_trans set_mset_mset)
  have 3: "x \<notin> set ps \<Longrightarrow> c - count (mset ps) x = c" for c
    by (metis count_mset_0_iff diff_zero)
  show "count (mset (map fst (filter (\<lambda>r. fst r \<notin> set ps) rs))) x = count (mset (map fst rs) - mset ps) x"
    unfolding f count_filter_mset count_diff using 1 2 by (auto simp: 3)
qed

text \<open>The addresses \<open>ps\<close> were given back already, and \<open>p\<close> is next.\<close>

lemma free_run:
  assumes rs: "regions s = filter (\<lambda>r. fst r \<notin> set ps) rs" and nn: "NULL \<notin> set (map fst rs)"
    and p: "p = NULL \<or> p \<in> fst ` set rs \<and> p \<notin> set ps"
  shows "\<exists>w. freeP e p s = Some ((), s\<lparr>world := w, regions := filter (\<lambda>r. fst r \<notin> set (p # ps)) rs\<rparr>)"
proof (cases "p = NULL")
  case True
  then have "filter (\<lambda>r. fst r \<notin> set (p # ps)) rs = regions s" unfolding rs using nn by (intro filter_cong) auto
  with True show ?thesis by (intro exI [of _ "world s"]) (simp add: freeP_def)
next
  case False
  with p have "p \<in> fst ` set (regions s)" by (auto simp: rs)
  moreover have "filter (\<lambda>r. fst r \<noteq> p) (regions s) = filter (\<lambda>r. fst r \<notin> set (p # ps)) rs"
    unfolding rs filter_filter by (intro filter_cong) auto
  ultimately show ?thesis using False by (auto simp: freeP_def)
qed

lemma free_sections_run:
  assumes "returnable e (regions s) q m" and "NULL \<notin> set (map fst (regions s))"
  shows "\<exists>w. free_section_memory e (m_image_base m) (m_image_size m) s =
    Some ((), s\<lparr>world := w, regions := filter (\<lambda>r. fst r \<noteq> m_image_base m) (regions s)\<rparr>)"
proof (cases "m_image_base m = NULL")
  case True
  then have "filter (\<lambda>r. fst r \<noteq> m_image_base m) (regions s) = regions s" using assms(2) by (auto intro!: filter_True)
  with True show ?thesis by (intro exI [of _ "world s"]) (simp add: free_section_memory_def)
next
  case False
  with assms(1) show ?thesis by (auto simp: free_section_memory_def munmapP_def returnable_def)
qed

definition own_ptrs :: "ptr \<Rightarrow> kb_module \<Rightarrow> ptr list" where
  "own_ptrs q m = filter (\<lambda>p. p \<noteq> NULL) [q, m_shim_node0 m, m_name_at m, m_sections_at m, m_image_base m]"

lemma own_ptrs: "module_ptrs q m = mset (own_ptrs q m)"
  by (simp add: own_ptrs_def module_ptrs_def)

text \<open>What is left after a module was destroyed.\<close>

definition destroyed :: "ptr \<Rightarrow> kb_module \<Rightarrow> 'w \<Rightarrow> 'w loader \<Rightarrow> 'w loader" where
  "destroyed q m w s = s\<lparr>kb_loaded_modules := remove1 q (kb_loaded_modules s),
     exported := kb_loader_symbol_registry_remove_owner (exported s) q, world := w,
     regions := filter (\<lambda>r. fst r \<notin> set (own_ptrs q m)) (regions s), modules := (modules s)(q := None)\<rparr>"

lemma destroy_run:
  assumes m: "modules s q = Some m" and q: "q \<noteq> NULL" and r: "returnable e (regions s) q m"
    and d: "distinct (own_ptrs q m)" and nn: "NULL \<notin> set (map fst (regions s))"
  shows "\<exists>w. destroy_module e q s = Some ((), destroyed q m w s)"
proof -
  let ?rs = "\<lambda>ps. filter (\<lambda>r. fst r \<notin> set ps) (regions s)"
  let ?s1 = "s\<lparr>kb_loaded_modules := remove1 q (kb_loaded_modules s),
      exported := kb_loader_symbol_registry_remove_owner (exported s) q\<rparr>"
  let ?t = "\<lambda>w ps. ?s1\<lparr>world := w, regions := ?rs ps\<rparr>"
  let ?i = "m_image_base m" and ?n = "m_shim_node0 m" and ?c = "m_name_at m" and ?d = "m_sections_at m"
  have apart: "?n \<noteq> NULL \<Longrightarrow> ?n \<notin> set [?i]" "?c \<noteq> NULL \<Longrightarrow> ?c \<notin> set [?n, ?i]"
    "?d \<noteq> NULL \<Longrightarrow> ?d \<notin> set [?c, ?n, ?i]" "q \<notin> set [?d, ?c, ?n, ?i]"
    using d q by (auto simp: own_ptrs_def split: if_splits)
  have there: "?n = NULL \<or> ?n \<in> fst ` set (regions s)" "?c = NULL \<or> ?c \<in> fst ` set (regions s)"
    "?d = NULL \<or> ?d \<in> fst ` set (regions s)" "q \<in> fst ` set (regions s)"
    using r by (force simp: returnable_def)+
  note free = free_run [where rs = "regions s" and e = e, OF _ nn]
  obtain w1 where 1: "free_section_memory e ?i (m_image_size m) ?s1 = Some ((), ?t w1 [?i])"
    using free_sections_run [of e ?s1 q m] r nn by auto
  obtain w2 where 2: "freeP e ?n (?t w1 [?i]) = Some ((), ?t w2 [?n, ?i])"
    using free [of "?t w1 [?i]" "[?i]" ?n] there(1) apart(1) by auto
  obtain w3 where 3: "freeP e ?c (?t w2 [?n, ?i]) = Some ((), ?t w3 [?c, ?n, ?i])"
    using free [of "?t w2 [?n, ?i]" "[?n, ?i]" ?c] there(2) apart(2) by auto
  obtain w4 where 4: "freeP e ?d (?t w3 [?c, ?n, ?i]) = Some ((), ?t w4 [?d, ?c, ?n, ?i])"
    using free [of "?t w3 [?c, ?n, ?i]" "[?c, ?n, ?i]" ?d] there(3) apart(3) by auto
  obtain w5 where 5: "freeP e q (?t w4 [?d, ?c, ?n, ?i]) = Some ((), ?t w5 [q, ?d, ?c, ?n, ?i])"
    using free [of "?t w4 [?d, ?c, ?n, ?i]" "[?d, ?c, ?n, ?i]" q] there(4) apart(4) by auto
  have all: "?rs [q, ?d, ?c, ?n, ?i] = ?rs (own_ptrs q m)"
    using nn by (intro filter_cong refl) (force simp: own_ptrs_def)
  have upd: "exported_update (\<lambda>tab. kb_loader_symbol_registry_remove_owner tab q) (kb_loaded_modules_update (remove1 q) s) = ?s1"
    by simp
  have "free_loaded_sections e q ?s1 = Some ((), ?t w1 [?i])"
    unfolding free_loaded_sections_def using 1 m q by (simp add: moduleP_def)
  moreover have "moduleP q (?t w1 [?i]) = Some (m, ?t w1 [?i])" using m by (simp add: moduleP_def)
  ultimately have "destroy_module e q s = Some ((), (?t w5 [q, ?d, ?c, ?n, ?i])\<lparr>modules := (modules s)(q := None)\<rparr>)"
    unfolding destroy_module_def unregister_loaded_module_def using q
    by (simp only: bindP_run prog_run upd 2 3 4 5 if_False) simp
  then show ?thesis unfolding destroyed_def all [symmetric] by (intro exI [of _ w5]) simp
qed

section \<open>After a module was destroyed\<close>

lemma held_destroyed:
  assumes "distinct (map fst (regions s))" and "module_ptrs q m \<subseteq># held s"
  shows "held (destroyed q m w s) = held s - module_ptrs q m"
  using held_filter [OF assms(1), of "own_ptrs q m"] assms(2) by (simp add: held_def destroyed_def own_ptrs)

text \<open>Memory in use by others stays mapped.\<close>

lemma kept_destroyed:
  assumes d: "distinct (map fst (regions s))" and sub: "U + module_ptrs q m \<subseteq># held s"
    and p: "p \<in># U" "(p, k) \<in> set (regions s)"
  shows "(p, k) \<in> set (regions (destroyed q m w s))"
proof -
  have "count (held s) p \<le> 1" using d by (simp add: held_def distinct_count_atmost_1 split: if_splits)
  moreover have "count U p + count (module_ptrs q m) p \<le> count (held s) p"
    using mset_subset_eq_count [OF sub, of p] by simp
  moreover have "count U p \<ge> 1" using p(1) by simp
  ultimately have "count (module_ptrs q m) p = 0" by linarith
  then have "p \<notin> set (own_ptrs q m)" by (simp add: own_ptrs count_mset_0_iff)
  with p(2) show ?thesis by (simp add: destroyed_def)
qed

lemma mods_remove1: "p \<in> set ps \<Longrightarrow> mods ms ps = module_ptrs p (the (ms p)) + mods ms (remove1 p ps)"
  unfolding mods_def by (rule sum_list_map_remove1)

lemma mods_member: "p \<in> set ps \<Longrightarrow> x \<in># module_ptrs p (the (ms p)) \<Longrightarrow> x \<in># mods ms ps"
  by (simp add: mods_remove1)

lemma mods_cong: "(\<And>p. p \<in> set ps \<Longrightarrow> ms p = ms' p) \<Longrightarrow> mods ms ps = mods ms' ps"
  unfolding mods_def by (rule arg_cong [where f = sum_list]) simp

lemma loader_ok_facts:
  assumes "loader_ok e s"
  shows "regions_ok (regions s)" "distinct (map fst (regions s))" "NULL \<notin> set (map fst (regions s))"
  using assms regions_ok_distinct by (auto simp: loader_ok_def)

text \<open>
  Destroying a module keeps the basic invariant when the memory of the module is disjoint from what
  is in use otherwise.
\<close>

lemma loader_ok_destroyed:
  assumes ok: "loader_ok e (s\<lparr>jiffies_storages := []\<rparr>)" and q: "q \<notin> set (remove1 q (kb_loaded_modules s))"
    and sub: "in_use e s (remove1 q (kb_loaded_modules s)) + module_ptrs q m \<subseteq># held s"
  shows "loader_ok e ((destroyed q m w s)\<lparr>jiffies_storages := []\<rparr>)"
proof -
  let ?L = "remove1 q (kb_loaded_modules s)" and ?s = "destroyed q m w s"
  note facts = loader_ok_facts [OF ok, simplified]
  have kept: "(p, k) \<in> set (regions ?s)" if "p \<in># in_use e s ?L" "(p, k) \<in> set (regions s)" for p k
    using kept_destroyed [OF facts(2) sub that] .
  have gs: "(kernel_gs e, unat KB_LOCAL_GS_SIZE) \<in> set (regions ?s)"
    by (rule kept) (use ok in \<open>auto simp: in_use_def loader_ok_def\<close>)
  have sh: "shared_ok (regions ?s) p" if "shared_ok (regions s) p" "p \<in> {shared_object s, shared_task s, shared_lock s}" for p
    using that kept [of p] by (auto simp: shared_ok_def in_use_def shared_ptrs_def split: if_splits)
  have mod: "\<exists>m f base n. modules ?s p = Some m \<and> module_ready e f base n m \<and> (base, n) \<in> set (regions ?s)" if p: "p \<in> set ?L" for p
  proof -
    from p have "p \<in> set (kb_loaded_modules s)" by (meson notin_set_remove1)
    then obtain m' f base n where m': "modules s p = Some m'" "module_ready e f base n m'" "(base, n) \<in> set (regions s)"
      using ok by (auto simp: loader_ok_def)
    then have "base \<noteq> NULL" using facts(3) by force
    then have "base \<in># module_ptrs p (the (modules s p))" using m' by (auto simp: module_ptrs_def module_ready_def)
    then have "(base, n) \<in> set (regions ?s)" using kept m'(3) mods_member [OF p] by (auto simp: in_use_def)
    moreover have "p \<noteq> q" using p q by auto
    ultimately show ?thesis using m' by (auto simp: destroyed_def)
  qed
  have "regions_ok (regions ?s)" using facts(1) by (simp add: destroyed_def regions_ok_filter)
  with gs sh mod ok show ?thesis
    unfolding loader_ok_def by (auto simp: destroyed_def)
qed

section \<open>Opening an image\<close>

text \<open>A freshly allocated structure is not one of the loaded modules.\<close>

lemma calloc_module:
  assumes inv: "loader_inv e s" and c: "callocP e 544 s = Some (q, s1)" and q: "q \<noteq> NULL"
  defines "s2 \<equiv> s1\<lparr>modules := (modules s1)(q \<mapsto> zero_module)\<rparr>"
  shows "q \<notin> set (kb_loaded_modules s)" "loading e q {} (\<lambda>m. m = zero_module) s2" "frame e q no_memory NULL s s2"
proof -
  obtain p w where w: "e_malloc e 544 (world s) = (p, w)" by force
  with c q have fresh: "fresh_region (regions s) q 544"
    and s1: "s1 = s\<lparr>world := w, regions := (q, 544) # regions s, mem := (\<lambda>a. if unat (a - q) < 544 then 0 else mem s a)\<rparr>"
    by (auto simp: callocP_def split: if_splits)
  show nin: "q \<notin> set (kb_loaded_modules s)"
    using inv fresh_not_base [OF fresh] by (auto simp: loader_inv_def loader_base_def returnable_def)
  have "loader_ok e (s\<lparr>world := w, regions := (q, 544) # regions s\<rparr>)"
    using loader_ok_regions [of e "s\<lparr>world := w\<rparr>" q 544] loader_inv_ok [OF inv] fresh by simp
  then have "loader_ok e s1" unfolding s1 by simp
  moreover have "kb_loaded_modules s1 = kb_loaded_modules s" by (simp add: s1)
  ultimately show "loading e q {} (\<lambda>m. m = zero_module) s2"
    unfolding loading_def s2_def using nin by (auto intro!: loader_ok_modules)
  show "frame e q no_memory NULL s s2"
    unfolding frame_defs s2_def using q
    by (auto simp: s1 returnable_def module_ptrs_def zero_module_def intro!: exI [of _ "[]"])
qed

text \<open>The two ways in which an image that was not refused at once ends up.\<close>

definition open_failed :: "'w loader_env \<Rightarrow> 'w loader \<Rightarrow> 'w loader \<Rightarrow> bool" where
  "open_failed e s s' \<longleftrightarrow> (\<exists>q m s1 w. q \<notin> set (kb_loaded_modules s) \<and> q \<noteq> NULL \<and> frame e q anything NULL s s1 \<and>
     loading e q {} (\<lambda>_. True) s1 \<and> modules s1 q = Some m \<and> s' = destroyed q m w s1)"

definition open_loaded :: "'w loader_env \<Rightarrow> ptr \<Rightarrow> 'w loader \<Rightarrow> 'w loader \<Rightarrow> bool" where
  "open_loaded e q s s' \<longleftrightarrow> q \<notin> set (kb_loaded_modules s) \<and> q \<noteq> NULL \<and> (\<exists>s1 f base n secs.
     frame e q anything NULL s s1 \<and> loading e q {(base, n)} (with_sections e f base n secs) s1 \<and>
     s' = s1\<lparr>kb_loaded_modules := q # kb_loaded_modules s1\<rparr>)"

text \<open>What a module holds while it is loaded is disjoint from what is in use otherwise.\<close>

lemma frame_in_use:
  assumes inv: "loader_base e s" and f: "frame e q K T s s1" and q: "q \<notin> set (kb_loaded_modules s)"
    and m: "modules s1 q = Some m"
  shows "in_use e s1 (kb_loaded_modules s1) + module_ptrs q m \<subseteq># held s1"
proof -
  from inv obtain X where X: "held s = in_use e s (kb_loaded_modules s) + X"
    by (auto simp: loader_base_def subset_mset.le_iff_add)
  have L: "kb_loaded_modules s1 = kb_loaded_modules s" using f by (simp add: frame_def)
  have "mods (modules s1) (kb_loaded_modules s) = mods (modules s) (kb_loaded_modules s)"
    by (rule mods_cong) (use f q in \<open>auto simp: frame_def\<close>)
  moreover have "held s1 + shared_ptrs s = held s + shared_ptrs s1 + module_ptrs q m" using f m by (auto simp: frame_def)
  ultimately have "held s1 = in_use e s1 (kb_loaded_modules s1) + module_ptrs q m + X"
    unfolding X L in_use_def by (simp add: ac_simps)
  then show ?thesis by simp
qed

lemma frame_destroy:
  assumes inv: "loader_base e s" and f: "frame e q K T s s1" and q: "q \<notin> set (kb_loaded_modules s)" "q \<noteq> NULL"
    and l: "loading e q R M s1"
  shows "\<exists>m w. modules s1 q = Some m \<and> destroy_module e q s1 = Some ((), destroyed q m w s1)"
proof -
  from f obtain m where m: "modules s1 q = Some m" "returnable e (regions s1) q m" by (auto simp: frame_def)
  have ok: "loader_ok e s1" using l by (simp add: loading_def)
  have "mset (own_ptrs q m) \<subseteq># mset (map fst (regions s1))"
    using subset_mset.order_trans [OF mset_subset_eq_add_right frame_in_use [OF inv f q(1) m(1)]]
    by (simp add: own_ptrs held_def)
  then have "distinct (own_ptrs q m)"
    using distinct_submset loader_ok_facts(2) [OF ok] by blast
  from destroy_run [OF m(1) q(2) m(2) this loader_ok_facts(3) [OF ok]] m(1) show ?thesis by blast
qed

lemma open_image_cases:
  assumes e: "env_ok e" and inv: "loader_inv e s" and img: "\<forall>img. img_opt = Some img \<longrightarrow> image_ok img"
  shows "\<exists>r s'. kb_module_open_image e img_opt backend out s = Some (r, s') \<and>
    (case r of Inl err \<Rightarrow> s' = s\<lparr>world := world s'\<rparr> \<or> open_failed e s s' | Inr q \<Rightarrow> open_loaded e q s s')"
proof (cases "\<exists>img bs. img_opt = Some img \<and> img_data img = Some bs \<and> img_size img \<noteq> 0 \<and> backend \<noteq> NULL \<and> out")
  case False
  then have "kb_module_open_image e img_opt backend out s = Some (Inl KB_ERR_INVALID, s)"
    by (auto simp: kb_module_open_image_def split: option.splits)
  then show ?thesis by simp
next
  case True
  then obtain i bs where i: "img_opt = Some i" "img_data i = Some bs" "img_size i \<noteq> 0" "backend \<noteq> NULL" out by blast
  have "callocP e 544 s \<noteq> None" by (simp add: callocP_def split: prod.splits)
  then obtain q s1 where c: "callocP e 544 s = Some (q, s1)" by auto
  let ?s2 = "s1\<lparr>modules := (modules s1)(q \<mapsto> zero_module)\<rparr>"
  show ?thesis
  proof (cases "q = NULL")
    case True
    then have "s1 = s\<lparr>world := world s1\<rparr>" using c
      by (auto simp: callocP_def fresh_region_def split: prod.splits if_splits)
    with True i c show ?thesis by (auto simp: kb_module_open_image_def)
  next
    case False
    note start = calloc_module [OF inv c False]
    have base: "loader_base e s" using inv by (simp add: loader_inv_def)
    have ok: "image_ok i" using img i by simp
    obtain status s3 where o: "open_module e q i backend ?s2 = Some (status, s3)" "open_result e q status s3"
      "frame e q anything NULL s s3"
      using tripleD [OF open_module_loading [OF e ok i(2), where q = q and ?s0.0 = s and backend = backend], of ?s2] start(2,3)
      by (auto simp: open_done_def)
    have upd: "modules_update (\<lambda>ms. ms(q \<mapsto> zero_module)) s1 = ?s2" by simp
    show ?thesis
    proof (cases "status = KB_OK")
      case True
      with o(2) obtain f b n secs where l: "loading e q {(b, n)} (with_sections e f b n secs) s3" by (auto simp: open_result_def)
      have "kb_module_open_image e img_opt backend out s = Some (Inr q, s3\<lparr>kb_loaded_modules := q # kb_loaded_modules s3\<rparr>)"
        using i c False o(1) True by (simp add: kb_module_open_image_def upd register_loaded_module_def)
      moreover have "open_loaded e q s (s3\<lparr>kb_loaded_modules := q # kb_loaded_modules s3\<rparr>)"
        unfolding open_loaded_def using start(1) False o(3) l by blast
      ultimately show ?thesis by auto
    next
      case nok: False
      then have l: "loading e q {} (\<lambda>_. True) s3" using o(2) by (simp add: open_result_def)
      obtain m w where d: "modules s3 q = Some m" "destroy_module e q s3 = Some ((), destroyed q m w s3)"
        using frame_destroy [OF base o(3) start(1) False l] by blast
      have "kb_module_open_image e img_opt backend out s = Some (Inl status, destroyed q m w s3)"
        using i c False o(1) nok d(2) by (simp add: kb_module_open_image_def upd)
      moreover have "open_failed e s (destroyed q m w s3)"
        unfolding open_failed_def using start(1) False o(3) l d(1) by blast
      ultimately show ?thesis by auto
    qed
  qed
qed

section \<open>Loading and then destroying\<close>

lemma shared_kept_ptrs: "shared_kept T s s1 \<Longrightarrow> shared_ptrs s \<subseteq># shared_ptrs s1"
  by (auto simp: shared_kept_def shared_ptrs_def)

text \<open>What was mapped before stays mapped, and only shared pages are new.\<close>

lemma frame_destroyed_memory:
  assumes f: "frame e q K T s s1" and m: "modules s1 q = Some m" and ok: "loader_ok e s1"
  shows "set (regions s) \<subseteq> set (regions (destroyed q m w s1))"
    "held (destroyed q m w s1) + shared_ptrs s = held s + shared_ptrs (destroyed q m w s1)"
proof -
  have "shared_ptrs s \<subseteq># shared_ptrs s1" using f shared_kept_ptrs unfolding frame_def by blast
  then obtain Y where Y: "shared_ptrs s1 = shared_ptrs s + Y" by (auto simp: subset_mset.le_iff_add)
  have "held s1 + shared_ptrs s = held s + shared_ptrs s1 + module_ptrs q m"
    using f m unfolding frame_def by force
  then have eq': "held s1 = held s + Y + module_ptrs q m" unfolding Y by (simp add: ac_simps)
  have d: "distinct (map fst (regions s1))" by (rule loader_ok_facts(2) [OF ok])
  show "set (regions s) \<subseteq> set (regions (destroyed q m w s1))"
  proof
    fix r assume r: "r \<in> set (regions s)"
    then have "fst r \<in># held s + Y" by (auto simp: held_def)
    moreover have "r \<in> set (regions s1)" using f r by (auto simp: frame_def)
    ultimately show "r \<in> set (regions (destroyed q m w s1))"
      using kept_destroyed [OF d, of "held s + Y" q m "fst r" "snd r"] eq' by simp
  qed
  have "held (destroyed q m w s1) = held s1 - module_ptrs q m" by (rule held_destroyed [OF d]) (simp add: eq')
  moreover have "shared_ptrs (destroyed q m w s1) = shared_ptrs s1" by (simp add: destroyed_def shared_ptrs_def)
  ultimately show "held (destroyed q m w s1) + shared_ptrs s = held s + shared_ptrs (destroyed q m w s1)"
    by (simp add: eq' Y)
qed

lemma frame_destroyed_state:
  assumes inv: "loader_base e s" and f: "frame e q K T s s1" and q: "q \<notin> set (kb_loaded_modules s)" "q \<noteq> NULL"
  shows "modules (destroyed q m w s1) = modules s"
    "exports_ok (e_str e) (exported (destroyed q m w s1))"
    "exports_map (e_str e) (exported (destroyed q m w s1)) = exports_map (e_str e) (exported s)"
proof -
  have "modules s q = None" using inv q(1) by (auto simp: loader_base_def)
  then show "modules (destroyed q m w s1) = modules s" using f by (auto simp: destroyed_def frame_def)
  from f obtain es where es: "exported s1 =
      fold (\<lambda>(n, a) t. snd (kb_loader_symbol_registry_add_export (e_str e) t n a q)) es (exported s)"
    by (auto simp: frame_def)
  have ok: "exports_ok (e_str e) (exported s)" and clean: "\<forall>v. (v, q) \<notin> ran (exports_map (e_str e) (exported s))"
    using inv q(1) by (auto simp: loader_base_def)
  show "exports_ok (e_str e) (exported (destroyed q m w s1))"
    "exports_map (e_str e) (exported (destroyed q m w s1)) = exports_map (e_str e) (exported s)"
    using reg.unload_restores [OF ok q(2) clean, of es] reg.remove_inv [OF reg.adds_inv [OF ok]] q(2)
    by (simp_all add: destroyed_def es)
qed

lemma returnable_mono: "returnable e rs p m \<Longrightarrow> set rs \<subseteq> set rs' \<Longrightarrow> returnable e rs' p m"
  unfolding returnable_def by blast

lemma frame_destroyed_base:
  assumes inv: "loader_base e s" and f: "frame e q K T s s1" and q: "q \<notin> set (kb_loaded_modules s)" "q \<noteq> NULL"
    and m: "modules s1 q = Some m" and ok: "loader_ok e s1"
  shows "loader_base e (destroyed q m w s1)"
proof -
  let ?s = "destroyed q m w s1"
  have L: "kb_loaded_modules s1 = kb_loaded_modules s" using f by (simp add: frame_def)
  then have L': "kb_loaded_modules ?s = kb_loaded_modules s" "remove1 q (kb_loaded_modules s1) = kb_loaded_modules s1"
    using q(1) by (simp_all add: destroyed_def remove1_idem)
  note state = frame_destroyed_state [OF inv f q, of m w] and mem = frame_destroyed_memory [OF f m ok, of w]
  note use1 = frame_in_use [OF inv f q(1) m]
  have "loader_ok e (?s\<lparr>jiffies_storages := []\<rparr>)"
    by (rule loader_ok_destroyed) (use ok q(1) L L' use1 loader_ok_jiffies in auto)
  moreover have "\<forall>p\<in>set (kb_loaded_modules s). returnable e (regions ?s) p (the (modules s p))"
    using inv returnable_mono [of e, OF _ mem(1)] by (simp add: loader_base_def)
  moreover have "in_use e ?s (kb_loaded_modules s) \<subseteq># held ?s"
  proof -
    from inv obtain X where X: "held s = in_use e s (kb_loaded_modules s) + X"
      by (auto simp: loader_base_def subset_mset.le_iff_add)
    then have "held ?s = in_use e ?s (kb_loaded_modules s) + X"
      using mem(2) state(1) by (simp add: in_use_def ac_simps)
    then show ?thesis by simp
  qed
  ultimately show ?thesis
    unfolding loader_base_def L' state using inv state(2) by (auto simp: loader_base_def)
qed

section \<open>Success\<close>

lemma loaded_inv:
  assumes inv: "loader_base e s" and f: "frame e q K T s s1" and q: "q \<notin> set (kb_loaded_modules s)" "q \<noteq> NULL"
    and l: "loading e q {(base, n)} (with_sections e f' base n secs) s1"
  shows "loader_inv e (s1\<lparr>kb_loaded_modules := q # kb_loaded_modules s1\<rparr>)" (is "loader_inv e ?s")
proof -
  from l obtain m where m: "modules s1 q = Some m" "module_ready e f' base n m" and ok: "loader_ok e s1"
    and b: "(base, n) \<in> set (regions s1)"
    by (auto simp: loading_def with_sections_def)
  have L: "kb_loaded_modules s1 = kb_loaded_modules s" using f by (simp add: frame_def)
  have same: "modules s1 p = modules s p" if "p \<noteq> q" for p using f that by (simp add: frame_def)
  have ms: "modules s1 = (modules s)(q \<mapsto> m)" by (rule ext) (simp add: same m(1))
  have 1: "loader_ok e ?s" using ok m b unfolding loader_ok_def by auto
  from f obtain es where es: "exported s1 =
      fold (\<lambda>(n, a) t. snd (kb_loader_symbol_registry_add_export (e_str e) t n a q)) es (exported s)"
    by (auto simp: frame_def)
  have xok: "exports_ok (e_str e) (exported s)" using inv by (simp add: loader_base_def)
  have 2: "exports_ok (e_str e) (exported ?s)" using reg.adds_inv [OF xok] by (simp add: es)
  have 3: "\<forall>(v, p) \<in> ran (exports_map (e_str e) (exported ?s)). p \<in> set (kb_loaded_modules ?s)"
    using reg.adds_extend [OF xok, of q es] inv by (fastforce simp: es L ran_def loader_base_def)
  have 4: "dom (modules ?s) = set (kb_loaded_modules ?s)" "NULL \<notin> set (kb_loaded_modules ?s)"
    using inv q(2) by (simp_all add: L ms loader_base_def)
  have 5: "\<forall>p\<in>set (kb_loaded_modules ?s). returnable e (regions ?s) p (the (modules ?s p))"
  proof -
    have "returnable e (regions s1) q m" using f m(1) by (auto simp: frame_def)
    moreover have "returnable e (regions s1) p (the (modules s1 p))" if "p \<in> set (kb_loaded_modules s)" for p
    proof -
      have "p \<noteq> q" "returnable e (regions s) p (the (modules s p))" using that q(1) inv by (auto simp: loader_base_def)
      moreover have "set (regions s) \<subseteq> set (regions s1)" using f by (simp add: frame_def)
      ultimately show ?thesis using returnable_mono same [of p] by metis
    qed
    ultimately show ?thesis using m(1) by (auto simp: L)
  qed
  have 6: "in_use e ?s (kb_loaded_modules ?s) \<subseteq># held ?s"
    using frame_in_use [OF inv f q(1) m(1)] m(1) by (simp add: in_use_def mods_def held_def shared_ptrs_def ac_simps)
  show ?thesis
    unfolding loader_inv_def loader_base_def using 1 2 3 4 5 6 loader_ok_jiffies [of e ?s] by blast
qed

lemma open_failed_facts:
  assumes "loader_base e s" and "open_failed e s s'"
  shows "loader_base e s' \<and> kb_loaded_modules s' = kb_loaded_modules s \<and> modules s' = modules s \<and>
    exports_map (e_str e) (exported s') = exports_map (e_str e) (exported s) \<and>
    set (regions s) \<subseteq> set (regions s') \<and> held s' + shared_ptrs s = held s + shared_ptrs s'"
proof -
  from assms(2) obtain q m s1 w where q: "q \<notin> set (kb_loaded_modules s)" "q \<noteq> NULL" and f: "frame e q anything NULL s s1"
    and ok: "loader_ok e s1" and m: "modules s1 q = Some m" and s': "s' = destroyed q m w s1"
    by (auto simp: open_failed_def loading_def)
  have "kb_loaded_modules s' = kb_loaded_modules s" using f q(1) by (simp add: s' destroyed_def frame_def remove1_idem)
  then show ?thesis
    unfolding s' using frame_destroyed_base [OF assms(1) f q m ok] frame_destroyed_state [OF assms(1) f q]
      frame_destroyed_memory [OF f m ok] by blast
qed

lemma open_loaded_facts:
  assumes "loader_base e s" and "open_loaded e q s s'"
  shows "loader_inv e s' \<and> kb_loaded_modules s' = q # kb_loaded_modules s"
proof -
  from assms(2) obtain s1 f base n secs where q: "q \<notin> set (kb_loaded_modules s)" "q \<noteq> NULL"
    and f: "frame e q anything NULL s s1" and l: "loading e q {(base, n)} (with_sections e f base n secs) s1"
    and s': "s' = s1\<lparr>kb_loaded_modules := q # kb_loaded_modules s1\<rparr>"
    unfolding open_loaded_def by blast
  have "kb_loaded_modules s' = q # kb_loaded_modules s" using f by (simp add: s' frame_def)
  then show ?thesis using loaded_inv [OF assms(1) f q l] by (simp add: s')
qed

lemma jiffies_kept:
  assumes "jiffies_ok s" and "set (regions s) \<subseteq> set (regions s')"
  shows "jiffies_ok (s'\<lparr>jiffies_storages := jiffies_storages s\<rparr>)"
  using assms mapped_mono by (fastforce simp: jiffies_ok_def)

lemma loader_base_fields [simp]:
  "loader_base e (s\<lparr>jiffies_storages := js\<rparr>) = loader_base e s"
  "loader_base e (s\<lparr>world := w\<rparr>) = loader_base e s"
  by (simp_all add: loader_base_def in_use_def shared_ptrs_def held_def)
    (simp_all add: loader_ok_def)

section \<open>The initial state\<close>

lemma loader_initial_inv:
  assumes "kernel_gs e \<noteq> NULL"
  shows "loader_inv e (loader_initial m (kernel_gs e) w)"
  using assms
  by (auto simp: loader_inv_def loader_base_def loader_ok_def loader_initial_def fresh_region_def shared_ok_def shim_ok_def
      jiffies_ok_def in_use_def shared_ptrs_def mods_def held_def)

text \<open>An environment whose allocator hands out ever higher addresses.\<close>

definition sample_env :: "u64 loader_env" where
  "sample_env = \<lparr>e_sysconf_page_size = 4096, e_mmap = (\<lambda>h sz w. (if h = 0 then None else Some h, w)),
     e_munmap = (\<lambda>p sz w. w), e_mprotect = (\<lambda>p sz pr w. (True, w)), e_malloc = (\<lambda>n w. (w, w + 0x100000)),
     e_free = (\<lambda>p w. w), e_get_gs = (\<lambda>w. Some 0), e_set_gs = (\<lambda>g w. (True, w)), e_set_backend = (\<lambda>b w. w),
     e_call = (\<lambda>p w. (0, w)), e_getenv = (\<lambda>n. None), e_address_of = (\<lambda>n. 0x1000000), e_providers = [],
     e_kvm_symbols = [], e_str = (\<lambda>p. []), e_name_at = (\<lambda>n. NULL), e_page_offset_base = (\<lambda>w. 0),
     e_vmemmap_base = (\<lambda>w. 0), e_phys_base = (\<lambda>w. 0), e_dma_ops = (\<lambda>w. 0), e_elapsed_jiffies = (\<lambda>w. 0)\<rparr>"

definition sample_loader :: "u64 loader" where
  "sample_loader = loader_initial (\<lambda>_. 0) 0x1000000 0x2000000"

definition sample_module :: "bytes \<Rightarrow> kb_module_image" where
  "sample_module bs = \<lparr>img_data = Some bs, img_size = of_nat (length bs), img_name = NULL\<rparr>"

lemma sample_env_ok: "env_ok sample_env"
  by (simp add: env_ok_def names_ok_def sample_env_def page_size_def)

lemma sample_loader_inv: "loader_inv sample_env sample_loader"
  using loader_initial_inv [of sample_env "\<lambda>_. 0" "0x2000000"] by (simp add: sample_loader_def sample_env_def)

lemma sample_module_ok: "image_ok (sample_module sample_image)"
proof -
  have "section_cost sample_file 0 = 0" "section_cost sample_file 1 = 0" "section_cost sample_file 2 = 0"
    "section_cost sample_file 3 = 0"
    by code_simp+
  moreover have "[0..<unat (section_count sample_file)] = [0, 1, 2, 3]" by (simp add: sample_file_def upt_rec)
  ultimately have "sections_bounded sample_file" unfolding sections_bounded_def by simp
  then show ?thesis using sample_open sample_length by (simp add: image_ok_def sample_module_def)
qed

lemma not_elf_ok: "image_ok (sample_module [0])"
  by (simp add: image_ok_def sample_module_def kb_elf_open_def)

text \<open>A state with one loaded module that uses the tick counter.\<close>

definition sample_loaded :: "u64 loader" where
  "sample_loaded = sample_loader\<lparr>
     regions := [(0x40000000, 229376), (0x2300000, 160), (0x2100000, 0x2a000), (0x2200000, 10), (0x2000000, 544), (0x1000000, 1048576)],
     modules := [0x2000000 \<mapsto> zero_module\<lparr>m_elf := sample_file, m_image_base := 0x40000000, m_image_size := 229376,
       m_shim_region := 0x40000000, m_shim_symbol_stubs := 0x40000000, m_shim_node0 := 0x2100000, m_kernel_gs := 0x1000000,
       m_name_at := 0x2200000, m_module_name := Some (cstr ''(unnamed)''), m_sections_at := 0x2300000, m_sections := replicate 4 zero_section\<rparr>],
     kb_loaded_modules := [0x2000000], jiffies_storages := [0x40031000]\<rparr>"

lemma sample_loaded_inv: "loader_inv sample_env sample_loaded"
proof -
  let ?m = "zero_module\<lparr>m_elf := sample_file, m_image_base := 0x40000000, m_image_size := 229376,
       m_shim_region := 0x40000000, m_shim_symbol_stubs := 0x40000000, m_shim_node0 := 0x2100000, m_kernel_gs := 0x1000000,
       m_name_at := 0x2200000, m_module_name := Some (cstr ''(unnamed)''), m_sections_at := 0x2300000, m_sections := replicate 4 zero_section\<rparr>"
  have wf: "elf_wf sample_file" using kb_elf_open_Done(1) [OF sample_open sample_fits] .
  have "align_up_u64 229376 4096 = 229376" by code_simp
  then have al: "unat (align_up_u64 229376 (page_size sample_env)) = 229376"
    using sample_env_ok by (simp add: env_ok_def)
  have ready: "module_ready sample_env sample_file 0x40000000 229376 ?m"
    by (simp add: module_ready_def wf zero_module_def zero_section_def sample_env_def)
  have "loader_ok sample_env sample_loaded"
    using ready by (auto simp: loader_ok_def sample_loaded_def sample_loader_def loader_initial_def sample_env_def fresh_region_def
        shared_ok_def shim_ok_def mapped_def in_region_def)
  moreover have "returnable sample_env (regions sample_loaded) 0x2000000 ?m"
    by (simp add: returnable_def sample_loaded_def al)
  ultimately show ?thesis
    using loader_ok_jiffies [of sample_env sample_loaded]
    by (auto simp: loader_inv_def loader_base_def sample_loaded_def sample_loader_def loader_initial_def in_use_def
        shared_ptrs_def mods_def held_def module_ptrs_def sample_env_def)
qed

section \<open>Theorems on opening\<close>

text \<open>C1.
  From a state with the loader's invariant, which includes that every registered cell of the tick
  counter is mapped, opening a module never touches memory that the loader did not map, whatever bytes
  the image consists of, as long as it has the size that is passed with it and its sections fit into the
  address space: a malformed image is an error status.  Where the module is loaded, the invariant holds with the module at the head of the
  list of loaded modules; where it is not, the invariant holds for the tick counter cells that were
  registered before, while a cell that the failed module registered may point to unmapped memory.
\<close>

theorem kb_module_open_image_safe:
  assumes "env_ok e" and "loader_inv e s" and "\<forall>img. img_opt = Some img \<longrightarrow> image_ok img"
  shows "\<exists>r s'. kb_module_open_image e img_opt backend out s = Some (r, s') \<and>
    (case r of
       Inr q \<Rightarrow> loader_inv e s' \<and> kb_loaded_modules s' = q # kb_loaded_modules s
     | Inl err \<Rightarrow> loader_inv e (s'\<lparr>jiffies_storages := jiffies_storages s\<rparr>))"
proof -
  obtain r s' where run: "kb_module_open_image e img_opt backend out s = Some (r, s')"
    and c: "case r of Inl err \<Rightarrow> s' = s\<lparr>world := world s'\<rparr> \<or> open_failed e s s' | Inr q \<Rightarrow> open_loaded e q s s'"
    using open_image_cases [OF assms] by blast
  have base: "loader_base e s" and j: "jiffies_ok s" using assms(2) by (simp_all add: loader_inv_def)
  show ?thesis
  proof (cases r)
    case (Inr q)
    with c have "loader_inv e s' \<and> kb_loaded_modules s' = q # kb_loaded_modules s"
      using open_loaded_facts [OF base, of q s'] by simp
    with run Inr show ?thesis by auto
  next
    case (Inl err)
    with c consider "s' = s\<lparr>world := world s'\<rparr>" | "open_failed e s s'" by auto
    then have "loader_base e s' \<and> set (regions s) \<subseteq> set (regions s')"
    proof cases
      case 1
      then obtain w where "s' = s\<lparr>world := w\<rparr>" by blast
      then show ?thesis using base by simp
    next
      case 2
      then show ?thesis using open_failed_facts [OF base] by blast
    qed
    then show ?thesis using run Inl jiffies_kept [OF j] by (auto simp: loader_inv_def)
  qed
qed

theorem kb_module_open_image_safe_witness:
  "\<exists>r s'. kb_module_open_image sample_env (Some (sample_module sample_image)) 1 True sample_loader = Some (r, s') \<and>
    (case r of
       Inr q \<Rightarrow> loader_inv sample_env s' \<and> kb_loaded_modules s' = q # kb_loaded_modules sample_loader
     | Inl err \<Rightarrow> loader_inv sample_env (s'\<lparr>jiffies_storages := jiffies_storages sample_loader\<rparr>))"
  by (rule kb_module_open_image_safe) (simp_all add: sample_env_ok sample_loader_inv sample_module_ok)

text \<open>C2.
  A module that fails to load gives back all of its own memory: everything that was mapped is still
  mapped, and the only regions that are mapped in addition are the shared pages that are kept for later
  modules.  The structure, the name, the node data, the section table and the image of the module are
  not among them.  The list of loaded modules, the module structures and what every exported name
  resolves to are as before.  Some traces of the attempt stay and are not part of the statement: the
  cells of the tick counter that the module registered, its reservation of per-CPU space, the caches of
  the loader and the contents of the shared memory.
\<close>

theorem kb_module_open_image_failure_atomic:
  assumes "env_ok e" and "loader_inv e s" and "\<forall>img. img_opt = Some img \<longrightarrow> image_ok img"
    and run: "kb_module_open_image e img_opt backend out s = Some (Inl err, s')"
  shows "kb_loaded_modules s' = kb_loaded_modules s \<and> modules s' = modules s \<and>
    (\<forall>name. kb_loader_symbol_registry_lookup_export (e_str e) (exported s') name =
       kb_loader_symbol_registry_lookup_export (e_str e) (exported s) name) \<and>
    set (regions s) \<subseteq> set (regions s') \<and> held s' + shared_ptrs s = held s + shared_ptrs s'"
proof -
  have base: "loader_base e s" using assms(2) by (simp add: loader_inv_def)
  from open_image_cases [OF assms(1-3), of backend out] run
  consider "s' = s\<lparr>world := world s'\<rparr>" | "open_failed e s s'" by auto
  then show ?thesis
  proof cases
    case 1
    then obtain w where "s' = s\<lparr>world := w\<rparr>" by blast
    then show ?thesis by (simp add: held_def shared_ptrs_def)
  next
    case 2
    note facts = open_failed_facts [OF base 2]
    have "exports_ok (e_str e) (exported s)" "exports_ok (e_str e) (exported s')"
      using base facts by (simp_all add: loader_base_def)
    with facts show ?thesis by (simp add: lookup_refines)
  qed
qed

lemma open_not_elf:
  assumes "kb_elf_open (img_data img) (img_size img) True = Fail err'"
    and "kb_module_open_image e (Some img) backend out s = Some (r, s')"
  shows "\<exists>err. r = Inl err"
proof -
  have "err' \<noteq> KB_OK" using assms(1) kb_elf_open_error by metis
  then have "status \<noteq> KB_OK" if "open_module e q img backend t = Some (status, t')" for q t status t'
    using that assms(1)
    by (auto simp: open_module_def open_elf_def withP_def outcomeP_def bindP_def split: option.splits if_splits)
  then show ?thesis
    using assms(2) by (auto simp: kb_module_open_image_def bindP_def split: option.splits if_splits prod.splits)
qed

theorem kb_module_open_image_failure_atomic_witness:
  "\<exists>err s'. kb_module_open_image sample_env (Some (sample_module [0])) 1 True sample_loader = Some (Inl err, s') \<and>
    kb_loaded_modules s' = [] \<and> held s' + shared_ptrs sample_loader = held sample_loader + shared_ptrs s'"
proof -
  obtain r s' where run: "kb_module_open_image sample_env (Some (sample_module [0])) 1 True sample_loader = Some (r, s')"
    using open_image_cases [OF sample_env_ok sample_loader_inv, of "Some (sample_module [0])" 1 True] not_elf_ok by auto
  have "kb_elf_open (Some [0]) 1 True = Fail KB_ERR_INVALID" by code_simp
  then obtain err where err: "r = Inl err"
    using open_not_elf [OF _ run] by (auto simp: sample_module_def)
  have "kb_loaded_modules sample_loader = []" by (simp add: sample_loader_def loader_initial_def)
  with run err kb_module_open_image_failure_atomic [OF sample_env_ok sample_loader_inv _ run [unfolded err]] not_elf_ok
  show ?thesis by simp
qed

section \<open>Closing\<close>

lemma loaded_once:
  assumes "loader_base e s" and q: "q \<in> set (kb_loaded_modules s)"
  shows "q \<notin> set (remove1 q (kb_loaded_modules s))"
proof
  let ?L = "kb_loaded_modules s"
  assume "q \<in> set (remove1 q ?L)"
  then have "mods (modules s) ?L = module_ptrs q (the (modules s q)) + (module_ptrs q (the (modules s q)) +
      mods (modules s) (remove1 q (remove1 q ?L)))"
    using q by (simp add: mods_remove1)
  moreover have "q \<in># module_ptrs q (the (modules s q))" using assms by (auto simp: module_ptrs_def loader_base_def)
  then obtain Z where "module_ptrs q (the (modules s q)) = add_mset q Z" by (rule multi_member_split [THEN exE])
  ultimately have "2 \<le> count (in_use e s ?L) q" by (simp add: in_use_def)
  moreover have "distinct (map fst (regions s))"
    using assms(1) loader_ok_facts(2) [of e "s\<lparr>jiffies_storages := []\<rparr>"] by (simp add: loader_base_def)
  then have "count (held s) q \<le> 1" by (simp add: held_def distinct_count_atmost_1 split: if_splits)
  moreover have "count (in_use e s ?L) q \<le> count (held s) q"
    using assms(1) mset_subset_eq_count by (auto simp: loader_base_def)
  ultimately show False by linarith
qed

lemma close_in_use:
  assumes "loader_base e s" and q: "q \<in> set (kb_loaded_modules s)" and m: "modules s q = Some m"
  shows "in_use e s (remove1 q (kb_loaded_modules s)) + module_ptrs q m \<subseteq># held s"
  using assms mods_remove1 [OF q, of "modules s"] by (simp add: loader_base_def in_use_def ac_simps)

lemma close_run:
  assumes base: "loader_base e s" and q: "q \<in> set (kb_loaded_modules s)"
  shows "\<exists>m w. modules s q = Some m \<and> kb_module_close e q s = Some ((), destroyed q m w s)"
proof -
  have "q \<in> dom (modules s)" using base q by (simp add: loader_base_def)
  then obtain m where m: "modules s q = Some m" by blast
  have ok: "loader_ok e (s\<lparr>jiffies_storages := []\<rparr>)" using base by (simp add: loader_base_def)
  have "mset (own_ptrs q m) \<subseteq># mset (map fst (regions s))"
    using subset_mset.order_trans [OF mset_subset_eq_add_right close_in_use [OF base q m]]
    by (simp add: own_ptrs held_def)
  then have "distinct (own_ptrs q m)" by (rule distinct_submset) (use loader_ok_facts(2) [OF ok] in simp)
  moreover have "q \<noteq> NULL" "returnable e (regions s) q m" using base q m by (auto simp: loader_base_def)
  ultimately show ?thesis
    using destroy_run [OF m, of e] loader_ok_facts(3) [OF ok] m by (simp add: kb_module_close_def)
qed

lemma in_module_ptrs: "x \<in># module_ptrs q m \<longleftrightarrow> x \<noteq> NULL \<and> x \<in> {q, m_shim_node0 m, m_name_at m, m_sections_at m, m_image_base m}"
  by (auto simp: module_ptrs_def)

lemma close_base:
  assumes base: "loader_base e s" and q: "q \<in> set (kb_loaded_modules s)" and m: "modules s q = Some m"
  shows "loader_base e (destroyed q m w s)" and "held (destroyed q m w s) + module_ptrs q m = held s"
proof -
  let ?L = "remove1 q (kb_loaded_modules s)" and ?s = "destroyed q m w s"
  have ok: "loader_ok e (s\<lparr>jiffies_storages := []\<rparr>)" using base by (simp add: loader_base_def)
  note d = loader_ok_facts(2) [OF ok, simplified] and sub = close_in_use [OF base q m] and once = loaded_once [OF base q]
  have mp: "module_ptrs q m \<subseteq># held s" using sub subset_mset.order_trans [OF mset_subset_eq_add_right] by blast
  have held: "held ?s = held s - module_ptrs q m" by (rule held_destroyed) (use d mp in auto)
  with mp show "held ?s + module_ptrs q m = held s" by simp
  have fields: "kb_loaded_modules ?s = ?L" "modules ?s = (modules s)(q := None)" "shared_ptrs ?s = shared_ptrs s"
    "exported ?s = kb_loader_symbol_registry_remove_owner (exported s) q"
    by (simp_all add: destroyed_def shared_ptrs_def)
  have sets: "set ?L = set (kb_loaded_modules s) - {q}"
    using once by (auto dest: notin_set_remove1 intro: in_set_remove1 [THEN iffD2])
  have mods: "mods (modules ?s) ?L = mods (modules s) ?L" unfolding fields by (rule mods_cong) (use once in auto)
  have x: "exports_ok (e_str e) (exported s)" "q \<noteq> NULL" using base q by (auto simp: loader_base_def)
  have ret: "returnable e (regions ?s) p (the (modules ?s p))" if p: "p \<in> set ?L" for p
  proof -
    have p': "p \<noteq> q" "p \<in> set (kb_loaded_modules s)" using p sets by auto
    have kept: "(b, k) \<in> set (regions ?s)" if "b \<in># module_ptrs p (the (modules s p))" "(b, k) \<in> set (regions s)" for b k
      using kept_destroyed [OF d sub _ that(2)] mods_member [OF p, of b "modules s"] that(1) by (simp add: in_use_def)
    have "returnable e (regions s) p (the (modules s p))" "p \<noteq> NULL" using base p'(2) by (auto simp: loader_base_def)
    moreover have "b \<in> fst ` set (regions ?s)" if "b \<in># module_ptrs p (the (modules s p))" "b \<in> fst ` set (regions s)" for b
      using kept [OF that(1)] that(2) by force
    ultimately show ?thesis using p'(1) kept by (auto simp: returnable_def fields in_module_ptrs)
  qed
  have use: "in_use e ?s ?L \<subseteq># held ?s"
    using sub unfolding held in_use_def fields(3) mods
    by (simp add: subset_mset.le_diff_conv2 mp)
  have ok': "loader_ok e (?s\<lparr>jiffies_storages := []\<rparr>)" by (rule loader_ok_destroyed [OF ok once sub])
  have xs: "exports_ok (e_str e) (exported ?s)" unfolding fields(4) by (rule reg.remove_inv [OF x])
  have "\<forall>(v, p) \<in> ran (exports_map (e_str e) (exported ?s)). p \<in> set ?L"
    using base unfolding fields(4) reg.remove_abs [OF x] sets
    by (fastforce simp: ran_def loader_base_def split: option.splits if_splits)
  then show "loader_base e ?s"
    unfolding loader_base_def fields(1) using ok' xs ret use base sets
    by (auto simp: fields(2) loader_base_def)
qed

text \<open>C3.
  Closing a loaded module gives back exactly the memory that the module holds: its structure, its node
  data, its name, its section table and its image.  The module leaves the list, its exports disappear
  and those of other modules stay, and the invariant holds for the cells of the tick counter that are
  still mapped.
\<close>

theorem kb_module_close_safe:
  assumes "loader_inv e s" and "q \<in> set (kb_loaded_modules s)"
  shows "\<exists>s'. kb_module_close e q s = Some ((), s') \<and>
    loader_inv e (s'\<lparr>jiffies_storages := filter (\<lambda>p. mapped (regions s') p 8) (jiffies_storages s)\<rparr>) \<and>
    kb_loaded_modules s' = remove1 q (kb_loaded_modules s) \<and> modules s' = (modules s)(q := None) \<and>
    held s' + module_ptrs q (the (modules s q)) = held s \<and>
    exports_map (e_str e) (exported s') = spec_remove_owner (exports_map (e_str e) (exported s)) q"
proof -
  have base: "loader_base e s" using assms(1) by (simp add: loader_inv_def)
  obtain m w where m: "modules s q = Some m" and run: "kb_module_close e q s = Some ((), destroyed q m w s)"
    using close_run [OF base assms(2)] by blast
  let ?s = "destroyed q m w s"
  have x: "exports_ok (e_str e) (exported s)" "q \<noteq> NULL" using base assms(2) by (auto simp: loader_base_def)
  have "loader_inv e (?s\<lparr>jiffies_storages := filter (\<lambda>p. mapped (regions ?s) p 8) (jiffies_storages s)\<rparr>)"
    using close_base(1) [OF base assms(2) m] by (simp add: loader_inv_def jiffies_ok_def)
  moreover have "exports_map (e_str e) (exported ?s) = spec_remove_owner (exports_map (e_str e) (exported s)) q"
    using remove_owner_refines [OF x] by (simp add: destroyed_def)
  ultimately show ?thesis
    using run close_base(2) [OF base assms(2) m] m by (auto simp: destroyed_def)
qed

theorem kb_module_close_safe_witness:
  "\<exists>s'. kb_module_close sample_env 0x2000000 sample_loaded = Some ((), s') \<and> kb_loaded_modules s' = [] \<and>
    length (regions sample_loaded) = 6 \<and> held s' = {#0x1000000#}"
proof -
  have "kb_loaded_modules sample_loaded = [0x2000000]" by (simp add: sample_loaded_def)
  then obtain s' where "kb_module_close sample_env 0x2000000 sample_loaded = Some ((), s')" "kb_loaded_modules s' = []"
    and h: "held s' + module_ptrs 0x2000000 (the (modules sample_loaded 0x2000000)) = held sample_loaded"
    using kb_module_close_safe [OF sample_loaded_inv, of "0x2000000"] by auto
  moreover have "module_ptrs 0x2000000 (the (modules sample_loaded 0x2000000)) = {#0x2000000, 0x2100000, 0x2200000, 0x2300000, 0x40000000#}"
    "held sample_loaded = add_mset 0x1000000 {#0x2000000, 0x2100000, 0x2200000, 0x2300000, 0x40000000#}"
    by (simp_all add: module_ptrs_def held_def sample_loaded_def)
  with h have "held s' = {#0x1000000#}" by simp
  moreover have "length (regions sample_loaded) = 6" by (simp add: sample_loaded_def)
  ultimately show ?thesis by blast
qed

section \<open>The tick counter of a closed module\<close>

text \<open>An address lies in one mapped region only.\<close>

lemma region_unique:
  assumes "regions_ok rs" and b: "(b, k) \<in> set rs" and c: "(c, l) \<in> set rs" and "b \<noteq> c"
    and pb: "unat (p - b) < k" and pc: "unat (p - c) < l"
  shows False
proof -
  have k: "k \<le> unat (c - b)" and l: "l \<le> unat (b - c)"
    using regions_ok_apart [OF assms(1)] b c \<open>b \<noteq> c\<close> by auto
  have "unat (b - c) + unat (c - b) = 2 ^ 64"
    using unat_sub_if_size [of b c] unat_sub_if_size [of c b] \<open>b \<noteq> c\<close> unsigned_less [of b, where 'a = nat] unsigned_less [of c, where 'a = nat]
    by (auto simp: word_size word_le_nat_alt word_unat_eq_iff split: if_splits)
  then have "unat (p - b) + unat (b - c) < 2 ^ 64" using pb k by linarith
  then have "unat ((p - b) + (b - c)) = unat (p - b) + unat (b - c)"
    using unat_add_lem [of "p - b" "b - c"] by simp
  then show False using pc l by simp
qed

lemma for_each_crash:
  assumes "p \<in> set ps" and "p \<noteq> NULL" and "\<not> mapped (regions s) p 8"
  shows "for_each (\<lambda>storage. if storage = NULL then returnP () else pokeP storage (u64_bytes v)) ps s = None"
  using assms by (induction ps arbitrary: s) (auto simp: bindP_def pokeP_def)

text \<open>C35.
  The loader registers the cell of the tick counter that lies in the image of a module but never
  removes it: once such a module was closed, the next update of the tick counters writes to the memory
  that was given back.
\<close>

theorem closed_module_jiffies_dangling:
  assumes inv: "loader_inv e s" and q: "q \<in> set (kb_loaded_modules s)" and m: "modules s q = Some m"
    and cell: "m_shim_region m + KB_LOCAL_JIFFIES_OFFSET \<in> set (jiffies_storages s)" "m_shim_region m + KB_LOCAL_JIFFIES_OFFSET \<noteq> NULL"
  shows "\<exists>s'. kb_module_close e q s = Some ((), s') \<and> refresh_linux_jiffies e s' = None"
proof -
  let ?p = "m_shim_region m + KB_LOCAL_JIFFIES_OFFSET"
  have base: "loader_base e s" using inv by (simp add: loader_inv_def)
  obtain w where run: "kb_module_close e q s = Some ((), destroyed q m w s)"
    using close_run [OF base q] m by auto
  have ok: "loader_ok e s" by (rule loader_inv_ok [OF inv])
  obtain f b n where b: "module_ready e f b n m" "(b, n) \<in> set (regions s)"
    using ok q m by (force simp: loader_ok_def)
  have bm: "b = m_image_base m" "b \<in> set (own_ptrs q m)"
    using b loader_ok_facts(3) [OF ok] by (force simp: own_ptrs_def module_ready_def)+
  have inb: "unat (?p - b) < n"
  proof -
    have n: "unat (m_shim_region m - b) + 229376 \<le> n" using b(1) by (simp add: module_ready_def)
    have "?p - b = (m_shim_region m - b) + KB_LOCAL_JIFFIES_OFFSET" by simp
    then have "unat (?p - b) \<le> unat (m_shim_region m - b) + unat KB_LOCAL_JIFFIES_OFFSET"
      using unat_add_le_sum by metis
    then show ?thesis using n by simp
  qed
  have "\<not> mapped (regions (destroyed q m w s)) ?p 8"
  proof
    assume "mapped (regions (destroyed q m w s)) ?p 8"
    then obtain c l where c: "(c, l) \<in> set (regions s)" "c \<notin> set (own_ptrs q m)" "unat (?p - c) < l"
      by (auto simp: mapped_def list_ex_iff in_region_def destroyed_def)
    then show False
      using region_unique [OF loader_ok_facts(1) [OF ok] b(2) c(1) _ inb c(3)] bm(2) by auto
  qed
  then have "refresh_linux_jiffies e (destroyed q m w s) = None"
    using for_each_crash [OF cell(1,2), of "destroyed q m w s" "e_elapsed_jiffies e w"]
    by (simp add: refresh_linux_jiffies_def bindP_def destroyed_def)
  with run show ?thesis by blast
qed

theorem closed_module_jiffies_dangling_witness:
  "\<exists>s'. kb_module_close sample_env 0x2000000 sample_loaded = Some ((), s') \<and> refresh_linux_jiffies sample_env s' = None"
  by (rule closed_module_jiffies_dangling [OF sample_loaded_inv]) (auto simp: sample_loaded_def)

end
