(* ===== verification/Loader_Limits.thy ===== *)
theory Loader_Limits
  imports Loader_Properties
begin

text \<open>
  What the loader does with a file that its checks let through: the sizes of the sections are added up
  modulo 2^64, and so is the size of the shim region behind them.
\<close>

section \<open>A file with a section that does not fit into the address space\<close>

text \<open>
  An ELF file of 193 bytes: a string table, and a section of 2^64 - 225280 bytes without contents in
  the file.
\<close>

definition wide_image :: bytes where
  "wide_image =
     [0x7f, 0x45, 0x4c, 0x46, 2, 1, 1, 0, 0, 0, 0, 0, 0, 0, 0, 0, 1, 0, 62, 0, 1, 0, 0, 0] @
     sample_q 0 0 @ sample_q 0 0 @ sample_q 64 0 @
     [0, 0, 0, 0, 64, 0, 0, 0, 0, 0, 64, 0, 2, 0, 0, 0] @
     sample_w 0 @ sample_w 3 @ sample_q 0 0 @ sample_q 0 0 @ sample_q 192 0 @ sample_q 1 0 @
     sample_w 0 @ sample_w 0 @ sample_q 1 0 @ sample_q 0 0 @
     sample_w 0 @ sample_w 8 @ sample_q 3 0 @ sample_q 0 0 @ sample_q 192 0 @ [0, 0x90, 0xfc, 0xff, 0xff, 0xff, 0xff, 0xff] @
     sample_w 0 @ sample_w 0 @ sample_q 1 0 @ sample_q 0 0 @ [0]"

definition wide_file :: kb_elf_file where
  "wide_file = \<lparr>elf_data = wide_image, elf_size = 193, elf_type = 1, elf_machine = 62,
     elf_entry = 0, section_header_offset = 64, section_header_entry_size = 64,
     section_count = 2, section_name_index = 0\<rparr>"

definition wide_section :: kb_elf_section where
  "wide_section = \<lparr>sec_name = [], sec_type = 8, sec_flags = 3, sec_address = 0, sec_offset = 192, sec_size = - 225280,
     sec_link = 0, sec_info = 0, sec_alignment = 1, sec_entry_size = 0\<rparr>"

lemma wide_open: "kb_elf_open (Some wide_image) 193 True = Done wide_file"
  by code_simp

lemma wide_length: "length wide_image = 193"
  by code_simp

lemma wide_sections:
  "kb_elf_section (Some wide_file) 0 True = Done ((sample_section 3 192 1 0 0 0))"
  "kb_elf_section (Some wide_file) 1 True = Done wide_section"
  by code_simp+

section \<open>Loading it\<close>

text \<open>The layout: the section starts at offset 0 and the size of the image is that of the section.\<close>

lemma wide_layout:
  assumes "modules s q = Some m" and "m_elf m = wide_file" and "length (m_sections m) = 2"
  shows "\<exists>m'. layout_sections e q [0, 1] 0 None s = Some (Inr (- 225280), s\<lparr>modules := (modules s)(q \<mapsto> m')\<rparr>)"
proof -
  have "align_up_u64 0 1 = 0" by code_simp
  with assms show ?thesis
    by (simp add: moduleP_def bindE_def outcomeP_def wide_sections sample_section_def wide_section_def layout_section_def
        set_moduleP_def percpu_name_def cstr_def Let_def) blast
qed

text \<open>
  The allocation: the image and the shim region have 4096 bytes together, and the shim region starts
  225280 bytes before them.
\<close>

lemma wide_allocate:
  assumes m: "modules s q = Some m" and h: "next_module_hint s = 0x40000000" and t: "shared_task s = NULL"
    and f: "fresh_region (regions s) 0x40000000 4096" "fresh_region ((0x40000000, 4096) # regions s) 0x42000000 4096"
  shows "\<exists>s' m'. allocate_image sample_env q (- 225280) s = Some (KB_OK, s') \<and> modules s' q = Some m' \<and>
    m_shim m' ''cpu_possible_mask'' = 0x40000000 - 25280 \<and> regions s' = (0x42000000, 4096) # (0x40000000, 4096) # regions s"
proof -
  have a: "align_up_u64 (- 225280) 4096 = - 225280" "align_up_u64 4096 4096 = 4096" by code_simp+
  have p: "page_size sample_env = 4096" using sample_env_ok by (simp add: env_ok_def)
  have 1: "alloc_section_memory sample_env 4096 t = Some (hint, t\<lparr>next_module_hint := hint + 0x2000000, regions := (hint, 4096) # regions t\<rparr>)"
    if t: "next_module_hint t = hint" "fresh_region (regions t) hint 4096" "0x40000000 \<le> hint" "hint < 0x78000000" for hint and t :: "u64 loader"
  proof -
    have "hint \<noteq> 0" using t(2) by (simp add: fresh_region_def)
    then have "mmapP sample_env hint 4096 (t\<lparr>next_module_hint := hint + 0x2000000\<rparr>) =
        Some (Some hint, t\<lparr>next_module_hint := hint + 0x2000000, regions := (hint, 4096) # regions t\<rparr>)"
      using t(2) by (simp add: mmapP_def sample_env_def)
    then have "alloc_attempts sample_env 4096 (Suc 15) t =
        Some (Some hint, t\<lparr>next_module_hint := hint + 0x2000000, regions := (hint, 4096) # regions t\<rparr>)"
      unfolding alloc_attempts.simps(2) using t leD [OF t(3)] leD [of "0x78000000" hint] by (auto simp: Let_def)
    then show ?thesis by (simp add: alloc_section_memory_def p a)
  qed
  show ?thesis
    using m h t f
    by (simp add: allocate_image_def Let_def p a 1 set_moduleP_def place_image_def memsetP_def assign_task_def shared_current_task_def
        shared_page_def mapped_def in_region_def shim_members_def)
qed

lemma wide_initialize:
  assumes "modules s q = Some m" and "\<not> mapped (regions s) (m_shim m ''cpu_possible_mask'') 8"
  shows "initialize_shim_region e q s = None"
  using assms by (simp add: initialize_shim_region_def moduleP_def pokes_def region_stores_def pokeP_def)

lemma wide_load:
  assumes m: "modules s q \<noteq> None" "m_elf (the (modules s q)) = wide_file" "length (m_sections (the (modules s q))) = 2"
    and s: "next_module_hint s = 0x40000000" "shared_task s = NULL"
      "regions s = [(0x2300000, 80), (0x2200000, 0x2a000), (0x2100000, 10), (0x2000000, 544), (0x1000000, 1048576)]"
  shows "load_sections sample_env q s = None"
proof -
  obtain m0 where m0: "modules s q = Some m0" using m(1) by blast
  have ix: "[0..<length (m_sections m0)] = [0, 1]" using m(3) m0 by (simp add: upt_rec)
  obtain m1 where l: "layout_sections sample_env q [0, 1] 0 None s = Some (Inr (- 225280), s\<lparr>modules := (modules s)(q \<mapsto> m1)\<rparr>)"
    using wide_layout [OF m0] m(2,3) m0 by auto
  let ?s1 = "s\<lparr>modules := (modules s)(q \<mapsto> m1)\<rparr>"
  obtain s2 m2 where a: "allocate_image sample_env q (- 225280) ?s1 = Some (KB_OK, s2)" "modules s2 q = Some m2"
    "m_shim m2 ''cpu_possible_mask'' = 0x40000000 - 25280" "regions s2 = (0x42000000, 4096) # (0x40000000, 4096) # regions s"
    using wide_allocate [of ?s1 q m1] s by (auto simp: fresh_region_def)
  have "\<not> mapped (regions s2) (m_shim m2 ''cpu_possible_mask'') 8"
    unfolding a(3,4) s(3) by (simp add: mapped_def in_region_def)
  from wide_initialize [OF a(2) this] have "initialize_shim_region sample_env q s2 = None" .
  with m0 l a(1) show ?thesis
    by (simp add: load_sections_def moduleP_def withP_def thenP_def Let_def ix del: layout_sections.simps for_ok.simps)
qed

lemma sample_env_sel:
  "e_malloc sample_env n w = (w, w + 0x100000)" "e_address_of sample_env x = 0x1000000"
  by (simp_all add: sample_env_def)

text \<open>C37.
  The requirement that the sections of an image fit into the address space cannot be dropped.  There
  is a file of 193 bytes that the reader accepts, with one section of 2^64 - 225280 bytes without
  contents, on which the loader crashes in a state with the invariant: the size of the image and of the
  shim region behind it wraps around to 4096 bytes, and the first store to the shim region hits
  unmapped memory.
\<close>

theorem wide_section_crashes:
  "env_ok sample_env \<and> loader_inv sample_env sample_loader \<and>
    kb_elf_open (Some wide_image) (of_nat (length wide_image)) True = Done wide_file \<and>
    kb_elf_section (Some wide_file) 1 True = Done wide_section \<and> sec_size wide_section = - 225280 \<and>
    kb_module_open_image sample_env (Some (sample_module wide_image)) 1 True sample_loader = None"
proof -
  have image: "of_nat (length wide_image) = (193 :: u64)" "unat (kb_elf_section_count (Some wide_file)) = 2"
    "elf_type wide_file = 1" "elf_machine wide_file = 62"
    by (simp_all add: wide_length kb_elf_section_count_def wide_file_def)
  have name: "copied_string sample_env NULL = cstr ''(unnamed)''"
    by (simp add: copied_string_def kb_low_or_err_pointer_def cstr_def)
  have "kb_module_open_image sample_env (Some (sample_module wide_image)) 1 True sample_loader = None"
    by (simp add: bindP_def kb_module_open_image_def sample_module_def image callocP_def sample_env_sel sample_loader_def loader_initial_def
        fresh_region_def open_module_def set_moduleP_def kb_copy_string_def mallocP_def name cstr_def pokeP_def mapped_def in_region_def
        open_elf_def withP_def outcomeP_def wide_open Let_def write_u64le_def write_u32le_def prepare_module_def thenP_def wide_load)
  then show ?thesis
    by (simp add: sample_env_ok sample_loader_inv wide_open image wide_sections wide_section_def)
qed

end
