(* ===== verification/Usb_State.thy ===== *)
theory Usb_State
  imports Block
begin

text \<open>
  The data of the USB subsystem: the structures of \<^verbatim>\<open>src/linux_subsystem/usb/usb.h\<close> and
  \<^verbatim>\<open>src/linux_subsystem/usb/storage.h\<close>, and the static variables of \<^verbatim>\<open>usb.c\<close> and
  \<^verbatim>\<open>storage.c\<close> as the record \<open>usb_state\<close>.  The linked lists are HOL lists, head first, and the
  array of storage records is a list of 32 entries.
\<close>

section \<open>Host controllers, requests, devices, interfaces and endpoints\<close>

record kb_usb_hcd_record =
  h_at :: ptr
  h_primary :: int
  h_owner :: ptr
  h_driver :: ptr
  h_hcd :: ptr
  h_primary_hcd :: ptr
  h_regs :: ptr
  h_owns_storage :: bool
  h_irq :: u32
  h_irq_registered :: int
  h_added :: int
  h_irq_count :: u32
  h_died_count :: u32
  h_lost_power_count :: u32
  h_root_hub_poll_count :: u32
  h_root_hub_resume_count :: u32
  h_port_resume_start_count :: u32
  h_port_resume_end_count :: u32
  h_wakeup_notification_count :: u32
  h_remote_wakeup_quirk_count :: u32
  h_hub_event_bits :: u64

record kb_usb_hub_event_update =
  hu_status :: bytes
  hu_status_len :: int
  hu_bits :: u64
  hu_new_bits :: u64
  hu_injected_before :: u64
  hu_injected_after :: u64
  hu_slot :: int

record kb_usb_hcd_snapshot =
  hs_hcd :: ptr
  hs_owner :: ptr
  hs_driver :: ptr
  hs_primary_hcd :: ptr
  hs_regs :: ptr
  hs_irq :: u32
  hs_primary :: u32
  hs_irq_registered :: u32
  hs_added :: u32
  hs_irq_count :: u32
  hs_died_count :: u32
  hs_lost_power_count :: u32
  hs_root_hub_poll_count :: u32
  hs_root_hub_resume_count :: u32
  hs_port_resume_start_count :: u32
  hs_port_resume_end_count :: u32
  hs_wakeup_notification_count :: u32
  hs_remote_wakeup_quirk_count :: u32

text \<open>The record of a request has the fields of its snapshot.\<close>

record kb_usb_urb_snapshot =
  u_hcd :: ptr
  u_urb :: ptr
  u_transfer_buffer :: ptr
  u_setup_packet :: ptr
  u_transfer_dma :: u64
  u_setup_dma :: u64
  u_transfer_buffer_length :: u32
  u_actual_length :: u32
  u_transfer_flags :: u32
  u_dma_map_flags :: u32
  u_status :: int
  u_linked :: u32
  u_mapped :: u32
  u_link_count :: u32
  u_unlink_count :: u32
  u_map_count :: u32
  u_unmap_count :: u32
  u_submit_count :: u32
  u_kill_count :: u32
  u_giveback_count :: u32
  u_last_unlink_status :: int
  u_last_submit_status :: int
  u_last_giveback_status :: int
  u_last_mem_flags :: u32
  u_last_submit_mem_flags :: u32

record kb_usb_urb_dma_update =
  du_transfer_buffer :: ptr
  du_setup_packet :: ptr
  du_transfer_dma :: u64
  du_setup_dma :: u64
  du_transfer_buffer_length :: u32
  du_actual_length :: u32
  du_transfer_flags :: u32
  du_dma_map_flags :: u32
  du_mem_flags :: u32

text \<open>An update of a device, an interface or an endpoint has the fields of the snapshot.\<close>

record kb_usb_device_snapshot =
  dv_hcd :: ptr
  dv_udev :: ptr
  dv_linux_device :: ptr
  dv_parent_linux_device :: ptr
  dv_bus :: ptr
  dv_active_config :: ptr
  dv_devnum :: u32
  dv_portnum :: u32
  dv_speed :: u32
  dv_state :: u32
  dv_vendor_id :: u16
  dv_product_id :: u16
  dv_bcd_device :: u16
  dv_device_class :: u8
  dv_device_subclass :: u8
  dv_device_protocol :: u8
  dv_max_packet_size0 :: u8
  dv_configuration_value :: u8
  dv_interface_count :: u8
  dv_devpath :: string

record kb_usb_interface_snapshot =
  if_udev :: ptr
  if_interface :: ptr
  if_linux_device :: ptr
  if_parent_linux_device :: ptr
  if_driver :: ptr
  if_driver_data :: ptr
  if_cur_altsetting :: ptr
  if_interface_number :: u8
  if_alternate_setting :: u8
  if_endpoint_count :: u8
  if_interface_class :: u8
  if_interface_subclass :: u8
  if_interface_protocol :: u8

record kb_usb_endpoint_snapshot =
  ep_udev :: ptr
  ep_interface :: ptr
  ep_endpoint :: ptr
  ep_address :: u8
  ep_attributes :: u8
  ep_interval :: u8
  ep_type :: u8
  ep_direction_in :: u8
  ep_max_packet_size :: u16

record kb_usb_driver_snapshot =
  dr_driver :: ptr
  dr_owner :: ptr
  dr_registered :: bool
  dr_last_register_status :: int
  dr_register_count :: u32
  dr_deregister_count :: u32
  dr_module_name :: string

section \<open>Mass storage\<close>

record kb_usb_storage_snapshot =
  us_udev :: ptr
  us_interface :: ptr
  us_linux_device :: ptr
  us_parent_linux_device :: ptr
  us_driver :: ptr
  us_driver_data :: ptr
  us_scsi_host :: ptr
  us_scsi_host_private :: ptr
  us_disk :: ptr
  us_queue :: ptr
  us_part0 :: ptr
  us_tag_set :: ptr
  us_capacity_sectors :: u64
  us_sector_size :: u32
  us_disk_number :: u32
  us_registered :: u32
  us_medium_present :: u32
  us_scan_count :: u32
  us_add_host_count :: u32
  us_backing_bytes :: u64
  us_read_count :: u64
  us_write_count :: u64
  us_bytes_read :: u64
  us_bytes_written :: u64
  us_scsi_command_count :: u64
  us_scsi_read_command_count :: u64
  us_scsi_write_command_count :: u64
  us_bot_command_count :: u64
  us_bot_success_count :: u64
  us_bot_failed_count :: u64
  us_bot_phase_error_count :: u64
  us_bot_reset_count :: u64
  us_last_bot_tag :: u32
  us_last_bot_residue :: u32
  us_last_scsi_opcode :: u8
  us_last_sense_key :: u8
  us_last_asc :: u8
  us_last_ascq :: u8
  us_last_bot_status :: u8
  us_interface_number :: u8
  us_subclass :: u8
  us_protocol :: u8
  us_bulk_in_endpoint :: u8
  us_bulk_out_endpoint :: u8

record kb_usb_storage_scsi_result =
  sr_status :: u8
  sr_sense_key :: u8
  sr_asc :: u8
  sr_ascq :: u8
  sr_data_transferred :: u64
  sr_residue :: u32

record kb_usb_storage_bot_result =
  br_tag :: u32
  br_residue :: u32
  br_status :: u8
  br_data_transferred :: u64
  br_csw :: bytes

record kb_usb_storage_extent =
  x_index :: u64
  x_data :: bytes

text \<open>A record of the array: \<^verbatim>\<open>active\<close>, the snapshot and the list of extents.\<close>

record kb_usb_storage_record = kb_usb_storage_snapshot +
  us_active :: bool
  us_extents :: "kb_usb_storage_extent list"

section \<open>State\<close>

text \<open>
  What the I/O callbacks of a USB disk work on: the array of records, and the allocator.  The
  allocator is a sequence of answers, \<open>e_calloc\<close> of the environment, of which \<open>allocations\<close> were
  used; \<open>live\<close> are the blocks whose addresses are visible to other components.
\<close>

record usb_storage =
  storage_records :: "kb_usb_storage_record list"
  storage_driver_registered :: bool
  allocations :: nat
  live :: "ptr list"

record usb_state =
  usb_hcd_records :: "kb_usb_hcd_record list"
  usb_urb_records :: "kb_usb_urb_snapshot list"
  usb_device_records :: "kb_usb_device_snapshot list"
  usb_interface_records :: "kb_usb_interface_snapshot list"
  usb_endpoint_records :: "kb_usb_endpoint_snapshot list"
  usb_driver_records :: "kb_usb_driver_snapshot list"
  storage :: usb_storage
  blocks :: "usb_storage block_subsystem"

text \<open>The host: environment variables, the allocator, and the address of the array of records.\<close>

record usb_env =
  e_getenv :: "string \<Rightarrow> string option"
  e_calloc :: "nat \<Rightarrow> ptr"
  e_storage_records :: ptr

abbreviation (input) KB_USB_STORAGE_MAX :: nat where "KB_USB_STORAGE_MAX \<equiv> 32"

definition zero_storage_record :: kb_usb_storage_record where
  "zero_storage_record = \<lparr>us_udev = NULL, us_interface = NULL, us_linux_device = NULL, us_parent_linux_device = NULL,
     us_driver = NULL, us_driver_data = NULL, us_scsi_host = NULL, us_scsi_host_private = NULL, us_disk = NULL,
     us_queue = NULL, us_part0 = NULL, us_tag_set = NULL, us_capacity_sectors = 0, us_sector_size = 0,
     us_disk_number = 0, us_registered = 0, us_medium_present = 0, us_scan_count = 0, us_add_host_count = 0,
     us_backing_bytes = 0, us_read_count = 0, us_write_count = 0, us_bytes_read = 0, us_bytes_written = 0,
     us_scsi_command_count = 0, us_scsi_read_command_count = 0, us_scsi_write_command_count = 0,
     us_bot_command_count = 0, us_bot_success_count = 0, us_bot_failed_count = 0, us_bot_phase_error_count = 0,
     us_bot_reset_count = 0, us_last_bot_tag = 0, us_last_bot_residue = 0, us_last_scsi_opcode = 0,
     us_last_sense_key = 0, us_last_asc = 0, us_last_ascq = 0, us_last_bot_status = 0, us_interface_number = 0,
     us_subclass = 0, us_protocol = 0, us_bulk_in_endpoint = 0, us_bulk_out_endpoint = 0,
     us_active = False, us_extents = []\<rparr>"

definition usb_initial :: usb_state where
  "usb_initial = \<lparr>usb_hcd_records = [], usb_urb_records = [], usb_device_records = [], usb_interface_records = [],
     usb_endpoint_records = [], usb_driver_records = [],
     storage = \<lparr>storage_records = replicate KB_USB_STORAGE_MAX zero_storage_record, storage_driver_registered = False,
       allocations = 0, live = []\<rparr>,
     blocks = block_initial\<rparr>"

section \<open>The allocator\<close>

text \<open>
  An allocation returns the next answer of the host.  An address that is in use is never returned by
  \<^verbatim>\<open>calloc\<close>; such an answer counts as a failure.
\<close>

definition usb_calloc :: "usb_env \<Rightarrow> usb_storage \<Rightarrow> ptr \<times> usb_storage" where
  "usb_calloc e w =
     (let p = e_calloc e (allocations w); w = w\<lparr>allocations := allocations w + 1\<rparr> in
      if p = NULL \<or> p \<in> set (live w) then (NULL, w) else (p, w\<lparr>live := p # live w\<rparr>))"

text \<open>An allocation whose address stays inside the list that it is linked into.\<close>

definition usb_calloc_node :: "usb_env \<Rightarrow> usb_storage \<Rightarrow> bool \<times> usb_storage" where
  "usb_calloc_node e w = (e_calloc e (allocations w) \<noteq> NULL, w\<lparr>allocations := allocations w + 1\<rparr>)"

definition usb_free :: "ptr \<Rightarrow> usb_storage \<Rightarrow> usb_storage" where
  "usb_free p w = w\<lparr>live := filter (\<lambda>q. q \<noteq> p) (live w)\<rparr>"

text \<open>The address of an element of the array, 272 bytes each, and back.\<close>

definition record_at :: "usb_env \<Rightarrow> nat \<Rightarrow> ptr" where
  "record_at e i = e_storage_records e + 272 * of_nat i"

definition record_index :: "usb_env \<Rightarrow> ptr \<Rightarrow> nat" where
  "record_index e p = unat ((p - e_storage_records e) div 272)"

lemma record_index_at [simp]:
  assumes "i < KB_USB_STORAGE_MAX"
  shows "record_index e (record_at e i) = i"
proof -
  have "unat (272 * of_nat i :: u64) = 272 * i" using assms by (simp add: unat_word_ariths unat_of_nat)
  then show ?thesis by (simp add: record_index_def record_at_def unat_div)
qed

section \<open>Iteration\<close>

text \<open>
  The loop of the functions that call back for every element: the number of elements visited, and the
  caller's context afterwards.  A result other than 0 ends the loop.
\<close>

fun visit :: "('a \<Rightarrow> 'c \<Rightarrow> int \<times> 'c) \<Rightarrow> 'a list \<Rightarrow> 'c \<Rightarrow> nat \<times> 'c" where
  "visit callback [] ctx = (0, ctx)"
| "visit callback (x # xs) ctx = (case callback x ctx of (result, ctx) \<Rightarrow>
     if result \<noteq> 0 then (1, ctx) else (case visit callback xs ctx of (n, ctx) \<Rightarrow> (Suc n, ctx)))"

end
