(* ===== verification/Usb_Storage.thy ===== *)
theory Usb_Storage
  imports Usb_State
begin

text \<open>
  The mass-storage part of the USB subsystem, \<^verbatim>\<open>src/linux_subsystem/usb/storage.c\<close>: records of
  mass-storage interfaces, a sparse backing store of 4096-byte extents behind a disk of the block
  subsystem, SCSI commands and the bulk-only transport on top of them.  A pointer to a record is its
  index in the array, \<open>None\<close> for the null pointer.  A buffer that the caller passes is a byte list
  of at least the stated length, or \<open>None\<close> for the null pointer.
\<close>

abbreviation (input) KB_USB_STORAGE_DEFAULT_SECTOR_SIZE :: u32 where "KB_USB_STORAGE_DEFAULT_SECTOR_SIZE \<equiv> 512"
abbreviation (input) KB_USB_STORAGE_DEFAULT_SECTORS :: u64 where "KB_USB_STORAGE_DEFAULT_SECTORS \<equiv> 131072"
abbreviation (input) KB_USB_STORAGE_CLASS_MASS_STORAGE :: u8 where "KB_USB_STORAGE_CLASS_MASS_STORAGE \<equiv> 0x08"
abbreviation (input) KB_USB_ENDPOINT_TYPE_BULK :: u8 where "KB_USB_ENDPOINT_TYPE_BULK \<equiv> 2"
abbreviation (input) KB_USB_STORAGE_EXTENT_SIZE :: u64 where "KB_USB_STORAGE_EXTENT_SIZE \<equiv> 4096"
abbreviation (input) KB_USB_STORAGE_BOT_CBW_SIZE :: nat where "KB_USB_STORAGE_BOT_CBW_SIZE \<equiv> 31"
abbreviation (input) KB_USB_STORAGE_BOT_CSW_SIZE :: nat where "KB_USB_STORAGE_BOT_CSW_SIZE \<equiv> 13"
abbreviation (input) KB_USB_STORAGE_BOT_CBW_SIGNATURE :: u32 where "KB_USB_STORAGE_BOT_CBW_SIGNATURE \<equiv> 0x43425355"
abbreviation (input) KB_USB_STORAGE_BOT_CSW_SIGNATURE :: u32 where "KB_USB_STORAGE_BOT_CSW_SIGNATURE \<equiv> 0x53425355"
abbreviation (input) KB_USB_STORAGE_BOT_FLAG_DATA_IN :: u8 where "KB_USB_STORAGE_BOT_FLAG_DATA_IN \<equiv> 0x80"
abbreviation (input) BOT_PASSED :: u8 where "BOT_PASSED \<equiv> 0"
abbreviation (input) BOT_FAILED :: u8 where "BOT_FAILED \<equiv> 1"
abbreviation (input) BOT_PHASE_ERROR :: u8 where "BOT_PHASE_ERROR \<equiv> 2"
abbreviation (input) SCSI_GOOD :: u8 where "SCSI_GOOD \<equiv> 0"
abbreviation (input) SCSI_CHECK_CONDITION :: u8 where "SCSI_CHECK_CONDITION \<equiv> 2"
abbreviation (input) KB_SCSI_SENSE_NOT_READY :: u8 where "KB_SCSI_SENSE_NOT_READY \<equiv> 0x02"
abbreviation (input) KB_SCSI_SENSE_ILLEGAL_REQUEST :: u8 where "KB_SCSI_SENSE_ILLEGAL_REQUEST \<equiv> 0x05"
abbreviation (input) KB_SCSI_ASC_INVALID_COMMAND :: u8 where "KB_SCSI_ASC_INVALID_COMMAND \<equiv> 0x20"
abbreviation (input) KB_SCSI_ASC_LBA_OUT_OF_RANGE :: u8 where "KB_SCSI_ASC_LBA_OUT_OF_RANGE \<equiv> 0x21"
abbreviation (input) KB_SCSI_ASC_INVALID_FIELD_IN_CDB :: u8 where "KB_SCSI_ASC_INVALID_FIELD_IN_CDB \<equiv> 0x24"

section \<open>The default capacity\<close>

text \<open>The value of a digit of a base up to 16.\<close>

definition digit_value :: "char \<Rightarrow> nat option" where
  "digit_value c =
     (let n = (of_char c :: nat) in
      if 48 \<le> n \<and> n \<le> 57 then Some (n - 48)
      else if 97 \<le> n \<and> n \<le> 122 then Some (n - 87)
      else if 65 \<le> n \<and> n \<le> 90 then Some (n - 55) else None)"

fun digits_value :: "nat \<Rightarrow> nat \<Rightarrow> string \<Rightarrow> nat" where
  "digits_value base acc [] = acc"
| "digits_value base acc (c # cs) = (case digit_value c of
      Some d \<Rightarrow> if d < base then digits_value base (acc * base + d) cs else acc
    | None \<Rightarrow> acc)"

definition starts_digit :: "nat \<Rightarrow> string \<Rightarrow> bool" where
  "starts_digit base cs = (case cs of [] \<Rightarrow> False
     | c # _ \<Rightarrow> (case digit_value c of Some d \<Rightarrow> d < base | None \<Rightarrow> False))"

definition is_space :: "char \<Rightarrow> bool" where
  "is_space c \<longleftrightarrow> (of_char c :: nat) = 32 \<or> 9 \<le> (of_char c :: nat) \<and> (of_char c :: nat) \<le> 13"

text \<open>
  \<^verbatim>\<open>strtoull\<close> of the C library with base 0: \<open>None\<close> when there is no number, in which case the
  end pointer is the start of the string.
\<close>

definition strtoull :: "string \<Rightarrow> u64 option" where
  "strtoull s =
     (let s = dropWhile is_space s;
          neg = (s \<noteq> [] \<and> hd s = CHR ''-'');
          s = (if s \<noteq> [] \<and> (hd s = CHR ''-'' \<or> hd s = CHR ''+'') then tl s else s);
          hex = (length s > 2 \<and> s ! 0 = CHR ''0'' \<and> (s ! 1 = CHR ''x'' \<or> s ! 1 = CHR ''X'') \<and> starts_digit 16 (drop 2 s));
          base = (if hex then 16 else if s \<noteq> [] \<and> hd s = CHR ''0'' then 8 else 10);
          digits = (if hex then drop 2 s else s) in
      if \<not> starts_digit base digits then None
      else let n = digits_value base 0 digits in
        if n \<ge> 2 ^ 64 then Some (- 1) else Some (if neg then - of_nat n else of_nat n))"

definition default_capacity_sectors :: "usb_env \<Rightarrow> u64" where
  "default_capacity_sectors e = (case e_getenv e ''KOBOX_USB_STORAGE_SECTORS'' of
       None \<Rightarrow> KB_USB_STORAGE_DEFAULT_SECTORS
     | Some [] \<Rightarrow> KB_USB_STORAGE_DEFAULT_SECTORS
     | Some value \<Rightarrow>
         (case strtoull value of
            None \<Rightarrow> KB_USB_STORAGE_DEFAULT_SECTORS
          | Some sectors \<Rightarrow> if sectors = 0 then KB_USB_STORAGE_DEFAULT_SECTORS else sectors))"

section \<open>Records\<close>

text \<open>The loop of the lookups: the first active record with a property.\<close>

fun first_record :: "(kb_usb_storage_record \<Rightarrow> bool) \<Rightarrow> kb_usb_storage_record list \<Rightarrow> nat option" where
  "first_record P [] = None"
| "first_record P (r # rs) = (if us_active r \<and> P r then Some 0 else map_option Suc (first_record P rs))"

definition record_find_by_interface :: "usb_storage \<Rightarrow> ptr \<Rightarrow> nat option" where
  "record_find_by_interface w interface =
     (if interface = NULL then None else first_record (\<lambda>r. us_interface r = interface) (storage_records w))"

definition record_find_by_host_private :: "usb_storage \<Rightarrow> ptr \<Rightarrow> nat option" where
  "record_find_by_host_private w host_private =
     (if host_private = NULL then None else first_record (\<lambda>r. us_driver_data r = host_private) (storage_records w))"

definition record_find_by_host :: "usb_storage \<Rightarrow> ptr \<Rightarrow> nat option" where
  "record_find_by_host w host =
     (if host = NULL then None else first_record (\<lambda>r. us_scsi_host r = host) (storage_records w))"

definition record_find_by_linux_device :: "usb_storage \<Rightarrow> ptr \<Rightarrow> nat option" where
  "record_find_by_linux_device w dev =
     (if dev = NULL then None
      else first_record (\<lambda>r. us_linux_device r = dev \<or> us_parent_linux_device r = dev) (storage_records w))"

definition record_find_by_disk :: "usb_storage \<Rightarrow> ptr \<Rightarrow> nat option" where
  "record_find_by_disk w disk =
     (if disk = NULL then None else first_record (\<lambda>r. us_disk r = disk) (storage_records w))"

text \<open>The loop of \<^verbatim>\<open>record_only_without_host\<close>; it ends when a second record is found.\<close>

fun only_record :: "nat \<Rightarrow> nat option \<Rightarrow> kb_usb_storage_record list \<Rightarrow> nat option" where
  "only_record i found [] = found"
| "only_record i found (r # rs) =
     (if us_active r \<and> us_scsi_host r = NULL
      then (if found \<noteq> None then None else only_record (i + 1) (Some i) rs)
      else only_record (i + 1) found rs)"

definition record_only_without_host :: "usb_storage \<Rightarrow> nat option" where
  "record_only_without_host w = only_record 0 None (storage_records w)"

text \<open>Assignments through a pointer to a record.\<close>

definition on_record :: "nat \<Rightarrow> (kb_usb_storage_record \<Rightarrow> kb_usb_storage_record) \<Rightarrow> usb_storage \<Rightarrow> usb_storage" where
  "on_record i f w = w\<lparr>storage_records := (storage_records w)[i := f (storage_records w ! i)]\<rparr>"

abbreviation (input) record_of :: "usb_storage \<Rightarrow> nat \<Rightarrow> kb_usb_storage_record" where
  "record_of w i \<equiv> storage_records w ! i"

fun first_inactive :: "kb_usb_storage_record list \<Rightarrow> nat option" where
  "first_inactive [] = None"
| "first_inactive (r # rs) = (if \<not> us_active r then Some 0 else map_option Suc (first_inactive rs))"

definition record_for_interface :: "usb_env \<Rightarrow> usb_storage \<Rightarrow> ptr \<Rightarrow> nat option \<times> usb_storage" where
  "record_for_interface e w interface =
     (let record = record_find_by_interface w interface in
      if record \<noteq> None \<or> interface = NULL then (record, w)
      else (case first_inactive (storage_records w) of
              None \<Rightarrow> (None, w)
            | Some i \<Rightarrow> (Some i, on_record i (\<lambda>_. zero_storage_record\<lparr>us_active := True, us_interface := interface,
                us_sector_size := KB_USB_STORAGE_DEFAULT_SECTOR_SIZE,
                us_capacity_sectors := default_capacity_sectors e, us_medium_present := 1\<rparr>) w)))"

text \<open>\<^verbatim>\<open>strstr\<close> of the C library, as a test.\<close>

fun strstr :: "string \<Rightarrow> string \<Rightarrow> bool" where
  "strstr [] needle \<longleftrightarrow> needle = []"
| "strstr (c # cs) needle \<longleftrightarrow> take (length needle) (c # cs) = needle \<or> strstr cs needle"

definition module_name_is_usb_storage :: "string option \<Rightarrow> bool" where
  "module_name_is_usb_storage module_name = (case module_name of
       None \<Rightarrow> False
     | Some name \<Rightarrow> strstr name ''usb-storage'' \<or> strstr name ''usb_storage'')"

section \<open>Fields of commands and results\<close>

definition read_be16 :: "bytes \<Rightarrow> u16" where
  "read_be16 value = push_bit 8 (ucast (value ! 0)) OR ucast (value ! 1)"

definition read_be32 :: "bytes \<Rightarrow> u32" where
  "read_be32 value = push_bit 24 (ucast (value ! 0)) OR push_bit 16 (ucast (value ! 1)) OR
     push_bit 8 (ucast (value ! 2)) OR ucast (value ! 3)"

definition read_le32 :: "bytes \<Rightarrow> u32" where
  "read_le32 value = ucast (value ! 0) OR push_bit 8 (ucast (value ! 1)) OR
     push_bit 16 (ucast (value ! 2)) OR push_bit 24 (ucast (value ! 3))"

text \<open>The four bytes that the writers store.\<close>

definition write_be32 :: "u32 \<Rightarrow> bytes" where
  "write_be32 data = [ucast (drop_bit 24 data), ucast (drop_bit 16 data), ucast (drop_bit 8 data), ucast data]"

definition write_le32 :: "u32 \<Rightarrow> bytes" where
  "write_le32 data = [ucast data, ucast (drop_bit 8 data), ucast (drop_bit 16 data), ucast (drop_bit 24 data)]"

text \<open>
  Results are out-parameters; a caller that passes no result structure does not see the value that is
  returned here.
\<close>

definition zero_scsi_result :: kb_usb_storage_scsi_result where
  "zero_scsi_result = \<lparr>sr_status = 0, sr_sense_key = 0, sr_asc = 0, sr_ascq = 0, sr_data_transferred = 0, sr_residue = 0\<rparr>"

definition zero_bot_result :: kb_usb_storage_bot_result where
  "zero_bot_result = \<lparr>br_tag = 0, br_residue = 0, br_status = 0, br_data_transferred = 0,
     br_csw = replicate KB_USB_STORAGE_BOT_CSW_SIZE 0\<rparr>"

definition result_good :: "u64 \<Rightarrow> u64 \<Rightarrow> kb_usb_storage_scsi_result" where
  "result_good transferred buffer_len =
     (let residue = (if transferred \<le> buffer_len then buffer_len - transferred else 0) in
      \<lparr>sr_status = SCSI_GOOD, sr_sense_key = 0, sr_asc = 0, sr_ascq = 0, sr_data_transferred = transferred,
       sr_residue = (if residue > 0xffffffff then 0xffffffff else ucast residue)\<rparr>)"

definition result_check_condition ::
  "nat \<Rightarrow> u8 \<Rightarrow> u8 \<Rightarrow> u8 \<Rightarrow> u64 \<Rightarrow> usb_storage \<Rightarrow> kb_usb_storage_scsi_result \<times> usb_storage" where
  "result_check_condition i sense_key asc ascq buffer_len w =
     (\<lparr>sr_status = SCSI_CHECK_CONDITION, sr_sense_key = sense_key, sr_asc = asc, sr_ascq = ascq, sr_data_transferred = 0,
       sr_residue = (if buffer_len > 0xffffffff then 0xffffffff else ucast buffer_len)\<rparr>,
      on_record i (\<lambda>r. r\<lparr>us_last_sense_key := sense_key, us_last_asc := asc, us_last_ascq := ascq\<rparr>) w)"

definition bot_fill_csw :: "kb_usb_storage_bot_result \<Rightarrow> u32 \<Rightarrow> u32 \<Rightarrow> u8 \<Rightarrow> kb_usb_storage_bot_result" where
  "bot_fill_csw result tag residue status = result\<lparr>br_tag := tag, br_residue := residue, br_status := status,
     br_csw := write_le32 KB_USB_STORAGE_BOT_CSW_SIGNATURE @ write_le32 tag @ write_le32 residue @ [status]\<rparr>"

definition bot_record_status :: "nat \<Rightarrow> u32 \<Rightarrow> u32 \<Rightarrow> u8 \<Rightarrow> usb_storage \<Rightarrow> usb_storage" where
  "bot_record_status i tag residue status = on_record i (\<lambda>r.
     let r = r\<lparr>us_last_bot_tag := tag, us_last_bot_residue := residue, us_last_bot_status := status\<rparr> in
     if status = BOT_PASSED then r\<lparr>us_bot_success_count := us_bot_success_count r + 1\<rparr>
     else if status = BOT_FAILED then r\<lparr>us_bot_failed_count := us_bot_failed_count r + 1\<rparr>
     else if status = BOT_PHASE_ERROR then r\<lparr>us_bot_phase_error_count := us_bot_phase_error_count r + 1\<rparr>
     else r)"

text \<open>Storing bytes at an offset of an object.\<close>

definition splice :: "nat \<Rightarrow> bytes \<Rightarrow> bytes \<Rightarrow> bytes" where
  "splice pos data buffer = take pos buffer @ data @ drop (pos + length data) buffer"

definition copy_limited :: "bytes option \<Rightarrow> u64 \<Rightarrow> bytes \<Rightarrow> u64 \<times> bytes option" where
  "copy_limited buffer buffer_len data = (case buffer of
       None \<Rightarrow> (0, None)
     | Some content \<Rightarrow>
         if buffer_len = 0 then (0, buffer)
         else let transferred = (if of_nat (length data) < buffer_len then of_nat (length data) else buffer_len) in
           (transferred, Some (splice 0 (take (unat transferred) data) content)))"

section \<open>Endpoints\<close>

definition storage_attach_endpoint :: "nat \<Rightarrow> kb_usb_endpoint_snapshot \<Rightarrow> usb_storage \<Rightarrow> usb_storage" where
  "storage_attach_endpoint i endpoint w =
     (if ep_type endpoint \<noteq> KB_USB_ENDPOINT_TYPE_BULK then w
      else on_record i (\<lambda>r. if ep_direction_in endpoint \<noteq> 0
        then r\<lparr>us_bulk_in_endpoint := ep_address endpoint\<rparr>
        else r\<lparr>us_bulk_out_endpoint := ep_address endpoint\<rparr>) w)"

definition endpoint_matches_record :: "nat \<Rightarrow> kb_usb_endpoint_snapshot \<Rightarrow> usb_storage \<Rightarrow> usb_storage" where
  "endpoint_matches_record i endpoint w =
     (if ep_interface endpoint \<noteq> us_interface (record_of w i) then w else storage_attach_endpoint i endpoint w)"

text \<open>The callback never stops the iteration of \<^verbatim>\<open>kb_usb_subsystem_for_each_endpoint\<close>.\<close>

definition storage_collect_endpoints :: "kb_usb_endpoint_snapshot list \<Rightarrow> nat \<Rightarrow> usb_storage \<Rightarrow> usb_storage" where
  "storage_collect_endpoints endpoints i w = fold (endpoint_matches_record i) endpoints w"

section \<open>The backing store\<close>

definition storage_release_backing :: "nat \<Rightarrow> usb_storage \<Rightarrow> usb_storage" where
  "storage_release_backing i = on_record i (\<lambda>r. r\<lparr>us_extents := [], us_backing_bytes := 0\<rparr>)"

definition storage_find_extent :: "kb_usb_storage_record \<Rightarrow> u64 \<Rightarrow> kb_usb_storage_extent option" where
  "storage_find_extent r index = find (\<lambda>x. x_index x = index) (us_extents r)"

text \<open>Whether there is an extent afterwards.\<close>

definition storage_ensure_extent :: "usb_env \<Rightarrow> nat \<Rightarrow> u64 \<Rightarrow> usb_storage \<Rightarrow> bool \<times> usb_storage" where
  "storage_ensure_extent e i index w = (case storage_find_extent (record_of w i) index of
       Some extent \<Rightarrow> (True, w)
     | None \<Rightarrow>
         (case usb_calloc_node e w of
            (False, w) \<Rightarrow> (False, w)
          | (True, w) \<Rightarrow> (True, on_record i (\<lambda>r. r\<lparr>
              us_extents := \<lparr>x_index = index, x_data = replicate (unat KB_USB_STORAGE_EXTENT_SIZE) 0\<rparr> # us_extents r,
              us_backing_bytes := us_backing_bytes r + KB_USB_STORAGE_EXTENT_SIZE\<rparr>) w)))"

text \<open>\<^verbatim>\<open>memcpy\<close> into the first extent with an index.\<close>

fun store_extent :: "u64 \<Rightarrow> nat \<Rightarrow> bytes \<Rightarrow> kb_usb_storage_extent list \<Rightarrow> kb_usb_storage_extent list" where
  "store_extent index pos data [] = []"
| "store_extent index pos data (x # xs) =
     (if x_index x = index then x\<lparr>x_data := splice pos data (x_data x)\<rparr> # xs else x # store_extent index pos data xs)"

text \<open>The loop of \<^verbatim>\<open>storage_backing_transfer\<close>; \<open>cursor\<close> is the position in the buffer.\<close>

definition transfer_chunk :: "u64 \<Rightarrow> u64 \<Rightarrow> u64" where
  "transfer_chunk offset remaining =
     (let chunk = KB_USB_STORAGE_EXTENT_SIZE - offset mod KB_USB_STORAGE_EXTENT_SIZE in
      if chunk > remaining then remaining else chunk)"

lemma extent_rest:
  "unat (4096 - offset mod 4096 :: u64) = 4096 - unat offset mod 4096" "0 < unat (4096 - offset mod 4096 :: u64)"
proof -
  have m: "unat (offset mod 4096) = unat offset mod 4096" by (simp add: unat_mod)
  then have "offset mod 4096 \<le> 4096" by (simp add: word_le_nat_alt)
  then show 1: "unat (4096 - offset mod 4096) = 4096 - unat offset mod 4096" by (simp add: unat_sub m)
  then show "0 < unat (4096 - offset mod 4096 :: u64)" by simp
qed

lemma unat_transfer_chunk: "unat (transfer_chunk offset remaining) = min (4096 - unat offset mod 4096) (unat remaining)"
  by (auto simp: transfer_chunk_def Let_def word_less_nat_alt extent_rest(1))

lemma transfer_chunk_pos: "remaining \<noteq> 0 \<Longrightarrow> 0 < unat (transfer_chunk offset remaining)"
  by (simp add: unat_transfer_chunk word_nonzero_unat [symmetric])

lemma unat_transfer_rest: "unat (remaining - transfer_chunk offset remaining) = unat remaining - unat (transfer_chunk offset remaining)"
  by (rule unat_sub) (simp add: word_le_nat_alt unat_transfer_chunk)

text \<open>
  One iteration: \<open>Inl\<close> is the return in the middle of the loop, \<open>Inr\<close> the variables after the iteration.
\<close>

definition transfer_body ::
  "usb_env \<Rightarrow> nat \<Rightarrow> bool \<Rightarrow> u64 \<Rightarrow> u64 \<Rightarrow> nat \<Rightarrow> bytes \<Rightarrow> usb_storage \<Rightarrow>
     (int \<times> bytes \<times> usb_storage) + (u64 \<times> u64 \<times> nat \<times> bytes \<times> usb_storage)" where
  "transfer_body e i write offset remaining cursor buffer w =
     (let extent_index = offset div KB_USB_STORAGE_EXTENT_SIZE;
          extent_offset = unat (offset mod KB_USB_STORAGE_EXTENT_SIZE);
          chunk = transfer_chunk offset remaining in
      if write then
        (case storage_ensure_extent e i extent_index w of
           (False, w) \<Rightarrow> Inl (-12, buffer, w)
         | (True, w) \<Rightarrow>
             let w = on_record i (\<lambda>r. r\<lparr>us_extents :=
               store_extent extent_index extent_offset (take (unat chunk) (drop cursor buffer)) (us_extents r)\<rparr>) w in
             Inr (offset + chunk, remaining - chunk, cursor + unat chunk, buffer, w))
      else
        let data = (case storage_find_extent (record_of w i) extent_index of
            Some extent \<Rightarrow> take (unat chunk) (drop extent_offset (x_data extent))
          | None \<Rightarrow> replicate (unat chunk) 0) in
        Inr (offset + chunk, remaining - chunk, cursor + unat chunk, splice cursor data buffer, w))"

lemma transfer_body_next:
  "transfer_body e i write offset remaining cursor buffer w = Inr (offset', remaining', v) \<Longrightarrow>
    offset' = offset + transfer_chunk offset remaining \<and> remaining' = remaining - transfer_chunk offset remaining"
  by (auto simp: transfer_body_def Let_def split: if_splits prod.splits bool.splits)

function transfer_loop ::
  "usb_env \<Rightarrow> nat \<Rightarrow> bool \<Rightarrow> u64 \<Rightarrow> u64 \<Rightarrow> nat \<Rightarrow> bytes \<Rightarrow> usb_storage \<Rightarrow> int \<times> bytes \<times> usb_storage" where
  "transfer_loop e i write offset remaining cursor buffer w =
     (if remaining = 0 then (0, buffer, w)
      else (case transfer_body e i write offset remaining cursor buffer w of
          Inl result \<Rightarrow> result
        | Inr (offset, remaining, cursor, buffer, w) \<Rightarrow> transfer_loop e i write offset remaining cursor buffer w))"
  by pat_completeness auto
termination
  by (relation "measure (\<lambda>(e, i, wr, offset, remaining, c, b, w). unat remaining)")
    (auto dest!: transfer_body_next simp: unat_transfer_rest transfer_chunk_pos word_nonzero_unat)

declare transfer_loop.simps [simp del]

lemma transfer_loop_read:
  "remaining \<noteq> 0 \<Longrightarrow> transfer_loop e i False offset remaining cursor buffer w =
     transfer_loop e i False (offset + transfer_chunk offset remaining) (remaining - transfer_chunk offset remaining)
       (cursor + unat (transfer_chunk offset remaining))
       (splice cursor (case storage_find_extent (record_of w i) (offset div KB_USB_STORAGE_EXTENT_SIZE) of
            Some extent \<Rightarrow> take (unat (transfer_chunk offset remaining)) (drop (unat (offset mod KB_USB_STORAGE_EXTENT_SIZE)) (x_data extent))
          | None \<Rightarrow> replicate (unat (transfer_chunk offset remaining)) 0) buffer) w"
  by (subst transfer_loop.simps) (simp add: transfer_body_def Let_def)

lemma transfer_loop_write:
  "remaining \<noteq> 0 \<Longrightarrow> transfer_loop e i True offset remaining cursor buffer w =
     (case storage_ensure_extent e i (offset div KB_USB_STORAGE_EXTENT_SIZE) w of
        (False, w) \<Rightarrow> (-12, buffer, w)
      | (True, w) \<Rightarrow> transfer_loop e i True (offset + transfer_chunk offset remaining) (remaining - transfer_chunk offset remaining)
            (cursor + unat (transfer_chunk offset remaining)) buffer
            (on_record i (\<lambda>r. r\<lparr>us_extents := store_extent (offset div KB_USB_STORAGE_EXTENT_SIZE) (unat (offset mod KB_USB_STORAGE_EXTENT_SIZE))
               (take (unat (transfer_chunk offset remaining)) (drop cursor buffer)) (us_extents r)\<rparr>) w))"
  by (subst transfer_loop.simps) (simp add: transfer_body_def Let_def split: prod.split bool.split)

definition storage_backing_transfer ::
  "usb_env \<Rightarrow> nat \<Rightarrow> u64 \<Rightarrow> bytes option \<Rightarrow> u64 \<Rightarrow> bool \<Rightarrow> usb_storage \<Rightarrow> int \<times> bytes option \<times> usb_storage" where
  "storage_backing_transfer e i sector buffer byte_count write w = (case buffer of
       None \<Rightarrow> (-22, None, w)
     | Some content \<Rightarrow>
         if byte_count = 0 then (-22, buffer, w)
         else
           let sector_size = (if us_sector_size (record_of w i) \<noteq> 0 then us_sector_size (record_of w i)
                 else KB_USB_STORAGE_DEFAULT_SECTOR_SIZE) in
           (case transfer_loop e i write (sector * ucast sector_size) byte_count 0 content w of
              (result, content, w) \<Rightarrow> (result, Some content, w)))"

definition storage_block_read :: "usb_env \<Rightarrow> usb_storage kb_block_disk_read_fn" where
  "storage_block_read e ctx sector content byte_count w =
     (let i = record_index e ctx in
      case storage_backing_transfer e i sector (Some content) byte_count False w of
        (result, buffer, w) \<Rightarrow>
          (result, case buffer of Some content' \<Rightarrow> content' | None \<Rightarrow> content,
           if result = 0 then on_record i (\<lambda>r. r\<lparr>us_read_count := us_read_count r + 1,
               us_bytes_read := us_bytes_read r + byte_count\<rparr>) w
           else w))"

definition storage_block_write :: "usb_env \<Rightarrow> usb_storage kb_block_disk_write_fn" where
  "storage_block_write e ctx sector content byte_count w =
     (let i = record_index e ctx in
      case storage_backing_transfer e i sector (Some content) byte_count True w of
        (result, buffer, w) \<Rightarrow>
          (result,
           if result = 0 then on_record i (\<lambda>r. r\<lparr>us_write_count := us_write_count r + 1,
               us_bytes_written := us_bytes_written r + byte_count\<rparr>) w
           else w))"

section \<open>The disk of a record\<close>

definition on_storage :: "(usb_storage \<Rightarrow> usb_storage) \<Rightarrow> usb_state \<Rightarrow> usb_state" where
  "on_storage f s = s\<lparr>storage := f (storage s)\<rparr>"

definition on_blocks :: "(usb_storage block_subsystem \<Rightarrow> usb_storage block_subsystem) \<Rightarrow> usb_state \<Rightarrow> usb_state" where
  "on_blocks f s = s\<lparr>blocks := f (blocks s)\<rparr>"

definition run_storage :: "(usb_storage \<Rightarrow> 'a \<times> usb_storage) \<Rightarrow> usb_state \<Rightarrow> 'a \<times> usb_state" where
  "run_storage f s = (case f (storage s) of (a, w) \<Rightarrow> (a, s\<lparr>storage := w\<rparr>))"

definition run_blocks ::
  "(usb_storage block_subsystem \<Rightarrow> 'a \<times> usb_storage block_subsystem) \<Rightarrow> usb_state \<Rightarrow> 'a \<times> usb_state" where
  "run_blocks f s = (case f (blocks s) of (a, b) \<Rightarrow> (a, s\<lparr>blocks := b\<rparr>))"

text \<open>The allocations of \<^verbatim>\<open>block.c\<close>: the object, and the state record that describes it.\<close>

definition object_alloc ::
  "usb_env \<Rightarrow> (ptr \<Rightarrow> bool \<Rightarrow> usb_storage block_subsystem \<Rightarrow> ptr \<times> usb_storage block_subsystem) \<Rightarrow> usb_state \<Rightarrow> ptr \<times> usb_state" where
  "object_alloc e create s = (case run_storage (usb_calloc e) s of (object, s) \<Rightarrow>
     if object = NULL then (NULL, s)
     else (case run_storage (usb_calloc_node e) s of (ok, s) \<Rightarrow>
       (case run_blocks (create object ok) s of (p, s) \<Rightarrow>
         (p, if p = NULL then on_storage (usb_free object) s else s))))"

definition queue_alloc :: "usb_env \<Rightarrow> ptr \<Rightarrow> usb_state \<Rightarrow> ptr \<times> usb_state" where
  "queue_alloc e tag_set = object_alloc e (\<lambda>queue ok b. kb_block_subsystem_queue_alloc queue ok b tag_set)"

definition disk_alloc :: "usb_env \<Rightarrow> usb_state \<Rightarrow> ptr \<times> usb_state" where
  "disk_alloc e = object_alloc e kb_block_subsystem_disk_alloc"

definition object_free :: "ptr \<Rightarrow> usb_state \<Rightarrow> usb_state" where
  "object_free p s = on_storage (usb_free p) (on_blocks (\<lambda>b. kb_block_subsystem_object_free b p) s)"

definition storage_release_block :: "nat \<Rightarrow> usb_state \<Rightarrow> usb_state" where
  "storage_release_block i s =
     (let r = record_of (storage s) i;
          s = (if us_disk r \<noteq> NULL then on_blocks (\<lambda>b. kb_block_subsystem_disk_unregister b (us_disk r)) s else s);
          s = object_free (us_disk r) s;
          s = object_free (us_part0 r) s;
          s = object_free (us_queue r) s;
          s = on_storage (usb_free (us_tag_set r)) s;
          s = on_storage (on_record i (\<lambda>r. r\<lparr>us_disk := NULL, us_part0 := NULL, us_queue := NULL, us_tag_set := NULL,
            us_disk_number := 0, us_registered := 0\<rparr>)) s in
      on_storage (storage_release_backing i) s)"

text \<open>The limits that \<^verbatim>\<open>storage_ensure_block\<close> gives the queue.\<close>

definition storage_queue_limits :: "ptr \<Rightarrow> u32 \<Rightarrow> usb_storage block_subsystem \<Rightarrow> usb_storage block_subsystem" where
  "storage_queue_limits queue sector_size b =
     (let b = kb_block_subsystem_queue_set_logical_block_size b queue sector_size;
          b = kb_block_subsystem_queue_set_physical_block_size b queue sector_size;
          b = kb_block_subsystem_queue_set_io_min b queue sector_size;
          b = kb_block_subsystem_queue_set_max_hw_sectors b queue 240 in
      kb_block_subsystem_queue_set_max_segments b queue 128)"

definition release_objects :: "ptr \<Rightarrow> ptr \<Rightarrow> ptr \<Rightarrow> ptr \<Rightarrow> usb_state \<Rightarrow> usb_state" where
  "release_objects tag_set queue disk part0 s =
     object_free part0 (object_free disk (object_free queue (on_storage (usb_free tag_set) s)))"

definition attach_block :: "usb_env \<Rightarrow> nat \<Rightarrow> ptr \<Rightarrow> ptr \<Rightarrow> ptr \<Rightarrow> ptr \<Rightarrow> usb_state \<Rightarrow> int \<times> usb_state" where
  "attach_block e i tag_set queue disk part0 s =
     (let r = record_of (storage s) i;
          s = on_blocks (storage_queue_limits queue (us_sector_size r)) s in
      case run_blocks (\<lambda>b. kb_block_subsystem_disk_attach b disk queue part0) s of (attached, s) \<Rightarrow>
      (case (if attached \<noteq> 0 then (attached, s)
             else run_blocks (\<lambda>b. kb_block_subsystem_disk_register b (us_interface r) disk NULL) s) of (registered, s) \<Rightarrow>
       if registered \<noteq> 0 then (-22, release_objects tag_set queue disk part0 s)
       else
         let s = on_blocks (\<lambda>b. kb_block_subsystem_disk_set_capacity b disk (us_capacity_sectors r)) s;
             s = on_blocks (\<lambda>b. kb_block_subsystem_disk_set_io b disk (record_at e i)
               (Some (storage_block_read e)) (Some (storage_block_write e))) s;
             number = (case kb_block_subsystem_disk_snapshot (blocks s) disk True of
               Inr snapshot \<Rightarrow> d_disk_number snapshot | Inl _ \<Rightarrow> us_disk_number r) in
         (0, on_storage (on_record i (\<lambda>r. r\<lparr>us_disk_number := number, us_tag_set := tag_set, us_queue := queue,
           us_disk := disk, us_part0 := part0, us_registered := 1\<rparr>)) s)))"

definition storage_ensure_block :: "usb_env \<Rightarrow> nat \<Rightarrow> usb_state \<Rightarrow> int \<times> usb_state" where
  "storage_ensure_block e i s =
     (if us_disk (record_of (storage s) i) \<noteq> NULL then (0, s)
      else case run_storage (usb_calloc e) s of (tag_set, s) \<Rightarrow>
        (case queue_alloc e tag_set s of (queue, s) \<Rightarrow>
        (case disk_alloc e s of (disk, s) \<Rightarrow>
        (case run_storage (usb_calloc e) s of (part0, s) \<Rightarrow>
          if tag_set = NULL \<or> queue = NULL \<or> disk = NULL \<or> part0 = NULL
          then (-12, release_objects tag_set queue disk part0 s)
          else attach_block e i tag_set queue disk part0 s))))"

section \<open>Events of the USB subsystem\<close>

definition wants_block :: "usb_storage \<Rightarrow> ptr \<Rightarrow> ptr \<Rightarrow> bool" where
  "wants_block w driver driver_data \<longleftrightarrow> storage_driver_registered w \<or> driver \<noteq> NULL \<or> driver_data \<noteq> NULL"

definition kb_usb_storage_subsystem_observe_interface :: "usb_env \<Rightarrow> kb_usb_interface_snapshot \<Rightarrow> usb_state \<Rightarrow> usb_state" where
  "kb_usb_storage_subsystem_observe_interface e interface s =
     (if if_interface_class interface \<noteq> KB_USB_STORAGE_CLASS_MASS_STORAGE then s
      else (case record_for_interface e (storage s) (if_interface interface) of
        (None, w) \<Rightarrow> s\<lparr>storage := w\<rparr>
      | (Some i, w) \<Rightarrow>
          let w = on_record i (\<lambda>r. r\<lparr>us_udev := if_udev interface, us_interface := if_interface interface,
                us_linux_device := if_linux_device interface, us_parent_linux_device := if_parent_linux_device interface,
                us_driver := if_driver interface, us_driver_data := if_driver_data interface,
                us_interface_number := if_interface_number interface, us_subclass := if_interface_subclass interface,
                us_protocol := if_interface_protocol interface\<rparr>) w;
              s = s\<lparr>storage := storage_collect_endpoints (usb_endpoint_records s) i w\<rparr> in
          if wants_block (storage s) (if_driver interface) (if_driver_data interface)
          then snd (storage_ensure_block e i s) else s))"

definition kb_usb_storage_subsystem_observe_endpoint :: "usb_env \<Rightarrow> kb_usb_endpoint_snapshot \<Rightarrow> usb_state \<Rightarrow> usb_state" where
  "kb_usb_storage_subsystem_observe_endpoint e endpoint s =
     (if ep_interface endpoint = NULL then s
      else (case record_find_by_interface (storage s) (ep_interface endpoint) of
        None \<Rightarrow> s
      | Some i \<Rightarrow>
          let s = on_storage (storage_attach_endpoint i endpoint) s; r = record_of (storage s) i in
          if wants_block (storage s) (us_driver r) (us_driver_data r) then snd (storage_ensure_block e i s) else s))"

definition kb_usb_storage_subsystem_remove_interface :: "ptr \<Rightarrow> usb_state \<Rightarrow> usb_state" where
  "kb_usb_storage_subsystem_remove_interface interface s = (case record_find_by_interface (storage s) interface of
       None \<Rightarrow> s
     | Some i \<Rightarrow> on_storage (on_record i (\<lambda>_. zero_storage_record)) (storage_release_block i s))"

definition note_driver_record :: "usb_env \<Rightarrow> ptr \<Rightarrow> nat \<Rightarrow> usb_state \<Rightarrow> usb_state" where
  "note_driver_record e driver i s =
     (if us_active (record_of (storage s) i)
      then snd (storage_ensure_block e i (on_storage (\<lambda>w. storage_collect_endpoints (usb_endpoint_records s) i
        (on_record i (\<lambda>r. r\<lparr>us_driver := driver\<rparr>) w)) s))
      else s)"

definition kb_usb_storage_subsystem_note_driver_registered ::
  "usb_env \<Rightarrow> ptr \<Rightarrow> string option \<Rightarrow> usb_state \<Rightarrow> usb_state" where
  "kb_usb_storage_subsystem_note_driver_registered e driver module_name s =
     (if \<not> module_name_is_usb_storage module_name then s
      else fold (note_driver_record e driver) [0..<KB_USB_STORAGE_MAX]
        (on_storage (\<lambda>w. w\<lparr>storage_driver_registered := True\<rparr>) s))"

definition kb_usb_storage_subsystem_note_driver_deregistered :: "ptr \<Rightarrow> usb_state \<Rightarrow> usb_state" where
  "kb_usb_storage_subsystem_note_driver_deregistered driver = on_storage (\<lambda>w. w\<lparr>storage_driver_registered := False\<rparr>)"

definition record_for_host :: "usb_storage \<Rightarrow> ptr \<Rightarrow> ptr \<Rightarrow> ptr \<Rightarrow> nat option" where
  "record_for_host w host_private dev dma_dev = (case record_find_by_host_private w host_private of
       Some i \<Rightarrow> Some i
     | None \<Rightarrow> (case record_find_by_linux_device w dev of
         Some i \<Rightarrow> Some i
       | None \<Rightarrow> (case record_find_by_linux_device w dma_dev of
           Some i \<Rightarrow> Some i
         | None \<Rightarrow> record_only_without_host w)))"

definition kb_usb_storage_subsystem_note_scsi_host ::
  "usb_env \<Rightarrow> ptr \<Rightarrow> ptr \<Rightarrow> ptr \<Rightarrow> ptr \<Rightarrow> usb_state \<Rightarrow> usb_state" where
  "kb_usb_storage_subsystem_note_scsi_host e host host_private dev dma_dev s =
     (case record_for_host (storage s) host_private dev dma_dev of
        None \<Rightarrow> s
      | Some i \<Rightarrow> snd (storage_ensure_block e i (on_storage (on_record i (\<lambda>r. r\<lparr>us_scsi_host := host,
          us_scsi_host_private := host_private,
          us_driver_data := (if us_driver_data r = NULL then host_private else us_driver_data r),
          us_add_host_count := us_add_host_count r + 1\<rparr>)) s)))"

definition kb_usb_storage_subsystem_note_scsi_scan :: "usb_env \<Rightarrow> ptr \<Rightarrow> usb_state \<Rightarrow> usb_state" where
  "kb_usb_storage_subsystem_note_scsi_scan e host s = (case record_find_by_host (storage s) host of
       None \<Rightarrow> s
     | Some i \<Rightarrow> snd (storage_ensure_block e i
         (on_storage (on_record i (\<lambda>r. r\<lparr>us_scan_count := us_scan_count r + 1\<rparr>)) s)))"

definition kb_usb_storage_subsystem_remove_scsi_host :: "ptr \<Rightarrow> usb_state \<Rightarrow> usb_state" where
  "kb_usb_storage_subsystem_remove_scsi_host host s = (case record_find_by_host (storage s) host of
       None \<Rightarrow> s
     | Some i \<Rightarrow> on_storage (on_record i (\<lambda>r. r\<lparr>us_scsi_host := NULL, us_scsi_host_private := NULL\<rparr>))
         (storage_release_block i s))"

definition kb_usb_storage_subsystem_synthesize_mass_storage ::
  "usb_env \<Rightarrow> ptr \<Rightarrow> ptr \<Rightarrow> ptr \<Rightarrow> ptr \<Rightarrow> usb_state \<Rightarrow> int \<times> usb_state" where
  "kb_usb_storage_subsystem_synthesize_mass_storage e udev interface linux_device parent_linux_device s =
     (if interface = NULL then (-22, s)
      else (case record_for_interface e (storage s) interface of
        (None, w) \<Rightarrow> (-12, s\<lparr>storage := w\<rparr>)
      | (Some i, w) \<Rightarrow>
          let s = s\<lparr>storage := on_record i (\<lambda>r. r\<lparr>us_udev := udev, us_interface := interface,
                us_linux_device := linux_device, us_parent_linux_device := parent_linux_device,
                us_interface_number := 0, us_subclass := 0x06, us_protocol := 0x50,
                us_bulk_in_endpoint := 0x81, us_bulk_out_endpoint := 0x02, us_medium_present := 1\<rparr>) w\<rparr>;
              r = record_of (storage s) i in
          if wants_block (storage s) (us_driver r) (us_driver_data r) then storage_ensure_block e i s else (0, s)))"

section \<open>Inspection\<close>

definition snapshot_of :: "kb_usb_storage_record \<Rightarrow> kb_usb_storage_snapshot" where
  "snapshot_of r = kb_usb_storage_snapshot.truncate r"

definition kb_usb_storage_subsystem_snapshot :: "ptr \<Rightarrow> bool \<Rightarrow> usb_state \<Rightarrow> int + kb_usb_storage_snapshot" where
  "kb_usb_storage_subsystem_snapshot interface out s = (case record_find_by_interface (storage s) interface of
       None \<Rightarrow> Inl (-22)
     | Some i \<Rightarrow> if \<not> out then Inl (-22) else Inr (snapshot_of (record_of (storage s) i)))"

definition kb_usb_storage_subsystem_snapshot_by_disk :: "ptr \<Rightarrow> bool \<Rightarrow> usb_state \<Rightarrow> int + kb_usb_storage_snapshot" where
  "kb_usb_storage_subsystem_snapshot_by_disk disk out s = (case record_find_by_disk (storage s) disk of
       None \<Rightarrow> Inl (-22)
     | Some i \<Rightarrow> if \<not> out then Inl (-22) else Inr (snapshot_of (record_of (storage s) i)))"

definition kb_usb_storage_subsystem_count :: "usb_state \<Rightarrow> nat" where
  "kb_usb_storage_subsystem_count s = length (filter us_active (storage_records (storage s)))"

definition kb_usb_storage_subsystem_for_each ::
  "(kb_usb_storage_snapshot \<Rightarrow> 'c \<Rightarrow> int \<times> 'c) option \<Rightarrow> 'c \<Rightarrow> usb_state \<Rightarrow> nat \<times> 'c" where
  "kb_usb_storage_subsystem_for_each callback ctx s = (case callback of
       None \<Rightarrow> (0, ctx)
     | Some f \<Rightarrow> visit f (map snapshot_of (filter us_active (storage_records (storage s)))) ctx)"

section \<open>SCSI commands\<close>

text \<open>The result of a command: the C result, the result structure, the buffer and the state.\<close>

type_synonym scsi_reply = "int \<times> kb_usb_storage_scsi_result \<times> bytes option \<times> usb_state"

definition scsi_check :: "nat \<Rightarrow> u8 \<Rightarrow> u8 \<Rightarrow> bytes option \<Rightarrow> u64 \<Rightarrow> usb_state \<Rightarrow> scsi_reply" where
  "scsi_check i sense_key asc buffer buffer_len s =
     (case run_storage (result_check_condition i sense_key asc 0 buffer_len) s of
        (result, s) \<Rightarrow> (0, result, buffer, s))"

definition scsi_data :: "bytes \<Rightarrow> bytes option \<Rightarrow> u64 \<Rightarrow> usb_state \<Rightarrow> scsi_reply" where
  "scsi_data data buffer buffer_len s = (case copy_limited buffer buffer_len data of
     (transferred, buffer) \<Rightarrow> (0, result_good transferred buffer_len, buffer, s))"

definition sense_data :: "kb_usb_storage_record \<Rightarrow> bytes" where
  "sense_data r = [0x70, 0, us_last_sense_key r, 0, 0, 0, 0, 10, 0, 0, 0, 0, us_last_asc r, us_last_ascq r, 0, 0, 0, 0]"

definition inquiry_data :: bytes where
  "inquiry_data = [0x00, 0x80, 0x06, 0x02, 31, 0, 0, 0] @ map of_char (''KOBOX   '' @ ''USB STORAGE     '' @ ''0001'')"

definition capacity_data :: "kb_usb_storage_record \<Rightarrow> bytes" where
  "capacity_data r =
     (let sectors = us_capacity_sectors r;
          last_lba = (if sectors = 0 then 0 else if sectors - 1 > 0xffffffff then 0xffffffff else ucast (sectors - 1)) in
      write_be32 last_lba @ write_be32 (us_sector_size r))"

definition disk_transfer ::
  "bool \<Rightarrow> ptr \<Rightarrow> u64 \<Rightarrow> bytes option \<Rightarrow> u64 \<Rightarrow> usb_state \<Rightarrow> int \<times> bytes option \<times> usb_state" where
  "disk_transfer write disk sector buffer byte_count s =
     (if write then (case kb_block_subsystem_disk_write (blocks s) disk sector buffer byte_count (storage s) of
        (result, w, b) \<Rightarrow> (result, buffer, s\<lparr>storage := w, blocks := b\<rparr>))
      else (case kb_block_subsystem_disk_read (blocks s) disk sector buffer byte_count (storage s) of
        (result, buffer, w, b) \<Rightarrow> (result, buffer, s\<lparr>storage := w, blocks := b\<rparr>)))"

definition scsi_read_write :: "nat \<Rightarrow> bool \<Rightarrow> bytes \<Rightarrow> bytes option \<Rightarrow> u64 \<Rightarrow> bool \<Rightarrow> usb_state \<Rightarrow> scsi_reply" where
  "scsi_read_write i write command buffer buffer_len data_out s =
     (if length command < 10 \<or> (write \<and> \<not> data_out) \<or> (\<not> write \<and> data_out)
      then scsi_check i KB_SCSI_SENSE_ILLEGAL_REQUEST KB_SCSI_ASC_INVALID_FIELD_IN_CDB buffer buffer_len s
      else
        let r = record_of (storage s) i;
            lba = (ucast (read_be32 (drop 2 command)) :: u64);
            blocks = (ucast (read_be16 (drop 7 command)) :: u64);
            byte_count = blocks * ucast (us_sector_size r) in
        if blocks = 0 then (0, result_good 0 buffer_len, buffer, s)
        else if buffer = None \<or> buffer_len < byte_count \<or> lba + blocks > us_capacity_sectors r
        then scsi_check i KB_SCSI_SENSE_ILLEGAL_REQUEST
          (if lba + blocks > us_capacity_sectors r then KB_SCSI_ASC_LBA_OUT_OF_RANGE
           else KB_SCSI_ASC_INVALID_FIELD_IN_CDB) buffer buffer_len s
        else (case disk_transfer write (us_disk r) lba buffer byte_count s of (result, buffer, s) \<Rightarrow>
          if result \<noteq> 0
          then scsi_check i KB_SCSI_SENSE_ILLEGAL_REQUEST
            (if result = -34 then KB_SCSI_ASC_LBA_OUT_OF_RANGE else KB_SCSI_ASC_INVALID_FIELD_IN_CDB) buffer buffer_len s
          else (0, result_good byte_count buffer_len, buffer,
            on_storage (on_record i (\<lambda>r. if write
              then r\<lparr>us_scsi_write_command_count := us_scsi_write_command_count r + 1\<rparr>
              else r\<lparr>us_scsi_read_command_count := us_scsi_read_command_count r + 1\<rparr>)) s)))"

definition scsi_dispatch :: "nat \<Rightarrow> bytes \<Rightarrow> bytes option \<Rightarrow> u64 \<Rightarrow> bool \<Rightarrow> usb_state \<Rightarrow> scsi_reply" where
  "scsi_dispatch i command buffer buffer_len data_out s =
     (let opcode = command ! 0; r = record_of (storage s) i;
          invalid = scsi_check i KB_SCSI_SENSE_ILLEGAL_REQUEST KB_SCSI_ASC_INVALID_FIELD_IN_CDB buffer buffer_len s in
      if opcode = 0x00 \<or> opcode = 0x1b \<or> opcode = 0x35 then (0, result_good 0 buffer_len, buffer, s)
      else if opcode = 0x03 then scsi_data (sense_data r) buffer buffer_len s
      else if opcode = 0x12 then (if data_out then invalid else scsi_data inquiry_data buffer buffer_len s)
      else if opcode = 0x1a then scsi_data [3, 0, 0, 0] buffer buffer_len s
      else if opcode = 0x25 then (if data_out then invalid else scsi_data (capacity_data r) buffer buffer_len s)
      else if opcode = 0x28 \<or> opcode = 0x2a then scsi_read_write i (opcode = 0x2a) command buffer buffer_len data_out s
      else scsi_check i KB_SCSI_SENSE_ILLEGAL_REQUEST KB_SCSI_ASC_INVALID_COMMAND buffer buffer_len s)"

definition kb_usb_storage_subsystem_scsi_command ::
  "ptr \<Rightarrow> bytes option \<Rightarrow> bytes option \<Rightarrow> u64 \<Rightarrow> bool \<Rightarrow> usb_state \<Rightarrow> scsi_reply" where
  "kb_usb_storage_subsystem_scsi_command interface cdb buffer buffer_len data_out s =
     (case (record_find_by_interface (storage s) interface, cdb) of
        (Some i, Some command) \<Rightarrow>
          if command = [] then (-22, zero_scsi_result, buffer, s)
          else
            let s = on_storage (on_record i (\<lambda>r. r\<lparr>us_scsi_command_count := us_scsi_command_count r + 1,
                  us_last_scsi_opcode := command ! 0\<rparr>)) s in
            if us_medium_present (record_of (storage s) i) = 0
            then scsi_check i KB_SCSI_SENSE_NOT_READY 0x3a buffer buffer_len s
            else scsi_dispatch i command buffer buffer_len data_out s
      | _ \<Rightarrow> (-22, zero_scsi_result, buffer, s))"

section \<open>The bulk-only transport\<close>

definition bot_finish ::
  "nat \<Rightarrow> kb_usb_storage_bot_result \<Rightarrow> u32 \<Rightarrow> u32 \<Rightarrow> u8 \<Rightarrow> bytes option \<Rightarrow> usb_state \<Rightarrow>
     int \<times> kb_usb_storage_bot_result \<times> bytes option \<times> usb_state" where
  "bot_finish i result tag residue status data s =
     (0, bot_fill_csw result tag residue status, data, on_storage (bot_record_status i tag residue status) s)"

definition kb_usb_storage_subsystem_bot_transfer ::
  "ptr \<Rightarrow> bytes option \<Rightarrow> bytes option \<Rightarrow> u64 \<Rightarrow> usb_state \<Rightarrow> int \<times> kb_usb_storage_bot_result \<times> bytes option \<times> usb_state" where
  "kb_usb_storage_subsystem_bot_transfer interface cbw data data_len s =
     (case (record_find_by_interface (storage s) interface, cbw) of
        (Some i, Some packet) \<Rightarrow>
          if length packet < KB_USB_STORAGE_BOT_CBW_SIZE then (-22, zero_bot_result, data, s)
          else
            let signature = read_le32 packet; tag = read_le32 (drop 4 packet); transfer_len = read_le32 (drop 8 packet);
                flags = packet ! 12; lun = packet ! 13; cdb_len = packet ! 14 in
            if signature \<noteq> KB_USB_STORAGE_BOT_CBW_SIGNATURE \<or> lun \<noteq> 0 \<or> cdb_len = 0 \<or> cdb_len > 16
            then (-22, zero_bot_result, data, s)
            else
              let s = on_storage (on_record i (\<lambda>r. r\<lparr>us_bot_command_count := us_bot_command_count r + 1\<rparr>)) s;
                  data_out = (transfer_len \<noteq> 0 \<and> flags AND KB_USB_STORAGE_BOT_FLAG_DATA_IN = 0) in
              if ucast transfer_len > data_len \<or> (transfer_len \<noteq> 0 \<and> data = None)
              then bot_finish i zero_bot_result tag transfer_len BOT_PHASE_ERROR data s
              else (case kb_usb_storage_subsystem_scsi_command interface (Some (take (unat cdb_len) (drop 15 packet)))
                  data (ucast transfer_len) data_out s of (result, scsi_result, data, s) \<Rightarrow>
                if result \<noteq> 0 then bot_finish i zero_bot_result tag transfer_len BOT_PHASE_ERROR data s
                else
                  let residue = (if sr_residue scsi_result > transfer_len then transfer_len else sr_residue scsi_result);
                      status = (if sr_status scsi_result = SCSI_GOOD then BOT_PASSED else BOT_FAILED) in
                  bot_finish i (zero_bot_result\<lparr>br_data_transferred := sr_data_transferred scsi_result\<rparr>)
                    tag residue status data s)
      | _ \<Rightarrow> (-22, zero_bot_result, data, s))"

definition kb_usb_storage_subsystem_bot_reset :: "ptr \<Rightarrow> usb_state \<Rightarrow> usb_state" where
  "kb_usb_storage_subsystem_bot_reset interface s = (case record_find_by_interface (storage s) interface of
       None \<Rightarrow> s
     | Some i \<Rightarrow> on_storage (on_record i (\<lambda>r. r\<lparr>us_bot_reset_count := us_bot_reset_count r + 1,
         us_last_bot_status := BOT_PASSED, us_last_bot_residue := 0\<rparr>)) s)"

definition storage_build_bot_cbw :: "u32 \<Rightarrow> u32 \<Rightarrow> bool \<Rightarrow> bytes \<Rightarrow> bytes" where
  "storage_build_bot_cbw tag transfer_len data_in cdb =
     write_le32 KB_USB_STORAGE_BOT_CBW_SIGNATURE @ write_le32 tag @ write_le32 transfer_len @
     [if data_in then KB_USB_STORAGE_BOT_FLAG_DATA_IN else 0, 0, of_nat (length cdb)] @
     cdb @ replicate (16 - length cdb) 0"

section \<open>The self test\<close>

definition smoke_pattern :: "nat \<Rightarrow> nat \<Rightarrow> u32 \<Rightarrow> bytes" where
  "smoke_pattern n factor seed = map (\<lambda>j. ucast ((of_nat (j * factor) :: u64) XOR ucast seed)) [0..<n]"

definition inquiry_cdb :: bytes where
  "inquiry_cdb = [0x12, 0, 0, 0, 36, 0]"

definition capacity_cdb :: bytes where
  "capacity_cdb = [0x25, 0, 0, 0, 0, 0, 0, 0, 0, 0]"

definition write_cdb :: bytes where
  "write_cdb = [0x2a, 0, 0, 0, 0, 10, 0, 0, 1, 0]"

definition read_cdb :: bytes where
  "read_cdb = [0x28, 0, 0, 0, 0, 10, 0, 0, 1, 0]"

text \<open>A check of the self test: the result of the call if it failed, -5 if the reply is not the expected one.\<close>

definition smoke_verdict :: "int \<Rightarrow> bool \<Rightarrow> int" where
  "smoke_verdict result good = (if result \<noteq> 0 then result else if \<not> good then -5 else 0)"

definition then_ok :: "(usb_state \<Rightarrow> int \<times> usb_state) \<Rightarrow> (usb_state \<Rightarrow> int \<times> usb_state) \<Rightarrow> usb_state \<Rightarrow> int \<times> usb_state" where
  "then_ok f g s = (case f s of (result, s) \<Rightarrow> if result \<noteq> 0 then (result, s) else g s)"

text \<open>The record's disk number and the like are read when a buffer is filled.\<close>

definition smoke_block :: "nat \<Rightarrow> usb_state \<Rightarrow> int \<times> usb_state" where
  "smoke_block i s =
     (let r = record_of (storage s) i; write_buffer = smoke_pattern 1024 13 (us_disk_number r) in
      case disk_transfer True (us_disk r) 8 (Some write_buffer) 1024 s of (result, _, s) \<Rightarrow>
        if result \<noteq> 0 then (result, s)
        else (case disk_transfer False (us_disk (record_of (storage s) i)) 8 (Some (replicate 1024 0)) 1024 s of
          (result, read_buffer, s) \<Rightarrow>
            (if result \<noteq> 0 then result else if read_buffer \<noteq> Some write_buffer then -5 else 0, s)))"

definition smoke_scsi ::
  "bytes \<Rightarrow> bytes \<Rightarrow> bool \<Rightarrow> (kb_usb_storage_scsi_result \<Rightarrow> bytes \<Rightarrow> kb_usb_storage_record \<Rightarrow> bool) \<Rightarrow> nat \<Rightarrow> usb_state \<Rightarrow> int \<times> usb_state" where
  "smoke_scsi cdb buffer data_out expected i s =
     (case kb_usb_storage_subsystem_scsi_command (us_interface (record_of (storage s) i)) (Some cdb) (Some buffer)
         (of_nat (length buffer)) data_out s of (result, scsi_result, buffer, s) \<Rightarrow>
       (smoke_verdict result (sr_status scsi_result = SCSI_GOOD \<and>
          (case buffer of None \<Rightarrow> False | Some content \<Rightarrow> expected scsi_result content (record_of (storage s) i))), s))"

definition smoke_bot ::
  "u32 \<Rightarrow> bytes \<Rightarrow> bytes \<Rightarrow> bool \<Rightarrow> (kb_usb_storage_bot_result \<Rightarrow> bytes \<Rightarrow> kb_usb_storage_record \<Rightarrow> bool) \<Rightarrow> nat \<Rightarrow> usb_state \<Rightarrow> int \<times> usb_state" where
  "smoke_bot tag cdb buffer data_in expected i s =
     (case kb_usb_storage_subsystem_bot_transfer (us_interface (record_of (storage s) i))
         (Some (storage_build_bot_cbw tag (of_nat (length buffer)) data_in cdb)) (Some buffer) (of_nat (length buffer)) s of
       (result, bot_result, buffer, s) \<Rightarrow>
       (smoke_verdict result (br_status bot_result = BOT_PASSED \<and>
          (case buffer of None \<Rightarrow> False | Some content \<Rightarrow> expected bot_result content (record_of (storage s) i))), s))"

abbreviation (input) vendor_is_kobox :: "bytes \<Rightarrow> bool" where
  "vendor_is_kobox inquiry \<equiv> take 8 (drop 8 inquiry) = map of_char ''KOBOX   ''"

definition smoke_scsi_all :: "nat \<Rightarrow> usb_state \<Rightarrow> int \<times> usb_state" where
  "smoke_scsi_all i s =
     (let pattern = smoke_pattern 512 17 (us_disk_number (record_of (storage s) i) + 0x31) in
      then_ok (smoke_scsi inquiry_cdb (replicate 36 0) False
          (\<lambda>result inquiry r. sr_data_transferred result = 36 \<and> vendor_is_kobox inquiry) i)
      (then_ok (smoke_scsi capacity_cdb (replicate 8 0) False
          (\<lambda>result capacity r. read_be32 (drop 4 capacity) = us_sector_size r) i)
      (then_ok (smoke_scsi write_cdb pattern True (\<lambda>result buffer r. sr_data_transferred result = 512) i)
        (smoke_scsi read_cdb (replicate 512 0) False
          (\<lambda>result buffer r. sr_data_transferred result = 512 \<and> buffer = pattern) i))) s)"

definition smoke_bot_all :: "nat \<Rightarrow> usb_state \<Rightarrow> int \<times> usb_state" where
  "smoke_bot_all i s =
     (let pattern = smoke_pattern 512 19 (us_disk_number (record_of (storage s) i) + 0x55) in
      then_ok (smoke_bot 0x1001 inquiry_cdb (replicate 36 0) True
          (\<lambda>result inquiry r. br_data_transferred result = 36 \<and> read_le32 (br_csw result) = KB_USB_STORAGE_BOT_CSW_SIGNATURE \<and>
             read_le32 (drop 4 (br_csw result)) = 0x1001 \<and> vendor_is_kobox inquiry) i)
      (then_ok (smoke_bot 0x1002 capacity_cdb (replicate 8 0) True
          (\<lambda>result capacity r. read_be32 (drop 4 capacity) = us_sector_size r) i)
      (then_ok (smoke_bot 0x1003 write_cdb pattern False (\<lambda>result buffer r. br_data_transferred result = 512) i)
        (smoke_bot 0x1004 read_cdb (replicate 512 0) True
          (\<lambda>result buffer r. br_data_transferred result = 512 \<and> buffer = pattern) i))) s)"

fun smoke_loop :: "nat list \<Rightarrow> nat \<Rightarrow> usb_state \<Rightarrow> int \<times> usb_state" where
  "smoke_loop [] visited s = (if visited = 0 then -19 else 0, s)"
| "smoke_loop (i # is) visited s =
     (let r = record_of (storage s) i in
      if \<not> us_active r \<or> us_disk r = NULL \<or> us_registered r = 0 then smoke_loop is visited s
      else if us_capacity_sectors r < 16 then (-34, s)
      else then_ok (smoke_block i) (then_ok (smoke_scsi_all i) (then_ok (smoke_bot_all i)
        (smoke_loop is (Suc visited)))) s)"

definition kb_usb_storage_subsystem_run_io_smoke :: "usb_state \<Rightarrow> int \<times> usb_state" where
  "kb_usb_storage_subsystem_run_io_smoke s = smoke_loop [0..<KB_USB_STORAGE_MAX] 0 s"

end
