(* ===== verification/Usb.thy ===== *)
theory Usb
  imports Usb_Storage
begin

text \<open>
  The USB subsystem, \<^verbatim>\<open>src/linux_subsystem/usb/usb.c\<close>: lists of host controllers, requests,
  devices, interfaces, endpoints and drivers, the hub events of a controller, and the notifications
  to the mass-storage part.  Every record in a list is active, since it is unlinked before it is
  cleared, so the flag is not modelled.  A host controller's record is known to callers by its
  address \<open>h_at\<close>; a record that is not in the list stands for the null pointer.
\<close>

definition pointer_is_error_or_low :: "ptr \<Rightarrow> bool" where
  "pointer_is_error_or_low p \<longleftrightarrow> p < 4096 \<or> p \<ge> 0xffffffffffffffff - 4095"

section \<open>Host controllers\<close>

definition zero_hcd_record :: kb_usb_hcd_record where
  "zero_hcd_record = \<lparr>h_at = NULL, h_primary = 0, h_owner = NULL, h_driver = NULL, h_hcd = NULL, h_primary_hcd = NULL,
     h_regs = NULL, h_owns_storage = False, h_irq = 0, h_irq_registered = 0, h_added = 0, h_irq_count = 0, h_died_count = 0,
     h_lost_power_count = 0, h_root_hub_poll_count = 0, h_root_hub_resume_count = 0, h_port_resume_start_count = 0,
     h_port_resume_end_count = 0, h_wakeup_notification_count = 0, h_remote_wakeup_quirk_count = 0, h_hub_event_bits = 0\<rparr>"

definition kb_usb_subsystem_hcd_for_hcd :: "ptr \<Rightarrow> usb_state \<Rightarrow> kb_usb_hcd_record option" where
  "kb_usb_subsystem_hcd_for_hcd hcd s =
     (if pointer_is_error_or_low hcd then None else find_key h_hcd hcd (usb_hcd_records s))"

text \<open>
  The size of the memory for the controller is an argument in the source; here it is one allocated
  object, whatever its size.
\<close>

definition kb_usb_subsystem_hcd_alloc :: "usb_env \<Rightarrow> usb_state \<Rightarrow> ptr \<times> usb_state" where
  "kb_usb_subsystem_hcd_alloc e s = (case run_storage (usb_calloc e) s of (record, s) \<Rightarrow>
     if record = NULL then (NULL, s)
     else (case run_storage (usb_calloc e) s of (hcd, s) \<Rightarrow>
       if hcd = NULL then (NULL, on_storage (usb_free record) s)
       else (record, s\<lparr>usb_hcd_records :=
         zero_hcd_record\<lparr>h_at := record, h_hcd := hcd, h_owns_storage := True\<rparr> # usb_hcd_records s\<rparr>)))"

definition kb_usb_subsystem_hcd_track :: "usb_env \<Rightarrow> ptr \<Rightarrow> usb_state \<Rightarrow> kb_usb_hcd_record option \<times> usb_state" where
  "kb_usb_subsystem_hcd_track e hcd s =
     (if pointer_is_error_or_low hcd then (None, s)
      else (case kb_usb_subsystem_hcd_for_hcd hcd s of
        Some existing \<Rightarrow> (Some existing, s)
      | None \<Rightarrow>
          (case run_storage (usb_calloc e) s of (record, s) \<Rightarrow>
            if record = NULL then (None, s)
            else let r = zero_hcd_record\<lparr>h_at := record, h_hcd := hcd\<rparr> in
              (Some r, s\<lparr>usb_hcd_records := r # usb_hcd_records s\<rparr>))))"

definition kb_usb_subsystem_primary_hcd_for_owner :: "ptr \<Rightarrow> usb_state \<Rightarrow> kb_usb_hcd_record option" where
  "kb_usb_subsystem_primary_hcd_for_owner owner s =
     (if owner = NULL then None else find (\<lambda>r. h_owner r = owner \<and> h_primary r \<noteq> 0) (usb_hcd_records s))"

definition on_hcd :: "ptr \<Rightarrow> (kb_usb_hcd_record \<Rightarrow> kb_usb_hcd_record) \<Rightarrow> usb_state \<Rightarrow> usb_state" where
  "on_hcd hcd f s = (case kb_usb_subsystem_hcd_for_hcd hcd s of
       None \<Rightarrow> s
     | Some _ \<Rightarrow> s\<lparr>usb_hcd_records := update_key h_hcd hcd f (usb_hcd_records s)\<rparr>)"

definition kb_usb_subsystem_hcd_note_irq :: "ptr \<Rightarrow> usb_state \<Rightarrow> usb_state" where
  "kb_usb_subsystem_hcd_note_irq hcd = on_hcd hcd (\<lambda>r. r\<lparr>h_irq_count := h_irq_count r + 1\<rparr>)"

definition kb_usb_subsystem_hcd_note_died :: "ptr \<Rightarrow> usb_state \<Rightarrow> usb_state" where
  "kb_usb_subsystem_hcd_note_died hcd = on_hcd hcd (\<lambda>r. r\<lparr>h_died_count := h_died_count r + 1\<rparr>)"

definition kb_usb_subsystem_hcd_note_lost_power :: "ptr \<Rightarrow> usb_state \<Rightarrow> usb_state" where
  "kb_usb_subsystem_hcd_note_lost_power hcd = on_hcd hcd (\<lambda>r. r\<lparr>h_lost_power_count := h_lost_power_count r + 1\<rparr>)"

definition kb_usb_subsystem_hcd_note_root_hub_poll :: "ptr \<Rightarrow> usb_state \<Rightarrow> usb_state" where
  "kb_usb_subsystem_hcd_note_root_hub_poll hcd = on_hcd hcd (\<lambda>r. r\<lparr>h_root_hub_poll_count := h_root_hub_poll_count r + 1\<rparr>)"

definition kb_usb_subsystem_hcd_note_root_hub_resume :: "ptr \<Rightarrow> usb_state \<Rightarrow> usb_state" where
  "kb_usb_subsystem_hcd_note_root_hub_resume hcd =
     on_hcd hcd (\<lambda>r. r\<lparr>h_root_hub_resume_count := h_root_hub_resume_count r + 1\<rparr>)"

definition kb_usb_subsystem_hcd_note_port_resume_start :: "ptr \<Rightarrow> usb_state \<Rightarrow> usb_state" where
  "kb_usb_subsystem_hcd_note_port_resume_start hcd =
     on_hcd hcd (\<lambda>r. r\<lparr>h_port_resume_start_count := h_port_resume_start_count r + 1\<rparr>)"

definition kb_usb_subsystem_hcd_note_port_resume_end :: "ptr \<Rightarrow> usb_state \<Rightarrow> usb_state" where
  "kb_usb_subsystem_hcd_note_port_resume_end hcd =
     on_hcd hcd (\<lambda>r. r\<lparr>h_port_resume_end_count := h_port_resume_end_count r + 1\<rparr>)"

definition kb_usb_subsystem_hcd_note_wakeup_notification :: "ptr \<Rightarrow> usb_state \<Rightarrow> usb_state" where
  "kb_usb_subsystem_hcd_note_wakeup_notification hcd =
     on_hcd hcd (\<lambda>r. r\<lparr>h_wakeup_notification_count := h_wakeup_notification_count r + 1\<rparr>)"

definition kb_usb_subsystem_hcd_note_remote_wakeup_quirk :: "ptr \<Rightarrow> usb_state \<Rightarrow> usb_state" where
  "kb_usb_subsystem_hcd_note_remote_wakeup_quirk hcd =
     on_hcd hcd (\<lambda>r. r\<lparr>h_remote_wakeup_quirk_count := h_remote_wakeup_quirk_count r + 1\<rparr>)"

definition hcd_snapshot_of :: "kb_usb_hcd_record \<Rightarrow> kb_usb_hcd_snapshot" where
  "hcd_snapshot_of r = \<lparr>hs_hcd = h_hcd r, hs_owner = h_owner r, hs_driver = h_driver r, hs_primary_hcd = h_primary_hcd r,
     hs_regs = h_regs r, hs_irq = h_irq r, hs_primary = of_bool (h_primary r \<noteq> 0),
     hs_irq_registered = of_bool (h_irq_registered r \<noteq> 0), hs_added = of_bool (h_added r \<noteq> 0),
     hs_irq_count = h_irq_count r, hs_died_count = h_died_count r, hs_lost_power_count = h_lost_power_count r,
     hs_root_hub_poll_count = h_root_hub_poll_count r, hs_root_hub_resume_count = h_root_hub_resume_count r,
     hs_port_resume_start_count = h_port_resume_start_count r, hs_port_resume_end_count = h_port_resume_end_count r,
     hs_wakeup_notification_count = h_wakeup_notification_count r,
     hs_remote_wakeup_quirk_count = h_remote_wakeup_quirk_count r\<rparr>"

definition kb_usb_subsystem_hcd_snapshot :: "ptr \<Rightarrow> bool \<Rightarrow> usb_state \<Rightarrow> int + kb_usb_hcd_snapshot" where
  "kb_usb_subsystem_hcd_snapshot hcd out s = (case kb_usb_subsystem_hcd_for_hcd hcd s of
       None \<Rightarrow> Inl (-22)
     | Some record \<Rightarrow> if \<not> out then Inl (-22) else Inr (hcd_snapshot_of record))"

definition kb_usb_subsystem_for_each_hcd ::
  "(kb_usb_hcd_record \<Rightarrow> 'c \<Rightarrow> int \<times> 'c) option \<Rightarrow> 'c \<Rightarrow> usb_state \<Rightarrow> nat \<times> 'c" where
  "kb_usb_subsystem_for_each_hcd callback ctx s = (case callback of
       None \<Rightarrow> (0, ctx)
     | Some f \<Rightarrow> visit f (filter (\<lambda>r. h_hcd r \<noteq> NULL) (usb_hcd_records s)) ctx)"

section \<open>Hub events\<close>

fun record_position :: "ptr \<Rightarrow> int \<Rightarrow> kb_usb_hcd_record list \<Rightarrow> int" where
  "record_position p i [] = -1"
| "record_position p i (r # rs) = (if h_at r = p then i else record_position p (i + 1) rs)"

definition hcd_record_index :: "kb_usb_hcd_record \<Rightarrow> usb_state \<Rightarrow> int" where
  "hcd_record_index target s = record_position (h_at target) 0 (usb_hcd_records s)"

definition hub_event_record_for_hcd :: "usb_env \<Rightarrow> ptr \<Rightarrow> usb_state \<Rightarrow> kb_usb_hcd_record option \<times> usb_state" where
  "hub_event_record_for_hcd e hcd s =
     (let record = kb_usb_subsystem_hcd_for_hcd hcd s in
      if record \<noteq> None \<or> pointer_is_error_or_low hcd then (record, s) else kb_usb_subsystem_hcd_track e hcd s)"

fun status_bits :: "nat \<Rightarrow> bytes \<Rightarrow> u64" where
  "status_bits i [] = 0"
| "status_bits i (b # bs) = push_bit (i * 8) (ucast b) OR status_bits (Suc i) bs"

definition hub_status_bits :: "bytes \<Rightarrow> u64" where
  "hub_status_bits status = status_bits 0 (take 8 status)"

definition blank_hub_update :: kb_usb_hub_event_update where
  "blank_hub_update = \<lparr>hu_status = replicate 8 0, hu_status_len = 0, hu_bits = 0, hu_new_bits = 0,
     hu_injected_before = 0, hu_injected_after = 0, hu_slot = -1\<rparr>"

definition kb_usb_subsystem_hub_event_prepare ::
  "usb_env \<Rightarrow> ptr \<Rightarrow> bytes option \<Rightarrow> usb_state \<Rightarrow> int \<times> kb_usb_hub_event_update \<times> usb_state" where
  "kb_usb_subsystem_hub_event_prepare e hcd status s =
     (case status of
        None \<Rightarrow> (-22, blank_hub_update, s)
      | Some bs \<Rightarrow>
          if hcd = NULL \<or> bs = [] then (-22, blank_hub_update, s)
          else (case hub_event_record_for_hcd e hcd s of
            (None, s) \<Rightarrow> (-12, blank_hub_update, s)
          | (Some record, s) \<Rightarrow>
              let copied = min (length bs) 8;
                  bits = hub_status_bits bs;
                  injected_before = h_hub_event_bits record;
                  injected_after = (if bits = 0 then 0 else injected_before);
                  s = on_hcd hcd (\<lambda>r. r\<lparr>h_hub_event_bits := injected_after\<rparr>) s in
              (0, \<lparr>hu_status = take copied bs @ replicate (8 - copied) 0, hu_status_len = int copied, hu_bits = bits,
                   hu_new_bits = bits AND NOT injected_after, hu_injected_before = injected_before,
                   hu_injected_after = injected_after, hu_slot = hcd_record_index record s\<rparr>, s)))"

definition kb_usb_subsystem_hub_event_commit ::
  "usb_env \<Rightarrow> ptr \<Rightarrow> u64 \<Rightarrow> kb_usb_hub_event_update \<Rightarrow> usb_state \<Rightarrow> int \<times> kb_usb_hub_event_update \<times> usb_state" where
  "kb_usb_subsystem_hub_event_commit e hcd bits update s =
     (if hcd = NULL then (-22, update, s)
      else (case hub_event_record_for_hcd e hcd s of
        (None, s) \<Rightarrow> (-12, update, s)
      | (Some record, s) \<Rightarrow>
          let injected_before = h_hub_event_bits record;
              s = on_hcd hcd (\<lambda>r. r\<lparr>h_hub_event_bits := injected_before OR bits\<rparr>) s in
          (0, update\<lparr>hu_slot := (if hu_slot update < 0 then hcd_record_index record s else hu_slot update),
                hu_injected_before := injected_before, hu_injected_after := injected_before OR bits\<rparr>, s)))"

section \<open>Requests\<close>

definition zero_urb_record :: kb_usb_urb_snapshot where
  "zero_urb_record = \<lparr>u_hcd = NULL, u_urb = NULL, u_transfer_buffer = NULL, u_setup_packet = NULL, u_transfer_dma = 0,
     u_setup_dma = 0, u_transfer_buffer_length = 0, u_actual_length = 0, u_transfer_flags = 0, u_dma_map_flags = 0,
     u_status = 0, u_linked = 0, u_mapped = 0, u_link_count = 0, u_unlink_count = 0, u_map_count = 0, u_unmap_count = 0,
     u_submit_count = 0, u_kill_count = 0, u_giveback_count = 0, u_last_unlink_status = 0, u_last_submit_status = 0,
     u_last_giveback_status = 0, u_last_mem_flags = 0, u_last_submit_mem_flags = 0\<rparr>"

definition urb_record_find :: "ptr \<Rightarrow> usb_state \<Rightarrow> kb_usb_urb_snapshot option" where
  "urb_record_find urb s = (if pointer_is_error_or_low urb then None else find_key u_urb urb (usb_urb_records s))"

definition on_urb :: "ptr \<Rightarrow> (kb_usb_urb_snapshot \<Rightarrow> kb_usb_urb_snapshot) \<Rightarrow> usb_state \<Rightarrow> usb_state" where
  "on_urb urb f s = s\<lparr>usb_urb_records := update_key u_urb urb f (usb_urb_records s)\<rparr>"

text \<open>Whether there is a record afterwards.\<close>

definition urb_record_for :: "usb_env \<Rightarrow> ptr \<Rightarrow> ptr \<Rightarrow> usb_state \<Rightarrow> bool \<times> usb_state" where
  "urb_record_for e hcd urb s =
     (if pointer_is_error_or_low urb then (False, s)
      else (case urb_record_find urb s of
        Some record \<Rightarrow> (True, if u_hcd record = NULL then on_urb urb (\<lambda>r. r\<lparr>u_hcd := hcd\<rparr>) s else s)
      | None \<Rightarrow> (case run_storage (usb_calloc_node e) s of
          (False, s) \<Rightarrow> (False, s)
        | (True, s) \<Rightarrow> (True, s\<lparr>usb_urb_records := zero_urb_record\<lparr>u_hcd := hcd, u_urb := urb\<rparr> # usb_urb_records s\<rparr>))))"

definition urb_records_release_for_hcd :: "ptr \<Rightarrow> usb_state \<Rightarrow> usb_state" where
  "urb_records_release_for_hcd hcd s =
     (if pointer_is_error_or_low hcd then s
      else s\<lparr>usb_urb_records := filter (\<lambda>r. u_hcd r \<noteq> hcd) (usb_urb_records s)\<rparr>)"

text \<open>The functions that need a controller, and the ones that do not.\<close>

definition urb_with_hcd :: "usb_env \<Rightarrow> ptr \<Rightarrow> ptr \<Rightarrow> (kb_usb_urb_snapshot \<Rightarrow> kb_usb_urb_snapshot) \<Rightarrow> usb_state \<Rightarrow> int \<times> usb_state" where
  "urb_with_hcd e hcd urb f s = (case urb_record_for e hcd urb s of (found, s) \<Rightarrow>
     if \<not> found \<or> hcd = NULL then (-22, s) else (0, on_urb urb f s))"

definition urb_note :: "usb_env \<Rightarrow> ptr \<Rightarrow> ptr \<Rightarrow> (kb_usb_urb_snapshot \<Rightarrow> kb_usb_urb_snapshot) \<Rightarrow> usb_state \<Rightarrow> usb_state" where
  "urb_note e hcd urb f s = (case urb_record_for e hcd urb s of (found, s) \<Rightarrow>
     if \<not> found then s else on_urb urb (\<lambda>r. f (if u_hcd r = NULL then r\<lparr>u_hcd := hcd\<rparr> else r)) s)"

definition kb_usb_subsystem_urb_link :: "usb_env \<Rightarrow> ptr \<Rightarrow> ptr \<Rightarrow> usb_state \<Rightarrow> int \<times> usb_state" where
  "kb_usb_subsystem_urb_link e hcd urb =
     urb_with_hcd e hcd urb (\<lambda>r. r\<lparr>u_hcd := hcd, u_linked := 1, u_link_count := u_link_count r + 1\<rparr>)"

definition kb_usb_subsystem_urb_unlink :: "usb_env \<Rightarrow> ptr \<Rightarrow> ptr \<Rightarrow> int \<Rightarrow> usb_state \<Rightarrow> usb_state" where
  "kb_usb_subsystem_urb_unlink e hcd urb status =
     urb_note e hcd urb (\<lambda>r. r\<lparr>u_linked := 0, u_last_unlink_status := status, u_unlink_count := u_unlink_count r + 1\<rparr>)"

definition kb_usb_subsystem_urb_check_unlink :: "usb_env \<Rightarrow> ptr \<Rightarrow> ptr \<Rightarrow> int \<Rightarrow> usb_state \<Rightarrow> int \<times> usb_state" where
  "kb_usb_subsystem_urb_check_unlink e hcd urb status =
     urb_with_hcd e hcd urb (\<lambda>r. r\<lparr>u_last_unlink_status := status\<rparr>)"

definition kb_usb_subsystem_urb_map_dma ::
  "usb_env \<Rightarrow> ptr \<Rightarrow> ptr \<Rightarrow> kb_usb_urb_dma_update option \<Rightarrow> usb_state \<Rightarrow> int \<times> usb_state" where
  "kb_usb_subsystem_urb_map_dma e hcd urb update =
     urb_with_hcd e hcd urb (\<lambda>r.
       let r = r\<lparr>u_hcd := hcd, u_mapped := 1\<rparr>;
           r = (case update of None \<Rightarrow> r | Some u \<Rightarrow> r\<lparr>u_transfer_buffer := du_transfer_buffer u,
             u_setup_packet := du_setup_packet u, u_transfer_dma := du_transfer_dma u, u_setup_dma := du_setup_dma u,
             u_transfer_buffer_length := du_transfer_buffer_length u, u_actual_length := du_actual_length u,
             u_transfer_flags := du_transfer_flags u, u_dma_map_flags := du_dma_map_flags u, u_status := 0,
             u_last_mem_flags := du_mem_flags u\<rparr>) in
       r\<lparr>u_map_count := u_map_count r + 1\<rparr>)"

definition kb_usb_subsystem_urb_unmap_dma :: "usb_env \<Rightarrow> ptr \<Rightarrow> ptr \<Rightarrow> usb_state \<Rightarrow> usb_state" where
  "kb_usb_subsystem_urb_unmap_dma e hcd urb =
     urb_note e hcd urb (\<lambda>r. r\<lparr>u_mapped := 0, u_dma_map_flags := 0, u_unmap_count := u_unmap_count r + 1\<rparr>)"

definition kb_usb_subsystem_urb_submit :: "usb_env \<Rightarrow> ptr \<Rightarrow> ptr \<Rightarrow> u32 \<Rightarrow> int \<Rightarrow> usb_state \<Rightarrow> usb_state" where
  "kb_usb_subsystem_urb_submit e hcd urb mem_flags status =
     urb_note e hcd urb (\<lambda>r. r\<lparr>u_linked := of_bool (status = 0), u_last_submit_status := status,
       u_last_submit_mem_flags := mem_flags, u_submit_count := u_submit_count r + 1\<rparr>)"

definition kb_usb_subsystem_urb_kill :: "usb_env \<Rightarrow> ptr \<Rightarrow> ptr \<Rightarrow> usb_state \<Rightarrow> usb_state" where
  "kb_usb_subsystem_urb_kill e hcd urb =
     urb_note e hcd urb (\<lambda>r. r\<lparr>u_linked := 0, u_kill_count := u_kill_count r + 1\<rparr>)"

definition kb_usb_subsystem_urb_giveback :: "usb_env \<Rightarrow> ptr \<Rightarrow> ptr \<Rightarrow> int \<Rightarrow> usb_state \<Rightarrow> usb_state" where
  "kb_usb_subsystem_urb_giveback e hcd urb status =
     urb_note e hcd urb (\<lambda>r. r\<lparr>u_linked := 0, u_last_giveback_status := status, u_status := status,
       u_giveback_count := u_giveback_count r + 1\<rparr>)"

definition kb_usb_subsystem_urb_snapshot :: "ptr \<Rightarrow> bool \<Rightarrow> usb_state \<Rightarrow> int + kb_usb_urb_snapshot" where
  "kb_usb_subsystem_urb_snapshot urb out s = (case urb_record_find urb s of
       None \<Rightarrow> Inl (-22)
     | Some record \<Rightarrow> if \<not> out then Inl (-22) else Inr record)"

definition kb_usb_subsystem_urb_count :: "usb_state \<Rightarrow> nat" where
  "kb_usb_subsystem_urb_count s = length (usb_urb_records s)"

definition kb_usb_subsystem_for_each_urb ::
  "(kb_usb_urb_snapshot \<Rightarrow> 'c \<Rightarrow> int \<times> 'c) option \<Rightarrow> 'c \<Rightarrow> usb_state \<Rightarrow> nat \<times> 'c" where
  "kb_usb_subsystem_for_each_urb callback ctx s = (case callback of
       None \<Rightarrow> (0, ctx)
     | Some f \<Rightarrow> visit f (usb_urb_records s) ctx)"

section \<open>Endpoints\<close>

text \<open>
  The lookup with insertion that the lists of devices, interfaces, endpoints and drivers share: an
  absent record is allocated, and put at the head of the list as \<open>fresh\<close>.
\<close>

definition record_for :: "usb_env \<Rightarrow> ('a \<Rightarrow> ptr) \<Rightarrow> ptr \<Rightarrow> 'a \<Rightarrow> 'a list \<Rightarrow> usb_state \<Rightarrow> 'a list option \<times> usb_state" where
  "record_for e key k fresh records s =
     (if k = NULL then (None, s)
      else if find_key key k records \<noteq> None then (Some records, s)
      else (case run_storage (usb_calloc_node e) s of
          (False, s) \<Rightarrow> (None, s)
        | (True, s) \<Rightarrow> (Some (fresh # records), s)))"

definition endpoint_record_for ::
  "usb_env \<Rightarrow> kb_usb_endpoint_snapshot \<Rightarrow> usb_state \<Rightarrow> kb_usb_endpoint_snapshot list option \<times> usb_state" where
  "endpoint_record_for e update s = record_for e ep_endpoint (ep_endpoint update) update (usb_endpoint_records s) s"

definition kb_usb_subsystem_endpoint_observe ::
  "usb_env \<Rightarrow> kb_usb_endpoint_snapshot option \<Rightarrow> usb_state \<Rightarrow> int \<times> usb_state" where
  "kb_usb_subsystem_endpoint_observe e update s = (case update of
       None \<Rightarrow> (-22, s)
     | Some u \<Rightarrow>
         if ep_endpoint u = NULL then (-22, s)
         else (case endpoint_record_for e u s of
             (None, s) \<Rightarrow> (-12, s)
           | (Some records, s) \<Rightarrow>
               let s = s\<lparr>usb_endpoint_records := update_key ep_endpoint (ep_endpoint u) (\<lambda>_. u) records\<rparr> in
               (0, kb_usb_storage_subsystem_observe_endpoint e u s)))"

definition endpoint_records_release_for_interface :: "ptr \<Rightarrow> usb_state \<Rightarrow> usb_state" where
  "endpoint_records_release_for_interface interface s =
     (if interface = NULL then s
      else s\<lparr>usb_endpoint_records := filter (\<lambda>r. ep_interface r \<noteq> interface) (usb_endpoint_records s)\<rparr>)"

definition endpoint_records_release_for_udev :: "ptr \<Rightarrow> usb_state \<Rightarrow> usb_state" where
  "endpoint_records_release_for_udev udev s =
     (if udev = NULL then s
      else s\<lparr>usb_endpoint_records := filter (\<lambda>r. ep_udev r \<noteq> udev) (usb_endpoint_records s)\<rparr>)"

definition kb_usb_subsystem_endpoint_remove :: "ptr \<Rightarrow> usb_state \<Rightarrow> usb_state" where
  "kb_usb_subsystem_endpoint_remove endpoint s =
     s\<lparr>usb_endpoint_records := remove_key ep_endpoint endpoint (usb_endpoint_records s)\<rparr>"

definition kb_usb_subsystem_endpoint_snapshot :: "ptr \<Rightarrow> bool \<Rightarrow> usb_state \<Rightarrow> int + kb_usb_endpoint_snapshot" where
  "kb_usb_subsystem_endpoint_snapshot endpoint out s = (case find_key ep_endpoint endpoint (usb_endpoint_records s) of
       None \<Rightarrow> Inl (-22)
     | Some record \<Rightarrow> if \<not> out then Inl (-22) else Inr record)"

definition kb_usb_subsystem_endpoint_count :: "usb_state \<Rightarrow> nat" where
  "kb_usb_subsystem_endpoint_count s = length (usb_endpoint_records s)"

definition kb_usb_subsystem_for_each_endpoint ::
  "(kb_usb_endpoint_snapshot \<Rightarrow> 'c \<Rightarrow> int \<times> 'c) option \<Rightarrow> 'c \<Rightarrow> usb_state \<Rightarrow> nat \<times> 'c" where
  "kb_usb_subsystem_for_each_endpoint callback ctx s = (case callback of
       None \<Rightarrow> (0, ctx)
     | Some f \<Rightarrow> visit f (usb_endpoint_records s) ctx)"

section \<open>Interfaces\<close>

definition interface_record_for ::
  "usb_env \<Rightarrow> kb_usb_interface_snapshot \<Rightarrow> usb_state \<Rightarrow> kb_usb_interface_snapshot list option \<times> usb_state" where
  "interface_record_for e update s = record_for e if_interface (if_interface update) update (usb_interface_records s) s"

definition kb_usb_subsystem_interface_observe ::
  "usb_env \<Rightarrow> kb_usb_interface_snapshot option \<Rightarrow> usb_state \<Rightarrow> int \<times> usb_state" where
  "kb_usb_subsystem_interface_observe e update s = (case update of
       None \<Rightarrow> (-22, s)
     | Some u \<Rightarrow>
         if if_interface u = NULL then (-22, s)
         else (case interface_record_for e u s of
             (None, s) \<Rightarrow> (-12, s)
           | (Some records, s) \<Rightarrow>
               let s = s\<lparr>usb_interface_records := update_key if_interface (if_interface u) (\<lambda>_. u) records\<rparr> in
               (0, kb_usb_storage_subsystem_observe_interface e u s)))"

text \<open>What the subsystem drops together with an interface.\<close>

definition interface_release :: "kb_usb_interface_snapshot \<Rightarrow> usb_state \<Rightarrow> usb_state" where
  "interface_release r s = endpoint_records_release_for_interface (if_interface r)
     (kb_usb_storage_subsystem_remove_interface (if_interface r) s)"

definition kb_usb_subsystem_interface_remove :: "ptr \<Rightarrow> usb_state \<Rightarrow> usb_state" where
  "kb_usb_subsystem_interface_remove interface s =
     (case find_key if_interface interface (usb_interface_records s) of
        None \<Rightarrow> s
      | Some r \<Rightarrow> (interface_release r s)\<lparr>usb_interface_records :=
          remove_key if_interface interface (usb_interface_records s)\<rparr>)"

definition interface_records_release_for_udev :: "ptr \<Rightarrow> usb_state \<Rightarrow> usb_state" where
  "interface_records_release_for_udev udev s =
     (if udev = NULL then s
      else (fold interface_release (filter (\<lambda>r. if_udev r = udev) (usb_interface_records s)) s)\<lparr>
        usb_interface_records := filter (\<lambda>r. if_udev r \<noteq> udev) (usb_interface_records s)\<rparr>)"

definition kb_usb_subsystem_interface_snapshot :: "ptr \<Rightarrow> bool \<Rightarrow> usb_state \<Rightarrow> int + kb_usb_interface_snapshot" where
  "kb_usb_subsystem_interface_snapshot interface out s = (case find_key if_interface interface (usb_interface_records s) of
       None \<Rightarrow> Inl (-22)
     | Some record \<Rightarrow> if \<not> out then Inl (-22) else Inr record)"

definition kb_usb_subsystem_interface_count :: "usb_state \<Rightarrow> nat" where
  "kb_usb_subsystem_interface_count s = length (usb_interface_records s)"

definition kb_usb_subsystem_for_each_interface ::
  "(kb_usb_interface_snapshot \<Rightarrow> 'c \<Rightarrow> int \<times> 'c) option \<Rightarrow> 'c \<Rightarrow> usb_state \<Rightarrow> nat \<times> 'c" where
  "kb_usb_subsystem_for_each_interface callback ctx s = (case callback of
       None \<Rightarrow> (0, ctx)
     | Some f \<Rightarrow> visit f (usb_interface_records s) ctx)"

section \<open>Devices\<close>

definition device_record_for ::
  "usb_env \<Rightarrow> kb_usb_device_snapshot \<Rightarrow> usb_state \<Rightarrow> kb_usb_device_snapshot list option \<times> usb_state" where
  "device_record_for e update s = record_for e dv_udev (dv_udev update) update (usb_device_records s) s"

definition kb_usb_subsystem_device_observe ::
  "usb_env \<Rightarrow> kb_usb_device_snapshot option \<Rightarrow> usb_state \<Rightarrow> int \<times> usb_state" where
  "kb_usb_subsystem_device_observe e update s = (case update of
       None \<Rightarrow> (-22, s)
     | Some u \<Rightarrow>
         if dv_udev u = NULL then (-22, s)
         else (case device_record_for e u s of
             (None, s) \<Rightarrow> (-12, s)
           | (Some records, s) \<Rightarrow>
               (0, s\<lparr>usb_device_records := update_key dv_udev (dv_udev u)
                  (\<lambda>_. u\<lparr>dv_devpath := take 31 (dv_devpath u)\<rparr>) records\<rparr>)))"

text \<open>What the subsystem drops together with a device.\<close>

definition device_release :: "kb_usb_device_snapshot \<Rightarrow> usb_state \<Rightarrow> usb_state" where
  "device_release r s = endpoint_records_release_for_udev (dv_udev r) (interface_records_release_for_udev (dv_udev r) s)"

definition kb_usb_subsystem_device_remove :: "ptr \<Rightarrow> usb_state \<Rightarrow> usb_state" where
  "kb_usb_subsystem_device_remove udev s =
     (case find_key dv_udev udev (usb_device_records s) of
        None \<Rightarrow> s
      | Some r \<Rightarrow> (device_release r s)\<lparr>usb_device_records := remove_key dv_udev udev (usb_device_records s)\<rparr>)"

definition device_records_release_for_hcd :: "ptr \<Rightarrow> usb_state \<Rightarrow> usb_state" where
  "device_records_release_for_hcd hcd s =
     (if pointer_is_error_or_low hcd then s
      else (fold device_release (filter (\<lambda>r. dv_hcd r = hcd) (usb_device_records s)) s)\<lparr>
        usb_device_records := filter (\<lambda>r. dv_hcd r \<noteq> hcd) (usb_device_records s)\<rparr>)"

definition kb_usb_subsystem_device_snapshot :: "ptr \<Rightarrow> bool \<Rightarrow> usb_state \<Rightarrow> int + kb_usb_device_snapshot" where
  "kb_usb_subsystem_device_snapshot udev out s = (case find_key dv_udev udev (usb_device_records s) of
       None \<Rightarrow> Inl (-22)
     | Some record \<Rightarrow> if \<not> out then Inl (-22) else Inr record)"

definition kb_usb_subsystem_device_count :: "usb_state \<Rightarrow> nat" where
  "kb_usb_subsystem_device_count s = length (usb_device_records s)"

definition kb_usb_subsystem_for_each_device ::
  "(kb_usb_device_snapshot \<Rightarrow> 'c \<Rightarrow> int \<times> 'c) option \<Rightarrow> 'c \<Rightarrow> usb_state \<Rightarrow> nat \<times> 'c" where
  "kb_usb_subsystem_for_each_device callback ctx s = (case callback of
       None \<Rightarrow> (0, ctx)
     | Some f \<Rightarrow> visit f (usb_device_records s) ctx)"

text \<open>\<^verbatim>\<open>record\<close> is the address of the controller's record.\<close>

definition kb_usb_subsystem_hcd_release :: "ptr \<Rightarrow> usb_state \<Rightarrow> usb_state" where
  "kb_usb_subsystem_hcd_release record s = (case find_key h_at record (usb_hcd_records s) of
       None \<Rightarrow> s
     | Some r \<Rightarrow>
         let s = urb_records_release_for_hcd (h_hcd r) (device_records_release_for_hcd (h_hcd r) s);
             s = (if h_owns_storage r then on_storage (usb_free (h_hcd r)) s else s) in
         on_storage (usb_free record) (s\<lparr>usb_hcd_records := remove_key h_at record (usb_hcd_records s)\<rparr>))"

section \<open>Drivers\<close>

definition zero_driver_record :: kb_usb_driver_snapshot where
  "zero_driver_record = \<lparr>dr_driver = NULL, dr_owner = NULL, dr_registered = False, dr_last_register_status = 0,
     dr_register_count = 0, dr_deregister_count = 0, dr_module_name = []\<rparr>"

definition driver_record_for :: "usb_env \<Rightarrow> ptr \<Rightarrow> usb_state \<Rightarrow> kb_usb_driver_snapshot list option \<times> usb_state" where
  "driver_record_for e driver s =
     record_for e dr_driver driver (zero_driver_record\<lparr>dr_driver := driver\<rparr>) (usb_driver_records s) s"

definition kb_usb_subsystem_driver_register :: "usb_env \<Rightarrow> ptr \<Rightarrow> ptr \<Rightarrow> string option \<Rightarrow> int \<Rightarrow> usb_state \<Rightarrow> usb_state" where
  "kb_usb_subsystem_driver_register e driver owner module_name status s = (case driver_record_for e driver s of
       (None, s) \<Rightarrow> s
     | (Some records, s) \<Rightarrow>
         kb_usb_storage_subsystem_note_driver_registered e driver module_name
           (s\<lparr>usb_driver_records := update_key dr_driver driver (\<lambda>r. r\<lparr>dr_owner := owner, dr_registered := (status = 0),
              dr_last_register_status := status, dr_register_count := dr_register_count r + 1,
              dr_module_name := (case module_name of Some name \<Rightarrow> take 63 name | None \<Rightarrow> dr_module_name r)\<rparr>) records\<rparr>))"

definition kb_usb_subsystem_driver_deregister :: "usb_env \<Rightarrow> ptr \<Rightarrow> usb_state \<Rightarrow> usb_state" where
  "kb_usb_subsystem_driver_deregister e driver s = (case driver_record_for e driver s of
       (None, s) \<Rightarrow> s
     | (Some records, s) \<Rightarrow>
         kb_usb_storage_subsystem_note_driver_deregistered driver
           (s\<lparr>usb_driver_records := update_key dr_driver driver (\<lambda>r. r\<lparr>dr_registered := False,
              dr_deregister_count := dr_deregister_count r + 1\<rparr>) records\<rparr>))"

definition kb_usb_subsystem_driver_snapshot :: "ptr \<Rightarrow> bool \<Rightarrow> usb_state \<Rightarrow> int + kb_usb_driver_snapshot" where
  "kb_usb_subsystem_driver_snapshot driver out s = (case find_key dr_driver driver (usb_driver_records s) of
       None \<Rightarrow> Inl (-22)
     | Some record \<Rightarrow> if \<not> out then Inl (-22) else Inr record)"

definition kb_usb_subsystem_driver_count :: "usb_state \<Rightarrow> nat" where
  "kb_usb_subsystem_driver_count s = length (usb_driver_records s)"

definition kb_usb_subsystem_for_each_driver ::
  "(kb_usb_driver_snapshot \<Rightarrow> 'c \<Rightarrow> int \<times> 'c) option \<Rightarrow> 'c \<Rightarrow> usb_state \<Rightarrow> nat \<times> 'c" where
  "kb_usb_subsystem_for_each_driver callback ctx s = (case callback of
       None \<Rightarrow> (0, ctx)
     | Some f \<Rightarrow> visit f (usb_driver_records s) ctx)"

end
