(* ===== verification/Usb_Medium.thy ===== *)
theory Usb_Medium
  imports Usb
begin

text \<open>
  The backing store of a USB disk as an array of bytes: \<open>medium\<close> reads a byte of the sparse extents,
  and the loop of \<^verbatim>\<open>storage_backing_transfer\<close> reads and overwrites ranges of it.
\<close>

section \<open>Storing at an offset\<close>

lemma length_splice [simp]: "pos + length data \<le> length buffer \<Longrightarrow> length (splice pos data buffer) = length buffer"
  by (simp add: splice_def)

lemma splice_Nil [simp]: "splice pos [] buffer = buffer"
  by (simp add: splice_def)

lemma splice_splice:
  assumes "pos + length xs + length ys \<le> length buffer"
  shows "splice (pos + length xs) ys (splice pos xs buffer) = splice pos (xs @ ys) buffer"
  using assms by (simp add: splice_def ac_simps)

lemma nth_splice:
  assumes "pos + length data \<le> length buffer" and "k < length buffer"
  shows "splice pos data buffer ! k = (if pos \<le> k \<and> k < pos + length data then data ! (k - pos) else buffer ! k)"
  using assms by (auto simp: splice_def nth_append min_def)

lemma splice_all: "length data = length buffer \<Longrightarrow> splice 0 data buffer = data"
  by (simp add: splice_def)

section \<open>The medium\<close>

definition medium :: "kb_usb_storage_record \<Rightarrow> u64 \<Rightarrow> u8" where
  "medium r a = (case storage_find_extent r (a div 4096) of
       None \<Rightarrow> 0
     | Some x \<Rightarrow> x_data x ! unat (a mod 4096))"

definition overwrite :: "u64 \<Rightarrow> bytes \<Rightarrow> (u64 \<Rightarrow> u8) \<Rightarrow> u64 \<Rightarrow> u8" where
  "overwrite off bs f a = (if unat off \<le> unat a \<and> unat a < unat off + length bs then bs ! (unat a - unat off) else f a)"

definition stretch :: "(u64 \<Rightarrow> u8) \<Rightarrow> u64 \<Rightarrow> nat \<Rightarrow> bytes" where
  "stretch f off n = map (\<lambda>k. f (off + of_nat k)) [0..<n]"

definition backing_ok :: "kb_usb_storage_record \<Rightarrow> bool" where
  "backing_ok r \<longleftrightarrow> (\<forall>x\<in>set (us_extents r). length (x_data x) = 4096) \<and> distinct (map x_index (us_extents r)) \<and>
     us_backing_bytes r = 4096 * of_nat (length (us_extents r))"

lemma length_stretch [simp]: "length (stretch f off n) = n"
  by (simp add: stretch_def)

lemma stretch_append: "stretch f off (m + n) = stretch f off m @ stretch f (off + of_nat m) n"
proof (rule nth_equalityI)
  fix k assume "k < length (stretch f off (m + n))"
  then show "stretch f off (m + n) ! k = (stretch f off m @ stretch f (off + of_nat m) n) ! k"
    by (auto simp: stretch_def nth_append add.assoc simp flip: of_nat_add)
qed simp

lemma overwrite_Nil [simp]: "overwrite off [] f = f"
  by (auto simp: overwrite_def fun_eq_iff)

lemma overwrite_append:
  assumes "unat off + length xs < 2 ^ 64"
  shows "overwrite (off + of_nat (length xs)) ys (overwrite off xs f) = overwrite off (xs @ ys) f"
proof -
  have "unat (off + of_nat (length xs)) = unat off + length xs"
    using assms by (simp add: unat_word_ariths unat_of_nat)
  then show ?thesis by (auto simp: overwrite_def fun_eq_iff nth_append)
qed

lemma unat_offset: "k < n \<Longrightarrow> unat off + n \<le> 2 ^ 64 \<Longrightarrow> unat (off + of_nat k :: u64) = unat off + k"
  by (simp add: unat_word_ariths unat_of_nat)

lemma stretch_overwrite:
  assumes "unat off + length bs \<le> 2 ^ 64"
  shows "stretch (overwrite off bs f) off (length bs) = bs"
  using assms by (intro nth_equalityI) (auto simp: stretch_def overwrite_def unat_offset)

lemma stretch_overwrite_other:
  assumes "unat off' + n \<le> 2 ^ 64" and "unat off' + n \<le> unat off \<or> unat off + length bs \<le> unat off'"
  shows "stretch (overwrite off bs f) off' n = stretch f off' n"
  using assms by (intro nth_equalityI) (auto simp: stretch_def overwrite_def unat_offset)

section \<open>One extent\<close>

lemma div_mod_within:
  assumes "m mod d + k < (d :: nat)"
  shows "(m + k) div d = m div d \<and> (m + k) mod d = m mod d + k"
proof -
  define q r where "q = m div d" and "r = m mod d"
  have m: "m = q * d + r" by (simp add: q_def r_def)
  have "r + k < d" using assms by (simp add: r_def)
  then have "(m + k) div d = q \<and> (m + k) mod d = r + k" by (simp add: m add.assoc)
  then show ?thesis by (simp add: q_def r_def)
qed

text \<open>The bytes of a chunk lie in one extent.\<close>

lemma chunk_addresses:
  assumes "k < unat (transfer_chunk off n)" and "unat off + unat n < 2 ^ 64"
  shows "(off + of_nat k) div 4096 = off div 4096" "unat ((off + of_nat k) mod 4096) = unat (off mod 4096) + k"
proof -
  have k: "k < unat n" "unat off mod 4096 + k < 4096" using assms(1) by (auto simp: unat_transfer_chunk)
  then have a: "unat (off + of_nat k) = unat off + k" using unat_offset [OF k(1)] assms(2) by simp
  have "(unat off + k) div 4096 = unat off div 4096 \<and> (unat off + k) mod 4096 = unat off mod 4096 + k"
    by (rule div_mod_within [OF k(2)])
  then show "(off + of_nat k) div 4096 = off div 4096" "unat ((off + of_nat k) mod 4096) = unat (off mod 4096) + k"
    by (simp_all add: word_unat_eq_iff unat_div unat_mod a)
qed

lemma chunk_fits: "unat (off mod 4096) + unat (transfer_chunk off n) \<le> 4096"
  by (simp add: unat_transfer_chunk unat_mod)

lemma found_extent:
  "storage_find_extent r j = Some x \<Longrightarrow> backing_ok r \<Longrightarrow> length (x_data x) = 4096 \<and> x_index x = j"
  by (auto simp: storage_find_extent_def backing_ok_def find_Some_iff)

lemma read_chunk:
  assumes "backing_ok r" and "unat off + unat n < 2 ^ 64"
  shows "(case storage_find_extent r (off div 4096) of
      Some x \<Rightarrow> take (unat (transfer_chunk off n)) (drop (unat (off mod 4096)) (x_data x))
    | None \<Rightarrow> replicate (unat (transfer_chunk off n)) 0) = stretch (medium r) off (unat (transfer_chunk off n))"
proof (cases "storage_find_extent r (off div 4096)")
  case None
  then show ?thesis
    by (intro nth_equalityI) (auto simp: stretch_def medium_def chunk_addresses [OF _ assms(2)])
next
  case (Some x)
  with found_extent [OF Some assms(1)] chunk_fits [of off n] show ?thesis
    by (intro nth_equalityI) (auto simp: stretch_def medium_def chunk_addresses [OF _ assms(2)])
qed

lemma transfer_read:
  assumes "backing_ok (record_of w i)" and "unat offset + unat remaining < 2 ^ 64" and "cursor + unat remaining \<le> length buffer"
  shows "transfer_loop e i False offset remaining cursor buffer w =
    (0, splice cursor (stretch (medium (record_of w i)) offset (unat remaining)) buffer, w)"
  using assms
proof (induction "unat remaining" arbitrary: offset remaining cursor buffer rule: less_induct)
  case less
  show ?case
  proof (cases "remaining = 0")
    case True
    then show ?thesis by (simp add: transfer_loop.simps stretch_def)
  next
    case False
    let ?c = "transfer_chunk offset remaining"
    let ?d = "stretch (medium (record_of w i)) offset (unat ?c)"
    have c: "0 < unat ?c" "unat ?c \<le> unat remaining" using transfer_chunk_pos [OF False] by (auto simp: unat_transfer_chunk)
    have rest: "unat (remaining - ?c) = unat remaining - unat ?c" by (rule unat_transfer_rest)
    have off: "unat (offset + ?c) = unat offset + unat ?c" using less.prems(2) c(2) by (intro unat_add_no_wrap) simp
    have "transfer_loop e i False (offset + ?c) (remaining - ?c) (cursor + unat ?c) (splice cursor ?d buffer) w =
      (0, splice (cursor + unat ?c) (stretch (medium (record_of w i)) (offset + ?c) (unat remaining - unat ?c))
        (splice cursor ?d buffer), w)"
      using less.hyps [of "remaining - ?c" "offset + ?c" "cursor + unat ?c" "splice cursor ?d buffer"] less.prems c
      by (simp add: rest off)
    also have "splice (cursor + unat ?c) (stretch (medium (record_of w i)) (offset + ?c) (unat remaining - unat ?c))
        (splice cursor ?d buffer) = splice cursor (stretch (medium (record_of w i)) offset (unat remaining)) buffer"
      using splice_splice [of cursor ?d "stretch (medium (record_of w i)) (offset + ?c) (unat remaining - unat ?c)" buffer]
        stretch_append [of "medium (record_of w i)" offset "unat ?c" "unat remaining - unat ?c"] less.prems(3) c by simp
    finally show ?thesis
      using False read_chunk [OF less.prems(1,2)] by (simp add: transfer_loop_read)
  qed
qed

section \<open>Writing\<close>

lemma store_extent_index [simp]: "map x_index (store_extent j pos data xs) = map x_index xs"
  by (induction xs) auto

lemma find_store_extent:
  "find (\<lambda>x. x_index x = j) (store_extent k pos data xs) =
    (if j = k then map_option (\<lambda>x. x\<lparr>x_data := splice pos data (x_data x)\<rparr>) (find (\<lambda>x. x_index x = j) xs)
     else find (\<lambda>x. x_index x = j) xs)"
  by (induction xs) auto

lemma store_extent_lengths:
  assumes "\<forall>x\<in>set xs. length (x_data x) = 4096" and "pos + length data \<le> 4096"
  shows "\<forall>x\<in>set (store_extent j pos data xs). length (x_data x) = 4096"
  using assms(1) by (induction xs) (auto simp: assms(2))

text \<open>What a transfer changes: the extents of the record and the allocator.\<close>

definition backing_change :: "nat \<Rightarrow> usb_storage \<Rightarrow> usb_storage \<Rightarrow> bool" where
  "backing_change i w w' \<longleftrightarrow> (\<exists>n xs b. w' = w\<lparr>allocations := n,
     storage_records := (storage_records w)[i := (record_of w i)\<lparr>us_extents := xs, us_backing_bytes := b\<rparr>]\<rparr>)"

lemma backing_change_refl: "backing_change i w w"
  unfolding backing_change_def
  by (rule exI [of _ "allocations w"], rule exI [of _ "us_extents (record_of w i)"],
      rule exI [of _ "us_backing_bytes (record_of w i)"]) simp

lemma backing_change_trans:
  assumes "backing_change i w w'" and "backing_change i w' w''" and "i < length (storage_records w)"
  shows "backing_change i w w''"
proof -
  from assms obtain n xs b n' xs' b' where w': "w' = w\<lparr>allocations := n,
      storage_records := (storage_records w)[i := (record_of w i)\<lparr>us_extents := xs, us_backing_bytes := b\<rparr>]\<rparr>"
    and w'': "w'' = w'\<lparr>allocations := n',
      storage_records := (storage_records w')[i := (record_of w' i)\<lparr>us_extents := xs', us_backing_bytes := b'\<rparr>]\<rparr>"
    unfolding backing_change_def by blast
  have "w'' = w\<lparr>allocations := n',
      storage_records := (storage_records w)[i := (record_of w i)\<lparr>us_extents := xs', us_backing_bytes := b'\<rparr>]\<rparr>"
    using assms(3) by (simp add: w' w'')
  then show ?thesis unfolding backing_change_def by blast
qed

lemma backing_change_length: "backing_change i w w' \<Longrightarrow> length (storage_records w') = length (storage_records w)"
  by (auto simp: backing_change_def)

lemma write_chunk:
  assumes ok: "backing_ok r" and bound: "unat off + unat n < 2 ^ 64" and len: "length data = unat (transfer_chunk off n)"
    and x: "storage_find_extent r (off div 4096) = Some x"
  defines "r' \<equiv> r\<lparr>us_extents := store_extent (off div 4096) (unat (off mod 4096)) data (us_extents r)\<rparr>"
  shows "backing_ok r'" "medium r' = overwrite off data (medium r)"
proof -
  have fits: "unat (off mod 4096) + length data \<le> 4096" using chunk_fits len by simp
  have "length (store_extent j p d xs) = length xs" for j p d xs
    using store_extent_index [of j p d xs] map_eq_imp_length_eq by blast
  moreover have "\<forall>x\<in>set (us_extents r'). length (x_data x) = 4096"
    using store_extent_lengths [OF _ fits, of "us_extents r"] ok by (simp add: backing_ok_def r'_def)
  ultimately show "backing_ok r'" using ok by (simp add: backing_ok_def r'_def)
  have lx: "length (x_data x) = 4096" using found_extent [OF x ok] by simp
  show "medium r' = overwrite off data (medium r)"
  proof
    fix a
    have inside: "a div 4096 = off div 4096 \<and> unat (a mod 4096) = unat (off mod 4096) + (unat a - unat off)"
      if "unat off \<le> unat a" "unat a < unat off + length data"
    proof -
      have "a = off + of_nat (unat a - unat off)" using that(1) by (simp add: of_nat_diff)
      moreover have "unat a - unat off < unat (transfer_chunk off n)" using that len by simp
      ultimately show ?thesis using chunk_addresses [OF _ bound, of "unat a - unat off"] by simp
    qed
    show "medium r' a = overwrite off data (medium r) a"
    proof (cases "a div 4096 = off div 4096")
      case True
      then have d: "unat a div 4096 = unat off div 4096" using unat_div [of a 4096] unat_div [of off 4096] by simp
      have ma: "medium r' a = splice (unat (off mod 4096)) data (x_data x) ! unat (a mod 4096)"
        using x True by (simp add: medium_def storage_find_extent_def r'_def find_store_extent)
      have "unat (a mod 4096) < 4096" by (simp add: unat_mod)
      moreover have "unat off \<le> unat a \<and> unat a < unat off + length data \<longleftrightarrow>
          unat (off mod 4096) \<le> unat (a mod 4096) \<and> unat (a mod 4096) < unat (off mod 4096) + length data"
      proof -
        have "unat a = unat off div 4096 * 4096 + unat a mod 4096" "unat off = unat off div 4096 * 4096 + unat off mod 4096"
          using div_mult_mod_eq [of "unat a" 4096] d by simp_all
        then have "unat off \<le> unat a \<and> unat a < unat off + length data \<longleftrightarrow>
            unat off mod 4096 \<le> unat a mod 4096 \<and> unat a mod 4096 < unat off mod 4096 + length data"
          by (safe; linarith)
        then show ?thesis by (simp add: unat_mod)
      qed
      ultimately show ?thesis
        using ma inside x True by (auto simp: nth_splice fits lx overwrite_def medium_def)
    next
      case False
      then have "medium r' a = medium r a"
        by (simp add: medium_def storage_find_extent_def r'_def find_store_extent)
      then show ?thesis using False inside by (auto simp: overwrite_def)
    qed
  qed
qed

lemma ensure_extent:
  assumes ok: "backing_ok (record_of w i)" and i: "i < length (storage_records w)"
    and run: "storage_ensure_extent e i j w = (found, w')"
  shows "backing_change i w w'" "backing_ok (record_of w' i)" "medium (record_of w' i) = medium (record_of w i)"
    "found \<Longrightarrow> \<exists>x. storage_find_extent (record_of w' i) j = Some x"
    "\<not> found \<Longrightarrow> \<exists>n. e_calloc e n = NULL"
proof -
  let ?r = "record_of w i"
  consider (old) x where "storage_find_extent ?r j = Some x" "found" "w' = w"
    | (none) "storage_find_extent ?r j = None" "\<not> found" "w' = w\<lparr>allocations := allocations w + 1\<rparr>"
        "e_calloc e (allocations w) = NULL"
    | (new) "storage_find_extent ?r j = None" "found" "w' = w\<lparr>allocations := allocations w + 1, storage_records :=
        (storage_records w)[i := ?r\<lparr>us_extents := \<lparr>x_index = j, x_data = replicate 4096 0\<rparr> # us_extents ?r,
           us_backing_bytes := us_backing_bytes ?r + 4096\<rparr>]\<rparr>"
    using run
    by (auto simp: storage_ensure_extent_def usb_calloc_node_def on_record_def split: option.splits prod.splits bool.splits)
  then have "backing_change i w w' \<and> backing_ok (record_of w' i) \<and> medium (record_of w' i) = medium ?r \<and>
    (found \<longrightarrow> (\<exists>x. storage_find_extent (record_of w' i) j = Some x)) \<and> (\<not> found \<longrightarrow> (\<exists>n. e_calloc e n = NULL))"
  proof cases
    case old
    then show ?thesis using ok by (simp add: backing_change_refl)
  next
    case none
    have "backing_change i w w'" unfolding backing_change_def none(3)
      by (rule exI [of _ "allocations w + 1"], rule exI [of _ "us_extents ?r"], rule exI [of _ "us_backing_bytes ?r"]) simp
    then show ?thesis using none ok by auto
  next
    case new
    let ?n = "record_of w' i"
    have "j \<notin> x_index ` set (us_extents ?r)" using new(1) by (auto simp: storage_find_extent_def find_None_iff)
    then have "backing_ok ?n" using ok i by (auto simp: backing_ok_def new(3) algebra_simps)
    moreover have "medium ?n = medium ?r"
    proof
      fix a show "medium ?n a = medium ?r a"
        using new(1) i by (cases "j = a div 4096") (simp_all add: medium_def storage_find_extent_def new(3) unat_mod)
    qed
    moreover have "backing_change i w w'" unfolding backing_change_def new(3) by blast
    ultimately show ?thesis using new i by (simp add: storage_find_extent_def)
  qed
  then show "backing_change i w w'" "backing_ok (record_of w' i)" "medium (record_of w' i) = medium (record_of w i)"
    "found \<Longrightarrow> \<exists>x. storage_find_extent (record_of w' i) j = Some x" "\<not> found \<Longrightarrow> \<exists>n. e_calloc e n = NULL"
    by simp_all
qed

text \<open>The outcome of a write: a prefix of the data is stored, all of it unless the allocator failed.\<close>

definition written :: "usb_env \<Rightarrow> nat \<Rightarrow> u64 \<Rightarrow> bytes \<Rightarrow> usb_storage \<Rightarrow> int \<Rightarrow> usb_storage \<Rightarrow> bool" where
  "written e i off data w result w' \<longleftrightarrow> backing_change i w w' \<and> backing_ok (record_of w' i) \<and>
     (\<exists>k\<le>length data. medium (record_of w' i) = overwrite off (take k data) (medium (record_of w i)) \<and>
       (result = 0 \<and> k = length data \<or> result = -12 \<and> (\<exists>n. e_calloc e n = NULL)))"

lemma written_step:
  assumes "backing_change i w w1" and i: "i < length (storage_records w)" and m: "medium (record_of w1 i) = overwrite off d1 (medium (record_of w i))"
    and bound: "unat off + length d1 < 2 ^ 64" and rest: "written e i (off + of_nat (length d1)) d2 w1 result w'"
  shows "written e i off (d1 @ d2) w result w'"
proof -
  from rest obtain k where k: "k \<le> length d2"
    "medium (record_of w' i) = overwrite (off + of_nat (length d1)) (take k d2) (medium (record_of w1 i))"
    "result = 0 \<and> k = length d2 \<or> result = -12 \<and> (\<exists>n. e_calloc e n = NULL)"
    and c: "backing_change i w1 w'" "backing_ok (record_of w' i)" unfolding written_def by blast
  have "medium (record_of w' i) = overwrite off (take (length d1 + k) (d1 @ d2)) (medium (record_of w i))"
    using overwrite_append [OF bound, of "take k d2"] by (simp add: k(2) m)
  then show ?thesis
    unfolding written_def using backing_change_trans [OF assms(1) c(1) i] c(2) k(1,3)
    by (intro conjI exI [of _ "length d1 + k"]) auto
qed

lemma transfer_write:
  assumes "backing_ok (record_of w i)" and "i < length (storage_records w)" and "unat offset + unat remaining < 2 ^ 64"
    and "cursor + unat remaining \<le> length buffer"
  shows "\<exists>result w'. transfer_loop e i True offset remaining cursor buffer w = (result, buffer, w') \<and>
    written e i offset (take (unat remaining) (drop cursor buffer)) w result w'"
  using assms
proof (induction "unat remaining" arbitrary: offset remaining cursor w rule: less_induct)
  case less
  show ?case
  proof (cases "remaining = 0")
    case True
    then show ?thesis using less.prems(1) by (simp add: transfer_loop.simps written_def backing_change_refl)
  next
    case False
    let ?c = "transfer_chunk offset remaining"
    let ?d = "take (unat ?c) (drop cursor buffer)"
    have c: "0 < unat ?c" "unat ?c \<le> unat remaining" using transfer_chunk_pos [OF False] by (auto simp: unat_transfer_chunk)
    have rest: "unat (remaining - ?c) = unat remaining - unat ?c" by (rule unat_transfer_rest)
    have off: "unat (offset + ?c) = unat offset + unat ?c" using less.prems(3) c(2) by (intro unat_add_no_wrap) simp
    have d: "length ?d = unat ?c" using less.prems(4) c by simp
    obtain found w1 where en: "storage_ensure_extent e i (offset div 4096) w = (found, w1)" by fastforce
    note en_facts = ensure_extent [OF less.prems(1,2) en]
    show ?thesis
    proof (cases found)
      case False
      then have "written e i offset (take (unat remaining) (drop cursor buffer)) w (-12) w1"
        unfolding written_def using en_facts by (intro conjI exI [of _ 0]) auto
      then show ?thesis using \<open>remaining \<noteq> 0\<close> en False by (simp add: transfer_loop_write)
    next
      case True
      then obtain x where x: "storage_find_extent (record_of w1 i) (offset div 4096) = Some x" using en_facts(4) by blast
      let ?r = "(record_of w1 i)\<lparr>us_extents :=
          store_extent (offset div 4096) (unat (offset mod 4096)) ?d (us_extents (record_of w1 i))\<rparr>"
      let ?w = "w1\<lparr>storage_records := (storage_records w1)[i := ?r]\<rparr>"
      note wr = write_chunk [OF en_facts(2) less.prems(3) d x]
      have i1: "i < length (storage_records w1)" using less.prems(2) backing_change_length [OF en_facts(1)] by simp
      have "backing_change i w1 ?w" unfolding backing_change_def
        by (rule exI [of _ "allocations w1"], rule exI [of _ "us_extents ?r"], rule exI [of _ "us_backing_bytes ?r"]) simp
      then have ch: "backing_change i w ?w" by (rule backing_change_trans [OF en_facts(1) _ less.prems(2)])
      have med: "medium (record_of ?w i) = overwrite offset ?d (medium (record_of w i))" using wr(2) i1 en_facts(3) by simp
      obtain result w' where IH: "transfer_loop e i True (offset + ?c) (remaining - ?c) (cursor + unat ?c) buffer ?w = (result, buffer, w')"
        "written e i (offset + ?c) (take (unat remaining - unat ?c) (drop (cursor + unat ?c) buffer)) ?w result w'"
        using less.hyps [of "remaining - ?c" ?w "offset + ?c" "cursor + unat ?c"] less.prems c wr(1) i1 by (auto simp: rest off)
      have "written e i offset (?d @ take (unat remaining - unat ?c) (drop (cursor + unat ?c) buffer)) w result w'"
        using written_step [OF ch less.prems(2) med, of e "take (unat remaining - unat ?c) (drop (cursor + unat ?c) buffer)"]
          IH(2) less.prems(3) c d by simp
      moreover have "?d @ take (unat remaining - unat ?c) (drop (cursor + unat ?c) buffer) = take (unat remaining) (drop cursor buffer)"
        using c(2) take_add [of "unat ?c" "unat remaining - unat ?c" "drop cursor buffer"] by (simp add: add.commute)
      ultimately show ?thesis
        using \<open>remaining \<noteq> 0\<close> en True IH(1) by (simp add: transfer_loop_write on_record_def)
    qed
  qed
qed

end
