(* ===== verification/Usb_Backing.thy ===== *)
theory Usb_Backing
  imports Usb_Medium
begin

text \<open>
  The loop of \<^verbatim>\<open>storage_backing_transfer\<close> counted: how many iterations it takes, and which extents a
  write creates.
\<close>

section \<open>Iterations\<close>

text \<open>The number of extents that a range of bytes touches.\<close>

definition extents_spanned :: "u64 \<Rightarrow> u64 \<Rightarrow> nat" where
  "extents_spanned offset n = (if n = 0 then 0 else (unat offset mod 4096 + unat n + 4095) div 4096)"

text \<open>At most \<open>k\<close> iterations of the loop: \<open>None\<close> when it has not ended by then.\<close>

fun transfer_within ::
  "nat \<Rightarrow> usb_env \<Rightarrow> nat \<Rightarrow> bool \<Rightarrow> u64 \<Rightarrow> u64 \<Rightarrow> nat \<Rightarrow> bytes \<Rightarrow> usb_storage \<Rightarrow> (int \<times> bytes \<times> usb_storage) option" where
  "transfer_within k e i write offset remaining cursor buffer w =
     (if remaining = 0 then Some (0, buffer, w)
      else (case k of 0 \<Rightarrow> None | Suc k \<Rightarrow>
        (case transfer_body e i write offset remaining cursor buffer w of
           Inl result \<Rightarrow> Some result
         | Inr (offset, remaining, cursor, buffer, w) \<Rightarrow> transfer_within k e i write offset remaining cursor buffer w)))"

declare transfer_within.simps [simp del]

lemma extents_spanned_step:
  assumes "n \<noteq> 0"
  shows "extents_spanned offset n = Suc (extents_spanned (offset + transfer_chunk offset n) (n - transfer_chunk offset n))"
proof -
  let ?c = "transfer_chunk offset n" and ?m = "unat offset mod 4096"
  have c: "unat ?c = min (4096 - ?m) (unat n)" "unat (n - ?c) = unat n - unat ?c"
    by (simp_all add: unat_transfer_chunk unat_transfer_rest)
  have n: "0 < unat n" using assms by (simp add: word_nonzero_unat)
  show ?thesis
  proof (cases "unat n \<le> 4096 - ?m")
    case True
    then have "unat (n - ?c) = 0" using c by simp
    then have "n - ?c = 0" by (simp add: unat_eq_0)
    moreover have "(?m + unat n + 4095) div 4096 = 1" using True n by (simp add: div_nat_eqI)
    ultimately show ?thesis using assms by (simp add: extents_spanned_def)
  next
    case False
    then have rest: "unat (n - ?c) = unat n - (4096 - ?m)" using c by simp
    then have nz: "n - ?c \<noteq> 0" using False by auto
    have "unat (offset + ?c) mod 4096 = (unat offset + unat ?c) mod 4096"
      by (simp add: unat_word_ariths mod_mod_cancel)
    also have "\<dots> = (?m + unat ?c) mod 4096" by (rule mod_add_left_eq [symmetric])
    also have "?m + unat ?c = 4096" using False c(1) mod_less_divisor [of 4096 "unat offset"] by linarith
    finally have "unat (offset + ?c) mod 4096 = 0" by simp
    moreover have "(?m + unat n + 4095) div 4096 = Suc ((unat (n - ?c) + 4095) div 4096)"
    proof -
      have "?m + unat n + 4095 = 4096 + (unat (n - ?c) + 4095)" using False rest by simp
      moreover have "(4096 + k) div 4096 = Suc (k div 4096)" for k :: nat by simp
      ultimately show ?thesis by (simp only:)
    qed
    ultimately show ?thesis using assms nz unfolding extents_spanned_def by simp
  qed
qed

lemma extents_spanned_0 [simp]: "extents_spanned offset 0 = 0"
  by (simp add: extents_spanned_def)

text \<open>As many iterations as the range has extents are enough.\<close>

lemma transfer_within_enough:
  "transfer_within (extents_spanned offset n + k) e i write offset n cursor buffer w =
     Some (transfer_loop e i write offset n cursor buffer w)"
proof (induction e i "write" offset n cursor buffer w rule: transfer_loop.induct)
  case (1 e i "write" offset n cursor buffer w)
  show ?case
  proof (cases "n = 0")
    case False
    show ?thesis
    proof (cases "transfer_body e i write offset n cursor buffer w")
      case (Inl result)
      with False show ?thesis by (simp add: transfer_within.simps transfer_loop.simps extents_spanned_step [OF False])
    next
      case (Inr v)
      obtain offset' n' cursor' buffer' w' where v: "v = (offset', n', cursor', buffer', w')" by (cases v)
      have "extents_spanned offset n = Suc (extents_spanned offset' n')"
        using transfer_body_next [OF Inr [unfolded v]] extents_spanned_step [OF False] by simp
      with 1 [OF False Inr v [symmetric] refl refl refl] Inr False v show ?thesis
        by (simp add: transfer_within.simps [of "Suc _"] transfer_loop.simps [of e i "write" offset n])
    qed
  qed (simp add: transfer_within.simps transfer_loop.simps)
qed

text \<open>With fewer iterations the loop has not ended, unless an extent could not be allocated.\<close>

lemma transfer_within_fewer:
  assumes "k < extents_spanned offset n" and "transfer_within k e i write offset n cursor buffer w = Some result"
  shows "write \<and> fst result = -12"
  using assms
proof (induction k arbitrary: offset n cursor buffer w)
  case 0
  then show ?case by (auto simp: transfer_within.simps split: if_splits)
next
  case (Suc k)
  then have n: "n \<noteq> 0" by auto
  show ?case
  proof (cases "transfer_body e i write offset n cursor buffer w")
    case (Inl r)
    then have "write \<and> fst r = -12"
      by (auto simp: transfer_body_def Let_def split: if_splits prod.splits bool.splits)
    with Suc.prems(2) Inl n show ?thesis by (simp add: transfer_within.simps [of "Suc k"])
  next
    case (Inr v)
    obtain offset' n' cursor' buffer' w' where v: "v = (offset', n', cursor', buffer', w')" by (cases v)
    have "k < extents_spanned offset' n'"
      using transfer_body_next [OF Inr [unfolded v]] extents_spanned_step [OF n] Suc.prems(1) by simp
    moreover have "transfer_within k e i write offset' n' cursor' buffer' w' = Some result"
      using Suc.prems(2) Inr n v by (simp add: transfer_within.simps [of "Suc k"])
    ultimately show ?thesis by (rule Suc.IH)
  qed
qed

section \<open>The extents that a write creates\<close>

text \<open>The indices of the extents of a record, and those of a range of bytes.\<close>

definition extent_indices :: "kb_usb_storage_record \<Rightarrow> u64 set" where
  "extent_indices r = x_index ` set (us_extents r)"

definition touched :: "u64 \<Rightarrow> u64 \<Rightarrow> u64 set" where
  "touched offset n = (\<lambda>k. (offset + of_nat k) div 4096) ` {..<unat n}"

lemma touched_0 [simp]: "touched offset 0 = {}"
  by (simp add: touched_def)

lemma touched_step:
  assumes "n \<noteq> 0" and "unat offset + unat n < 2 ^ 64"
  shows "touched offset n = insert (offset div 4096) (touched (offset + transfer_chunk offset n) (n - transfer_chunk offset n))"
proof -
  let ?c = "transfer_chunk offset n"
  let ?f = "\<lambda>k. (offset + of_nat k) div 4096"
  have c: "0 < unat ?c" "unat ?c \<le> unat n" using transfer_chunk_pos [OF assms(1)] by (auto simp: unat_transfer_chunk)
  have "{..<unat n} = {..<unat ?c} \<union> (\<lambda>k. unat ?c + k) ` {..<unat n - unat ?c}"
  proof (intro set_eqI iffI)
    fix k assume "k \<in> {..<unat n}"
    then show "k \<in> {..<unat ?c} \<union> (\<lambda>k. unat ?c + k) ` {..<unat n - unat ?c}"
      by (cases "k < unat ?c") (auto intro!: image_eqI [of _ _ "k - unat ?c"])
  qed (use c in auto)
  then have "touched offset n = ?f ` {..<unat ?c} \<union> (\<lambda>k. ?f (unat ?c + k)) ` {..<unat n - unat ?c}"
    by (simp add: touched_def image_Un image_image)
  moreover have "?f ` {..<unat ?c} = {offset div 4096}"
    using c(1) chunk_addresses(1) [OF _ assms(2)] by (force simp: image_iff)
  moreover have "(\<lambda>k. ?f (unat ?c + k)) ` {..<unat n - unat ?c} = touched (offset + ?c) (n - ?c)"
    by (simp add: touched_def unat_transfer_rest add.assoc)
  ultimately show ?thesis by simp
qed

text \<open>What the allocator was asked for, and what became of it.\<close>

definition extents_grown :: "nat \<Rightarrow> u64 set \<Rightarrow> usb_storage \<Rightarrow> int \<Rightarrow> usb_storage \<Rightarrow> bool" where
  "extents_grown i T w result w' \<longleftrightarrow>
     (let old = extent_indices (record_of w i); new = extent_indices (record_of w' i) in
      old \<subseteq> new \<and> new \<subseteq> old \<union> T \<and> (result = 0 \<longrightarrow> T \<subseteq> new) \<and>
      us_backing_bytes (record_of w' i) = us_backing_bytes (record_of w i) + 4096 * of_nat (card (new - old)) \<and>
      allocations w' = allocations w + card (new - old) + (if result = 0 then 0 else 1))"

lemma finite_extent_indices [simp]: "finite (extent_indices r)"
  by (simp add: extent_indices_def)

lemma store_extent_indices [simp]:
  "extent_indices (r\<lparr>us_extents := store_extent j pos data (us_extents r)\<rparr>) = extent_indices r"
  by (simp add: extent_indices_def flip: set_map)

lemma ensure_extent_grown:
  assumes "storage_ensure_extent e i j w = (found, w')" and "i < length (storage_records w)"
  shows "extents_grown i {j} w (if found then 0 else -12) w'"
proof (cases "storage_find_extent (record_of w i) j")
  case None
  then have "j \<notin> extent_indices (record_of w i)" by (auto simp: extent_indices_def storage_find_extent_def find_None_iff)
  then have "insert j (extent_indices (record_of w i)) - extent_indices (record_of w i) = {j}" by blast
  with None assms show ?thesis
    by (auto simp: storage_ensure_extent_def usb_calloc_node_def on_record_def extents_grown_def Let_def extent_indices_def
        split: prod.splits bool.splits if_splits)
next
  case (Some x)
  then have "j \<in> extent_indices (record_of w i)" by (auto simp: extent_indices_def storage_find_extent_def find_Some_iff)
  with Some assms show ?thesis by (auto simp: storage_ensure_extent_def extents_grown_def Let_def)
qed

lemma extents_grown_trans:
  assumes a: "extents_grown i S w 0 w1" and b: "extents_grown i T w1 result w'"
  shows "extents_grown i (S \<union> T) w result w'"
proof -
  let ?a = "extent_indices (record_of w i)" and ?b = "extent_indices (record_of w1 i)" and ?c = "extent_indices (record_of w' i)"
  have sub: "?a \<subseteq> ?b" "?b \<subseteq> ?c" using a b by (simp_all add: extents_grown_def Let_def)
  then have "?c - ?a = (?b - ?a) \<union> (?c - ?b)" by blast
  then have "card (?c - ?a) = card (?b - ?a) + card (?c - ?b)" using sub by (simp add: card_Un_disjoint Diff_Int_distrib2 Int_Diff disjoint_iff)
  then show ?thesis using a b sub unfolding extents_grown_def Let_def by (auto simp: algebra_simps)
qed

lemma extents_grown_stored:
  "i < length (storage_records w') \<Longrightarrow> extents_grown i T w result
     (on_record i (\<lambda>r. r\<lparr>us_extents := store_extent j pos data (us_extents r)\<rparr>) w') = extents_grown i T w result w'"
  by (simp add: extents_grown_def on_record_def)

lemma transfer_loop_grown:
  assumes "transfer_loop e i True offset n cursor buffer w = (result, buffer', w')" and "i < length (storage_records w)"
    and "unat offset + unat n < 2 ^ 64"
  shows "extents_grown i (touched offset n) w result w'"
  using assms
proof (induction "unat n" arbitrary: offset n cursor w rule: less_induct)
  case less
  show ?case
  proof (cases "n = 0")
    case True
    with less.prems show ?thesis by (simp add: transfer_loop.simps extents_grown_def)
  next
    case False
    let ?c = "transfer_chunk offset n"
    have c: "0 < unat ?c" "unat ?c \<le> unat n" using transfer_chunk_pos [OF False] by (auto simp: unat_transfer_chunk)
    have rest: "unat (n - ?c) = unat n - unat ?c" by (rule unat_transfer_rest)
    have off: "unat (offset + ?c) = unat offset + unat ?c" using less.prems(3) c(2) by (intro unat_add_no_wrap) simp
    obtain found w1 where en: "storage_ensure_extent e i (offset div 4096) w = (found, w1)" by fastforce
    note grown = ensure_extent_grown [OF en less.prems(2)]
    note step = touched_step [OF False less.prems(3)]
    have i1: "i < length (storage_records w1)"
      using en less.prems(2) by (auto simp: storage_ensure_extent_def usb_calloc_node_def on_record_def split: option.splits prod.splits bool.splits)
    show ?thesis
    proof (cases found)
      case False
      then have "result = -12" "w' = w1" using less.prems(1) \<open>n \<noteq> 0\<close> en by (simp_all add: transfer_loop_write)
      with grown False show ?thesis unfolding step by (auto simp: extents_grown_def Let_def)
    next
      case True
      let ?w = "on_record i (\<lambda>r. r\<lparr>us_extents := store_extent (offset div 4096) (unat (offset mod 4096))
          (take (unat ?c) (drop cursor buffer)) (us_extents r)\<rparr>) w1"
      have "extents_grown i {offset div 4096} w 0 ?w" using grown True i1 by (simp add: extents_grown_stored)
      moreover have "extents_grown i (touched (offset + ?c) (n - ?c)) ?w result w'"
      proof (rule less.hyps)
        show "unat (n - ?c) < unat n" using c rest by simp
        show "transfer_loop e i True (offset + ?c) (n - ?c) (cursor + unat ?c) buffer ?w = (result, buffer', w')"
          using less.prems(1) \<open>n \<noteq> 0\<close> en True by (simp add: transfer_loop_write)
        show "i < length (storage_records ?w)" using i1 by (simp add: on_record_def)
        show "unat (offset + ?c) + unat (n - ?c) < 2 ^ 64" using less.prems(3) c off rest by simp
      qed
      ultimately show ?thesis unfolding step using extents_grown_trans by fastforce
    qed
  qed
qed

end
