(* ===== verification/Usb_Hub.thy ===== *)
theory Usb_Hub
  imports Usb
begin

text \<open>
  Hub events over time: sequences of status reports and commits, on any controllers, and which
  changes of a port count as new after them.
\<close>

section \<open>One event\<close>

lemma hcd_for_on_hcd:
  assumes "\<And>r. h_hcd (f r) = h_hcd r"
  shows "kb_usb_subsystem_hcd_for_hcd hcd (on_hcd hcd f s) = map_option f (kb_usb_subsystem_hcd_for_hcd hcd s)"
  using find_key_update [of h_hcd f hcd hcd, OF assms]
  by (auto simp: kb_usb_subsystem_hcd_for_hcd_def on_hcd_def split: option.split)

lemma hcd_for_on_other:
  assumes "\<And>r. h_hcd (f r) = h_hcd r" and "hcd' \<noteq> hcd"
  shows "kb_usb_subsystem_hcd_for_hcd hcd (on_hcd hcd' f s) = kb_usb_subsystem_hcd_for_hcd hcd s"
  using find_key_update [of h_hcd f hcd hcd', OF assms(1)] assms(2)
  by (auto simp: kb_usb_subsystem_hcd_for_hcd_def on_hcd_def split: option.split)

lemma hub_record_known:
  "kb_usb_subsystem_hcd_for_hcd hcd s = Some r \<Longrightarrow> hub_event_record_for_hcd e hcd s = (Some r, s)"
  by (simp add: hub_event_record_for_hcd_def)

lemma hub_record_other:
  assumes "hcd' \<noteq> hcd" and "hub_event_record_for_hcd e hcd' s = (x, t)"
  shows "kb_usb_subsystem_hcd_for_hcd hcd t = kb_usb_subsystem_hcd_for_hcd hcd s"
  using assms
  by (auto simp: hub_event_record_for_hcd_def Let_def kb_usb_subsystem_hcd_track_def kb_usb_subsystem_hcd_for_hcd_def
      run_storage_def find_key_Cons split: if_splits option.splits prod.splits)

lemma hcd_known_nonnull: "kb_usb_subsystem_hcd_for_hcd hcd s = Some r \<Longrightarrow> hcd \<noteq> NULL"
  by (auto simp: kb_usb_subsystem_hcd_for_hcd_def split: if_splits)

text \<open>The status report and the commit of a controller that has a record.\<close>

lemma hub_prepare_known:
  assumes "kb_usb_subsystem_hcd_for_hcd hcd s = Some r" and "bs \<noteq> []"
  shows "\<exists>v t. kb_usb_subsystem_hub_event_prepare e hcd (Some bs) s = (0, v, t) \<and>
    hu_new_bits v = hub_status_bits bs AND NOT (if hub_status_bits bs = 0 then 0 else h_hub_event_bits r) \<and>
    kb_usb_subsystem_hcd_for_hcd hcd t = Some (r\<lparr>h_hub_event_bits := (if hub_status_bits bs = 0 then 0 else h_hub_event_bits r)\<rparr>)"
  using hcd_for_on_hcd [of "\<lambda>r. r\<lparr>h_hub_event_bits := x\<rparr>" hcd s for x] assms hcd_known_nonnull [OF assms(1)]
  by (simp add: kb_usb_subsystem_hub_event_prepare_def hub_record_known [OF assms(1)] Let_def)

lemma hub_commit_known:
  assumes "kb_usb_subsystem_hcd_for_hcd hcd s = Some r"
  shows "\<exists>v t. kb_usb_subsystem_hub_event_commit e hcd bits u s = (0, v, t) \<and>
    kb_usb_subsystem_hcd_for_hcd hcd t = Some (r\<lparr>h_hub_event_bits := h_hub_event_bits r OR bits\<rparr>)"
  using hcd_for_on_hcd [of "\<lambda>r. r\<lparr>h_hub_event_bits := x\<rparr>" hcd s for x] assms hcd_known_nonnull [OF assms]
  by (simp add: kb_usb_subsystem_hub_event_commit_def hub_record_known [OF assms] Let_def)

lemma hub_prepare_other:
  assumes "hcd' \<noteq> hcd"
  shows "kb_usb_subsystem_hcd_for_hcd hcd (snd (snd (kb_usb_subsystem_hub_event_prepare e hcd' st s))) = kb_usb_subsystem_hcd_for_hcd hcd s"
proof -
  obtain x t where x: "hub_event_record_for_hcd e hcd' s = (x, t)" by fastforce
  show ?thesis
    using hub_record_other [OF assms x] hcd_for_on_other [OF _ assms, of "\<lambda>r. r\<lparr>h_hub_event_bits := y\<rparr>" t for y]
    by (auto simp: kb_usb_subsystem_hub_event_prepare_def x Let_def split: option.split)
qed

lemma hub_commit_other:
  assumes "hcd' \<noteq> hcd"
  shows "kb_usb_subsystem_hcd_for_hcd hcd (snd (snd (kb_usb_subsystem_hub_event_commit e hcd' bits u s))) = kb_usb_subsystem_hcd_for_hcd hcd s"
proof -
  obtain x t where x: "hub_event_record_for_hcd e hcd' s = (x, t)" by fastforce
  show ?thesis
    using hub_record_other [OF assms x] hcd_for_on_other [OF _ assms, of "\<lambda>r. r\<lparr>h_hub_event_bits := y\<rparr>" t for y]
    by (auto simp: kb_usb_subsystem_hub_event_commit_def x Let_def split: option.split)
qed

section \<open>Sequences of events\<close>

datatype hub_event = Hub_Status ptr bytes | Hub_Commit ptr u64

fun hub_apply :: "usb_env \<Rightarrow> hub_event \<Rightarrow> usb_state \<Rightarrow> usb_state" where
  "hub_apply e (Hub_Status hcd status) s = snd (snd (kb_usb_subsystem_hub_event_prepare e hcd (Some status) s))"
| "hub_apply e (Hub_Commit hcd bits) s = snd (snd (kb_usb_subsystem_hub_event_commit e hcd bits blank_hub_update s))"

text \<open>A status without any change clears what was committed for the controller.\<close>

fun clears :: "ptr \<Rightarrow> hub_event \<Rightarrow> bool" where
  "clears hcd (Hub_Status hcd' status) \<longleftrightarrow> hcd' = hcd \<and> status \<noteq> [] \<and> hub_status_bits status = 0"
| "clears hcd (Hub_Commit hcd' bits) \<longleftrightarrow> False"

fun commits :: "ptr \<Rightarrow> nat \<Rightarrow> hub_event \<Rightarrow> bool" where
  "commits hcd n (Hub_Status hcd' status) \<longleftrightarrow> False"
| "commits hcd n (Hub_Commit hcd' bits) \<longleftrightarrow> hcd' = hcd \<and> bit bits n"

text \<open>Bit \<open>n\<close> was committed, or set at the start, and no status without changes came after that.\<close>

definition reported :: "ptr \<Rightarrow> nat \<Rightarrow> bool \<Rightarrow> hub_event list \<Rightarrow> bool" where
  "reported hcd n before evs \<longleftrightarrow>
     (\<exists>pre ev post. evs = pre @ ev # post \<and> commits hcd n ev \<and> \<not> list_ex (clears hcd) post) \<or>
     before \<and> \<not> list_ex (clears hcd) evs"

lemma reported_Nil [simp]: "reported hcd n before [] = before"
  by (simp add: reported_def)

lemma reported_snoc:
  "reported hcd n before (evs @ [ev]) \<longleftrightarrow> commits hcd n ev \<or> reported hcd n before evs \<and> \<not> clears hcd ev"
proof -
  have "(\<exists>pre x post. evs @ [ev] = pre @ x # post \<and> commits hcd n x \<and> \<not> list_ex (clears hcd) post) \<longleftrightarrow>
    commits hcd n ev \<or> (\<exists>pre x post. evs = pre @ x # post \<and> commits hcd n x \<and> \<not> list_ex (clears hcd) post) \<and> \<not> clears hcd ev"
    (is "?l \<longleftrightarrow> ?r")
  proof
    assume ?l
    then obtain pre x post where 1: "evs @ [ev] = pre @ x # post" "commits hcd n x" "\<not> list_ex (clears hcd) post" by blast
    show ?r
    proof (cases post rule: rev_cases)
      case Nil
      with 1 show ?thesis by simp
    next
      case (snoc post' y)
      with 1 have "evs = pre @ x # post'" "y = ev" by (simp_all flip: append_Cons append_assoc)
      with 1 snoc show ?thesis by auto
    qed
  next
    assume ?r
    then show ?l
    proof (elim disjE conjE exE)
      assume "commits hcd n ev"
      then show ?l by (intro exI [of _ evs] exI [of _ ev] exI [of _ "[]"]) simp
    next
      fix pre x post assume "evs = pre @ x # post" "commits hcd n x" "\<not> list_ex (clears hcd) post" "\<not> clears hcd ev"
      then show ?l by (intro exI [of _ pre] exI [of _ x] exI [of _ "post @ [ev]"]) simp
    qed
  qed
  then show ?thesis unfolding reported_def by (cases ev) auto
qed

lemma hub_run_reported:
  assumes "kb_usb_subsystem_hcd_for_hcd hcd s = Some r"
  shows "\<exists>r'. kb_usb_subsystem_hcd_for_hcd hcd (fold (hub_apply e) evs s) = Some r' \<and>
    (\<forall>n. bit (h_hub_event_bits r') n = reported hcd n (bit (h_hub_event_bits r) n) evs)"
proof (induction evs rule: rev_induct)
  case Nil
  then show ?case using assms by simp
next
  case (snoc ev evs)
  let ?s = "fold (hub_apply e) evs s"
  from snoc obtain r' where r': "kb_usb_subsystem_hcd_for_hcd hcd ?s = Some r'"
    "\<And>n. bit (h_hub_event_bits r') n = reported hcd n (bit (h_hub_event_bits r) n) evs" by blast
  have "\<exists>r''. kb_usb_subsystem_hcd_for_hcd hcd (hub_apply e ev ?s) = Some r'' \<and>
    (\<forall>n. bit (h_hub_event_bits r'') n \<longleftrightarrow> commits hcd n ev \<or> bit (h_hub_event_bits r') n \<and> \<not> clears hcd ev)"
  proof (cases ev)
    case (Hub_Status hcd' bs)
    show ?thesis
    proof (cases "hcd' = hcd \<and> bs \<noteq> []")
      case True
      obtain v t where p: "kb_usb_subsystem_hub_event_prepare e hcd (Some bs) ?s = (0, v, t)" "kb_usb_subsystem_hcd_for_hcd hcd t =
          Some (r'\<lparr>h_hub_event_bits := (if hub_status_bits bs = 0 then 0 else h_hub_event_bits r')\<rparr>)"
        using hub_prepare_known [OF r'(1)] True by blast
      then show ?thesis using Hub_Status True by simp
    next
      case False
      then have "kb_usb_subsystem_hcd_for_hcd hcd (hub_apply e ev ?s) = Some r'"
        using hub_prepare_other [of hcd' hcd e "Some bs" ?s] r'(1)
        by (cases "hcd' = hcd") (simp_all add: Hub_Status kb_usb_subsystem_hub_event_prepare_def)
      then show ?thesis using Hub_Status False by auto
    qed
  next
    case (Hub_Commit hcd' bits)
    show ?thesis
    proof (cases "hcd' = hcd")
      case True
      obtain v t where p: "kb_usb_subsystem_hub_event_commit e hcd bits blank_hub_update ?s = (0, v, t)"
        "kb_usb_subsystem_hcd_for_hcd hcd t = Some (r'\<lparr>h_hub_event_bits := h_hub_event_bits r' OR bits\<rparr>)"
        using hub_commit_known [OF r'(1)] by blast
      then show ?thesis using Hub_Commit True by (auto simp: bit_simps)
    next
      case False
      then show ?thesis using hub_commit_other [of hcd' hcd e bits blank_hub_update ?s] r'(1) by (simp add: Hub_Commit)
    qed
  qed
  then show ?case by (simp add: reported_snoc r'(2))
qed

end
