(* ===== verification/Usb_Disk.thy ===== *)
theory Usb_Disk
  imports Usb_Medium Block_Properties
begin

text \<open>
  Reading and writing the disk of a mass-storage record through the block subsystem.  The locale
  \<open>byte_device\<close> is what the SCSI and the transport layer rely on; it is interpreted on the disk of a
  record.
\<close>

section \<open>The interface of a disk\<close>

text \<open>
  A device with a byte array: \<open>ready\<close> is its invariant, \<open>fits off n\<close> says that a range may be
  transferred.
\<close>

locale byte_device =
  fixes ready :: "'s \<Rightarrow> bool" and bytes_at :: "'s \<Rightarrow> u64 \<Rightarrow> u8" and fits :: "'s \<Rightarrow> u64 \<Rightarrow> nat \<Rightarrow> bool"
    and kept :: "'s \<Rightarrow> 's \<Rightarrow> bool"
    and rd :: "u64 \<Rightarrow> nat \<Rightarrow> 's \<Rightarrow> int \<times> bytes \<times> 's" and wr :: "u64 \<Rightarrow> bytes \<Rightarrow> 's \<Rightarrow> int \<times> 's"
  assumes fits_bound: "ready s \<Longrightarrow> fits s off n \<Longrightarrow> unat off + n < 2 ^ 64"
    and fits_kept: "kept s s' \<Longrightarrow> fits s' off n = fits s off n"
    and kept_trans: "kept s s' \<Longrightarrow> kept s' s'' \<Longrightarrow> kept s s''"
    and rd: "ready s \<Longrightarrow> fits s off n \<Longrightarrow> \<exists>s'. rd off n s = (0, stretch (bytes_at s) off n, s') \<and>
      ready s' \<and> kept s s' \<and> bytes_at s' = bytes_at s"
    and wr: "ready s \<Longrightarrow> fits s off (length bs) \<Longrightarrow> wr off bs s = (0, s') \<Longrightarrow>
      ready s' \<and> kept s s' \<and> bytes_at s' = overwrite off bs (bytes_at s)"
begin

lemma read_after_write:
  assumes "ready s" and "fits s off (length bs)" and "wr off bs s = (0, s')"
  shows "\<exists>s''. rd off (length bs) s' = (0, bs, s'') \<and> ready s'' \<and> kept s s'' \<and> bytes_at s'' = overwrite off bs (bytes_at s)"
proof -
  note w = wr [OF assms]
  have f: "fits s' off (length bs)" using fits_kept w assms(2) by blast
  obtain s'' where r: "rd off (length bs) s' = (0, stretch (bytes_at s') off (length bs), s'')"
    "ready s''" "kept s' s''" "bytes_at s'' = bytes_at s'" using rd [OF _ f] w by blast
  moreover have "stretch (bytes_at s') off (length bs) = bs"
    using w stretch_overwrite [of off bs "bytes_at s"] fits_bound [OF assms(1,2)] by simp
  ultimately show ?thesis using w kept_trans by metis
qed

lemma read_elsewhere:
  assumes "ready s" and "fits s off (length bs)" and "wr off bs s = (0, s')"
    and "fits s off' n" and "unat off' + n \<le> unat off \<or> unat off + length bs \<le> unat off'"
  shows "\<exists>s''. rd off' n s' = (0, stretch (bytes_at s) off' n, s'')"
proof -
  note w = wr [OF assms(1-3)]
  have "fits s' off' n" using fits_kept w assms(4) by blast
  moreover have "stretch (bytes_at s') off' n = stretch (bytes_at s) off' n"
    using w stretch_overwrite_other [OF _ assms(5)] fits_bound [OF assms(1,4)] by simp
  ultimately show ?thesis using rd w by metis
qed

end

section \<open>A record with its disk\<close>

text \<open>The members of a record that no transfer changes.\<close>

definition identity :: "kb_usb_storage_record \<Rightarrow> bool \<times> ptr \<times> ptr \<times> u32 \<times> u32 \<times> u64 \<times> u32 \<times> u32" where
  "identity r = (us_active r, us_interface r, us_disk r, us_disk_number r, us_sector_size r, us_capacity_sectors r,
     us_medium_present r, us_registered r)"

lemma identity_simps:
  assumes "identity r' = identity r"
  shows "us_active r' = us_active r" "us_interface r' = us_interface r" "us_disk r' = us_disk r"
    "us_disk_number r' = us_disk_number r" "us_sector_size r' = us_sector_size r"
    "us_capacity_sectors r' = us_capacity_sectors r" "us_medium_present r' = us_medium_present r"
    "us_registered r' = us_registered r"
  using assms by (simp_all add: identity_def)

definition serves :: "usb_env \<Rightarrow> nat \<Rightarrow> kb_usb_storage_record \<Rightarrow> usb_storage block_subsystem \<Rightarrow> usb_storage kb_block_disk_state \<Rightarrow> bool" where
  "serves e i r b d \<longleftrightarrow> d_dead d = 0 \<and> d_registered d \<noteq> 0 \<and> d_read_only d = 0 \<and>
     d_capacity_sectors d = us_capacity_sectors r \<and> d_io_ctx d = record_at e i \<and>
     d_read_fn d = Some (storage_block_read e) \<and> d_write_fn d = Some (storage_block_write e) \<and>
     d_write_flags_fn d = None \<and> disk_logical_block_size b (Some d) = 512"

abbreviation (input) unit_of :: "usb_state \<Rightarrow> nat \<Rightarrow> kb_usb_storage_record" where
  "unit_of s i \<equiv> record_of (storage s) i"

definition disk_ready :: "usb_env \<Rightarrow> nat \<Rightarrow> usb_state \<Rightarrow> bool" where
  "disk_ready e i s \<longleftrightarrow> i < KB_USB_STORAGE_MAX \<and> length (storage_records (storage s)) = KB_USB_STORAGE_MAX \<and>
     record_find_by_interface (storage s) (us_interface (unit_of s i)) = Some i \<and>
     us_sector_size (unit_of s i) = 512 \<and> us_medium_present (unit_of s i) \<noteq> 0 \<and> backing_ok (unit_of s i) \<and>
     (\<exists>d. disk_state_for (blocks s) (us_disk (unit_of s i)) = Some d \<and> serves e i (unit_of s i) (blocks s) d)"

text \<open>What stays: the identity of every record, everything of the other records, and the other disks.\<close>

definition device_kept :: "nat \<Rightarrow> usb_state \<Rightarrow> usb_state \<Rightarrow> bool" where
  "device_kept i s s' \<longleftrightarrow> map identity (storage_records (storage s')) = map identity (storage_records (storage s)) \<and>
     (\<forall>j. j \<noteq> i \<longrightarrow> unit_of s' j = unit_of s j) \<and> us_disk (unit_of s' i) = us_disk (unit_of s i) \<and>
     queues (blocks s') = queues (blocks s) \<and>
     (\<forall>disk. disk \<noteq> us_disk (unit_of s i) \<longrightarrow> disk_state_for (blocks s') disk = disk_state_for (blocks s) disk)"

lemma device_kept_refl [simp]: "device_kept i s s"
  by (simp add: device_kept_def)

lemma device_kept_trans: "device_kept i s s' \<Longrightarrow> device_kept i s' s'' \<Longrightarrow> device_kept i s s''"
  by (simp add: device_kept_def)

lemma device_kept_length: "device_kept i s s' \<Longrightarrow> length (storage_records (storage s')) = length (storage_records (storage s))"
  unfolding device_kept_def using map_eq_imp_length_eq by blast

lemma device_kept_identity:
  assumes "device_kept i s s'" and "j < length (storage_records (storage s))"
  shows "identity (unit_of s' j) = identity (unit_of s j)"
proof -
  have "map identity (storage_records (storage s')) ! j = map identity (storage_records (storage s)) ! j"
    using assms(1) by (simp add: device_kept_def)
  then show ?thesis using assms device_kept_length [OF assms(1)] by simp
qed

lemma first_record_cong:
  "list_all2 (\<lambda>r r'. (us_active r' \<and> P r') = (us_active r \<and> P r)) rs rs' \<Longrightarrow> first_record P rs' = first_record P rs"
  by (induction rule: list_all2_induct) auto

lemma device_kept_find:
  assumes "device_kept i s s'"
  shows "record_find_by_interface (storage s') interface = record_find_by_interface (storage s) interface"
proof -
  have "list_all2 (=) (map identity (storage_records (storage s))) (map identity (storage_records (storage s')))"
    using assms by (simp add: device_kept_def list.rel_eq)
  then have "list_all2 (\<lambda>r r'. identity r = identity r') (storage_records (storage s)) (storage_records (storage s'))"
    by (simp add: list_all2_map1 list_all2_map2)
  then have "list_all2 (\<lambda>r r'. (us_active r' \<and> us_interface r' = interface) = (us_active r \<and> us_interface r = interface))
      (storage_records (storage s)) (storage_records (storage s'))"
    by (rule list_all2_mono) (auto simp: identity_def)
  then show ?thesis by (simp add: record_find_by_interface_def first_record_cong)
qed

lemma device_kept_ready:
  assumes "device_kept i s s'" and "disk_ready e j s" and "j \<noteq> i" and "us_disk (unit_of s j) \<noteq> us_disk (unit_of s i)"
  shows "disk_ready e j s'"
proof -
  have q: "disk_logical_block_size (blocks s') d = disk_logical_block_size (blocks s) d" for d
    using assms(1) by (cases d) (simp_all add: device_kept_def disk_logical_block_size_def queue_state_for_def)
  have "unit_of s' j = unit_of s j" "disk_state_for (blocks s') (us_disk (unit_of s j)) = disk_state_for (blocks s) (us_disk (unit_of s j))"
    using assms by (simp_all add: device_kept_def)
  then show ?thesis
    using assms(2) device_kept_length [OF assms(1)] device_kept_find [OF assms(1)]
    by (simp add: disk_ready_def serves_def q)
qed

lemma ready_index:
  assumes "disk_ready e i s"
  shows "i < length (storage_records (storage s))" "record_index e (record_at e i) = i"
  using assms by (simp_all add: disk_ready_def)

section \<open>Transfers\<close>

lemma queue_state_for_on_disk [simp]: "queue_state_for (on_disk b disk f) queue = queue_state_for b queue"
  by (simp add: queue_state_for_def)

lemma logical_block_size_on_disk [simp]: "disk_logical_block_size (on_disk b disk f) d = disk_logical_block_size b d"
  by (cases d) (simp_all add: disk_logical_block_size_def)

lemma ready_update:
  assumes ready: "disk_ready e i s" and kept: "device_kept i s s'" and ok: "backing_ok (unit_of s' i)"
    and b: "blocks s' = on_disk (blocks s) (us_disk (unit_of s i)) f"
    and key: "\<And>d. d_disk (f d) = d_disk d" and same: "\<And>r b d. serves e i r b (f d) = serves e i r b d"
  shows "disk_ready e i s'"
proof -
  have i: "i < length (storage_records (storage s))" by (rule ready_index [OF ready])
  note id = identity_simps [OF device_kept_identity [OF kept i]]
  obtain d where d: "disk_state_for (blocks s) (us_disk (unit_of s i)) = Some d" "serves e i (unit_of s i) (blocks s) d"
    using ready by (auto simp: disk_ready_def)
  have "disk_state_for (blocks s') (us_disk (unit_of s' i)) = Some (f d)"
    using d(1) disk_state_for_on_disk [of f, OF key] by (simp add: b id)
  moreover have "serves e i (unit_of s' i) (blocks s') (f d)"
    using d(2) by (simp add: serves_def same [unfolded serves_def] b id)
  ultimately show ?thesis
    using ready ok device_kept_length [OF kept] device_kept_find [OF kept] by (simp add: disk_ready_def id)
qed

lemma on_disk_same: "on_disk b disk (\<lambda>d. d) = b"
  by (rule on_disk_id)

lemma backing_change_kept:
  assumes "backing_change i (storage s) w" and "i < length (storage_records (storage s))"
    and "\<And>r. identity (f r) = identity r" and "\<And>d. d_disk (g d) = d_disk d"
  shows "device_kept i s (s\<lparr>storage := on_record i f w, blocks := on_disk (blocks s) (us_disk (unit_of s i)) g\<rparr>)"
proof -
  from assms(1) obtain n xs bb where "w = (storage s)\<lparr>allocations := n, storage_records :=
    (storage_records (storage s))[i := (unit_of s i)\<lparr>us_extents := xs, us_backing_bytes := bb\<rparr>]\<rparr>"
    unfolding backing_change_def by blast
  then have "storage_records (on_record i f w) =
    (storage_records (storage s))[i := f ((unit_of s i)\<lparr>us_extents := xs, us_backing_bytes := bb\<rparr>)]"
    using assms(2) by (simp add: on_record_def)
  moreover have "identity (f ((unit_of s i)\<lparr>us_extents := xs, us_backing_bytes := bb\<rparr>)) = identity (unit_of s i)"
    using assms(3) by (simp add: identity_def)
  moreover have "us_disk (f ((unit_of s i)\<lparr>us_extents := xs, us_backing_bytes := bb\<rparr>)) = us_disk (unit_of s i)"
    using assms(3) by (simp add: identity_def)
  ultimately show ?thesis
    using assms(2) disk_state_for_on_disk [of g, OF assms(4)] by (simp add: device_kept_def map_update list_update_same_conv)
qed

text \<open>A range that the block subsystem accepts for the disk of a record.\<close>

definition unit_range :: "kb_usb_storage_record \<Rightarrow> u64 \<Rightarrow> u64 \<Rightarrow> bool" where
  "unit_range r sector n \<longleftrightarrow> n \<noteq> 0 \<and> unat n mod 512 = 0 \<and>
     unat sector * 512 + unat n \<le> unat (us_capacity_sectors r) * 512 \<and> unat (us_capacity_sectors r) * 512 < 2 ^ 64"

lemma unit_range_valid:
  assumes "serves e i r b d"
  shows "disk_io_range_valid b d sector n = 0 \<longleftrightarrow> unit_range r sector n"
  using assms by (auto simp: disk_io_range_valid_iff serves_def unit_range_def)

lemma unit_range_offset:
  assumes "unit_range r sector n"
  shows "unat (sector * 512) = unat sector * 512" "unat (sector * 512) + unat n < 2 ^ 64"
proof -
  show 1: "unat (sector * 512) = unat sector * 512"
    using assms unat_mult_no_wrap [of sector 512] by (simp add: unit_range_def)
  show "unat (sector * 512) + unat n < 2 ^ 64" using assms unfolding 1 unit_range_def by simp
qed

lemma unit_backing_change [simp]: "medium (f r) = medium r" if "us_extents (f r) = us_extents r" for f :: "kb_usb_storage_record \<Rightarrow> kb_usb_storage_record"
  using that by (simp add: medium_def storage_find_extent_def fun_eq_iff)

lemma disk_read_unit:
  assumes ready: "disk_ready e i s" and range: "unit_range (unit_of s i) sector n" and len: "unat n \<le> length buf"
  shows "\<exists>s'. disk_transfer False (us_disk (unit_of s i)) sector (Some buf) n s =
      (0, Some (splice 0 (stretch (medium (unit_of s i)) (sector * 512) (unat n)) buf), s') \<and>
    disk_ready e i s' \<and> device_kept i s s' \<and> medium (unit_of s' i) = medium (unit_of s i)"
proof -
  let ?f = "\<lambda>r. r\<lparr>us_read_count := us_read_count r + 1, us_bytes_read := us_bytes_read r + n\<rparr>"
  let ?g = "\<lambda>d. d\<lparr>d_read_count := d_read_count d + 1, d_bytes_read := d_bytes_read d + n\<rparr>"
  let ?s = "s\<lparr>storage := on_record i ?f (storage s), blocks := on_disk (blocks s) (us_disk (unit_of s i)) ?g\<rparr>"
  note i = ready_index [OF ready]
  obtain d where d: "disk_state_for (blocks s) (us_disk (unit_of s i)) = Some d" "serves e i (unit_of s i) (blocks s) d"
    using ready by (auto simp: disk_ready_def)
  have ok: "backing_ok (unit_of s i)" "us_sector_size (unit_of s i) = 512" using ready by (simp_all add: disk_ready_def)
  have "storage_backing_transfer e i sector (Some buf) n False (storage s) =
      (0, Some (splice 0 (stretch (medium (unit_of s i)) (sector * 512) (unat n)) buf), storage s)"
    using transfer_read [OF ok(1) unit_range_offset(2) [OF range], of 0 buf e] len range
    by (simp add: storage_backing_transfer_def ok(2) unit_range_def)
  then have run: "disk_transfer False (us_disk (unit_of s i)) sector (Some buf) n s =
      (0, Some (splice 0 (stretch (medium (unit_of s i)) (sector * 512) (unat n)) buf), ?s)"
    using d range unit_range_valid [OF d(2)] i
    by (simp add: disk_transfer_def kb_block_subsystem_disk_read_def serves_def storage_block_read_def)
  have kept: "device_kept i s ?s"
    by (rule backing_change_kept [OF backing_change_refl i(1)]) (simp_all add: identity_def)
  have "backing_ok (unit_of ?s i)" using ok i by (simp add: on_record_def backing_ok_def)
  then have "disk_ready e i ?s"
    by (rule ready_update [OF ready kept, where f = ?g]) (simp_all add: serves_def disk_logical_block_size_def)
  moreover have "medium (unit_of ?s i) = medium (unit_of s i)" using i by (simp add: on_record_def)
  ultimately show ?thesis using run kept by blast
qed

lemma disk_write_unit:
  assumes ready: "disk_ready e i s" and range: "unit_range (unit_of s i) sector n" and len: "unat n \<le> length buf"
  shows "\<exists>result s' k. disk_transfer True (us_disk (unit_of s i)) sector (Some buf) n s = (result, Some buf, s') \<and>
    disk_ready e i s' \<and> device_kept i s s' \<and> k \<le> unat n \<and>
    medium (unit_of s' i) = overwrite (sector * 512) (take k buf) (medium (unit_of s i)) \<and>
    (result = 0 \<and> k = unat n \<or> result = -12 \<and> (\<exists>m. e_calloc e m = NULL))"
proof -
  let ?f = "\<lambda>r. r\<lparr>us_write_count := us_write_count r + 1, us_bytes_written := us_bytes_written r + n\<rparr>"
  let ?g = "\<lambda>d. d\<lparr>d_write_count := d_write_count d + 1, d_bytes_written := d_bytes_written d + n\<rparr>"
  note i = ready_index [OF ready]
  obtain d where d: "disk_state_for (blocks s) (us_disk (unit_of s i)) = Some d" "serves e i (unit_of s i) (blocks s) d"
    using ready by (auto simp: disk_ready_def)
  have ok: "backing_ok (unit_of s i)" "us_sector_size (unit_of s i) = 512" using ready by (simp_all add: disk_ready_def)
  obtain result w where tr: "transfer_loop e i True (sector * 512) n 0 buf (storage s) = (result, buf, w)"
    and wr: "written e i (sector * 512) (take (unat n) (drop 0 buf)) (storage s) result w"
    using transfer_write [OF ok(1) i(1) unit_range_offset(2) [OF range], of 0 buf e] len by auto
  define f :: "kb_usb_storage_record \<Rightarrow> kb_usb_storage_record" where "f = (if result = 0 then ?f else (\<lambda>r. r))"
  define g :: "usb_storage kb_block_disk_state \<Rightarrow> usb_storage kb_block_disk_state" where "g = (if result = 0 then ?g else (\<lambda>d. d))"
  let ?s = "s\<lparr>storage := on_record i f w, blocks := on_disk (blocks s) (us_disk (unit_of s i)) g\<rparr>"
  have w: "backing_change i (storage s) w" "backing_ok (record_of w i)" using wr by (simp_all add: written_def)
  have iw: "i < length (storage_records w)" using backing_change_length [OF w(1)] i by simp
  have "storage_backing_transfer e i sector (Some buf) n True (storage s) = (result, Some buf, w)"
    using tr range by (simp add: storage_backing_transfer_def ok(2) unit_range_def)
  then have run: "disk_transfer True (us_disk (unit_of s i)) sector (Some buf) n s = (result, Some buf, ?s)"
    using d range unit_range_valid [OF d(2)] i
    by (simp add: disk_transfer_def kb_block_subsystem_disk_write_def kb_block_subsystem_disk_write_flags_def serves_def
        storage_block_write_def f_def g_def on_disk_same on_record_def)
  have kept: "device_kept i s ?s"
    by (rule backing_change_kept [OF w(1) i(1)]) (simp_all add: identity_def f_def g_def)
  have "backing_ok (unit_of ?s i)" using w(2) iw by (simp add: on_record_def backing_ok_def f_def)
  then have "disk_ready e i ?s"
    by (rule ready_update [OF ready kept, where f = g]) (simp_all add: serves_def disk_logical_block_size_def g_def)
  moreover have "medium (unit_of ?s i) = medium (record_of w i)" using iw by (simp add: on_record_def f_def)
  moreover obtain k where k: "k \<le> unat n" "medium (record_of w i) = overwrite (sector * 512) (take k buf) (medium (unit_of s i))"
    "result = 0 \<and> k = unat n \<or> result = -12 \<and> (\<exists>m. e_calloc e m = NULL)"
  proof -
    from wr obtain k where "k \<le> length (take (unat n) (drop 0 buf))"
      "medium (record_of w i) = overwrite (sector * 512) (take k (take (unat n) (drop 0 buf))) (medium (unit_of s i))"
      "result = 0 \<and> k = length (take (unat n) (drop 0 buf)) \<or> result = -12 \<and> (\<exists>m. e_calloc e m = NULL)"
      unfolding written_def by blast
    moreover have "length (take (unat n) (drop 0 buf)) = unat n" using len by simp
    ultimately show ?thesis using that [of k] by (simp add: min_absorb1)
  qed
  ultimately show ?thesis using run kept by metis
qed

lemma ready_on_record:
  assumes "disk_ready e i s" and "\<And>r. identity (f r) = identity r"
    and "\<And>r. us_extents (f r) = us_extents r" and "\<And>r. us_backing_bytes (f r) = us_backing_bytes r"
  shows "disk_ready e i (on_storage (on_record i f) s)" "device_kept i s (on_storage (on_record i f) s)"
    "medium (unit_of (on_storage (on_record i f) s) i) = medium (unit_of s i)"
proof -
  let ?s = "on_storage (on_record i f) s"
  note i = ready_index [OF assms(1)]
  have s': "?s = s\<lparr>storage := on_record i f (storage s), blocks := blocks s\<rparr>" by (simp add: on_storage_def)
  have u: "unit_of ?s i = f (unit_of s i)" using i by (simp add: on_storage_def on_record_def)
  show kept: "device_kept i s ?s"
    using backing_change_kept [OF backing_change_refl i(1) assms(2), of "\<lambda>d. d"] unfolding s' on_disk_same by simp
  have "backing_ok (unit_of ?s i)" using assms(1) by (simp add: u disk_ready_def backing_ok_def assms(3,4))
  then show "disk_ready e i ?s"
    by (rule ready_update [OF assms(1) kept, where f = "\<lambda>d. d"]) (simp_all add: on_disk_same on_storage_def)
  show "medium (unit_of ?s i) = medium (unit_of s i)" by (simp add: u assms(3))
qed

section \<open>The disk of a record is a byte device\<close>

definition unit_read :: "nat \<Rightarrow> u64 \<Rightarrow> nat \<Rightarrow> usb_state \<Rightarrow> int \<times> bytes \<times> usb_state" where
  "unit_read i off n s = (case disk_transfer False (us_disk (unit_of s i)) (off div 512) (Some (replicate n 0)) (of_nat n) s of
     (result, buffer, s) \<Rightarrow> (result, case buffer of Some content \<Rightarrow> content | None \<Rightarrow> [], s))"

definition unit_write :: "nat \<Rightarrow> u64 \<Rightarrow> bytes \<Rightarrow> usb_state \<Rightarrow> int \<times> usb_state" where
  "unit_write i off bs s = (case disk_transfer True (us_disk (unit_of s i)) (off div 512) (Some bs) (of_nat (length bs)) s of
     (result, buffer, s) \<Rightarrow> (result, s))"

definition unit_fits :: "nat \<Rightarrow> usb_state \<Rightarrow> u64 \<Rightarrow> nat \<Rightarrow> bool" where
  "unit_fits i s off n \<longleftrightarrow> unat off mod 512 = 0 \<and> n < 2 ^ 64 \<and> unit_range (unit_of s i) (off div 512) (of_nat n)"

definition unit_kept :: "nat \<Rightarrow> usb_state \<Rightarrow> usb_state \<Rightarrow> bool" where
  "unit_kept i s s' \<longleftrightarrow> device_kept i s s' \<and> us_capacity_sectors (unit_of s' i) = us_capacity_sectors (unit_of s i)"

lemma device_unit_kept: "disk_ready e i s \<Longrightarrow> device_kept i s s' \<Longrightarrow> unit_kept i s s'"
  unfolding unit_kept_def using identity_simps(6) [OF device_kept_identity] ready_index(1) by blast

lemma sector_of_offset: "unat off mod 512 = 0 \<Longrightarrow> off div 512 * 512 = (off :: u64)"
proof -
  assume "unat off mod 512 = 0"
  then have "unat (off div 512) * 512 = unat off" by (simp add: unat_div mod_eq_0_iff_dvd)
  moreover have "unat (off div 512 * 512) = unat (off div 512) * 512"
    using unat_mult_no_wrap [of "off div 512" 512] calculation unat_u64_bound [of off] by simp
  ultimately show ?thesis by (simp add: word_unat_eq_iff)
qed

interpretation disk: byte_device "disk_ready e i" "\<lambda>s. medium (unit_of s i)" "unit_fits i" "unit_kept i" "unit_read i" "unit_write i"
  for e i
proof
  fix s s' s'' off n bs
  show "unat off + n < 2 ^ 64" if "unit_fits i s off n"
    using that unit_range_offset(2) [of "unit_of s i" "off div 512" "of_nat n"]
    by (simp add: unit_fits_def sector_of_offset unat_of_nat)
  show "unit_fits i s' off n = unit_fits i s off n" if "unit_kept i s s'"
    using that by (simp add: unit_fits_def unit_kept_def unit_range_def)
  show "unit_kept i s s''" if "unit_kept i s s'" "unit_kept i s' s''"
    using that device_kept_trans by (auto simp: unit_kept_def)
  show "\<exists>s'. unit_read i off n s = (0, stretch (medium (unit_of s i)) off n, s') \<and> disk_ready e i s' \<and> unit_kept i s s' \<and>
      medium (unit_of s' i) = medium (unit_of s i)" if r: "disk_ready e i s" and f: "unit_fits i s off n"
  proof -
    have n: "unat (of_nat n :: u64) = n" using f by (simp add: unit_fits_def unat_of_nat)
    obtain s' where "disk_transfer False (us_disk (unit_of s i)) (off div 512) (Some (replicate n 0)) (of_nat n) s =
        (0, Some (splice 0 (stretch (medium (unit_of s i)) off n) (replicate n 0)), s')"
      "disk_ready e i s'" "device_kept i s s'" "medium (unit_of s' i) = medium (unit_of s i)"
      using disk_read_unit [OF r, of "off div 512" "of_nat n" "replicate n 0"] f
      by (auto simp: unit_fits_def n sector_of_offset)
    then show ?thesis using device_unit_kept [OF r] by (simp add: unit_read_def splice_all)
  qed
  show "disk_ready e i s' \<and> unit_kept i s s' \<and> medium (unit_of s' i) = overwrite off bs (medium (unit_of s i))"
    if r: "disk_ready e i s" and f: "unit_fits i s off (length bs)" and w: "unit_write i off bs s = (0, s')"
  proof -
    have n: "unat (of_nat (length bs) :: u64) = length bs" using f by (simp add: unit_fits_def unat_of_nat)
    obtain result s1 k where "disk_transfer True (us_disk (unit_of s i)) (off div 512) (Some bs) (of_nat (length bs)) s = (result, Some bs, s1)"
      "disk_ready e i s1" "device_kept i s s1" "medium (unit_of s1 i) = overwrite off (take k bs) (medium (unit_of s i))"
      "result = 0 \<and> k = length bs \<or> result = -12"
      using disk_write_unit [OF r, of "off div 512" "of_nat (length bs)" bs] f
      by (auto simp: unit_fits_def n sector_of_offset)
    then show ?thesis using w device_unit_kept [OF r] by (auto simp: unit_write_def)
  qed
qed

end
