(* ===== verification/Usb_Invariant.thy ===== *)
theory Usb_Invariant
  imports Usb_Disk "HOL-Library.Multiset"
begin

text \<open>
  The invariant of the USB subsystem: every record of the mass-storage part is consistent, its disk is
  registered with the block subsystem and served by the record's callbacks, interfaces are unique, and
  no block of memory has two owners.
\<close>

section \<open>The invariant\<close>

definition record_ptrs :: "kb_usb_storage_record \<Rightarrow> ptr multiset" where
  "record_ptrs r = filter_mset (\<lambda>p. p \<noteq> NULL) {#us_disk r, us_queue r, us_part0 r, us_tag_set r#}"

definition disk_ptrs :: "kb_usb_storage_record \<Rightarrow> ptr multiset" where
  "disk_ptrs r = filter_mset (\<lambda>p. p \<noteq> NULL) {#us_disk r, us_queue r#}"

text \<open>The objects that the block subsystem has a state for.\<close>

definition block_keys :: "usb_storage block_subsystem \<Rightarrow> ptr multiset" where
  "block_keys b = mset (map d_disk (disks b)) + mset (map q_queue (queues b))"

definition hcd_ptrs :: "kb_usb_hcd_record \<Rightarrow> ptr multiset" where
  "hcd_ptrs h = (if h_owns_storage h then {#h_at h, h_hcd h#} else {#h_at h#})"

definition owned :: "usb_state \<Rightarrow> ptr multiset" where
  "owned s = sum_list (map record_ptrs (storage_records (storage s))) + sum_list (map hcd_ptrs (usb_hcd_records s))"

definition unit_ok :: "usb_env \<Rightarrow> nat \<Rightarrow> kb_usb_storage_record \<Rightarrow> usb_storage block_subsystem \<Rightarrow> bool" where
  "unit_ok e i r b \<longleftrightarrow>
     (if us_active r then us_interface r \<noteq> NULL \<and> us_sector_size r = 512 \<and> us_medium_present r = 1 \<and>
        us_capacity_sectors r = default_capacity_sectors e \<and> backing_ok r \<and>
        (if us_disk r = NULL then us_queue r = NULL \<and> us_part0 r = NULL \<and> us_tag_set r = NULL \<and> us_registered r = 0
         else us_registered r = 1 \<and> us_queue r \<noteq> NULL \<and>
           (\<exists>d. disk_state_for b (us_disk r) = Some d \<and> serves e i r b d \<and> d_queue d = us_queue r))
      else r = zero_storage_record)"

definition usb_ok :: "usb_env \<Rightarrow> usb_state \<Rightarrow> bool" where
  "usb_ok e s \<longleftrightarrow> length (storage_records (storage s)) = KB_USB_STORAGE_MAX \<and>
     (\<forall>i < KB_USB_STORAGE_MAX. unit_ok e i (unit_of s i) (blocks s)) \<and>
     (\<forall>i < KB_USB_STORAGE_MAX. \<forall>j < KB_USB_STORAGE_MAX. us_active (unit_of s i) \<longrightarrow> us_active (unit_of s j) \<longrightarrow>
        us_interface (unit_of s i) = us_interface (unit_of s j) \<longrightarrow> i = j) \<and>
     distinct (live (storage s)) \<and> NULL \<notin> set (live (storage s)) \<and> owned s \<subseteq># mset (live (storage s)) \<and>
     block_keys (blocks s) \<subseteq># sum_list (map disk_ptrs (storage_records (storage s)))"

lemma record_ptrs_zero [simp]: "record_ptrs zero_storage_record = {#}" "disk_ptrs zero_storage_record = {#}"
  by (simp_all add: record_ptrs_def disk_ptrs_def zero_storage_record_def)

lemma set_record_ptrs: "set_mset (record_ptrs r) = {us_disk r, us_queue r, us_part0 r, us_tag_set r} - {NULL}"
  unfolding record_ptrs_def set_mset_filter by auto

lemma zero_record [simp]: "\<not> us_active zero_storage_record" "us_disk zero_storage_record = NULL"
  by (simp_all add: zero_storage_record_def)

lemma sum_list_replicate_zero [simp]: "sum_list (replicate n (0 :: 'a :: monoid_add)) = 0"
  by (induction n) simp_all

lemma usb_initial_ok: "usb_ok e usb_initial"
  by (simp add: usb_ok_def usb_initial_def unit_ok_def owned_def block_initial_def block_keys_def)

lemma first_record_unique:
  assumes "i < length rs" and "us_active (rs ! i) \<and> P (rs ! i)"
    and "\<And>j. j < length rs \<Longrightarrow> us_active (rs ! j) \<and> P (rs ! j) \<Longrightarrow> j = i"
  shows "first_record P rs = Some i"
  using assms
proof (induction rs arbitrary: i)
  case (Cons r rs)
  show ?case
  proof (cases i)
    case 0
    then show ?thesis using Cons.prems(2) by simp
  next
    case (Suc k)
    have "\<not> (us_active r \<and> P r)" using Cons.prems(3) [of 0] Suc by auto
    moreover have "first_record P rs = Some k"
    proof (rule Cons.IH)
      show "k < length rs" "us_active (rs ! k) \<and> P (rs ! k)" using Cons.prems(1,2) Suc by simp_all
      show "j = k" if "j < length rs" "us_active (rs ! j) \<and> P (rs ! j)" for j
        using Cons.prems(3) [of "Suc j"] that Suc by simp
    qed
    ultimately show ?thesis using Suc by simp
  qed
qed simp

lemma first_record_Some:
  "first_record P rs = Some i \<Longrightarrow> i < length rs \<and> us_active (rs ! i) \<and> P (rs ! i)"
  by (induction rs arbitrary: i) (auto split: if_splits)

lemma first_inactive_Some: "first_inactive rs = Some i \<Longrightarrow> i < length rs \<and> \<not> us_active (rs ! i)"
  by (induction rs arbitrary: i) (auto split: if_splits)

lemma usb_ok_find:
  assumes "usb_ok e s" and "i < KB_USB_STORAGE_MAX" and "us_active (unit_of s i)"
  shows "record_find_by_interface (storage s) (us_interface (unit_of s i)) = Some i"
proof -
  have "us_interface (unit_of s i) \<noteq> NULL" using assms by (auto simp: usb_ok_def unit_ok_def)
  moreover have "first_record (\<lambda>r. us_interface r = us_interface (unit_of s i)) (storage_records (storage s)) = Some i"
    using assms by (intro first_record_unique) (auto simp: usb_ok_def)
  ultimately show ?thesis by (simp add: record_find_by_interface_def)
qed

lemma usb_ok_ready:
  assumes "usb_ok e s" and "i < KB_USB_STORAGE_MAX" and "us_disk (unit_of s i) \<noteq> NULL"
  shows "disk_ready e i s" "us_capacity_sectors (unit_of s i) = default_capacity_sectors e" "us_active (unit_of s i)"
proof -
  have u: "unit_ok e i (unit_of s i) (blocks s)" and len: "length (storage_records (storage s)) = 32"
    using assms by (simp_all add: usb_ok_def)
  show a: "us_active (unit_of s i)" using u assms(3) by (auto simp: unit_ok_def zero_storage_record_def split: if_splits)
  show "us_capacity_sectors (unit_of s i) = default_capacity_sectors e" using u a by (simp add: unit_ok_def)
  show "disk_ready e i s"
    using u a assms(2,3) len usb_ok_find [OF assms(1,2) a] by (auto simp: disk_ready_def unit_ok_def)
qed

section \<open>Changes of a record\<close>

definition core :: "kb_usb_storage_record \<Rightarrow>
    (bool \<times> ptr \<times> ptr \<times> u32 \<times> u32 \<times> u64 \<times> u32 \<times> u32) \<times> ptr \<times> ptr \<times> ptr" where
  "core r = (identity r, us_queue r, us_part0 r, us_tag_set r)"

lemma sum_list_update:
  assumes "i < length xs"
  shows "sum_list (map f (xs[i := y])) + f (xs ! i) = sum_list (map f xs) + (f y :: 'a multiset)"
  using assms by (induction xs arbitrary: i) (auto split: nat.split)

lemma record_ptrs_core: "core r = core r' \<Longrightarrow> record_ptrs r = record_ptrs r' \<and> disk_ptrs r = disk_ptrs r'"
  by (simp add: core_def record_ptrs_def disk_ptrs_def identity_def)

lemma unit_ok_core:
  assumes "core r' = core r" and "backing_ok r'" and "us_active r" and "unit_ok e i r b"
  shows "unit_ok e i r' b"
  using assms by (auto simp: unit_ok_def core_def identity_def serves_def split: if_splits)

text \<open>A record changes together with the blocks of memory and the disks of the block subsystem.\<close>

lemma usb_ok_change:
  assumes ok: "usb_ok e s" and i: "i < KB_USB_STORAGE_MAX"
    and rs: "storage_records (storage t) = (storage_records (storage s))[i := r]"
    and u: "unit_ok e i r (blocks t)"
    and new: "\<And>j. us_active r \<Longrightarrow> j < KB_USB_STORAGE_MAX \<Longrightarrow> j \<noteq> i \<Longrightarrow> us_active (unit_of s j) \<Longrightarrow>
      us_interface (unit_of s j) \<noteq> us_interface r"
    and others: "\<And>j. j < KB_USB_STORAGE_MAX \<Longrightarrow> j \<noteq> i \<Longrightarrow> unit_ok e j (unit_of s j) (blocks t)"
    and l: "distinct (live (storage t))" "NULL \<notin> set (live (storage t))"
    and own: "owned t \<subseteq># mset (live (storage t))"
    and keys: "block_keys (blocks t) \<subseteq># sum_list (map disk_ptrs (storage_records (storage t)))"
  shows "usb_ok e t"
proof -
  have len: "length (storage_records (storage s)) = 32" using ok by (simp add: usb_ok_def)
  have r: "unit_of t j = (if j = i then r else unit_of s j)" for j
    using len i rs by simp
  have un: "j = k" if "j < 32" "k < 32" "us_active (unit_of s j)" "us_active (unit_of s k)"
      "us_interface (unit_of s j) = us_interface (unit_of s k)" for j k
    using ok that unfolding usb_ok_def by blast
  have "j = k" if "j < 32" "k < 32" "us_active (unit_of t j)" "us_active (unit_of t k)"
      "us_interface (unit_of t j) = us_interface (unit_of t k)" for j k
    using that un [of j k] new [of j] new [of k] unfolding r by (auto split: if_splits)
  moreover have "unit_ok e j (unit_of t j) (blocks t)" if "j < 32" for j
    using u others [of j] that unfolding r by auto
  moreover have "length (storage_records (storage t)) = 32" using len rs by simp
  ultimately show ?thesis unfolding usb_ok_def using l own keys by blast
qed

lemma owned_update:
  assumes "storage_records (storage t) = (storage_records (storage s))[i := r]" and "i < length (storage_records (storage s))"
    and "usb_hcd_records t = usb_hcd_records s"
  shows "owned t + record_ptrs (unit_of s i) = owned s + record_ptrs r"
    "sum_list (map disk_ptrs (storage_records (storage t))) + disk_ptrs (unit_of s i) =
       sum_list (map disk_ptrs (storage_records (storage s))) + disk_ptrs r"
  using sum_list_update [OF assms(2), of record_ptrs r] sum_list_update [OF assms(2), of disk_ptrs r]
  by (simp_all add: owned_def assms(1,3) ac_simps)

lemma usb_ok_unique:
  assumes "usb_ok e s" and "i < KB_USB_STORAGE_MAX" "us_active (unit_of s i)"
    and "j < KB_USB_STORAGE_MAX" "j \<noteq> i" "us_active (unit_of s j)"
  shows "us_interface (unit_of s j) \<noteq> us_interface (unit_of s i)"
  using assms unfolding usb_ok_def by blast

section \<open>Allocation\<close>

text \<open>The state after \<open>k\<close> more allocations of which \<open>ps\<close> are live, most recent first.\<close>

definition grown :: "nat \<Rightarrow> ptr list \<Rightarrow> usb_state \<Rightarrow> usb_state" where
  "grown n ps s = s\<lparr>storage := (storage s)\<lparr>allocations := n, live := ps @ live (storage s)\<rparr>\<rparr>"

abbreviation (input) given :: "ptr \<Rightarrow> ptr list" where
  "given p \<equiv> (if p = NULL then [] else [p])"

lemma grown_simps [simp]:
  "storage_records (storage (grown n ps s)) = storage_records (storage s)" "live (storage (grown n ps s)) = ps @ live (storage s)"
  "blocks (grown n ps s) = blocks s" "usb_hcd_records (grown n ps s) = usb_hcd_records s"
  "grown m qs (grown n ps s) = grown m (qs @ ps) s" "(grown n ps s)\<lparr>blocks := b\<rparr> = grown n ps (s\<lparr>blocks := b\<rparr>)"
  "storage_driver_registered (storage (grown n ps s)) = storage_driver_registered (storage s)"
  by (simp_all add: grown_def)

lemma calloc_grown:
  assumes "run_storage (usb_calloc e) s = (p, s')"
  shows "\<exists>n. s' = grown n (given p) s" "p \<notin> set (live (storage s)) \<or> p = NULL"
  using assms by (auto simp: run_storage_def usb_calloc_def grown_def Let_def split: if_splits)

lemma filter_fresh: "p \<notin> set xs \<Longrightarrow> filter (\<lambda>q. q \<noteq> p) xs = xs"
  by (induction xs) auto

lemma queue_alloc_grown:
  assumes "queue_alloc e tag s = (p, s')"
  shows "s' = grown (allocations (storage s')) (given p)
      (if p = NULL then s else on_blocks (\<lambda>b. b\<lparr>queues := new_queue p tag # queues b\<rparr>) s)"
    "p \<notin> set (live (storage s)) \<or> p = NULL"
  using assms unfolding queue_alloc_def object_alloc_def
  by (auto simp: run_storage_def usb_calloc_def usb_calloc_node_def run_blocks_def kb_block_subsystem_queue_alloc_def
      queue_state_create_def grown_def on_storage_def on_blocks_def usb_free_def filter_fresh Let_def
      intro!: usb_state.equality usb_storage.equality split: if_splits)

lemma disk_alloc_grown:
  assumes "disk_alloc e s = (p, s')"
  shows "s' = grown (allocations (storage s')) (given p) (if p = NULL then s else
      on_blocks (\<lambda>b. b\<lparr>disks := new_disk p (next_disk_number b) # disks b, next_disk_number := next_disk_number b + 1\<rparr>) s)"
    "p \<notin> set (live (storage s)) \<or> p = NULL"
  using assms unfolding disk_alloc_def object_alloc_def
  by (auto simp: run_storage_def usb_calloc_def usb_calloc_node_def run_blocks_def kb_block_subsystem_disk_alloc_def
      disk_state_create_def grown_def on_storage_def on_blocks_def usb_free_def filter_fresh Let_def
      intro!: usb_state.equality usb_storage.equality split: if_splits)

section \<open>The disk of a record\<close>

lemma remove_key_absent: "k \<notin> key ` set xs \<Longrightarrow> remove_key key k xs = xs"
  by (induction xs) auto

lemma usb_ok_block_keys:
  assumes "usb_ok e s"
  shows "block_keys (blocks s) \<subseteq># mset (live (storage s))"
proof -
  have le: "disk_ptrs r \<subseteq># record_ptrs r" for r
    by (simp add: disk_ptrs_def record_ptrs_def)
  have "sum_list (map disk_ptrs rs) \<subseteq># sum_list (map record_ptrs rs)" for rs
    by (induction rs) (simp_all add: le subset_mset.add_mono)
  then show ?thesis
    using assms unfolding usb_ok_def owned_def
    by (meson mset_subset_eq_add_left subset_mset.order_trans)
qed

lemma usb_ok_keys:
  assumes "usb_ok e s"
  shows "d_disk ` set (disks (blocks s)) \<subseteq> set (live (storage s))" "q_queue ` set (queues (blocks s)) \<subseteq> set (live (storage s))"
    "distinct (live (storage s))" "NULL \<notin> set (live (storage s))" "length (storage_records (storage s)) = KB_USB_STORAGE_MAX"
proof -
  have "set_mset (block_keys (blocks s)) \<subseteq> set (live (storage s))"
    using set_mset_mono [OF usb_ok_block_keys [OF assms]] by simp
  then show "d_disk ` set (disks (blocks s)) \<subseteq> set (live (storage s))" "q_queue ` set (queues (blocks s)) \<subseteq> set (live (storage s))"
    by (auto simp: block_keys_def)
  show "distinct (live (storage s))" "NULL \<notin> set (live (storage s))" "length (storage_records (storage s)) = 32"
    using assms by (simp_all add: usb_ok_def)
qed

text \<open>The state with the objects that \<^verbatim>\<open>storage_ensure_block\<close> allocates; a null pointer is a failed allocation.\<close>

definition with_objects :: "nat \<Rightarrow> ptr \<Rightarrow> ptr \<Rightarrow> ptr \<Rightarrow> ptr \<Rightarrow> usb_state \<Rightarrow> usb_state" where
  "with_objects n tag_set queue disk part0 s =
     grown n (given part0 @ given disk @ given queue @ given tag_set) (on_blocks (\<lambda>b. b\<lparr>
       queues := (if queue = NULL then [] else [new_queue queue tag_set]) @ queues b,
       disks := (if disk = NULL then [] else [new_disk disk (next_disk_number b)]) @ disks b,
       next_disk_number := (if disk = NULL then next_disk_number b else next_disk_number b + 1)\<rparr>) s)"

lemma on_blocks_grown: "on_blocks f (grown n ps s) = grown n ps (on_blocks f s)"
  by (simp add: grown_def on_blocks_def)

lemma ensure_block_cases:
  assumes "us_disk (unit_of s i) = NULL"
  obtains n tag_set queue disk part0 where
    "storage_ensure_block e i s =
      (if tag_set = NULL \<or> queue = NULL \<or> disk = NULL \<or> part0 = NULL
       then (-12, release_objects tag_set queue disk part0 (with_objects n tag_set queue disk part0 s))
       else attach_block e i tag_set queue disk part0 (with_objects n tag_set queue disk part0 s))"
    "distinct (given part0 @ given disk @ given queue @ given tag_set)"
    "set (given part0 @ given disk @ given queue @ given tag_set) \<inter> set (live (storage s)) = {}"
proof -
  obtain tag_set s1 where 1: "run_storage (usb_calloc e) s = (tag_set, s1)" by fastforce
  obtain queue s2 where 2: "queue_alloc e tag_set s1 = (queue, s2)" by fastforce
  obtain disk s3 where 3: "disk_alloc e s2 = (disk, s3)" by fastforce
  obtain part0 s4 where 4: "run_storage (usb_calloc e) s3 = (part0, s4)" by fastforce
  obtain n1 where s1: "s1 = grown n1 (given tag_set) s" using calloc_grown(1) [OF 1] by blast
  obtain n2 where s2: "s2 = grown n2 (given queue)
      (if queue = NULL then s1 else on_blocks (\<lambda>b. b\<lparr>queues := new_queue queue tag_set # queues b\<rparr>) s1)"
    using queue_alloc_grown(1) [OF 2] by blast
  obtain n3 where s3: "s3 = grown n3 (given disk) (if disk = NULL then s2 else
      on_blocks (\<lambda>b. b\<lparr>disks := new_disk disk (next_disk_number b) # disks b, next_disk_number := next_disk_number b + 1\<rparr>) s2)"
    using disk_alloc_grown(1) [OF 3] by blast
  obtain n4 where s4: "s4 = grown n4 (given part0) s3" using calloc_grown(1) [OF 4] by blast
  have "s4 = with_objects n4 tag_set queue disk part0 s"
    unfolding s4 s3 s2 s1 with_objects_def by (simp add: on_blocks_grown) (simp add: on_blocks_def)
  moreover have "distinct (given part0 @ given disk @ given queue @ given tag_set)"
    "set (given part0 @ given disk @ given queue @ given tag_set) \<inter> set (live (storage s)) = {}"
    using calloc_grown(2) [OF 1] queue_alloc_grown(2) [OF 2] disk_alloc_grown(2) [OF 3] calloc_grown(2) [OF 4]
    unfolding s3 s2 s1 by (auto simp: on_blocks_def split: if_splits)
  ultimately show thesis using that [of tag_set queue disk part0 n4] assms 1 2 3 4
    by (simp add: storage_ensure_block_def)
qed

text \<open>After a failure every object is gone again.\<close>

lemma release_objects_result:
  assumes "distinct (given part0 @ given disk @ given queue @ given tag_set)"
    and "set (given part0 @ given disk @ given queue @ given tag_set) \<inter> set (live (storage s)) = {}"
    and "d_disk ` set (disks (blocks s)) \<subseteq> set (live (storage s))" "q_queue ` set (queues (blocks s)) \<subseteq> set (live (storage s))"
    and "NULL \<notin> set (live (storage s))"
  shows "release_objects tag_set queue disk part0 (with_objects n tag_set queue disk part0 s) =
    grown n [] (on_blocks (\<lambda>b. b\<lparr>next_disk_number := (if disk = NULL then next_disk_number b else next_disk_number b + 1)\<rparr>) s)"
proof -
  have absent: "d_disk ` set (disks (blocks s)) \<inter> {tag_set, queue, disk, part0} = {}"
    "q_queue ` set (queues (blocks s)) \<inter> {tag_set, queue, disk, part0} = {}" "set (live (storage s)) \<inter> {tag_set, queue, disk, part0} = {}"
    using assms by (auto split: if_splits)
  have k: "d_disk (new_disk p m) = p" "q_queue (new_queue p t) = p" for p t m
    by (simp_all add: new_disk_def new_queue_def)
  have r: "remove_key d_disk p (disks (blocks s)) = disks (blocks s)" "remove_key q_queue p (queues (blocks s)) = queues (blocks s)"
    "filter (\<lambda>q. q \<noteq> p) (live (storage s)) = live (storage s)" if "p \<in> {tag_set, queue, disk, part0}" for p
    using absent that by (auto intro!: remove_key_absent filter_fresh)
  show ?thesis
    using assms(1) unfolding release_objects_def object_free_def with_objects_def kb_block_subsystem_object_free_def
      disk_state_remove_def queue_state_remove_def usb_free_def
    by (auto simp: grown_def on_blocks_def on_storage_def k r split: if_splits)
qed

text \<open>After a success the disk is registered and serves the record.\<close>

definition attached_disk :: "usb_env \<Rightarrow> nat \<Rightarrow> kb_usb_storage_record \<Rightarrow> ptr \<Rightarrow> ptr \<Rightarrow> ptr \<Rightarrow> u32 \<Rightarrow> usb_storage kb_block_disk_state" where
  "attached_disk e i r queue disk part0 number =
     (new_disk disk number)\<lparr>d_queue := queue, d_part0 := part0, d_parent := us_interface r, d_groups := NULL, d_registered := 1,
       d_capacity_sectors := us_capacity_sectors r, d_io_ctx := record_at e i,
       d_read_fn := Some (storage_block_read e), d_write_fn := Some (storage_block_write e)\<rparr>"

lemma attach_block_result:
  assumes "tag_set \<noteq> NULL" "queue \<noteq> NULL" "disk \<noteq> NULL" "part0 \<noteq> NULL" "us_sector_size (unit_of s i) = 512"
  obtains q where "attach_block e i tag_set queue disk part0 (with_objects n tag_set queue disk part0 s) =
      (0, on_storage (on_record i (\<lambda>r. r\<lparr>us_disk_number := next_disk_number (blocks s), us_tag_set := tag_set, us_queue := queue,
           us_disk := disk, us_part0 := part0, us_registered := 1\<rparr>))
        (grown n [part0, disk, queue, tag_set] (on_blocks (\<lambda>b. b\<lparr>next_disk_number := next_disk_number b + 1,
          queues := q # queues b, disks := attached_disk e i (unit_of s i) queue disk part0 (next_disk_number b) # disks b\<rparr>) s)))"
    "q_queue q = queue" "logical_block_size (q_limits q) = 512"
proof -
  let ?l = "\<lambda>l. l\<lparr>logical_block_size := 512, physical_block_size := 512, io_min := 512, max_hw_sectors := 240, max_segments := 128\<rparr>"
  let ?q = "(new_queue queue tag_set)\<lparr>q_limits := ?l (q_limits (new_queue queue tag_set))\<rparr>"
  have k: "d_disk (new_disk p m) = p" "q_queue (new_queue p t) = p" "d_disk_number (new_disk p m) = m" for p t m
    by (simp_all add: new_disk_def new_queue_def)
  have limits: "storage_queue_limits queue 512 b = b\<lparr>queues := ?q # qs\<rparr>" if "queues b = new_queue queue tag_set # qs" for b qs
    using assms(2) that
    by (simp add: storage_queue_limits_def kb_block_subsystem_queue_set_logical_block_size_def
        kb_block_subsystem_queue_set_physical_block_size_def kb_block_subsystem_queue_set_io_min_def
        kb_block_subsystem_queue_set_max_hw_sectors_def kb_block_subsystem_queue_set_max_segments_def
        on_limits_def on_queue_def queue_state_for_def keyed k)
  have d: "on_disk b disk f = b\<lparr>disks := f x # ds\<rparr>" "disk_state_for b disk = Some x" if "disks b = x # ds" "d_disk x = disk" for b f x ds
    using assms(3) that by (simp_all add: on_disk_def disk_state_for_def keyed)
  show thesis
  proof (rule that [of ?q])
    show "attach_block e i tag_set queue disk part0 (with_objects n tag_set queue disk part0 s) =
      (0, on_storage (on_record i (\<lambda>r. r\<lparr>us_disk_number := next_disk_number (blocks s), us_tag_set := tag_set, us_queue := queue,
           us_disk := disk, us_part0 := part0, us_registered := 1\<rparr>))
        (grown n [part0, disk, queue, tag_set] (on_blocks (\<lambda>b. b\<lparr>next_disk_number := next_disk_number b + 1,
          queues := ?q # queues b, disks := attached_disk e i (unit_of s i) queue disk part0 (next_disk_number b) # disks b\<rparr>) s)))"
      using assms by (simp add: attach_block_def with_objects_def run_blocks_def on_blocks_grown on_blocks_def limits d k
        kb_block_subsystem_disk_attach_def kb_block_subsystem_disk_register_def kb_block_subsystem_disk_set_capacity_def
        kb_block_subsystem_disk_set_io_def kb_block_subsystem_disk_snapshot_def attached_disk_def
        kb_block_disk_snapshot.defs Let_def)
  qed (simp_all add: k)
qed

lemma unit_ok_agree:
  assumes "unit_ok e i r b" and "us_disk r \<noteq> NULL \<Longrightarrow>
    disk_state_for b' (us_disk r) = disk_state_for b (us_disk r) \<and> queue_state_for b' (us_queue r) = queue_state_for b (us_queue r)"
  shows "unit_ok e i r b'"
  using assms by (auto simp: unit_ok_def serves_def disk_logical_block_size_def split: if_splits)

lemma usb_ok_frame:
  assumes "usb_ok e s" and "storage_records (storage t) = storage_records (storage s)"
    and "map hcd_ptrs (usb_hcd_records t) = map hcd_ptrs (usb_hcd_records s)"
    and "disks (blocks t) = disks (blocks s)" "queues (blocks t) = queues (blocks s)" "live (storage t) = live (storage s)"
  shows "usb_ok e t"
proof -
  have "unit_ok e i r (blocks t) = unit_ok e i r (blocks s)" for i r
    using assms(4,5) by (auto intro: unit_ok_agree simp: disk_state_for_def queue_state_for_def)
  then show ?thesis using assms by (simp add: usb_ok_def owned_def block_keys_def)
qed

lemma sum_list_nth: "i < length xs \<Longrightarrow> f (xs ! i) \<subseteq># sum_list (map f xs)"
proof (induction xs arbitrary: i)
  case (Cons x xs)
  then show ?case by (cases i) (auto intro: subset_mset.order_trans mset_subset_eq_add_right)
qed simp

lemma sum_list_two:
  "i < j \<Longrightarrow> j < length xs \<Longrightarrow> f (xs ! i) + f (xs ! j) \<subseteq># sum_list (map f xs)"
proof (induction xs arbitrary: i j)
  case (Cons x xs)
  show ?case
  proof (cases i)
    case 0
    then show ?thesis using Cons.prems sum_list_nth [of "j - 1" xs f] by (cases j) simp_all
  next
    case (Suc k)
    then show ?thesis using Cons.IH [of k "j - 1"] Cons.prems
      by (cases j) (auto intro: subset_mset.order_trans mset_subset_eq_add_right)
  qed
qed simp

lemma units_owned:
  assumes "usb_ok e s"
  shows "sum_list (map record_ptrs (storage_records (storage s))) \<subseteq># mset (live (storage s))"
  using assms unfolding usb_ok_def owned_def by (meson mset_subset_eq_add_left subset_mset.order_trans)

lemma unit_objects_live:
  assumes "usb_ok e s" and "i < KB_USB_STORAGE_MAX"
  shows "set_mset (record_ptrs (unit_of s i)) \<subseteq> set (live (storage s))"
proof -
  have "record_ptrs (unit_of s i) \<subseteq># mset (live (storage s))"
    by (rule subset_mset.order_trans [OF sum_list_nth units_owned [OF assms(1)]]) (use usb_ok_keys(5) [OF assms(1)] assms(2) in simp)
  then show ?thesis using set_mset_mono by fastforce
qed

lemma distinct_disjoint:
  assumes "A + B \<subseteq># mset xs" and "distinct xs"
  shows "set_mset A \<inter> set_mset B = {}"
proof (rule ccontr)
  assume "\<not> ?thesis"
  then obtain p where "p \<in># A" "p \<in># B" by auto
  then have "2 \<le> count (A + B) p" by (simp add: not_in_iff [symmetric] Suc_leI add_mono numeral_2_eq_2 flip: count_greater_zero_iff)
  also have "\<dots> \<le> count (mset xs) p" using assms(1) by (rule mset_subset_eq_count)
  also have "\<dots> \<le> 1" using assms(2) by (simp add: distinct_count_atmost_1)
  finally show False by simp
qed

lemma units_disjoint:
  assumes ok: "usb_ok e s" and "i < KB_USB_STORAGE_MAX" "j < KB_USB_STORAGE_MAX" "i \<noteq> j"
  shows "set_mset (record_ptrs (unit_of s i)) \<inter> set_mset (record_ptrs (unit_of s j)) = {}"
proof -
  have len: "length (storage_records (storage s)) = 32" by (rule usb_ok_keys(5) [OF ok])
  have two: "record_ptrs (unit_of s a) + record_ptrs (unit_of s b) \<subseteq># mset (live (storage s))" if "a < b" "b < 32" for a b
    by (rule subset_mset.order_trans [OF sum_list_two units_owned [OF ok]]) (use that len in simp_all)
  have "record_ptrs (unit_of s i) + record_ptrs (unit_of s j) \<subseteq># mset (live (storage s))"
    using two [of i j] two [of j i] assms(2-4) by (cases "i < j") (simp_all add: add.commute)
  then show ?thesis by (rule distinct_disjoint [OF _ usb_ok_keys(3) [OF ok]])
qed

text \<open>\<^verbatim>\<open>storage_ensure_block\<close> keeps the invariant, whichever allocation fails.\<close>

lemma unit_ok_of: "usb_ok e s \<Longrightarrow> i < KB_USB_STORAGE_MAX \<Longrightarrow> unit_ok e i (unit_of s i) (blocks s)"
  by (simp add: usb_ok_def)

lemma ensure_failed_ok:
  assumes "usb_ok e s" and "distinct (given part0 @ given disk @ given queue @ given tag_set)"
    and "set (given part0 @ given disk @ given queue @ given tag_set) \<inter> set (live (storage s)) = {}"
  shows "usb_ok e (release_objects tag_set queue disk part0 (with_objects n tag_set queue disk part0 s))"
  unfolding release_objects_result [OF assms(2,3) usb_ok_keys(1,2,4) [OF assms(1)]]
  by (rule usb_ok_frame [OF assms(1)]) (simp_all add: on_blocks_def)

lemma serves_attached:
  assumes "us_capacity_sectors r' = us_capacity_sectors r" and "q_queue q = queue" "queue \<noteq> NULL" "logical_block_size (q_limits q) = 512"
    and "queues b = q # qs"
  shows "serves e i r' b (attached_disk e i r queue disk part0 number)"
  using assms by (simp add: serves_def attached_disk_def new_disk_def disk_logical_block_size_def queue_state_for_def keyed)

lemma ensure_attached_ok:
  assumes ok: "usb_ok e s" and i: "i < KB_USB_STORAGE_MAX" and act: "us_active (unit_of s i)" and none: "us_disk (unit_of s i) = NULL"
    and nz: "tag_set \<noteq> NULL" "queue \<noteq> NULL" "disk \<noteq> NULL" "part0 \<noteq> NULL"
    and fresh: "distinct [part0, disk, queue, tag_set]" "set [part0, disk, queue, tag_set] \<inter> set (live (storage s)) = {}"
  shows "usb_ok e (snd (attach_block e i tag_set queue disk part0 (with_objects n tag_set queue disk part0 s)))"
proof -
  let ?r = "unit_of s i"
  let ?r' = "?r\<lparr>us_disk_number := next_disk_number (blocks s), us_tag_set := tag_set, us_queue := queue,
           us_disk := disk, us_part0 := part0, us_registered := 1\<rparr>"
  let ?d = "attached_disk e i ?r queue disk part0 (next_disk_number (blocks s))"
  have u: "unit_ok e i ?r (blocks s)" by (rule unit_ok_of [OF ok i])
  then have sz: "us_sector_size ?r = 512" using act by (simp add: unit_ok_def)
  let ?t = "snd (attach_block e i tag_set queue disk part0 (with_objects n tag_set queue disk part0 s))"
  obtain q where t: "attach_block e i tag_set queue disk part0 (with_objects n tag_set queue disk part0 s) =
      (0, on_storage (on_record i (\<lambda>r. r\<lparr>us_disk_number := next_disk_number (blocks s), us_tag_set := tag_set, us_queue := queue,
           us_disk := disk, us_part0 := part0, us_registered := 1\<rparr>))
        (grown n [part0, disk, queue, tag_set] (on_blocks (\<lambda>b. b\<lparr>next_disk_number := next_disk_number b + 1,
          queues := q # queues b, disks := attached_disk e i ?r queue disk part0 (next_disk_number b) # disks b\<rparr>) s)))"
      and q: "q_queue q = queue" "logical_block_size (q_limits q) = 512"
    by (rule attach_block_result [OF nz sz, of e n])
  have d: "d_disk ?d = disk" "d_queue ?d = queue" by (simp_all add: attached_disk_def new_disk_def)
  have rs: "storage_records (storage ?t) = (storage_records (storage s))[i := ?r']" and h: "usb_hcd_records ?t = usb_hcd_records s"
    and l: "live (storage ?t) = [part0, disk, queue, tag_set] @ live (storage s)"
    and b: "queues (blocks ?t) = q # queues (blocks s)" "disks (blocks ?t) = ?d # disks (blocks s)"
    unfolding t by (simp_all add: on_storage_def on_record_def on_blocks_def)
  note lens = usb_ok_keys [OF ok]
  have z: "record_ptrs ?r = {#}" "disk_ptrs ?r = {#}"
    using u act none by (simp_all add: unit_ok_def record_ptrs_def disk_ptrs_def)
  have own: "owned ?t = owned s + record_ptrs ?r'" "sum_list (map disk_ptrs (storage_records (storage ?t))) =
      sum_list (map disk_ptrs (storage_records (storage s))) + disk_ptrs ?r'"
    using owned_update [OF rs _ h] lens(5) i z by simp_all
  have ptrs: "record_ptrs ?r' = {#disk, queue, part0, tag_set#}" "disk_ptrs ?r' = {#disk, queue#}"
    using nz by (simp_all add: record_ptrs_def disk_ptrs_def)
  show ?thesis
  proof (rule usb_ok_change [OF ok i rs])
    show "unit_ok e i ?r' (blocks ?t)"
      using u act nz none serves_attached [OF _ q(1) nz(2) q(2) b(1), of ?r' ?r e i disk part0 "next_disk_number (blocks s)"] d b(2)
      by (simp add: unit_ok_def disk_state_for_def keyed backing_ok_def)
    show "us_interface (unit_of s j) \<noteq> us_interface ?r'" if "j < 32" "j \<noteq> i" "us_active (unit_of s j)" for j
      using usb_ok_unique [OF ok i act that] by simp
    show "unit_ok e j (unit_of s j) (blocks ?t)" if "j < 32" "j \<noteq> i" for j
    proof (rule unit_ok_agree [OF unit_ok_of [OF ok that(1)]])
      assume "us_disk (unit_of s j) \<noteq> NULL"
      moreover have "us_queue (unit_of s j) \<noteq> queue \<and> us_disk (unit_of s j) \<noteq> disk"
        using unit_objects_live [OF ok that(1)] fresh(2) nz by (auto simp: set_record_ptrs)
      ultimately show "disk_state_for (blocks ?t) (us_disk (unit_of s j)) = disk_state_for (blocks s) (us_disk (unit_of s j)) \<and>
          queue_state_for (blocks ?t) (us_queue (unit_of s j)) = queue_state_for (blocks s) (us_queue (unit_of s j))"
        using b q d by (auto simp: disk_state_for_def queue_state_for_def keyed)
    qed
    show "distinct (live (storage ?t))" "NULL \<notin> set (live (storage ?t))" using l fresh nz lens by auto
    show "owned ?t \<subseteq># mset (live (storage ?t))" using own l ptrs ok by (simp add: usb_ok_def)
    show "block_keys (blocks ?t) \<subseteq># sum_list (map disk_ptrs (storage_records (storage ?t)))"
      using own ptrs ok b q d by (simp add: usb_ok_def block_keys_def)
  qed
qed

lemma storage_ensure_block_ok:
  assumes "usb_ok e s" and "i < KB_USB_STORAGE_MAX" and "us_active (unit_of s i)"
  shows "usb_ok e (snd (storage_ensure_block e i s))"
proof (cases "us_disk (unit_of s i) = NULL")
  case True
  obtain n tag_set queue disk part0 where r: "storage_ensure_block e i s =
      (if tag_set = NULL \<or> queue = NULL \<or> disk = NULL \<or> part0 = NULL
       then (-12, release_objects tag_set queue disk part0 (with_objects n tag_set queue disk part0 s))
       else attach_block e i tag_set queue disk part0 (with_objects n tag_set queue disk part0 s))"
    and f: "distinct (given part0 @ given disk @ given queue @ given tag_set)"
    "set (given part0 @ given disk @ given queue @ given tag_set) \<inter> set (live (storage s)) = {}"
    by (rule ensure_block_cases [OF True])
  show ?thesis
    using ensure_failed_ok [OF assms(1) f, of n] ensure_attached_ok [OF assms True, of tag_set queue disk part0 n] f
    unfolding r by (simp split: if_splits)
qed (use assms(1) in \<open>simp add: storage_ensure_block_def\<close>)

end
