(* ===== verification/Usb_Lifecycle.thy ===== *)
theory Usb_Lifecycle
  imports Usb_Invariant
begin

text \<open>
  Every operation of the USB subsystem and of its mass-storage part keeps the invariant: the release of
  the objects of a record, the events of interfaces, endpoints, drivers and SCSI hosts, the removal of
  devices and host controllers, and the reachable states.
\<close>

section \<open>Release\<close>

lemma subset_mset_disjoint:
  assumes "A \<subseteq># B + C" and "set_mset A \<inter> set_mset C = {}"
  shows "A \<subseteq># (B :: 'a multiset)"
proof (rule mset_subset_eqI)
  fix p
  show "count A p \<le> count B p"
  proof (cases "p \<in># A")
    case True
    then have "count C p = 0" using assms(2) by (meson count_inI disjoint_iff)
    then show ?thesis using mset_subset_eq_count [OF assms(1), of p] by simp
  qed (simp add: not_in_iff)
qed

lemma subset_mset_filter:
  assumes "A + B \<subseteq># mset xs" and "distinct xs"
  shows "A \<subseteq># mset (filter (\<lambda>p. p \<notin># B) xs)"
proof -
  have "filter_mset (\<lambda>p. p \<notin># B) A \<subseteq># filter_mset (\<lambda>p. p \<notin># B) (mset xs)"
    using assms(1) by (intro multiset_filter_mono) (meson mset_subset_eq_add_left subset_mset.order_trans)
  moreover have "filter_mset (\<lambda>p. p \<notin># B) A = A"
    using distinct_disjoint [OF assms] by (auto simp: filter_mset_eq_conv)
  ultimately show ?thesis by simp
qed

lemma map_remove_key: "map key (remove_key key k xs) = remove1 k (map key xs)"
  by (induction xs) auto

lemma find_key_remove_keys:
  assumes "k \<noteq> a" "k \<noteq> b" "k \<noteq> c"
  shows "find_key key k (remove_key key a (remove_key key b (remove_key key c xs))) = find_key key k xs"
  using assms by (simp add: keyed)

text \<open>The record that \<^verbatim>\<open>storage_release_block\<close> leaves, and what is left of the memory and of the block subsystem.\<close>

definition released :: "kb_usb_storage_record \<Rightarrow> kb_usb_storage_record" where
  "released r = r\<lparr>us_disk := NULL, us_part0 := NULL, us_queue := NULL, us_tag_set := NULL,
     us_disk_number := 0, us_registered := 0, us_extents := [], us_backing_bytes := 0\<rparr>"

lemma release_block_result:
  assumes "NULL \<notin> set (live (storage s))" and "i < length (storage_records (storage s))"
  shows "storage_records (storage (storage_release_block i s)) = (storage_records (storage s))[i := released (unit_of s i)]"
    "usb_hcd_records (storage_release_block i s) = usb_hcd_records s"
    "live (storage (storage_release_block i s)) = filter (\<lambda>p. p \<notin># record_ptrs (unit_of s i)) (live (storage s))"
    "disks (blocks (storage_release_block i s)) = remove_key d_disk (us_queue (unit_of s i))
       (remove_key d_disk (us_part0 (unit_of s i)) (remove_key d_disk (us_disk (unit_of s i)) (disks (blocks s))))"
    "queues (blocks (storage_release_block i s)) = remove_key q_queue (us_queue (unit_of s i))
       (remove_key q_queue (us_part0 (unit_of s i)) (remove_key q_queue (us_disk (unit_of s i)) (queues (blocks s))))"
proof -
  note defs = storage_release_block_def Let_def object_free_def usb_free_def storage_release_backing_def on_storage_def
    on_blocks_def on_record_def kb_block_subsystem_object_free_def disk_state_remove_def queue_state_remove_def
    kb_block_subsystem_disk_unregister_def on_disk_def
  show "storage_records (storage (storage_release_block i s)) = (storage_records (storage s))[i := released (unit_of s i)]"
    using assms(2) by (simp add: defs released_def split: option.split)
  show "usb_hcd_records (storage_release_block i s) = usb_hcd_records s"
    by (simp add: defs split: option.split)
  show "live (storage (storage_release_block i s)) = filter (\<lambda>p. p \<notin># record_ptrs (unit_of s i)) (live (storage s))"
    using assms(1) by (auto simp: defs set_record_ptrs split: option.split intro!: filter_cong)
  have upd: "remove_key d_disk p (update_key d_disk p f ds) = remove_key d_disk p ds" if "\<And>x. d_disk (f x) = d_disk x" for p f ds
    using that by (induction ds) (auto simp: that)
  show "disks (blocks (storage_release_block i s)) = remove_key d_disk (us_queue (unit_of s i))
       (remove_key d_disk (us_part0 (unit_of s i)) (remove_key d_disk (us_disk (unit_of s i)) (disks (blocks s))))"
    by (simp add: defs upd split: option.split)
  show "queues (blocks (storage_release_block i s)) = remove_key q_queue (us_queue (unit_of s i))
       (remove_key q_queue (us_part0 (unit_of s i)) (remove_key q_queue (us_disk (unit_of s i)) (queues (blocks s))))"
    by (simp add: defs split: option.split)
qed

lemma distinct_mono:
  assumes "mset xs \<subseteq># mset ys" and "distinct ys"
  shows "distinct xs"
  unfolding distinct_count_atmost_1
proof
  fix a
  have "count (mset xs) a \<le> count (mset ys) a" by (rule mset_subset_eq_count [OF assms(1)])
  also have "\<dots> \<le> 1" using assms(2) by (simp add: distinct_count_atmost_1)
  finally have le: "count (mset xs) a \<le> 1" .
  show "count (mset xs) a = (if a \<in> set xs then 1 else 0)"
  proof (cases "a \<in> set xs")
    case True
    then have "0 < count (mset xs) a" by simp
    then have "count (mset xs) a = 1" using le by linarith
    then show ?thesis using True by simp
  qed simp
qed

lemma usb_ok_distinct_keys:
  assumes "usb_ok e s"
  shows "distinct (map d_disk (disks (blocks s)))" "distinct (map q_queue (queues (blocks s)))"
proof -
  have le: "block_keys (blocks s) \<subseteq># mset (live (storage s))" by (rule usb_ok_block_keys [OF assms])
  show "distinct (map d_disk (disks (blocks s)))"
    by (rule distinct_mono [OF _ usb_ok_keys(3) [OF assms]], rule subset_mset.order_trans [OF _ le]) (simp add: block_keys_def)
  show "distinct (map q_queue (queues (blocks s)))"
    by (rule distinct_mono [OF _ usb_ok_keys(3) [OF assms]], rule subset_mset.order_trans [OF _ le]) (simp add: block_keys_def)
qed

lemma block_keys_released:
  assumes ok: "usb_ok e s" and "disks b = remove_key d_disk c (remove_key d_disk k (remove_key d_disk a (disks (blocks s))))"
    and "queues b = remove_key q_queue c (remove_key q_queue k (remove_key q_queue a (queues (blocks s))))"
  shows "block_keys b \<subseteq># block_keys (blocks s)" "a \<notin># block_keys b" "c \<notin># block_keys b"
proof -
  let ?ds = "map d_disk (disks (blocks s))" and ?qs = "map q_queue (queues (blocks s))"
  have b: "block_keys b = mset (remove1 c (remove1 k (remove1 a ?ds))) + mset (remove1 c (remove1 k (remove1 a ?qs)))"
    unfolding block_keys_def assms(2,3) map_remove_key ..
  have r: "mset (remove1 c (remove1 k (remove1 a xs))) \<subseteq># mset xs" for xs :: "ptr list"
    by (auto simp: mset_remove1 intro: subset_mset.order_trans [OF diff_subset_eq_self])
  show "block_keys b \<subseteq># block_keys (blocks s)"
    unfolding b by (simp add: block_keys_def r subset_mset.add_mono)
  have "a \<notin> set (remove1 c (remove1 k (remove1 a xs))) \<and> c \<notin> set (remove1 c (remove1 k (remove1 a xs)))" if "distinct xs" for xs
    using that by (simp add: distinct_remove1)
  then have "a \<notin> set (remove1 c (remove1 k (remove1 a ?ds))) \<and> c \<notin> set (remove1 c (remove1 k (remove1 a ?ds)))"
    "a \<notin> set (remove1 c (remove1 k (remove1 a ?qs))) \<and> c \<notin> set (remove1 c (remove1 k (remove1 a ?qs)))"
    using usb_ok_distinct_keys [OF ok] by blast+
  then show "a \<notin># block_keys b" "c \<notin># block_keys b"
    unfolding b set_mset_union set_mset_mset by blast+
qed

lemma storage_release_block_ok:
  assumes ok: "usb_ok e s" and i: "i < KB_USB_STORAGE_MAX" and act: "us_active (unit_of s i)"
  shows "usb_ok e (storage_release_block i s)"
proof -
  let ?r = "unit_of s i" and ?t = "storage_release_block i s"
  note keys = usb_ok_keys [OF ok]
  note res = release_block_result [OF keys(4), of i, unfolded keys(5), OF i]
  have z: "record_ptrs (released ?r) = {#}" "disk_ptrs (released ?r) = {#}"
    by (simp_all add: released_def record_ptrs_def disk_ptrs_def)
  have own: "owned ?t + record_ptrs ?r = owned s" "sum_list (map disk_ptrs (storage_records (storage ?t))) + disk_ptrs ?r =
      sum_list (map disk_ptrs (storage_records (storage s)))"
    using owned_update [OF res(1) _ res(2)] keys(5) i z by simp_all
  have apart: "p \<noteq> us_disk ?r \<and> p \<noteq> us_queue ?r \<and> p \<noteq> us_part0 ?r"
    if "j < 32" "j \<noteq> i" "p \<noteq> NULL" "p = us_disk (unit_of s j) \<or> p = us_queue (unit_of s j)" for j p
    using units_disjoint [OF ok i that(1)] that by (auto simp: set_record_ptrs)
  have kd: "block_keys (blocks ?t) \<subseteq># block_keys (blocks s)" "us_disk ?r \<notin># block_keys (blocks ?t)" "us_queue ?r \<notin># block_keys (blocks ?t)"
    by (rule block_keys_released [OF ok res(4,5)])+
  show ?thesis
  proof (rule usb_ok_change [OF ok i res(1)])
    show "unit_ok e i (released ?r) (blocks ?t)"
      using unit_ok_of [OF ok i] act by (simp add: unit_ok_def released_def backing_ok_def)
    show "us_interface (unit_of s j) \<noteq> us_interface (released ?r)" if "j < 32" "j \<noteq> i" "us_active (unit_of s j)" for j
      using usb_ok_unique [OF ok i act that] by (simp add: released_def)
    show "unit_ok e j (unit_of s j) (blocks ?t)" if "j < 32" "j \<noteq> i" for j
    proof (rule unit_ok_agree [OF unit_ok_of [OF ok that(1)]])
      assume d: "us_disk (unit_of s j) \<noteq> NULL"
      then have q: "us_queue (unit_of s j) \<noteq> NULL"
        using unit_ok_of [OF ok that(1)] by (auto simp: unit_ok_def split: if_splits)
      show "disk_state_for (blocks ?t) (us_disk (unit_of s j)) = disk_state_for (blocks s) (us_disk (unit_of s j)) \<and>
          queue_state_for (blocks ?t) (us_queue (unit_of s j)) = queue_state_for (blocks s) (us_queue (unit_of s j))"
        using apart [OF that d] apart [OF that q]
        by (simp add: disk_state_for_def queue_state_for_def res(4,5) find_key_remove_keys)
    qed
    show "distinct (live (storage ?t))" "NULL \<notin> set (live (storage ?t))" using keys res(3) by simp_all
    show "owned ?t \<subseteq># mset (live (storage ?t))"
      unfolding res(3) by (rule subset_mset_filter [OF _ keys(3)]) (use ok own(1) in \<open>simp add: usb_ok_def\<close>)
    show "block_keys (blocks ?t) \<subseteq># sum_list (map disk_ptrs (storage_records (storage ?t)))"
    proof (rule subset_mset_disjoint [of _ _ "disk_ptrs ?r"])
      show "block_keys (blocks ?t) \<subseteq># sum_list (map disk_ptrs (storage_records (storage ?t))) + disk_ptrs ?r"
        unfolding own(2) by (rule subset_mset.order_trans [OF kd(1)]) (use ok in \<open>simp add: usb_ok_def\<close>)
      show "set_mset (block_keys (blocks ?t)) \<inter> set_mset (disk_ptrs ?r) = {}"
        using kd(2,3) by (auto simp: disk_ptrs_def)
    qed
  qed
qed

section \<open>Transfers\<close>

text \<open>
  A transfer changes the extents and the counters of a record, and the counters of its disk.  The
  buffer of a transfer of \<open>n\<close> bytes has at least that many.
\<close>

abbreviation (input) buffer_ok :: "bytes option \<Rightarrow> u64 \<Rightarrow> bool" where
  "buffer_ok buffer n \<equiv> \<forall>bs. buffer = Some bs \<longrightarrow> unat n \<le> length bs"

abbreviation (input) unit_live :: "usb_env \<Rightarrow> nat \<Rightarrow> usb_state \<Rightarrow> bool" where
  "unit_live e i s \<equiv> usb_ok e s \<and> i < KB_USB_STORAGE_MAX \<and> us_active (unit_of s i)"

lemma map_on_disk: "(\<And>d. d_disk (g d) = d_disk d) \<Longrightarrow> map d_disk (disks (on_disk b disk g)) = map d_disk (disks b)"
  by (auto simp: on_disk_def map_update_key split: option.split)

lemma usb_ok_transferred:
  assumes live: "unit_live e i s"
    and rs: "storage_records (storage t) = (storage_records (storage s))[i := r]" and h: "usb_hcd_records t = usb_hcd_records s"
    and l: "live (storage t) = live (storage s)" and b: "blocks t = on_disk (blocks s) (us_disk (unit_of s i)) g"
    and c: "core r = core (unit_of s i)" "backing_ok r"
    and g: "\<And>d. d_disk (g d) = d_disk d" "\<And>d. d_queue (g d) = d_queue d" "\<And>r b d. serves e i r b (g d) = serves e i r b d"
  shows "unit_live e i t"
proof -
  let ?r = "unit_of s i"
  have ok: "usb_ok e s" and i: "i < 32" and act: "us_active ?r" using live by simp_all
  note keys = usb_ok_keys [OF ok]
  have own: "owned t = owned s"
      "sum_list (map disk_ptrs (storage_records (storage t))) = sum_list (map disk_ptrs (storage_records (storage s)))"
    using owned_update [OF rs _ h] record_ptrs_core [OF c(1)] keys(5) i by simp_all
  have id: "us_active r = us_active ?r" "us_interface r = us_interface ?r" "us_disk r = us_disk ?r"
    using c by (simp_all add: core_def identity_def)
  have bk: "block_keys (blocks t) = block_keys (blocks s)"
    unfolding block_keys_def b map_on_disk [of g, OF g(1)] by simp
  have find: "disk_state_for (blocks t) k = (if k = us_disk ?r then map_option g (disk_state_for (blocks s) k) else disk_state_for (blocks s) k)" for k
    unfolding b by (simp add: disk_state_for_on_disk [of g, OF g(1)])
  have u: "unit_ok e i r (blocks s)" by (rule unit_ok_core [OF c act unit_ok_of [OF ok i]])
  have "usb_ok e t"
  proof (rule usb_ok_change [OF ok i rs])
    have "serves e i r (blocks t) d = serves e i r (blocks s) d" for d
      unfolding serves_def b logical_block_size_on_disk ..
    then show "unit_ok e i r (blocks t)"
      using u g act unfolding unit_ok_def find id by (auto split: if_splits)
    show "us_interface (unit_of s j) \<noteq> us_interface r" if "j < 32" "j \<noteq> i" "us_active (unit_of s j)" for j
      using usb_ok_unique [OF ok i act that] unfolding id .
    show "unit_ok e j (unit_of s j) (blocks t)" if "j < 32" "j \<noteq> i" for j
    proof (rule unit_ok_agree [OF unit_ok_of [OF ok that(1)]])
      assume "us_disk (unit_of s j) \<noteq> NULL"
      then have "us_disk (unit_of s j) \<noteq> us_disk ?r"
        using units_disjoint [OF ok i that(1)] that(2) by (auto simp: set_record_ptrs)
      then show "disk_state_for (blocks t) (us_disk (unit_of s j)) = disk_state_for (blocks s) (us_disk (unit_of s j)) \<and>
          queue_state_for (blocks t) (us_queue (unit_of s j)) = queue_state_for (blocks s) (us_queue (unit_of s j))"
        using find by (simp add: b)
    qed
  qed (use ok own l bk in \<open>simp_all add: usb_ok_def\<close>)
  then show ?thesis using act i rs keys(5) id by simp
qed

lemma unit_live_on_record:
  assumes "unit_live e i s" and "core (f (unit_of s i)) = core (unit_of s i)" and "us_extents (f (unit_of s i)) = us_extents (unit_of s i)"
    and "us_backing_bytes (f (unit_of s i)) = us_backing_bytes (unit_of s i)"
  shows "unit_live e i (on_storage (on_record i f) s)"
proof (rule usb_ok_transferred [OF assms(1), of _ "f (unit_of s i)" "\<lambda>d. d"])
  have "backing_ok (unit_of s i)" using unit_ok_of [of e s i] assms(1) by (simp add: unit_ok_def)
  then show "backing_ok (f (unit_of s i))" using assms(3,4) by (simp add: backing_ok_def)
qed (simp_all add: on_storage_def on_record_def on_disk_same assms(2))

lemma disk_transfer_form:
  assumes ready: "disk_ready e i s" and range: "unit_range (unit_of s i) sector n" and len: "unat n \<le> length buf"
    and run: "disk_transfer write (us_disk (unit_of s i)) sector (Some buf) n s = (result, buffer', t)"
  shows "\<exists>f g w. t = s\<lparr>storage := on_record i f w, blocks := on_disk (blocks s) (us_disk (unit_of s i)) g\<rparr> \<and>
    backing_change i (storage s) w \<and> backing_ok (record_of w i) \<and>
    (\<forall>r. core (f r) = core r \<and> us_extents (f r) = us_extents r \<and> us_backing_bytes (f r) = us_backing_bytes r) \<and>
    (\<forall>d. d_disk (g d) = d_disk d \<and> d_queue (g d) = d_queue d \<and> (\<forall>r b. serves e i r b (g d) = serves e i r b d))"
proof -
  note i = ready_index [OF ready]
  obtain d where d: "disk_state_for (blocks s) (us_disk (unit_of s i)) = Some d" "serves e i (unit_of s i) (blocks s) d"
    using ready by (auto simp: disk_ready_def)
  have ok: "backing_ok (unit_of s i)" "us_sector_size (unit_of s i) = 512" using ready by (simp_all add: disk_ready_def)
  obtain result2 buf2 w where tr: "transfer_loop e i write (sector * 512) n 0 buf (storage s) = (result2, buf2, w)"
    and w: "backing_change i (storage s) w" "backing_ok (record_of w i)"
  proof (cases "write")
    case True
    then show ?thesis using that transfer_write [OF ok(1) i(1) unit_range_offset(2) [OF range], of 0 buf e] len
      by (auto simp: written_def)
  next
    case False
    then show ?thesis using that transfer_read [OF ok(1) unit_range_offset(2) [OF range], of 0 buf e] len ok(1)
      by (auto simp: backing_change_refl)
  qed
  let ?f = "\<lambda>r :: kb_usb_storage_record. if result2 \<noteq> 0 then r else if write then r\<lparr>us_write_count := us_write_count r + 1, us_bytes_written := us_bytes_written r + n\<rparr>
    else r\<lparr>us_read_count := us_read_count r + 1, us_bytes_read := us_bytes_read r + n\<rparr>"
  let ?g = "\<lambda>d. if result2 \<noteq> 0 then d else if write then d\<lparr>d_write_count := d_write_count d + 1, d_bytes_written := d_bytes_written d + n\<rparr>
    else d\<lparr>d_read_count := d_read_count d + 1, d_bytes_read := d_bytes_read d + n\<rparr>"
  have bt: "storage_backing_transfer e i sector (Some buf) n write (storage s) = (result2, Some buf2, w)"
    using tr range by (simp add: storage_backing_transfer_def ok(2) unit_range_def)
  let ?t = "s\<lparr>storage := on_record i ?f w, blocks := on_disk (blocks s) (us_disk (unit_of s i)) ?g\<rparr>"
  have valid: "disk_io_range_valid (blocks s) d sector n = 0" using range unit_range_valid [OF d(2)] by simp
  have "\<exists>b. disk_transfer write (us_disk (unit_of s i)) sector (Some buf) n s = (result2, b, ?t)"
  proof (cases "write")
    case True
    then show ?thesis using bt d valid i
      by (simp add: disk_transfer_def kb_block_subsystem_disk_write_def kb_block_subsystem_disk_write_flags_def serves_def
        storage_block_write_def on_disk_same on_record_def)
  next
    case False
    then show ?thesis using bt d valid i
      by (simp add: disk_transfer_def kb_block_subsystem_disk_read_def serves_def
        storage_block_read_def on_disk_same on_record_def)
  qed
  then have "t = ?t" using run by auto
  moreover have "core (?f r) = core r \<and> us_extents (?f r) = us_extents r \<and> us_backing_bytes (?f r) = us_backing_bytes r" for r
    by (simp add: core_def identity_def)
  moreover have "d_disk (?g d) = d_disk d \<and> d_queue (?g d) = d_queue d \<and> (\<forall>r b. serves e i r b (?g d) = serves e i r b d)" for d
    by (simp add: serves_def disk_logical_block_size_def)
  ultimately show ?thesis using w by blast
qed

lemma disk_transfer_cases:
  assumes live: "unit_live e i s" and buf: "buffer_ok buffer n"
    and run: "disk_transfer write (us_disk (unit_of s i)) sector buffer n s = (result, buffer', t)"
  obtains "t = s"
  | bs where "disk_ready e i s" "unit_range (unit_of s i) sector n" "buffer = Some bs" "unat n \<le> length bs"
proof (cases "us_disk (unit_of s i) = NULL")
  case True
  then have "t = s" using run
    by (auto simp: disk_transfer_def kb_block_subsystem_disk_read_def kb_block_subsystem_disk_write_def
        kb_block_subsystem_disk_write_flags_def disk_state_for_def split: if_splits)
  then show ?thesis by (rule that(1))
next
  case False
  have ready: "disk_ready e i s" using usb_ok_ready(1) [of e s i] live False by simp
  obtain d where d: "disk_state_for (blocks s) (us_disk (unit_of s i)) = Some d" "serves e i (unit_of s i) (blocks s) d"
    using ready by (auto simp: disk_ready_def)
  show ?thesis
  proof (cases "buffer \<noteq> None \<and> unit_range (unit_of s i) sector n")
    case False
    then have "t = s" using run d unit_range_valid [OF d(2), of sector n]
      by (cases buffer) (auto simp: disk_transfer_def kb_block_subsystem_disk_read_def kb_block_subsystem_disk_write_def
          kb_block_subsystem_disk_write_flags_def serves_def split: if_splits)
    then show ?thesis by (rule that(1))
  next
    case True
    then show ?thesis using that(2) [OF ready] buf by auto
  qed
qed

lemma disk_transfer_live:
  assumes live: "unit_live e i s" and buf: "buffer_ok buffer n"
    and run: "disk_transfer write (us_disk (unit_of s i)) sector buffer n s = (result, buffer', t)"
  shows "unit_live e i t"
  using live buf run
proof (cases rule: disk_transfer_cases)
  case 1
  then show ?thesis using live by simp
next
  case bs: (2 bs)
  note i = ready_index [OF bs(1)]
  obtain f g w where t: "t = s\<lparr>storage := on_record i f w, blocks := on_disk (blocks s) (us_disk (unit_of s i)) g\<rparr>"
    and w: "backing_change i (storage s) w" "backing_ok (record_of w i)"
    and f': "\<forall>r. core (f r) = core r \<and> us_extents (f r) = us_extents r \<and> us_backing_bytes (f r) = us_backing_bytes r"
    and g': "\<forall>d. d_disk (g d) = d_disk d \<and> d_queue (g d) = d_queue d \<and> (\<forall>r b. serves e i r b (g d) = serves e i r b d)"
    using disk_transfer_form [OF bs(1,2,4) run [unfolded bs(3)]] by blast
  have f: "core (f r) = core r" "us_extents (f r) = us_extents r" "us_backing_bytes (f r) = us_backing_bytes r" for r
    using f' by blast+
  have g: "d_disk (g d) = d_disk d" "d_queue (g d) = d_queue d" "serves e i r b (g d) = serves e i r b d" for r b d
    using g' by blast+
  from w(1) obtain m xs bb where w': "w = (storage s)\<lparr>allocations := m, storage_records :=
      (storage_records (storage s))[i := (unit_of s i)\<lparr>us_extents := xs, us_backing_bytes := bb\<rparr>]\<rparr>"
    unfolding backing_change_def by blast
  let ?r = "(unit_of s i)\<lparr>us_extents := xs, us_backing_bytes := bb\<rparr>"
  show ?thesis
  proof (rule usb_ok_transferred [OF live, of t "f ?r" g])
    show "storage_records (storage t) = (storage_records (storage s))[i := f ?r]"
      using i by (simp add: t w' on_record_def)
    show "core (f ?r) = core (unit_of s i)" unfolding f(1) by (simp add: core_def identity_def)
    show "backing_ok (f ?r)" using w(2) i f(2,3) by (simp add: w' backing_ok_def)
  qed (use g in \<open>simp_all add: t w' on_record_def\<close>)
qed

lemma found_live:
  assumes "usb_ok e s" and "first_record P (storage_records (storage s)) = Some i"
  shows "unit_live e i s"
  using assms first_record_Some [OF assms(2)] usb_ok_keys(5) [OF assms(1)] by simp

lemma find_live:
  assumes "usb_ok e s" and "record_find_by_interface (storage s) interface = Some i"
  shows "unit_live e i s"
  using assms by (auto simp: record_find_by_interface_def split: if_splits dest: found_live)

lemma scsi_check_live:
  assumes "unit_live e i s" and "scsi_check i sense_key asc buffer n s = (result, scsi_result, buffer', t)"
  shows "unit_live e i t"
proof -
  have "t = on_storage (on_record i (\<lambda>r. r\<lparr>us_last_sense_key := sense_key, us_last_asc := asc, us_last_ascq := 0\<rparr>)) s"
    using assms(2) by (simp add: scsi_check_def run_storage_def result_check_condition_def on_storage_def)
  then show ?thesis using unit_live_on_record [OF assms(1)] by (simp add: core_def identity_def)
qed

lemma scsi_data_state: "scsi_data data buffer n s = (result, scsi_result, buffer', t) \<Longrightarrow> t = s"
  by (auto simp: scsi_data_def split: prod.splits)

lemma scsi_read_write_cases:
  assumes run: "scsi_read_write i write command buffer n data_out s = (result, scsi_result, buffer', t)"
  obtains sense asc where "scsi_check i sense asc buffer n s = (result, scsi_result, buffer', t)"
  | "t = s" "sr_status scsi_result = 0"
  | m lba result1 buf1 s1 where "m \<le> n" "disk_transfer write (us_disk (unit_of s i)) lba buffer m s = (result1, buf1, s1)" "result1 \<noteq> 0"
      "\<exists>asc. scsi_check i KB_SCSI_SENSE_ILLEGAL_REQUEST asc buf1 n s1 = (result, scsi_result, buffer', t)"
      "lba = ucast (read_be32 (drop 2 command))"
  | m lba buf1 s1 where "m \<le> n" "disk_transfer write (us_disk (unit_of s i)) lba buffer m s = (0, buf1, s1)" "sr_status scsi_result = 0"
      "t = on_storage (on_record i (\<lambda>r. if write then r\<lparr>us_scsi_write_command_count := us_scsi_write_command_count r + 1\<rparr>
              else r\<lparr>us_scsi_read_command_count := us_scsi_read_command_count r + 1\<rparr>)) s1"
proof -
  let ?r = "unit_of s i"
  let ?lba = "ucast (read_be32 (drop 2 command)) :: u64" and ?count = "ucast (read_be16 (drop 7 command)) :: u64"
  let ?n = "?count * ucast (us_sector_size ?r)"
  obtain result1 buf1 s1 where d: "disk_transfer write (us_disk ?r) ?lba buffer ?n s = (result1, buf1, s1)"
    by (cases "disk_transfer write (us_disk ?r) ?lba buffer ?n s") auto
  have good: "sr_status (result_good k m) = 0" for k m by (simp add: result_good_def Let_def)
  consider (check) sense asc where "scsi_check i sense asc buffer n s = (result, scsi_result, buffer', t)"
    | (same) "t = s" "sr_status scsi_result = 0"
    | (failed) "?n \<le> n" "result1 \<noteq> 0"
      "\<exists>asc. scsi_check i KB_SCSI_SENSE_ILLEGAL_REQUEST asc buf1 n s1 = (result, scsi_result, buffer', t)"
    | (passed) "?n \<le> n" "result1 = 0" "sr_status scsi_result = 0"
      "t = on_storage (on_record i (\<lambda>r. if write then r\<lparr>us_scsi_write_command_count := us_scsi_write_command_count r + 1\<rparr>
              else r\<lparr>us_scsi_read_command_count := us_scsi_read_command_count r + 1\<rparr>)) s1"
    using run d unfolding scsi_read_write_def Let_def by (auto split: if_splits simp: not_less good)
  then show thesis
  proof cases
    case check
    then show thesis by (rule that(1))
  next
    case same
    then show thesis by (rule that(2))
  next
    case failed
    show thesis by (rule that(3) [OF failed(1) d failed(2,3) refl])
  next
    case passed
    show thesis by (rule that(4) [OF passed(1) d [unfolded passed(2)] passed(3,4)])
  qed
qed

lemma scsi_read_write_live:
  assumes live: "unit_live e i s" and buf: "buffer_ok buffer n"
    and run: "scsi_read_write i write command buffer n data_out s = (result, scsi_result, buffer', t)"
  shows "unit_live e i t"
  using run
proof (cases rule: scsi_read_write_cases)
  case (1 sense asc)
  then show ?thesis by (rule scsi_check_live [OF live])
next
  case 2
  then show ?thesis using live by simp
next
  case (3 m lba result1 buf1 s1)
  have "buffer_ok buffer m" using buf 3(1) by (auto simp: word_le_nat_alt intro: order.trans)
  then have l: "unit_live e i s1" by (rule disk_transfer_live [OF live _ 3(2)])
  from 3(4) obtain asc where "scsi_check i KB_SCSI_SENSE_ILLEGAL_REQUEST asc buf1 n s1 = (result, scsi_result, buffer', t)" ..
  then show ?thesis by (rule scsi_check_live [OF l])
next
  case (4 m lba buf1 s1)
  have "buffer_ok buffer m" using buf 4(1) by (auto simp: word_le_nat_alt intro: order.trans)
  then have "unit_live e i s1" by (rule disk_transfer_live [OF live _ 4(2)])
  then show ?thesis unfolding 4(4) by (rule unit_live_on_record) (simp_all add: core_def identity_def)
qed

lemma scsi_dispatch_live:
  assumes live: "unit_live e i s" and buf: "buffer_ok buffer n"
    and run: "scsi_dispatch i command buffer n data_out s = (result, scsi_result, buffer', t)"
  shows "unit_live e i t"
proof -
  consider (check) sense asc where "scsi_check i sense asc buffer n s = (result, scsi_result, buffer', t)"
    | (same) "t = s"
    | (rw) wr where "scsi_read_write i wr command buffer n data_out s = (result, scsi_result, buffer', t)"
    using run unfolding scsi_dispatch_def Let_def by (auto split: if_splits dest: scsi_data_state)
  then show ?thesis
  proof cases
    case check
    then show ?thesis by (rule scsi_check_live [OF live])
  next
    case same
    then show ?thesis using live by simp
  next
    case rw
    then show ?thesis by (rule scsi_read_write_live [OF live buf])
  qed
qed

lemma scsi_command_live:
  assumes ok: "usb_ok e s" and buf: "buffer_ok buffer n"
    and run: "kb_usb_storage_subsystem_scsi_command interface cdb buffer n data_out s = (result, scsi_result, buffer', t)"
  shows "usb_ok e t" "record_find_by_interface (storage s) interface = Some i \<Longrightarrow> unit_live e i t"
proof -
  have "t = s \<or> unit_live e i t" if f: "record_find_by_interface (storage s) interface = Some i" for i
  proof -
    have l: "unit_live e i s" by (rule find_live [OF ok f])
    let ?s = "\<lambda>c. on_storage (on_record i (\<lambda>r. r\<lparr>us_scsi_command_count := us_scsi_command_count r + 1, us_last_scsi_opcode := c\<rparr>)) s"
    have l1: "unit_live e i (?s c)" for c
      by (rule unit_live_on_record [OF l]) (simp_all add: core_def identity_def)
    show ?thesis
      using run f scsi_dispatch_live [OF l1 buf] scsi_check_live [OF l1]
      unfolding kb_usb_storage_subsystem_scsi_command_def Let_def by (fastforce split: option.splits if_splits)
  qed
  moreover have "t = s" if "record_find_by_interface (storage s) interface = None"
    using run that by (simp add: kb_usb_storage_subsystem_scsi_command_def)
  ultimately show "usb_ok e t" "record_find_by_interface (storage s) interface = Some i \<Longrightarrow> unit_live e i t"
    using ok find_live [OF ok] by (cases "record_find_by_interface (storage s) interface"; fastforce)+
qed

lemma find_interface:
  assumes "record_find_by_interface w interface = Some i"
  shows "us_interface (record_of w i) = interface" "i < length (storage_records w)"
  using assms by (auto simp: record_find_by_interface_def split: if_splits dest: first_record_Some)

lemma bot_finish_live:
  assumes "unit_live e i s" and "bot_finish i br tag residue status data s = (result, bot_result, data', t)"
  shows "usb_ok e t"
proof -
  have "t = on_storage (bot_record_status i tag residue status) s" using assms(2) by (simp add: bot_finish_def)
  then show ?thesis using unit_live_on_record [OF assms(1)] by (simp add: bot_record_status_def core_def identity_def Let_def)
qed

lemma bot_transfer_ok:
  assumes ok: "usb_ok e s" and buf: "buffer_ok data n"
    and run: "kb_usb_storage_subsystem_bot_transfer interface cbw data n s = (result, bot_result, data', t)"
  shows "usb_ok e t"
proof (cases "record_find_by_interface (storage s) interface")
  case None
  then show ?thesis using run ok by (simp add: kb_usb_storage_subsystem_bot_transfer_def)
next
  case (Some i)
  let ?s = "on_storage (on_record i (\<lambda>r. r\<lparr>us_bot_command_count := us_bot_command_count r + 1\<rparr>)) s"
  have l: "unit_live e i s" by (rule find_live [OF ok Some])
  then have l1: "unit_live e i ?s" by (rule unit_live_on_record) (simp_all add: core_def identity_def)
  have "us_interface (unit_of ?s i) = interface"
    using find_interface [OF Some] by (simp add: on_storage_def on_record_def)
  then have f: "record_find_by_interface (storage ?s) interface = Some i" using usb_ok_find [of e ?s i] l1 by auto
  have cmd: "unit_live e i u" if "kb_usb_storage_subsystem_scsi_command interface cdb data m d ?s = (r1, r2, data2, u)" "m \<le> n"
    for cdb m d r1 r2 data2 u
  proof (rule scsi_command_live(2) [OF _ _ that(1) f])
    show "usb_ok e ?s" using l1 by simp
    show "buffer_ok data m" using buf that(2) by (auto simp: word_le_nat_alt intro: order.trans)
  qed
  show ?thesis
    using run Some ok bot_finish_live [OF l1] bot_finish_live [OF cmd]
    unfolding kb_usb_storage_subsystem_bot_transfer_def Let_def
    by (auto split: option.splits if_splits prod.splits simp: not_less)
qed

lemma bot_reset_ok: "usb_ok e s \<Longrightarrow> usb_ok e (kb_usb_storage_subsystem_bot_reset interface s)"
  unfolding kb_usb_storage_subsystem_bot_reset_def
  using unit_live_on_record [OF find_live] by (auto split: option.split simp: core_def identity_def)

section \<open>The self test\<close>

lemma then_ok_state:
  "usb_ok e (snd (f s)) \<Longrightarrow> (\<And>t. usb_ok e t \<Longrightarrow> usb_ok e (snd (g t))) \<Longrightarrow> usb_ok e (snd (then_ok f g s))"
  by (auto simp: then_ok_def split: prod.split)

lemma smoke_block_state:
  assumes live: "unit_live e i s"
  shows "usb_ok e (snd (smoke_block i s))"
proof -
  let ?data = "smoke_pattern 1024 13 (us_disk_number (unit_of s i))"
  obtain r1 b1 s1 where 1: "disk_transfer True (us_disk (unit_of s i)) 8 (Some ?data) 1024 s = (r1, b1, s1)" by (metis prod_cases3)
  have l: "unit_live e i s1" by (rule disk_transfer_live [OF live _ 1]) (simp add: smoke_pattern_def)
  obtain r2 b2 s2 where 2: "disk_transfer False (us_disk (unit_of s1 i)) 8 (Some (replicate 1024 0)) 1024 s1 = (r2, b2, s2)" by (metis prod_cases3)
  have "unit_live e i s2" by (rule disk_transfer_live [OF l _ 2]) simp
  then show ?thesis using l 1 2 by (simp add: smoke_block_def Let_def)
qed

lemma smoke_scsi_state:
  assumes "usb_ok e s" and "length buffer < 2 ^ 64"
  shows "usb_ok e (snd (smoke_scsi cdb buffer data_out expected i s))"
  using assms scsi_command_live(1) [OF assms(1), of "Some buffer" "of_nat (length buffer)"]
  by (auto simp: smoke_scsi_def unat_of_nat split: prod.split)

lemma smoke_bot_state:
  assumes "usb_ok e s" and "length buffer < 2 ^ 64"
  shows "usb_ok e (snd (smoke_bot tag cdb buffer data_in expected i s))"
  using assms bot_transfer_ok [OF assms(1), of "Some buffer" "of_nat (length buffer)"]
  by (auto simp: smoke_bot_def unat_of_nat split: prod.split)

lemma smoke_scsi_all_state: "usb_ok e s \<Longrightarrow> usb_ok e (snd (smoke_scsi_all i s))"
  unfolding smoke_scsi_all_def Let_def by (intro then_ok_state smoke_scsi_state) (simp_all add: smoke_pattern_def)

lemma smoke_bot_all_state: "usb_ok e s \<Longrightarrow> usb_ok e (snd (smoke_bot_all i s))"
  unfolding smoke_bot_all_def Let_def by (intro then_ok_state smoke_bot_state) (simp_all add: smoke_pattern_def)

lemma smoke_loop_state: "usb_ok e s \<Longrightarrow> \<forall>i\<in>set is. i < KB_USB_STORAGE_MAX \<Longrightarrow> usb_ok e (snd (smoke_loop is visited s))"
proof (induction "is" arbitrary: visited s)
  case (Cons i "is")
  have "usb_ok e (snd (then_ok (smoke_block i) (then_ok (smoke_scsi_all i) (then_ok (smoke_bot_all i) (smoke_loop is (Suc visited)))) s))"
    if "us_active (unit_of s i)"
    by (intro then_ok_state smoke_scsi_all_state smoke_bot_all_state smoke_block_state Cons.IH) (use Cons.prems that in simp_all)
  then show ?case using Cons.IH [OF Cons.prems(1)] Cons.prems by (simp add: Let_def)
qed simp

section \<open>Records for interfaces\<close>

lemma first_record_None: "first_record P rs = None \<Longrightarrow> j < length rs \<Longrightarrow> us_active (rs ! j) \<Longrightarrow> \<not> P (rs ! j)"
  by (induction rs arbitrary: j) (auto simp: less_Suc_eq_0_disj split: if_splits)

definition fresh_record :: "usb_env \<Rightarrow> ptr \<Rightarrow> kb_usb_storage_record" where
  "fresh_record e interface = zero_storage_record\<lparr>us_active := True, us_interface := interface,
     us_sector_size := KB_USB_STORAGE_DEFAULT_SECTOR_SIZE, us_capacity_sectors := default_capacity_sectors e, us_medium_present := 1\<rparr>"

lemma fresh_record_simps [simp]:
  "us_active (fresh_record e interface)" "us_interface (fresh_record e interface) = interface"
  "record_ptrs (fresh_record e interface) = {#}" "disk_ptrs (fresh_record e interface) = {#}"
  "interface \<noteq> NULL \<Longrightarrow> unit_ok e i (fresh_record e interface) b"
  by (simp_all add: fresh_record_def record_ptrs_def disk_ptrs_def unit_ok_def backing_ok_def zero_storage_record_def)

lemma usb_ok_fresh_record:
  assumes ok: "usb_ok e s" and i: "i < KB_USB_STORAGE_MAX" and idle: "\<not> us_active (unit_of s i)" and nz: "interface \<noteq> NULL"
    and new: "record_find_by_interface (storage s) interface = None"
  shows "usb_ok e (on_storage (on_record i (\<lambda>_. fresh_record e interface)) s)"
proof -
  let ?t = "on_storage (on_record i (\<lambda>_. fresh_record e interface)) s"
  note keys = usb_ok_keys [OF ok]
  have z: "unit_of s i = zero_storage_record" using unit_ok_of [OF ok i] idle by (simp add: unit_ok_def)
  have rs: "storage_records (storage ?t) = (storage_records (storage s))[i := fresh_record e interface]"
    by (simp add: on_storage_def on_record_def)
  have h: "usb_hcd_records ?t = usb_hcd_records s" "blocks ?t = blocks s" "live (storage ?t) = live (storage s)"
    by (simp_all add: on_storage_def on_record_def)
  have own: "owned ?t = owned s"
    "sum_list (map disk_ptrs (storage_records (storage ?t))) = sum_list (map disk_ptrs (storage_records (storage s)))"
    using owned_update [OF rs _ h(1)] keys(5) i by (simp_all add: z)
  show ?thesis
  proof (rule usb_ok_change [OF ok i rs])
    show "us_interface (unit_of s k) \<noteq> us_interface (fresh_record e interface)" if "k < 32" "us_active (unit_of s k)" for k
      using new nz first_record_None [of "\<lambda>r. us_interface r = interface" "storage_records (storage s)" k] that keys(5)
      by (simp add: record_find_by_interface_def)
    show "unit_ok e k (unit_of s k) (blocks ?t)" if "k < 32" for k using unit_ok_of [OF ok that] h by simp
  qed (use ok own h nz in \<open>simp_all add: usb_ok_def\<close>)
qed

lemma record_for_interface_cases:
  assumes "record_for_interface e w interface = (x, w')"
  obtains "w' = w" "x = record_find_by_interface w interface" | "w' = w" "x = None"
  | i where "interface \<noteq> NULL" "record_find_by_interface w interface = None" "first_inactive (storage_records w) = Some i"
      "x = Some i" "w' = on_record i (\<lambda>_. fresh_record e interface) w"
proof (cases "record_find_by_interface w interface \<noteq> None \<or> interface = NULL")
  case True
  then show ?thesis using assms that(1) by (auto simp: record_for_interface_def Let_def)
next
  case False
  show ?thesis
  proof (cases "first_inactive (storage_records w)")
    case None
    show ?thesis by (rule that(2)) (use assms False None in \<open>simp_all add: record_for_interface_def Let_def\<close>)
  next
    case (Some i)
    show ?thesis
      by (rule that(3) [of i]) (use assms False Some in \<open>simp_all add: record_for_interface_def fresh_record_def Let_def\<close>)
  qed
qed

lemma record_for_interface_ok:
  assumes ok: "usb_ok e s" and run: "record_for_interface e (storage s) interface = (x, w)"
  shows "usb_ok e (s\<lparr>storage := w\<rparr>) \<and> (x = Some i \<longrightarrow> unit_live e i (s\<lparr>storage := w\<rparr>) \<and> us_interface (record_of w i) = interface)"
  using run
proof (cases rule: record_for_interface_cases)
  case 1
  then show ?thesis
    using ok find_live [OF ok] find_interface(1) [of "storage s"] by auto
next
  case 2
  then show ?thesis
    using ok by simp
next
  case (3 j)
  have j: "j < 32" "\<not> us_active (unit_of s j)" using first_inactive_Some [OF 3(3)] usb_ok_keys(5) [OF ok] by simp_all
  have "record_of w j = fresh_record e interface" using j(1) usb_ok_keys(5) [OF ok] by (simp add: 3(5) on_record_def)
  moreover have "usb_ok e (s\<lparr>storage := w\<rparr>)"
    using usb_ok_fresh_record [OF ok j 3(1,2)] by (simp add: 3(5) on_storage_def)
  ultimately show ?thesis using j(1) 3(4) by auto
qed

section \<open>Events\<close>

lemma attach_endpoint_live: "unit_live e i s \<Longrightarrow> unit_live e i (on_storage (storage_attach_endpoint i endpoint) s)"
  using unit_live_on_record [where e = e and i = i and s = s and f = "\<lambda>r. if ep_direction_in endpoint \<noteq> 0
        then r\<lparr>us_bulk_in_endpoint := ep_address endpoint\<rparr> else r\<lparr>us_bulk_out_endpoint := ep_address endpoint\<rparr>"]
  by (simp add: on_storage_def storage_attach_endpoint_def core_def identity_def)

lemma collect_endpoints_live:
  "unit_live e i s \<Longrightarrow> unit_live e i (on_storage (storage_collect_endpoints endpoints i) s)"
  unfolding storage_collect_endpoints_def
proof (induction endpoints arbitrary: s)
  case (Cons x xs)
  have "unit_live e i (on_storage (endpoint_matches_record i x) s)"
    using attach_endpoint_live [OF Cons.prems, of x] Cons.prems by (simp add: endpoint_matches_record_def on_storage_def)
  then show ?case using Cons.IH [of "on_storage (endpoint_matches_record i x) s"] by (simp add: on_storage_def)
qed (simp add: on_storage_def)

lemma ensure_ok: "unit_live e i s \<Longrightarrow> usb_ok e (snd (storage_ensure_block e i s))"
  using storage_ensure_block_ok by blast

lemma observe_interface_ok:
  assumes ok: "usb_ok e s"
  shows "usb_ok e (kb_usb_storage_subsystem_observe_interface e interface s)"
proof (cases "if_interface_class interface = KB_USB_STORAGE_CLASS_MASS_STORAGE")
  case True
  obtain x w where x: "record_for_interface e (storage s) (if_interface interface) = (x, w)" by fastforce
  show ?thesis
  proof (cases x)
    case None
    then show ?thesis using True x record_for_interface_ok [OF ok x] by (simp add: kb_usb_storage_subsystem_observe_interface_def)
  next
    case (Some i)
    let ?f = "\<lambda>r. r\<lparr>us_udev := if_udev interface, us_interface := if_interface interface,
                us_linux_device := if_linux_device interface, us_parent_linux_device := if_parent_linux_device interface,
                us_driver := if_driver interface, us_driver_data := if_driver_data interface,
                us_interface_number := if_interface_number interface, us_subclass := if_interface_subclass interface,
                us_protocol := if_interface_protocol interface\<rparr>"
    let ?t = "s\<lparr>storage := w\<rparr>"
    have l: "unit_live e i ?t" and n: "us_interface (record_of w i) = if_interface interface"
      using record_for_interface_ok [OF ok x, of i] Some by simp_all
    have "unit_live e i (on_storage (on_record i ?f) ?t)"
      by (rule unit_live_on_record [OF l]) (simp_all add: core_def identity_def n)
    then have l2: "unit_live e i (on_storage (storage_collect_endpoints (usb_endpoint_records s) i) (on_storage (on_record i ?f) ?t))"
      (is "unit_live e i ?u") by (rule collect_endpoints_live)
    have "kb_usb_storage_subsystem_observe_interface e interface s =
        (if wants_block (storage ?u) (if_driver interface) (if_driver_data interface) then snd (storage_ensure_block e i ?u) else ?u)"
      using True x Some by (simp add: kb_usb_storage_subsystem_observe_interface_def on_storage_def Let_def)
    then show ?thesis using l2 ensure_ok [OF l2] by simp
  qed
qed (simp add: kb_usb_storage_subsystem_observe_interface_def ok)

lemma observe_endpoint_ok:
  assumes ok: "usb_ok e s"
  shows "usb_ok e (kb_usb_storage_subsystem_observe_endpoint e endpoint s)"
  using ok attach_endpoint_live [OF find_live [OF ok]] ensure_ok [OF attach_endpoint_live [OF find_live [OF ok]]]
  by (auto simp: kb_usb_storage_subsystem_observe_endpoint_def Let_def split: option.split)

lemma note_driver_record_ok:
  assumes "usb_ok e s" and "i < KB_USB_STORAGE_MAX"
  shows "usb_ok e (note_driver_record e driver i s)"
proof (cases "us_active (unit_of s i)")
  case True
  let ?s = "on_storage (on_record i (\<lambda>r. r\<lparr>us_driver := driver\<rparr>)) s"
  have "unit_live e i ?s" by (rule unit_live_on_record) (use assms True in \<open>simp_all add: core_def identity_def\<close>)
  then have "usb_ok e (snd (storage_ensure_block e i (on_storage (storage_collect_endpoints (usb_endpoint_records s) i) ?s)))"
    by (intro ensure_ok collect_endpoints_live)
  then show ?thesis using True by (simp add: note_driver_record_def on_storage_def)
qed (use assms in \<open>simp add: note_driver_record_def\<close>)

lemma usb_ok_driver_flag: "usb_ok e s \<Longrightarrow> usb_ok e (on_storage (\<lambda>w. w\<lparr>storage_driver_registered := x\<rparr>) s)"
  by (erule usb_ok_frame) (simp_all add: on_storage_def)

lemma note_driver_registered_ok:
  assumes "usb_ok e s"
  shows "usb_ok e (kb_usb_storage_subsystem_note_driver_registered e driver module_name s)"
proof -
  have "usb_ok e (fold (note_driver_record e driver) is t)" if "\<forall>i\<in>set is. i < 32" "usb_ok e t" for "is" t
    using that by (induction "is" arbitrary: t) (simp_all add: note_driver_record_ok)
  then show ?thesis using assms usb_ok_driver_flag [OF assms]
    by (simp add: kb_usb_storage_subsystem_note_driver_registered_def)
qed

end
