(* ===== verification/Usb_Scsi.thy ===== *)
theory Usb_Scsi
  imports Usb_Disk
begin

text \<open>
  SCSI commands and the bulk-only transport of the mass-storage part: what READ(10) and WRITE(10) do
  to the medium, the status wrapper of every transfer, and the self test.
\<close>

section \<open>Fields\<close>

lemma byte_of_bit:
  assumes "n < LENGTH(32)"
  obtains "n < 8" | "8 \<le> n" "n < 16" | "16 \<le> n" "n < 24" | "24 \<le> n" "n < 32"
  using assms by fastforce

lemma read_le32_write [simp]: "read_le32 (write_le32 x @ rest) = x"
proof (rule bit_word_eqI)
  fix n assume "n < LENGTH(32)"
  then show "bit (read_le32 (write_le32 x @ rest)) n = bit x n"
    by (cases rule: byte_of_bit) (simp_all add: read_le32_def write_le32_def nth_append bit_simps less_diff_conv2)
qed

lemma read_be32_write [simp]: "read_be32 (write_be32 x @ rest) = x"
proof (rule bit_word_eqI)
  fix n assume "n < LENGTH(32)"
  then show "bit (read_be32 (write_be32 x @ rest)) n = bit x n"
    by (cases rule: byte_of_bit) (simp_all add: read_be32_def write_be32_def nth_append bit_simps less_diff_conv2)
qed

lemma length_write32 [simp]: "length (write_le32 x) = 4" "length (write_be32 x) = 4"
  by (simp_all add: write_le32_def write_be32_def)

section \<open>READ(10) and WRITE(10)\<close>

definition command_lba :: "bytes \<Rightarrow> u64" where
  "command_lba c = ucast (read_be32 (drop 2 c))"

definition command_blocks :: "bytes \<Rightarrow> u64" where
  "command_blocks c = ucast (read_be16 (drop 7 c))"

text \<open>A command that addresses blocks of the medium, with a buffer for them.\<close>

definition addresses :: "kb_usb_storage_record \<Rightarrow> bytes \<Rightarrow> u64 \<Rightarrow> bytes \<Rightarrow> bool" where
  "addresses r c buffer_len buf \<longleftrightarrow> 10 \<le> length c \<and> command_blocks c \<noteq> 0 \<and>
     command_lba c + command_blocks c \<le> us_capacity_sectors r \<and> unat (us_capacity_sectors r) * 512 < 2 ^ 64 \<and>
     command_blocks c * 512 \<le> buffer_len \<and> unat buffer_len \<le> length buf"

lemma command_sizes:
  "unat (command_blocks c * 512) = unat (command_blocks c) * 512"
  "unat (command_lba c + command_blocks c) = unat (command_lba c) + unat (command_blocks c)"
proof -
  have b: "unat (command_blocks c) < 2 ^ 16" using unat_u16_bound by (simp add: command_blocks_def)
  then show "unat (command_blocks c * 512) = unat (command_blocks c) * 512"
    using unat_mult_no_wrap [of "command_blocks c" 512] by simp
  have "unat (command_lba c) < 2 ^ 32" using unat_u32_bound by (simp add: command_lba_def)
  with b show "unat (command_lba c + command_blocks c) = unat (command_lba c) + unat (command_blocks c)"
    using unat_add_no_wrap [of "command_lba c" "command_blocks c"] by simp
qed

lemma addresses_range:
  assumes "addresses r c buffer_len buf"
  shows "unit_range r (command_lba c) (command_blocks c * 512)" "unat (command_blocks c * 512) \<le> length buf"
proof -
  have 1: "unat (command_lba c) + unat (command_blocks c) \<le> unat (us_capacity_sectors r)"
    and 2: "unat (command_blocks c) * 512 \<le> unat buffer_len"
    using assms by (simp_all add: addresses_def word_le_nat_alt command_sizes)
  have 3: "unat (command_blocks c) \<noteq> 0" using assms by (auto simp: addresses_def unat_gt_0)
  then have "command_blocks c * 512 \<noteq> 0" using command_sizes(1) [of c] by (metis mult_eq_0_iff unat_0 zero_neq_numeral)
  with 1 3 assms show "unit_range r (command_lba c) (command_blocks c * 512)"
    by (simp add: unit_range_def addresses_def command_sizes)
  show "unat (command_blocks c * 512) \<le> length buf" using 2 assms by (simp add: addresses_def command_sizes)
qed

lemma scsi_command_start:
  assumes "disk_ready e i s" and "c \<noteq> []"
  defines "s1 \<equiv> on_storage (on_record i (\<lambda>r. r\<lparr>us_scsi_command_count := us_scsi_command_count r + 1,
    us_last_scsi_opcode := c ! 0\<rparr>)) s"
  shows "kb_usb_storage_subsystem_scsi_command (us_interface (unit_of s i)) (Some c) buffer buffer_len data_out s =
      scsi_dispatch i c buffer buffer_len data_out s1"
    "disk_ready e i s1" "device_kept i s s1" "medium (unit_of s1 i) = medium (unit_of s i)"
proof -
  show r: "disk_ready e i s1" "device_kept i s s1" "medium (unit_of s1 i) = medium (unit_of s i)"
    unfolding s1_def by (rule ready_on_record [OF assms(1)]; simp add: identity_def)+
  then show "kb_usb_storage_subsystem_scsi_command (us_interface (unit_of s i)) (Some c) buffer buffer_len data_out s =
      scsi_dispatch i c buffer buffer_len data_out s1"
    using assms(1,2) unfolding kb_usb_storage_subsystem_scsi_command_def
    by (simp add: disk_ready_def Let_def flip: s1_def)
qed

text \<open>The reply of a command that reads or writes blocks, once its fields were checked.\<close>

lemma scsi_read_write_addresses:
  assumes "addresses (unit_of s i) c buffer_len buf" and "us_sector_size (unit_of s i) = 512"
  shows "scsi_read_write i write c (Some buf) buffer_len write s =
    (case disk_transfer write (us_disk (unit_of s i)) (command_lba c) (Some buf) (command_blocks c * 512) s of (result, buffer, s) \<Rightarrow>
      if result \<noteq> 0
      then scsi_check i 5 (if result = -34 then 0x21 else 0x24) buffer buffer_len s
      else (0, result_good (command_blocks c * 512) buffer_len, buffer,
        on_storage (on_record i (\<lambda>r. if write
          then r\<lparr>us_scsi_write_command_count := us_scsi_write_command_count r + 1\<rparr>
          else r\<lparr>us_scsi_read_command_count := us_scsi_read_command_count r + 1\<rparr>)) s))"
proof -
  have "\<not> length c < 10" "command_blocks c \<noteq> 0" "\<not> us_capacity_sectors (unit_of s i) < command_lba c + command_blocks c"
    "\<not> buffer_len < command_blocks c * 512"
    using assms(1) by (simp_all add: addresses_def not_less)
  then show ?thesis
    unfolding scsi_read_write_def command_lba_def [symmetric] command_blocks_def [symmetric]
    by (simp add: Let_def assms(2) split: prod.split)
qed

lemma scsi_check_ready:
  assumes "disk_ready e i s"
  shows "\<exists>result s'. scsi_check i key asc buffer buffer_len s = (0, result, buffer, s') \<and> sr_status result = 2 \<and>
    sr_sense_key result = key \<and> sr_asc result = asc \<and> disk_ready e i s' \<and> device_kept i s s' \<and>
    medium (unit_of s' i) = medium (unit_of s i)"
proof -
  let ?f = "\<lambda>r. r\<lparr>us_last_sense_key := key, us_last_asc := asc, us_last_ascq := 0\<rparr>"
  have "disk_ready e i (on_storage (on_record i ?f) s)" "device_kept i s (on_storage (on_record i ?f) s)"
    "medium (unit_of (on_storage (on_record i ?f) s) i) = medium (unit_of s i)"
    by (rule ready_on_record [OF assms]; simp add: identity_def)+
  then show ?thesis
    by (simp add: scsi_check_def run_storage_def result_check_condition_def on_storage_def)
qed

lemma scsi_read_unit:
  assumes ready: "disk_ready e i s" and addr: "addresses (unit_of s i) c buffer_len buf" and op: "c ! 0 = 0x28"
  shows "\<exists>s'. kb_usb_storage_subsystem_scsi_command (us_interface (unit_of s i)) (Some c) (Some buf) buffer_len False s =
      (0, result_good (command_blocks c * 512) buffer_len,
       Some (splice 0 (stretch (medium (unit_of s i)) (command_lba c * 512) (unat (command_blocks c) * 512)) buf), s') \<and>
    disk_ready e i s' \<and> device_kept i s s' \<and> medium (unit_of s' i) = medium (unit_of s i)"
proof -
  define s1 where "s1 = on_storage (on_record i (\<lambda>r. r\<lparr>us_scsi_command_count := us_scsi_command_count r + 1,
    us_last_scsi_opcode := c ! 0\<rparr>)) s"
  have "c \<noteq> []" using addr by (auto simp: addresses_def)
  note start = scsi_command_start [OF ready this, folded s1_def]
  note id = identity_simps [OF device_kept_identity [OF start(3) ready_index(1) [OF ready]]]
  have addr1: "addresses (unit_of s1 i) c buffer_len buf" using addr by (simp add: addresses_def id)
  have ss: "us_sector_size (unit_of s1 i) = 512" using start(2) by (simp add: disk_ready_def)
  obtain s2 where rd: "disk_transfer False (us_disk (unit_of s1 i)) (command_lba c) (Some buf) (command_blocks c * 512) s1 =
      (0, Some (splice 0 (stretch (medium (unit_of s1 i)) (command_lba c * 512) (unat (command_blocks c) * 512)) buf), s2)"
    and s2: "disk_ready e i s2" "device_kept i s1 s2" "medium (unit_of s2 i) = medium (unit_of s1 i)"
    using disk_read_unit [OF start(2) addresses_range [OF addr1]] by (auto simp: command_sizes)
  let ?f = "\<lambda>r. r\<lparr>us_scsi_read_command_count := us_scsi_read_command_count r + 1\<rparr>"
  have s3: "disk_ready e i (on_storage (on_record i ?f) s2)" "device_kept i s2 (on_storage (on_record i ?f) s2)"
    "medium (unit_of (on_storage (on_record i ?f) s2) i) = medium (unit_of s2 i)"
    by (rule ready_on_record [OF s2(1)]; simp add: identity_def)+
  have "scsi_dispatch i c (Some buf) buffer_len False s1 = scsi_read_write i False c (Some buf) buffer_len False s1"
    using op by (simp add: scsi_dispatch_def)
  also have "\<dots> = (0, result_good (command_blocks c * 512) buffer_len,
      Some (splice 0 (stretch (medium (unit_of s i)) (command_lba c * 512) (unat (command_blocks c) * 512)) buf),
      on_storage (on_record i ?f) s2)"
    using rd start(4) by (simp add: scsi_read_write_addresses [OF addr1 ss])
  finally show ?thesis
    using start s2 s3 device_kept_trans [OF device_kept_trans [OF start(3) s2(2)] s3(2)] by simp
qed

lemma scsi_write_unit:
  assumes ready: "disk_ready e i s" and addr: "addresses (unit_of s i) c buffer_len buf" and op: "c ! 0 = 0x2a"
  shows "\<exists>result s' k. kb_usb_storage_subsystem_scsi_command (us_interface (unit_of s i)) (Some c) (Some buf) buffer_len True s =
      (0, result, Some buf, s') \<and>
    disk_ready e i s' \<and> device_kept i s s' \<and> k \<le> unat (command_blocks c) * 512 \<and>
    medium (unit_of s' i) = overwrite (command_lba c * 512) (take k buf) (medium (unit_of s i)) \<and>
    (result = result_good (command_blocks c * 512) buffer_len \<and> k = unat (command_blocks c) * 512 \<or>
     sr_status result = 2 \<and> (\<exists>m. e_calloc e m = NULL))"
proof -
  define s1 where "s1 = on_storage (on_record i (\<lambda>r. r\<lparr>us_scsi_command_count := us_scsi_command_count r + 1,
    us_last_scsi_opcode := c ! 0\<rparr>)) s"
  have "c \<noteq> []" using addr by (auto simp: addresses_def)
  note start = scsi_command_start [OF ready this, folded s1_def]
  note id = identity_simps [OF device_kept_identity [OF start(3) ready_index(1) [OF ready]]]
  have addr1: "addresses (unit_of s1 i) c buffer_len buf" using addr by (simp add: addresses_def id)
  have ss: "us_sector_size (unit_of s1 i) = 512" using start(2) by (simp add: disk_ready_def)
  obtain result s2 k where wr: "disk_transfer True (us_disk (unit_of s1 i)) (command_lba c) (Some buf) (command_blocks c * 512) s1 =
      (result, Some buf, s2)"
    and s2: "disk_ready e i s2" "device_kept i s1 s2"
    and k: "k \<le> unat (command_blocks c) * 512" "medium (unit_of s2 i) = overwrite (command_lba c * 512) (take k buf) (medium (unit_of s1 i))"
      "result = 0 \<and> k = unat (command_blocks c) * 512 \<or> result = -12 \<and> (\<exists>m. e_calloc e m = NULL)"
    using disk_write_unit [OF start(2) addresses_range [OF addr1]] unfolding command_sizes by blast
  have kept: "device_kept i s s2" by (rule device_kept_trans [OF start(3) s2(2)])
  have disp: "kb_usb_storage_subsystem_scsi_command (us_interface (unit_of s i)) (Some c) (Some buf) buffer_len True s =
      scsi_read_write i True c (Some buf) buffer_len True s1"
    using op by (simp add: start(1) scsi_dispatch_def)
  show ?thesis
  proof (cases "result = 0")
    case True
    let ?f = "\<lambda>r. r\<lparr>us_scsi_write_command_count := us_scsi_write_command_count r + 1\<rparr>"
    have s3: "disk_ready e i (on_storage (on_record i ?f) s2)" "device_kept i s2 (on_storage (on_record i ?f) s2)"
      "medium (unit_of (on_storage (on_record i ?f) s2) i) = medium (unit_of s2 i)"
      by (rule ready_on_record [OF s2(1)]; simp add: identity_def)+
    have "scsi_read_write i True c (Some buf) buffer_len True s1 =
        (0, result_good (command_blocks c * 512) buffer_len, Some buf, on_storage (on_record i ?f) s2)"
      using wr True by (simp add: scsi_read_write_addresses [OF addr1 ss])
    with disp s3 k True start(4) device_kept_trans [OF kept s3(2)] show ?thesis by auto
  next
    case False
    obtain res s3 where chk: "scsi_check i 5 0x24 (Some buf) buffer_len s2 = (0, res, Some buf, s3)" "sr_status res = 2"
      "disk_ready e i s3" "device_kept i s2 s3" "medium (unit_of s3 i) = medium (unit_of s2 i)"
      using scsi_check_ready [OF s2(1)] by blast
    have "scsi_read_write i True c (Some buf) buffer_len True s1 = (0, res, Some buf, s3)"
      using wr False k(3) chk(1) by (auto simp: scsi_read_write_addresses [OF addr1 ss])
    with disp chk k False start(4) device_kept_trans [OF kept chk(4)] show ?thesis by auto
  qed
qed

section \<open>Data-in commands\<close>

text \<open>A reply with constant data.\<close>

lemma scsi_data_ready:
  assumes ready: "disk_ready e i s" and "c \<noteq> []"
    and disp: "\<And>s1. disk_ready e i s1 \<Longrightarrow> identity (unit_of s1 i) = identity (unit_of s i) \<Longrightarrow>
      scsi_dispatch i c (Some buf) buffer_len False s1 = scsi_data data (Some buf) buffer_len s1"
    and len: "length data = length buf" "buffer_len = of_nat (length buf)" "buf \<noteq> []" "length buf < 2 ^ 32"
  shows "\<exists>s'. kb_usb_storage_subsystem_scsi_command (us_interface (unit_of s i)) (Some c) (Some buf) buffer_len False s =
      (0, result_good buffer_len buffer_len, Some data, s') \<and>
    disk_ready e i s' \<and> device_kept i s s' \<and> medium (unit_of s' i) = medium (unit_of s i)"
proof -
  define s1 where "s1 = on_storage (on_record i (\<lambda>r. r\<lparr>us_scsi_command_count := us_scsi_command_count r + 1,
    us_last_scsi_opcode := c ! 0\<rparr>)) s"
  note start = scsi_command_start [OF ready assms(2), folded s1_def]
  have u: "unat buffer_len = length buf" using len(2,4) by (simp add: unat_of_nat)
  then have "buffer_len \<noteq> 0" using len(3) by auto
  then have "copy_limited (Some buf) buffer_len data = (buffer_len, Some data)"
    using len u by (simp add: copy_limited_def Let_def splice_all)
  then have "scsi_dispatch i c (Some buf) buffer_len False s1 = (0, result_good buffer_len buffer_len, Some data, s1)"
    using disp [OF start(2) device_kept_identity [OF start(3) ready_index(1) [OF ready]]] by (simp add: scsi_data_def)
  with start show ?thesis by simp
qed

lemma result_good_full [simp]:
  "sr_status (result_good n n) = 0" "sr_residue (result_good n n) = 0" "sr_data_transferred (result_good n n) = n"
  by (simp_all add: result_good_def Let_def)

section \<open>The bulk-only transport\<close>

lemma build_cbw_fields:
  fixes tag len :: u32 and data_in :: bool
  assumes "0 < length cdb" and "length cdb \<le> 16"
  defines "cbw \<equiv> storage_build_bot_cbw tag len data_in cdb"
  shows "length cbw = 31" "read_le32 cbw = 0x43425355" "read_le32 (drop 4 cbw) = tag" "read_le32 (drop 8 cbw) = len"
    "cbw ! 12 = (if data_in then 0x80 else 0)" "cbw ! 13 = 0" "cbw ! 14 = of_nat (length cdb)"
    "take (unat (of_nat (length cdb) :: u8)) (drop 15 cbw) = cdb"
proof -
  have cdb: "unat (of_nat (length cdb) :: u8) = length cdb" using assms(2) by (simp add: unat_of_nat)
  show "length cbw = 31" "read_le32 cbw = 0x43425355" "read_le32 (drop 4 cbw) = tag" "read_le32 (drop 8 cbw) = len"
    "cbw ! 12 = (if data_in then 0x80 else 0)" "cbw ! 13 = 0" "cbw ! 14 = of_nat (length cdb)"
    "take (unat (of_nat (length cdb) :: u8)) (drop 15 cbw) = cdb"
    using assms(2) unfolding cbw_def storage_build_bot_cbw_def cdb
    by (simp_all add: nth_append)
qed

lemma bot_transfer_cbw:
  assumes ready: "disk_ready e i s" and cdb: "0 < length cdb" "length cdb \<le> 16" and len: "len \<noteq> 0" "ucast len \<le> data_len"
  defines "s1 \<equiv> on_storage (on_record i (\<lambda>r. r\<lparr>us_bot_command_count := us_bot_command_count r + 1\<rparr>)) s"
  shows "kb_usb_storage_subsystem_bot_transfer (us_interface (unit_of s i)) (Some (storage_build_bot_cbw tag len data_in cdb))
      (Some buf) data_len s =
    (case kb_usb_storage_subsystem_scsi_command (us_interface (unit_of s1 i)) (Some cdb) (Some buf) (ucast len) (\<not> data_in) s1 of
       (result, scsi_result, data, s) \<Rightarrow>
         if result \<noteq> 0 then bot_finish i zero_bot_result tag len 2 data s
         else bot_finish i (zero_bot_result\<lparr>br_data_transferred := sr_data_transferred scsi_result\<rparr>) tag
           (if sr_residue scsi_result > len then len else sr_residue scsi_result)
           (if sr_status scsi_result = 0 then 0 else 1) data s)"
    "disk_ready e i s1" "device_kept i s s1" "medium (unit_of s1 i) = medium (unit_of s i)"
proof -
  show r: "disk_ready e i s1" "device_kept i s s1" "medium (unit_of s1 i) = medium (unit_of s i)"
    unfolding s1_def by (rule ready_on_record [OF ready]; simp add: identity_def)+
  have iface: "us_interface (unit_of s1 i) = us_interface (unit_of s i)"
    by (rule identity_simps(2) [OF device_kept_identity [OF r(2) ready_index(1) [OF ready]]])
  have find: "record_find_by_interface (storage s) (us_interface (unit_of s i)) = Some i" using ready by (simp add: disk_ready_def)
  have c: "unat (of_nat (length cdb) :: u8) = length cdb" using cdb(2) by (simp add: unat_of_nat)
  have n: "(of_nat (length cdb) :: u8) \<noteq> 0" "\<not> (of_nat (length cdb) :: u8) > 16" "\<not> ucast len > data_len"
    using cdb len by (simp_all add: word_unat_eq_iff word_less_nat_alt c not_less word_le_nat_alt)
  show "kb_usb_storage_subsystem_bot_transfer (us_interface (unit_of s i)) (Some (storage_build_bot_cbw tag len data_in cdb))
      (Some buf) data_len s =
    (case kb_usb_storage_subsystem_scsi_command (us_interface (unit_of s1 i)) (Some cdb) (Some buf) (ucast len) (\<not> data_in) s1 of
       (result, scsi_result, data, s) \<Rightarrow>
         if result \<noteq> 0 then bot_finish i zero_bot_result tag len 2 data s
         else bot_finish i (zero_bot_result\<lparr>br_data_transferred := sr_data_transferred scsi_result\<rparr>) tag
           (if sr_residue scsi_result > len then len else sr_residue scsi_result)
           (if sr_status scsi_result = 0 then 0 else 1) data s)"
    unfolding kb_usb_storage_subsystem_bot_transfer_def iface
    using find n len by (cases data_in) (simp_all add: build_cbw_fields [OF cdb] Let_def flip: s1_def split: prod.split)
qed

lemma bot_finish_ready:
  assumes "disk_ready e i s"
  shows "\<exists>s'. bot_finish i result tag residue status data s = (0, bot_fill_csw result tag residue status, data, s') \<and>
    disk_ready e i s' \<and> device_kept i s s' \<and> medium (unit_of s' i) = medium (unit_of s i)"
proof -
  have "disk_ready e i (on_storage (bot_record_status i tag residue status) s)"
    "device_kept i s (on_storage (bot_record_status i tag residue status) s)"
    "medium (unit_of (on_storage (bot_record_status i tag residue status) s) i) = medium (unit_of s i)"
    unfolding bot_record_status_def
    by (rule ready_on_record [OF assms]; simp add: identity_def Let_def)+
  then show ?thesis by (simp add: bot_finish_def)
qed

text \<open>The reply to a command that succeeded and moved all its data.\<close>

definition transfer_passed :: "u32 \<Rightarrow> u64 \<Rightarrow> kb_usb_storage_bot_result \<Rightarrow> bool" where
  "transfer_passed tag n result \<longleftrightarrow> br_status result = 0 \<and> br_residue result = 0 \<and> br_tag result = tag \<and>
     br_data_transferred result = n \<and> br_csw result = write_le32 0x53425355 @ write_le32 tag @ write_le32 0 @ [0]"

lemma bot_outcome:
  assumes ready: "disk_ready e i s" and cdb: "0 < length cdb" "length cdb \<le> 16" and len: "len \<noteq> 0" "ucast len \<le> data_len"
    and scsi: "\<And>s1. disk_ready e i s1 \<Longrightarrow> device_kept i s s1 \<Longrightarrow> medium (unit_of s1 i) = medium (unit_of s i) \<Longrightarrow>
      \<exists>sres s2. kb_usb_storage_subsystem_scsi_command (us_interface (unit_of s1 i)) (Some cdb) (Some buf) (ucast len) (\<not> data_in) s1 =
          (0, sres, Some out, s2) \<and> disk_ready e i s2 \<and> device_kept i s1 s2 \<and> P sres (medium (unit_of s2 i))"
  shows "\<exists>sres s'. kb_usb_storage_subsystem_bot_transfer (us_interface (unit_of s i))
      (Some (storage_build_bot_cbw tag len data_in cdb)) (Some buf) data_len s =
        (0, bot_fill_csw (zero_bot_result\<lparr>br_data_transferred := sr_data_transferred sres\<rparr>) tag
           (if sr_residue sres > len then len else sr_residue sres) (if sr_status sres = 0 then 0 else 1), Some out, s') \<and>
    P sres (medium (unit_of s' i)) \<and> disk_ready e i s' \<and> device_kept i s s'"
proof -
  define s1 where "s1 = on_storage (on_record i (\<lambda>r. r\<lparr>us_bot_command_count := us_bot_command_count r + 1\<rparr>)) s"
  note bot = bot_transfer_cbw [OF ready cdb len, folded s1_def]
  obtain sres s2 where s2: "kb_usb_storage_subsystem_scsi_command (us_interface (unit_of s1 i)) (Some cdb)
      (Some buf) (ucast len) (\<not> data_in) s1 = (0, sres, Some out, s2)"
    "disk_ready e i s2" "device_kept i s1 s2" "P sres (medium (unit_of s2 i))"
    using scsi [OF bot(2-4)] by blast
  let ?res = "zero_bot_result\<lparr>br_data_transferred := sr_data_transferred sres\<rparr>"
  let ?residue = "if sr_residue sres > len then len else sr_residue sres"
  let ?status = "if sr_status sres = 0 then 0 else 1"
  obtain s3 where s3: "bot_finish i ?res tag ?residue ?status (Some out) s2 = (0, bot_fill_csw ?res tag ?residue ?status, Some out, s3)"
    "disk_ready e i s3" "device_kept i s2 s3" "medium (unit_of s3 i) = medium (unit_of s2 i)"
    using bot_finish_ready [OF s2(2)] by blast
  have "kb_usb_storage_subsystem_bot_transfer (us_interface (unit_of s i))
      (Some (storage_build_bot_cbw tag len data_in cdb)) (Some buf) data_len s =
      (0, bot_fill_csw ?res tag ?residue ?status, Some out, s3)"
    unfolding bot(1) s2(1) using s3(1) by simp
  then show ?thesis
    using s2(4) s3(2,4) device_kept_trans [OF device_kept_trans [OF bot(3) s2(3)] s3(3)] by auto
qed

lemma fill_passed:
  "transfer_passed tag (ucast len) (bot_fill_csw (zero_bot_result\<lparr>br_data_transferred := sr_data_transferred sres\<rparr>) tag
     (if sr_residue sres > len then len else sr_residue sres) (if sr_status sres = 0 then 0 else 1))"
  if "sres = result_good (ucast len) (ucast len)"
  using that by (simp add: transfer_passed_def bot_fill_csw_def)

section \<open>Commands of a host\<close>

definition write_be16 :: "u16 \<Rightarrow> bytes" where
  "write_be16 x = [ucast (drop_bit 8 x), ucast x]"

text \<open>READ(10) and WRITE(10) as a host builds them.\<close>

definition rw_cdb :: "u8 \<Rightarrow> u32 \<Rightarrow> u16 \<Rightarrow> bytes" where
  "rw_cdb opcode lba count = [opcode, 0] @ write_be32 lba @ [0] @ write_be16 count @ [0]"

lemma read_be16_write [simp]: "read_be16 (write_be16 x @ rest) = x"
proof (rule bit_word_eqI)
  fix n assume "n < LENGTH(16)"
  then consider "n < 8" | "8 \<le> n" "n < 16" by fastforce
  then show "bit (read_be16 (write_be16 x @ rest)) n = bit x n"
    by cases (simp_all add: read_be16_def write_be16_def nth_append bit_simps less_diff_conv2)
qed

lemma rw_cdb_fields [simp]:
  "rw_cdb op lba count ! 0 = op" "length (rw_cdb op lba count) = 10"
  "command_lba (rw_cdb op lba count) = ucast lba" "command_blocks (rw_cdb op lba count) = ucast count"
  by (simp_all add: rw_cdb_def command_lba_def command_blocks_def) (simp_all add: write_be16_def)

lemma rw_addresses:
  assumes "count \<noteq> 0" and "unat lba + unat count \<le> unat (us_capacity_sectors r)" and "unat (us_capacity_sectors r) * 512 < 2 ^ 64"
    and "length buf = unat count * 512"
  shows "addresses r (rw_cdb op lba count) (of_nat (length buf)) buf" "unat (of_nat (length buf) :: u64) = length buf"
    "(of_nat (length buf) :: u64) = ucast count * 512"
proof -
  have b: "unat count < 65536" using unat_u16_bound [of count] by simp
  show n: "(of_nat (length buf) :: u64) = ucast count * 512" by (simp add: assms(4))
  show u: "unat (of_nat (length buf) :: u64) = length buf"
    unfolding n using b unat_mult_no_wrap [of "ucast count :: u64" 512] by (simp add: assms(4))
  have "ucast count \<noteq> (0 :: u64)" using assms(1) by (simp add: word_unat_eq_iff)
  then show "addresses r (rw_cdb op lba count) (of_nat (length buf)) buf"
    using assms(2,3) command_sizes(2) [of "rw_cdb op lba count"] u by (simp add: addresses_def word_le_nat_alt n)
qed

text \<open>The length field of a command wrapper for a whole number of blocks.\<close>

lemma transfer_length:
  assumes "count \<noteq> 0" and "length buf = unat (count :: u16) * 512"
  shows "(of_nat (length buf) :: u32) \<noteq> 0" "(ucast (of_nat (length buf) :: u32) :: u64) = of_nat (length buf)"
proof -
  have b: "unat count < 65536" "0 < unat count" using unat_u16_bound [of count] assms(1) by (simp_all add: unat_gt_0)
  have u: "unat (of_nat (length buf) :: u32) = length buf" using b by (simp add: unat_of_nat assms(2) del: of_nat_mult)
  then show "(of_nat (length buf) :: u32) \<noteq> 0" using b assms(2) by (auto simp: word_unat_eq_iff)
  show "(ucast (of_nat (length buf) :: u32) :: u64) = of_nat (length buf)"
    using b u by (simp add: word_unat_eq_iff unat_of_nat assms(2) del: of_nat_mult)
qed

text \<open>A range of blocks of the medium, with a buffer of that size.\<close>

definition blocks_at :: "kb_usb_storage_record \<Rightarrow> u32 \<Rightarrow> u16 \<Rightarrow> bytes \<Rightarrow> bool" where
  "blocks_at r lba count buf \<longleftrightarrow> count \<noteq> 0 \<and> unat lba + unat count \<le> unat (us_capacity_sectors r) \<and>
     unat (us_capacity_sectors r) * 512 < 2 ^ 64 \<and> length buf = unat count * 512"

lemma blocks_at_addresses:
  assumes "blocks_at r lba count buf"
  shows "addresses r (rw_cdb op lba count) (of_nat (length buf)) buf" "unat (of_nat (length buf) :: u64) = length buf"
    "command_blocks (rw_cdb op lba count) * 512 = of_nat (length buf)"
  using assms rw_addresses [of count lba r buf] by (simp_all add: blocks_at_def)

lemma bot_write_blocks:
  assumes ready: "disk_ready e i s" and at: "blocks_at (unit_of s i) lba count data"
  shows "\<exists>result s' k. kb_usb_storage_subsystem_bot_transfer (us_interface (unit_of s i))
      (Some (storage_build_bot_cbw tag (of_nat (length data)) False (rw_cdb 0x2a lba count))) (Some data) (of_nat (length data)) s =
      (0, result, Some data, s') \<and> disk_ready e i s' \<and> device_kept i s s' \<and>
    medium (unit_of s' i) = overwrite (ucast lba * 512) (take k data) (medium (unit_of s i)) \<and>
    (transfer_passed tag (of_nat (length data)) result \<and> k = length data \<or> br_status result = 1 \<and> (\<exists>m. e_calloc e m = NULL))"
proof -
  let ?len = "of_nat (length data) :: u32" and ?c = "rw_cdb 0x2a lba count"
  have len: "?len \<noteq> 0" "ucast ?len = (of_nat (length data) :: u64)"
    using transfer_length [of count data] at by (simp_all add: blocks_at_def)
  let ?P = "\<lambda>sres m. \<exists>k. m = overwrite (ucast lba * 512) (take k data) (medium (unit_of s i)) \<and>
    (sres = result_good (ucast ?len) (ucast ?len) \<and> k = length data \<or> sr_status sres = 2 \<and> (\<exists>m. e_calloc e m = NULL))"
  have "\<exists>sres s2. kb_usb_storage_subsystem_scsi_command (us_interface (unit_of s1 i)) (Some ?c) (Some data) (ucast ?len) (\<not> False) s1 =
      (0, sres, Some data, s2) \<and> disk_ready e i s2 \<and> device_kept i s1 s2 \<and> ?P sres (medium (unit_of s2 i))"
    if r1: "disk_ready e i s1" and k1: "device_kept i s s1" and m1: "medium (unit_of s1 i) = medium (unit_of s i)" for s1
  proof -
    note id = identity_simps [OF device_kept_identity [OF k1 ready_index(1) [OF ready]]]
    have at1: "blocks_at (unit_of s1 i) lba count data" using at by (simp add: blocks_at_def id)
    note wr = scsi_write_unit [OF r1 blocks_at_addresses(1) [OF at1] rw_cdb_fields(1)]
    have n: "unat (command_blocks ?c) * 512 = length data" using at by (simp add: blocks_at_def)
    show ?thesis
      using wr unfolding n len(2) m1 blocks_at_addresses(3) [OF at] rw_cdb_fields(3) not_False_eq_True by blast
  qed
  then obtain sres s' where "kb_usb_storage_subsystem_bot_transfer (us_interface (unit_of s i))
      (Some (storage_build_bot_cbw tag ?len False ?c)) (Some data) (of_nat (length data)) s =
        (0, bot_fill_csw (zero_bot_result\<lparr>br_data_transferred := sr_data_transferred sres\<rparr>) tag
           (if sr_residue sres > ?len then ?len else sr_residue sres) (if sr_status sres = 0 then 0 else 1), Some data, s')"
    "?P sres (medium (unit_of s' i))" "disk_ready e i s'" "device_kept i s s'"
    using bot_outcome [OF ready, of ?c ?len "of_nat (length data)" data False data ?P tag] len by auto
  moreover from this(2) obtain k where "medium (unit_of s' i) = overwrite (ucast lba * 512) (take k data) (medium (unit_of s i))"
    "sres = result_good (ucast ?len) (ucast ?len) \<and> k = length data \<or> sr_status sres = 2 \<and> (\<exists>m. e_calloc e m = NULL)" by blast
  ultimately show ?thesis using fill_passed [of sres ?len tag] by (auto simp: len(2) bot_fill_csw_def)
qed

lemma bot_read_blocks:
  assumes ready: "disk_ready e i s" and at: "blocks_at (unit_of s i) lba count buf"
  shows "\<exists>result s'. kb_usb_storage_subsystem_bot_transfer (us_interface (unit_of s i))
      (Some (storage_build_bot_cbw tag (of_nat (length buf)) True (rw_cdb 0x28 lba count))) (Some buf) (of_nat (length buf)) s =
      (0, result, Some (stretch (medium (unit_of s i)) (ucast lba * 512) (length buf)), s') \<and>
    transfer_passed tag (of_nat (length buf)) result \<and> disk_ready e i s' \<and> device_kept i s s' \<and>
    medium (unit_of s' i) = medium (unit_of s i)"
proof -
  let ?len = "of_nat (length buf) :: u32" and ?c = "rw_cdb 0x28 lba count"
  let ?out = "stretch (medium (unit_of s i)) (ucast lba * 512) (length buf)"
  have len: "?len \<noteq> 0" "ucast ?len = (of_nat (length buf) :: u64)"
    using transfer_length [of count buf] at by (simp_all add: blocks_at_def)
  let ?P = "\<lambda>sres m. m = medium (unit_of s i) \<and> sres = result_good (ucast ?len) (ucast ?len)"
  have "\<exists>sres s2. kb_usb_storage_subsystem_scsi_command (us_interface (unit_of s1 i)) (Some ?c) (Some buf) (ucast ?len) (\<not> True) s1 =
      (0, sres, Some ?out, s2) \<and> disk_ready e i s2 \<and> device_kept i s1 s2 \<and> ?P sres (medium (unit_of s2 i))"
    if r1: "disk_ready e i s1" and k1: "device_kept i s s1" and m1: "medium (unit_of s1 i) = medium (unit_of s i)" for s1
  proof -
    note id = identity_simps [OF device_kept_identity [OF k1 ready_index(1) [OF ready]]]
    have at1: "blocks_at (unit_of s1 i) lba count buf" using at by (simp add: blocks_at_def id)
    note rd = scsi_read_unit [OF r1 blocks_at_addresses(1) [OF at1] rw_cdb_fields(1)]
    have n: "unat (command_blocks ?c) * 512 = length buf" using at by (simp add: blocks_at_def)
    show ?thesis
      using rd unfolding n len(2) m1 blocks_at_addresses(3) [OF at] rw_cdb_fields(3) not_True_eq_False by (simp add: splice_all)
  qed
  then obtain sres s' where "kb_usb_storage_subsystem_bot_transfer (us_interface (unit_of s i))
      (Some (storage_build_bot_cbw tag ?len True ?c)) (Some buf) (of_nat (length buf)) s =
        (0, bot_fill_csw (zero_bot_result\<lparr>br_data_transferred := sr_data_transferred sres\<rparr>) tag
           (if sr_residue sres > ?len then ?len else sr_residue sres) (if sr_status sres = 0 then 0 else 1), Some ?out, s')"
    "?P sres (medium (unit_of s' i))" "disk_ready e i s'" "device_kept i s s'"
    using bot_outcome [OF ready, of ?c ?len "of_nat (length buf)" buf True ?out ?P tag] len by auto
  then show ?thesis using fill_passed [of sres ?len tag] by (auto simp: len(2))
qed

end
