(* ===== verification/Usb_Smoke.thy ===== *)
theory Usb_Smoke
  imports Usb_Scsi
begin

text \<open>
  The self test of the mass-storage part, \<^verbatim>\<open>kb_usb_storage_subsystem_run_io_smoke\<close>, passes on
  every disk that is ready, when the host has memory.
\<close>

definition memory_available :: "usb_env \<Rightarrow> bool" where
  "memory_available e \<longleftrightarrow> (\<forall>n. e_calloc e n \<noteq> NULL)"

text \<open>A disk on which the test can run: at least 16 sectors, and fewer than the bytes that 64 bits count.\<close>

definition testable :: "usb_env \<Rightarrow> nat \<Rightarrow> usb_state \<Rightarrow> bool" where
  "testable e i s \<longleftrightarrow> disk_ready e i s \<and> 16 \<le> us_capacity_sectors (unit_of s i) \<and>
     unat (us_capacity_sectors (unit_of s i)) * 512 < 2 ^ 64"

definition tested :: "usb_env \<Rightarrow> nat \<Rightarrow> usb_state \<Rightarrow> usb_state \<Rightarrow> bool" where
  "tested e i s s' \<longleftrightarrow> testable e i s' \<and> device_kept i s s'"

lemma testedI:
  assumes "testable e i s" and "disk_ready e i s'" and "device_kept i s s'"
  shows "tested e i s s'"
  using assms identity_simps(6) [OF device_kept_identity [OF assms(3)], of i] ready_index(1) [of e i s]
  by (simp add: tested_def testable_def)

lemma tested_trans: "tested e i s s' \<Longrightarrow> tested e i s' s'' \<Longrightarrow> tested e i s s''"
  by (auto simp: tested_def intro: device_kept_trans)

lemma then_ok_step: "f s = (0, s1) \<Longrightarrow> then_ok f g s = g s1"
  by (simp add: then_ok_def)

lemma length_smoke_pattern [simp]: "length (smoke_pattern n factor seed) = n"
  by (simp add: smoke_pattern_def)

lemma smoke_cdbs: "write_cdb = rw_cdb 0x2a 10 1" "read_cdb = rw_cdb 0x28 10 1"
  by (simp_all add: write_cdb_def read_cdb_def rw_cdb_def write_be32_def write_be16_def drop_bit_eq_div)

lemma testable_blocks: "testable e i s \<Longrightarrow> length buf = 512 \<Longrightarrow> blocks_at (unit_of s i) 10 1 buf"
  by (simp add: testable_def blocks_at_def word_le_nat_alt)

section \<open>The disk\<close>

lemma smoke_block_ok:
  assumes mem: "memory_available e" and t: "testable e i s"
  shows "\<exists>s'. smoke_block i s = (0, s') \<and> tested e i s s'"
proof -
  let ?data = "smoke_pattern 1024 13 (us_disk_number (unit_of s i))"
  have ready: "disk_ready e i s" using t by (simp add: testable_def)
  have range: "unit_range (unit_of s i) 8 1024" using t by (simp add: testable_def unit_range_def word_le_nat_alt)
  obtain s1 where w: "disk_transfer True (us_disk (unit_of s i)) 8 (Some ?data) 1024 s = (0, Some ?data, s1)"
    and s1: "disk_ready e i s1" "device_kept i s s1" "medium (unit_of s1 i) = overwrite (8 * 512) ?data (medium (unit_of s i))"
    using disk_write_unit [OF ready range, of ?data] mem by (auto simp: memory_available_def)
  note id = identity_simps [OF device_kept_identity [OF s1(2) ready_index(1) [OF ready]]]
  have range1: "unit_range (unit_of s1 i) 8 1024" using range by (simp add: unit_range_def id)
  obtain s2 where r: "disk_transfer False (us_disk (unit_of s1 i)) 8 (Some (replicate 1024 0)) 1024 s1 =
      (0, Some (splice 0 (stretch (medium (unit_of s1 i)) (8 * 512) 1024) (replicate 1024 0)), s2)"
    and s2: "disk_ready e i s2" "device_kept i s1 s2"
    using disk_read_unit [OF s1(1) range1, of "replicate 1024 0"] by auto
  have "stretch (medium (unit_of s1 i)) (8 * 512) 1024 = ?data"
    unfolding s1(3) using stretch_overwrite [of "8 * 512" ?data] by simp
  then have "smoke_block i s = (0, s2)" using w r by (simp add: smoke_block_def Let_def splice_all)
  then show ?thesis using testedI [OF t s2(1) device_kept_trans [OF s1(2) s2(2)]] by blast
qed

section \<open>SCSI\<close>

lemma smoke_scsi_step:
  assumes t: "testable e i s"
    and "kb_usb_storage_subsystem_scsi_command (us_interface (unit_of s i)) (Some cdb) (Some buf) (of_nat (length buf)) data_out s =
      (0, sres, Some content, s')"
    and "sr_status sres = 0" and "expected sres content (unit_of s' i)" and "disk_ready e i s'" and "device_kept i s s'"
  shows "smoke_scsi cdb buf data_out expected i s = (0, s')" "tested e i s s'"
  using assms by (simp_all add: smoke_scsi_def smoke_verdict_def testedI)

lemma inquiry_dispatch: "scsi_dispatch i inquiry_cdb buffer buffer_len False s = scsi_data inquiry_data buffer buffer_len s"
  by (simp add: scsi_dispatch_def inquiry_cdb_def)

lemma capacity_dispatch:
  "scsi_dispatch i capacity_cdb buffer buffer_len False s = scsi_data (capacity_data (unit_of s i)) buffer buffer_len s"
  by (simp add: scsi_dispatch_def capacity_cdb_def)

lemma inquiry_facts: "length inquiry_data = 36" "take 8 (drop 8 inquiry_data) = map of_char ''KOBOX   ''"
  by (simp_all add: inquiry_data_def)

lemma capacity_facts: "length (capacity_data r) = 8" "read_be32 (drop 4 (capacity_data r)) = us_sector_size r"
  using read_be32_write [of "us_sector_size r" "[]"] by (simp_all add: capacity_data_def Let_def)

lemma scsi_inquiry_ready:
  assumes "disk_ready e i s"
  shows "\<exists>s'. kb_usb_storage_subsystem_scsi_command (us_interface (unit_of s i)) (Some inquiry_cdb) (Some (replicate 36 0)) 36 False s =
      (0, result_good 36 36, Some inquiry_data, s') \<and> disk_ready e i s' \<and> device_kept i s s'"
proof -
  have "inquiry_cdb \<noteq> []" by (simp add: inquiry_cdb_def)
  then have "\<exists>s'. kb_usb_storage_subsystem_scsi_command (us_interface (unit_of s i)) (Some inquiry_cdb) (Some (replicate 36 0)) 36 False s =
      (0, result_good 36 36, Some inquiry_data, s') \<and> disk_ready e i s' \<and> device_kept i s s' \<and> medium (unit_of s' i) = medium (unit_of s i)"
    by (rule scsi_data_ready [OF assms]) (simp_all add: inquiry_dispatch inquiry_facts)
  then show ?thesis by blast
qed

lemma scsi_capacity_ready:
  assumes "disk_ready e i s"
  shows "\<exists>s'. kb_usb_storage_subsystem_scsi_command (us_interface (unit_of s i)) (Some capacity_cdb) (Some (replicate 8 0)) 8 False s =
      (0, result_good 8 8, Some (capacity_data (unit_of s i)), s') \<and> disk_ready e i s' \<and> device_kept i s s'"
proof -
  have "scsi_dispatch i capacity_cdb buffer n False s1 = scsi_data (capacity_data (unit_of s i)) buffer n s1"
    if "identity (unit_of s1 i) = identity (unit_of s i)" for s1 buffer n
    unfolding capacity_dispatch using identity_simps [OF that] by (simp add: capacity_data_def)
  moreover have "capacity_cdb \<noteq> []" by (simp add: capacity_cdb_def)
  ultimately have "\<exists>s'. kb_usb_storage_subsystem_scsi_command (us_interface (unit_of s i)) (Some capacity_cdb) (Some (replicate 8 0)) 8 False s =
      (0, result_good 8 8, Some (capacity_data (unit_of s i)), s') \<and> disk_ready e i s' \<and> device_kept i s s' \<and>
      medium (unit_of s' i) = medium (unit_of s i)"
    by (intro scsi_data_ready [OF assms]) (assumption | simp add: capacity_facts)+
  then show ?thesis by blast
qed

lemma testable_ready: "testable e i s \<Longrightarrow> disk_ready e i s"
  by (simp add: testable_def)

lemma smoke_scsi_inquiry:
  assumes t: "testable e i s"
  obtains s' where "smoke_scsi inquiry_cdb (replicate 36 0) False
      (\<lambda>result inquiry r. sr_data_transferred result = 36 \<and> vendor_is_kobox inquiry) i s = (0, s')" "tested e i s s'"
proof -
  obtain s1 where c: "kb_usb_storage_subsystem_scsi_command (us_interface (unit_of s i)) (Some inquiry_cdb)
      (Some (replicate 36 0)) (of_nat (length (replicate 36 (0 :: u8)))) False s =
      (0, result_good 36 36, Some inquiry_data, s1)" "disk_ready e i s1" "device_kept i s s1"
    using scsi_inquiry_ready [OF testable_ready [OF t]] by auto
  show ?thesis
    by (rule that; rule smoke_scsi_step [OF t c(1) result_good_full(1) _ c(2,3), where
          expected = "\<lambda>result inquiry r. sr_data_transferred result = 36 \<and> vendor_is_kobox inquiry"])
      (simp_all add: inquiry_facts)
qed

lemma smoke_scsi_capacity:
  assumes t: "testable e i s"
  obtains s' where "smoke_scsi capacity_cdb (replicate 8 0) False
      (\<lambda>result capacity r. read_be32 (drop 4 capacity) = us_sector_size r) i s = (0, s')" "tested e i s s'"
proof -
  obtain s1 where c: "kb_usb_storage_subsystem_scsi_command (us_interface (unit_of s i)) (Some capacity_cdb)
      (Some (replicate 8 0)) (of_nat (length (replicate 8 (0 :: u8)))) False s =
      (0, result_good 8 8, Some (capacity_data (unit_of s i)), s1)" "disk_ready e i s1" "device_kept i s s1"
    using scsi_capacity_ready [OF testable_ready [OF t]] by auto
  have "read_be32 (drop 4 (capacity_data (unit_of s i))) = us_sector_size (unit_of s1 i)"
    using capacity_facts(2) identity_simps(5) [OF device_kept_identity [OF c(3) ready_index(1) [OF testable_ready [OF t]]]] by simp
  then show ?thesis
    by - (rule that; rule smoke_scsi_step [OF t c(1) result_good_full(1) _ c(2,3), where
          expected = "\<lambda>result capacity r. read_be32 (drop 4 capacity) = us_sector_size r"])
qed

lemma smoke_scsi_write:
  assumes mem: "memory_available e" and t: "testable e i s" and len: "length pattern = 512"
  obtains s' where "smoke_scsi write_cdb pattern True (\<lambda>result buffer r. sr_data_transferred result = 512) i s = (0, s')"
    "tested e i s s'" "stretch (medium (unit_of s' i)) (10 * 512) 512 = pattern"
proof -
  have at: "blocks_at (unit_of s i) 10 1 pattern" by (rule testable_blocks [OF t len])
  obtain s1 where w: "kb_usb_storage_subsystem_scsi_command (us_interface (unit_of s i)) (Some write_cdb) (Some pattern)
      (of_nat (length pattern)) True s = (0, result_good 512 512, Some pattern, s1)"
    "disk_ready e i s1" "device_kept i s s1" "medium (unit_of s1 i) = overwrite (10 * 512) pattern (medium (unit_of s i))"
    using scsi_write_unit [OF testable_ready [OF t] blocks_at_addresses(1) [OF at] rw_cdb_fields(1)] mem
    unfolding smoke_cdbs by (auto simp: memory_available_def len)
  have "stretch (medium (unit_of s1 i)) (10 * 512) 512 = pattern"
    unfolding w(4) using stretch_overwrite [of "10 * 512" pattern] len by simp
  then show ?thesis
    using that smoke_scsi_step [OF t w(1) result_good_full(1) _ w(2,3), where
        expected = "\<lambda>result buffer r. sr_data_transferred result = 512"] by simp
qed

lemma smoke_scsi_read:
  assumes t: "testable e i s" and m: "stretch (medium (unit_of s i)) (10 * 512) 512 = pattern"
  obtains s' where "smoke_scsi read_cdb (replicate 512 0) False
      (\<lambda>result buffer r. sr_data_transferred result = 512 \<and> buffer = pattern) i s = (0, s')" "tested e i s s'"
proof -
  have at: "blocks_at (unit_of s i) 10 1 (replicate 512 0)" by (rule testable_blocks [OF t]) simp
  have len: "length pattern = 512" using m length_stretch by metis
  obtain s1 where r: "kb_usb_storage_subsystem_scsi_command (us_interface (unit_of s i)) (Some read_cdb) (Some (replicate 512 0))
      (of_nat (length (replicate 512 (0 :: u8)))) False s = (0, result_good 512 512, Some pattern, s1)"
    "disk_ready e i s1" "device_kept i s s1"
    using scsi_read_unit [OF testable_ready [OF t] blocks_at_addresses(1) [OF at] rw_cdb_fields(1)] m len
    by (auto simp: smoke_cdbs splice_all)
  then show ?thesis
    using that smoke_scsi_step [OF t r(1) result_good_full(1) _ r(2,3), where
        expected = "\<lambda>result buffer r. sr_data_transferred result = 512 \<and> buffer = pattern"] by simp
qed

lemma tested_testable: "tested e i s s' \<Longrightarrow> testable e i s'"
  by (simp add: tested_def)

lemma smoke_scsi_all_ok:
  assumes mem: "memory_available e" and t: "testable e i s"
  shows "\<exists>s'. smoke_scsi_all i s = (0, s') \<and> tested e i s s'"
proof -
  define pattern where "pattern = smoke_pattern 512 17 (us_disk_number (unit_of s i) + 0x31)"
  have len: "length pattern = 512" by (simp add: pattern_def)
  obtain s1 where s1: "smoke_scsi inquiry_cdb (replicate 36 0) False
      (\<lambda>result inquiry r. sr_data_transferred result = 36 \<and> vendor_is_kobox inquiry) i s = (0, s1)" "tested e i s s1"
    by (rule smoke_scsi_inquiry [OF t])
  obtain s2 where s2: "smoke_scsi capacity_cdb (replicate 8 0) False
      (\<lambda>result capacity r. read_be32 (drop 4 capacity) = us_sector_size r) i s1 = (0, s2)" "tested e i s1 s2"
    by (rule smoke_scsi_capacity [OF tested_testable [OF s1(2)]])
  obtain s3 where s3: "smoke_scsi write_cdb pattern True (\<lambda>result buffer r. sr_data_transferred result = 512) i s2 = (0, s3)"
    "tested e i s2 s3" "stretch (medium (unit_of s3 i)) (10 * 512) 512 = pattern"
    by (rule smoke_scsi_write [OF mem tested_testable [OF s2(2)] len])
  obtain s4 where s4: "smoke_scsi read_cdb (replicate 512 0) False
      (\<lambda>result buffer r. sr_data_transferred result = 512 \<and> buffer = pattern) i s3 = (0, s4)" "tested e i s3 s4"
    by (rule smoke_scsi_read [OF tested_testable [OF s3(2)] s3(3)])
  have "smoke_scsi_all i s = (0, s4)"
    unfolding smoke_scsi_all_def Let_def pattern_def [symmetric] by (simp only: then_ok_step s1(1) s2(1) s3(1) s4(1))
  then show ?thesis using tested_trans [OF tested_trans [OF tested_trans [OF s1(2) s2(2)] s3(2)] s4(2)] by blast
qed

section \<open>The transport\<close>

lemma smoke_bot_step:
  assumes t: "testable e i s"
    and "kb_usb_storage_subsystem_bot_transfer (us_interface (unit_of s i))
      (Some (storage_build_bot_cbw tag (of_nat (length buf)) data_in cdb)) (Some buf) (of_nat (length buf)) s = (0, res, Some content, s')"
    and "br_status res = 0" and "expected res content (unit_of s' i)" and "disk_ready e i s'" and "device_kept i s s'"
  shows "smoke_bot tag cdb buf data_in expected i s = (0, s')" "tested e i s s'"
  using assms by (simp_all add: smoke_bot_def smoke_verdict_def testedI)

lemma bot_data_ready:
  assumes t: "testable e i s" and cdb: "0 < length cdb" "length cdb \<le> 16" and n: "n = (of_nat (length buf) :: u32)" "n \<noteq> 0"
    and m: "(ucast n :: u64) = of_nat (length buf)"
    and scsi: "\<And>s1. disk_ready e i s1 \<Longrightarrow> identity (unit_of s1 i) = identity (unit_of s i) \<Longrightarrow>
      \<exists>s2. kb_usb_storage_subsystem_scsi_command (us_interface (unit_of s1 i)) (Some cdb) (Some buf) (ucast n) False s1 =
        (0, result_good (ucast n) (ucast n), Some out, s2) \<and> disk_ready e i s2 \<and> device_kept i s1 s2"
  obtains res s' where "kb_usb_storage_subsystem_bot_transfer (us_interface (unit_of s i))
      (Some (storage_build_bot_cbw tag (of_nat (length buf)) True cdb)) (Some buf) (of_nat (length buf)) s = (0, res, Some out, s')"
    "transfer_passed tag (of_nat (length buf)) res" "disk_ready e i s'" "device_kept i s s'"
proof -
  have ready: "disk_ready e i s" by (rule testable_ready [OF t])
  have "\<exists>sres s2. kb_usb_storage_subsystem_scsi_command (us_interface (unit_of s1 i)) (Some cdb) (Some buf) (ucast n) (\<not> True) s1 =
      (0, sres, Some out, s2) \<and> disk_ready e i s2 \<and> device_kept i s1 s2 \<and> sres = result_good (ucast n) (ucast n)"
    if "disk_ready e i s1" "device_kept i s s1" for s1
    using scsi [OF that(1) device_kept_identity [OF that(2) ready_index(1) [OF ready]]] by auto
  then obtain s' where "kb_usb_storage_subsystem_bot_transfer (us_interface (unit_of s i))
      (Some (storage_build_bot_cbw tag n True cdb)) (Some buf) (of_nat (length buf)) s =
      (0, bot_fill_csw (zero_bot_result\<lparr>br_data_transferred := sr_data_transferred (result_good (ucast n) (ucast n))\<rparr>) tag
        (if sr_residue (result_good (ucast n) (ucast n)) > n then n else sr_residue (result_good (ucast n) (ucast n)))
        (if sr_status (result_good (ucast n) (ucast n)) = 0 then 0 else 1), Some out, s')"
    "disk_ready e i s'" "device_kept i s s'"
    using bot_outcome [OF ready cdb n(2), of "of_nat (length buf)" buf True out
        "\<lambda>sres m. sres = result_good (ucast n) (ucast n)" tag] m by auto
  then show ?thesis using that fill_passed [OF refl, of tag n] m n(1) by simp
qed

lemma passed_facts:
  assumes "transfer_passed tag n res"
  shows "br_status res = 0" "br_data_transferred res = n" "read_le32 (br_csw res) = 0x53425355" "read_le32 (drop 4 (br_csw res)) = tag"
  using assms by (simp_all add: transfer_passed_def)

lemma smoke_bot_inquiry:
  assumes t: "testable e i s"
  obtains s' where "smoke_bot 0x1001 inquiry_cdb (replicate 36 0) True
      (\<lambda>result inquiry r. br_data_transferred result = 36 \<and> read_le32 (br_csw result) = KB_USB_STORAGE_BOT_CSW_SIGNATURE \<and>
         read_le32 (drop 4 (br_csw result)) = 0x1001 \<and> vendor_is_kobox inquiry) i s = (0, s')" "tested e i s s'"
proof -
  obtain res s1 where b: "kb_usb_storage_subsystem_bot_transfer (us_interface (unit_of s i))
      (Some (storage_build_bot_cbw 0x1001 (of_nat (length (replicate 36 (0 :: u8)))) True inquiry_cdb)) (Some (replicate 36 0))
      (of_nat (length (replicate 36 (0 :: u8)))) s = (0, res, Some inquiry_data, s1)"
    and p: "transfer_passed 0x1001 (of_nat (length (replicate 36 (0 :: u8)))) res" and s1: "disk_ready e i s1" "device_kept i s s1"
  proof (rule bot_data_ready [OF t, of inquiry_cdb 36 "replicate 36 0" inquiry_data "0x1001"])
    fix s1 assume "disk_ready e i s1"
    then show "\<exists>s2. kb_usb_storage_subsystem_scsi_command (us_interface (unit_of s1 i)) (Some inquiry_cdb) (Some (replicate 36 0))
        (ucast (36 :: u32)) False s1 = (0, result_good (ucast (36 :: u32)) (ucast (36 :: u32)), Some inquiry_data, s2) \<and>
        disk_ready e i s2 \<and> device_kept i s1 s2"
      using scsi_inquiry_ready [of e i s1] by simp
  qed (simp_all add: inquiry_cdb_def)
  show ?thesis
    by (rule that; rule smoke_bot_step [OF t b passed_facts(1) [OF p] _ s1, where expected =
          "\<lambda>result inquiry r. br_data_transferred result = 36 \<and> read_le32 (br_csw result) = KB_USB_STORAGE_BOT_CSW_SIGNATURE \<and>
           read_le32 (drop 4 (br_csw result)) = 0x1001 \<and> vendor_is_kobox inquiry"])
      (use passed_facts [OF p] in \<open>simp_all add: inquiry_facts\<close>)
qed

lemma smoke_bot_capacity:
  assumes t: "testable e i s"
  obtains s' where "smoke_bot 0x1002 capacity_cdb (replicate 8 0) True
      (\<lambda>result capacity r. read_be32 (drop 4 capacity) = us_sector_size r) i s = (0, s')" "tested e i s s'"
proof -
  obtain res s1 where b: "kb_usb_storage_subsystem_bot_transfer (us_interface (unit_of s i))
      (Some (storage_build_bot_cbw 0x1002 (of_nat (length (replicate 8 (0 :: u8)))) True capacity_cdb)) (Some (replicate 8 0))
      (of_nat (length (replicate 8 (0 :: u8)))) s = (0, res, Some (capacity_data (unit_of s i)), s1)"
    and p: "transfer_passed 0x1002 (of_nat (length (replicate 8 (0 :: u8)))) res" and s1: "disk_ready e i s1" "device_kept i s s1"
  proof (rule bot_data_ready [OF t, of capacity_cdb 8 "replicate 8 0" "capacity_data (unit_of s i)" "0x1002"])
    fix s1 assume r: "disk_ready e i s1" and id: "identity (unit_of s1 i) = identity (unit_of s i)"
    have "capacity_data (unit_of s1 i) = capacity_data (unit_of s i)" using identity_simps [OF id] by (simp add: capacity_data_def)
    then show "\<exists>s2. kb_usb_storage_subsystem_scsi_command (us_interface (unit_of s1 i)) (Some capacity_cdb) (Some (replicate 8 0))
        (ucast (8 :: u32)) False s1 = (0, result_good (ucast (8 :: u32)) (ucast (8 :: u32)), Some (capacity_data (unit_of s i)), s2) \<and>
        disk_ready e i s2 \<and> device_kept i s1 s2"
      using scsi_capacity_ready [OF r] by simp
  qed (simp_all add: capacity_cdb_def)
  have "read_be32 (drop 4 (capacity_data (unit_of s i))) = us_sector_size (unit_of s1 i)"
    using capacity_facts(2) identity_simps(5) [OF device_kept_identity [OF s1(2) ready_index(1) [OF testable_ready [OF t]]]] by simp
  then show ?thesis
    by - (rule that; rule smoke_bot_step [OF t b passed_facts(1) [OF p] _ s1, where
          expected = "\<lambda>result capacity r. read_be32 (drop 4 capacity) = us_sector_size r"])
qed

lemma smoke_bot_write:
  assumes mem: "memory_available e" and t: "testable e i s" and len: "length pattern = 512"
  obtains s' where "smoke_bot 0x1003 write_cdb pattern False (\<lambda>result buffer r. br_data_transferred result = 512) i s = (0, s')"
    "tested e i s s'" "stretch (medium (unit_of s' i)) (10 * 512) 512 = pattern"
proof -
  have at: "blocks_at (unit_of s i) 10 1 pattern" by (rule testable_blocks [OF t len])
  obtain res s1 where b: "kb_usb_storage_subsystem_bot_transfer (us_interface (unit_of s i))
      (Some (storage_build_bot_cbw 0x1003 (of_nat (length pattern)) False write_cdb)) (Some pattern) (of_nat (length pattern)) s =
      (0, res, Some pattern, s1)"
    "disk_ready e i s1" "device_kept i s s1" "medium (unit_of s1 i) = overwrite (ucast (10 :: u32) * 512) pattern (medium (unit_of s i))"
    and p: "transfer_passed 0x1003 (of_nat (length pattern)) res"
    using bot_write_blocks [OF testable_ready [OF t] at, of "0x1003"] mem unfolding smoke_cdbs memory_available_def
    by (metis take_all_iff order_refl)
  have "stretch (medium (unit_of s1 i)) (10 * 512) 512 = pattern"
    unfolding b(4) using stretch_overwrite [of "10 * 512" pattern] len by simp
  then show ?thesis
    using that smoke_bot_step [OF t b(1) passed_facts(1) [OF p] _ b(2,3), where
        expected = "\<lambda>result buffer r. br_data_transferred result = 512"] passed_facts(2) [OF p] len by simp
qed

lemma smoke_bot_read:
  assumes t: "testable e i s" and m: "stretch (medium (unit_of s i)) (10 * 512) 512 = pattern"
  obtains s' where "smoke_bot 0x1004 read_cdb (replicate 512 0) True
      (\<lambda>result buffer r. br_data_transferred result = 512 \<and> buffer = pattern) i s = (0, s')" "tested e i s s'"
proof -
  have at: "blocks_at (unit_of s i) 10 1 (replicate 512 0)" by (rule testable_blocks [OF t]) simp
  obtain res s1 where b: "kb_usb_storage_subsystem_bot_transfer (us_interface (unit_of s i))
      (Some (storage_build_bot_cbw 0x1004 (of_nat (length (replicate 512 (0 :: u8)))) True read_cdb)) (Some (replicate 512 0))
      (of_nat (length (replicate 512 (0 :: u8)))) s = (0, res, Some pattern, s1)"
    "disk_ready e i s1" "device_kept i s s1" and p: "transfer_passed 0x1004 (of_nat (length (replicate 512 (0 :: u8)))) res"
    using bot_read_blocks [OF testable_ready [OF t] at, of "0x1004"] m unfolding smoke_cdbs by auto
  show ?thesis
    by (rule that; rule smoke_bot_step [OF t b(1) passed_facts(1) [OF p] _ b(2,3), where
          expected = "\<lambda>result buffer r. br_data_transferred result = 512 \<and> buffer = pattern"])
      (use passed_facts(2) [OF p] in simp_all)
qed

lemma smoke_bot_all_ok:
  assumes mem: "memory_available e" and t: "testable e i s"
  shows "\<exists>s'. smoke_bot_all i s = (0, s') \<and> tested e i s s'"
proof -
  define pattern where "pattern = smoke_pattern 512 19 (us_disk_number (unit_of s i) + 0x55)"
  have len: "length pattern = 512" by (simp add: pattern_def)
  obtain s1 where s1: "smoke_bot 0x1001 inquiry_cdb (replicate 36 0) True
      (\<lambda>result inquiry r. br_data_transferred result = 36 \<and> read_le32 (br_csw result) = KB_USB_STORAGE_BOT_CSW_SIGNATURE \<and>
         read_le32 (drop 4 (br_csw result)) = 0x1001 \<and> vendor_is_kobox inquiry) i s = (0, s1)" "tested e i s s1"
    by (rule smoke_bot_inquiry [OF t])
  obtain s2 where s2: "smoke_bot 0x1002 capacity_cdb (replicate 8 0) True
      (\<lambda>result capacity r. read_be32 (drop 4 capacity) = us_sector_size r) i s1 = (0, s2)" "tested e i s1 s2"
    by (rule smoke_bot_capacity [OF tested_testable [OF s1(2)]])
  obtain s3 where s3: "smoke_bot 0x1003 write_cdb pattern False (\<lambda>result buffer r. br_data_transferred result = 512) i s2 = (0, s3)"
    "tested e i s2 s3" "stretch (medium (unit_of s3 i)) (10 * 512) 512 = pattern"
    by (rule smoke_bot_write [OF mem tested_testable [OF s2(2)] len])
  obtain s4 where s4: "smoke_bot 0x1004 read_cdb (replicate 512 0) True
      (\<lambda>result buffer r. br_data_transferred result = 512 \<and> buffer = pattern) i s3 = (0, s4)" "tested e i s3 s4"
    by (rule smoke_bot_read [OF tested_testable [OF s3(2)] s3(3)])
  have "smoke_bot_all i s = (0, s4)"
    unfolding smoke_bot_all_def Let_def pattern_def [symmetric] by (simp only: then_ok_step s1(1) s2(1) s3(1) s4(1))
  then show ?thesis using tested_trans [OF tested_trans [OF tested_trans [OF s1(2) s2(2)] s3(2)] s4(2)] by blast
qed

section \<open>All records\<close>

definition selected :: "usb_state \<Rightarrow> nat \<Rightarrow> bool" where
  "selected s i \<longleftrightarrow> us_active (unit_of s i) \<and> us_disk (unit_of s i) \<noteq> NULL \<and> us_registered (unit_of s i) \<noteq> 0"

text \<open>Every registered disk can be tested, and no two records share one.\<close>

definition all_testable :: "usb_env \<Rightarrow> nat set \<Rightarrow> usb_state \<Rightarrow> bool" where
  "all_testable e I s \<longleftrightarrow> (\<forall>i\<in>I. selected s i \<longrightarrow> testable e i s \<and>
     (\<forall>j\<in>I. j \<noteq> i \<longrightarrow> selected s j \<longrightarrow> us_disk (unit_of s j) \<noteq> us_disk (unit_of s i)))"

lemma smoke_record_ok:
  assumes mem: "memory_available e" and t: "testable e i s"
  shows "\<exists>s'. then_ok (smoke_block i) (then_ok (smoke_scsi_all i) (then_ok (smoke_bot_all i) g)) s = g s' \<and> tested e i s s'"
proof -
  obtain s1 where s1: "smoke_block i s = (0, s1)" "tested e i s s1" using smoke_block_ok [OF assms] by blast
  obtain s2 where s2: "smoke_scsi_all i s1 = (0, s2)" "tested e i s1 s2"
    using smoke_scsi_all_ok [OF mem tested_testable [OF s1(2)]] by blast
  obtain s3 where s3: "smoke_bot_all i s2 = (0, s3)" "tested e i s2 s3"
    using smoke_bot_all_ok [OF mem tested_testable [OF s2(2)]] by blast
  have "then_ok (smoke_block i) (then_ok (smoke_scsi_all i) (then_ok (smoke_bot_all i) g)) s = g s3"
    by (simp add: then_ok_step s1(1) s2(1) s3(1))
  then show ?thesis using tested_trans [OF tested_trans [OF s1(2) s2(2)] s3(2)] by blast
qed

lemma all_testable_step:
  assumes all: "all_testable e (insert i I) s" and i: "i \<notin> I" "selected s i" and k: "device_kept i s s'"
  shows "all_testable e I s'"
proof -
  have u: "unit_of s' j = unit_of s j" if "j \<in> I" for j using k that i(1) by (auto simp: device_kept_def)
  have "testable e j s'" if j: "j \<in> I" "selected s j" for j
    using all j i device_kept_ready [OF k, of e j] u [OF j(1)] by (auto simp: all_testable_def testable_def)
  then show ?thesis using all u by (auto simp: all_testable_def selected_def)
qed

lemma smoke_loop_ok:
  assumes "memory_available e" and "distinct is" and "all_testable e (set is) s"
  shows "fst (smoke_loop is visited s) = (if visited = 0 \<and> \<not> (\<exists>i\<in>set is. selected s i) then -19 else 0)"
  using assms(2,3)
proof (induction "is" arbitrary: visited s)
  case (Cons i "is")
  show ?case
  proof (cases "selected s i")
    case False
    then have "smoke_loop (i # is) visited s = smoke_loop is visited s" by (auto simp: selected_def Let_def)
    moreover have "all_testable e (set is) s" using Cons.prems(2) by (auto simp: all_testable_def)
    ultimately show ?thesis using Cons.IH [of s visited] Cons.prems(1) False by auto
  next
    case True
    then have t: "testable e i s" using Cons.prems(2) by (simp add: all_testable_def)
    obtain s' where run: "then_ok (smoke_block i) (then_ok (smoke_scsi_all i) (then_ok (smoke_bot_all i)
        (smoke_loop is (Suc visited)))) s = smoke_loop is (Suc visited) s'" and s': "tested e i s s'"
      using smoke_record_ok [OF assms(1) t] by blast
    have "\<not> us_capacity_sectors (unit_of s i) < 16" using t by (simp add: testable_def not_less)
    then have "smoke_loop (i # is) visited s = smoke_loop is (Suc visited) s'"
      using True run by (simp add: selected_def Let_def)
    moreover have "all_testable e (set is) s'"
      using all_testable_step [of e i "set is" s s'] Cons.prems True s' by (simp add: tested_def)
    ultimately show ?thesis using Cons.IH [of s' "Suc visited"] Cons.prems(1) True by auto
  qed
qed simp

end
