(* ===== verification/Usb_Reachable.thy ===== *)
theory Usb_Reachable
  imports Usb_Lifecycle Usb_Smoke
begin

text \<open>
  The states that the USB subsystem can reach, as the closure of the initial state under every
  state-changing operation of \<^verbatim>\<open>usb.c\<close> and \<^verbatim>\<open>storage.c\<close>, and the properties of the
  reachable states.
\<close>

section \<open>Removal of interfaces\<close>

lemma usb_ok_zero_record:
  assumes live: "unit_live e i s" and none: "us_disk (unit_of s i) = NULL"
  shows "usb_ok e (on_storage (on_record i (\<lambda>_. zero_storage_record)) s)"
proof -
  let ?t = "on_storage (on_record i (\<lambda>_. zero_storage_record)) s"
  have ok: "usb_ok e s" and i: "i < 32" using live by simp_all
  note keys = usb_ok_keys [OF ok]
  have rs: "storage_records (storage ?t) = (storage_records (storage s))[i := zero_storage_record]"
    and h: "usb_hcd_records ?t = usb_hcd_records s" "blocks ?t = blocks s" "live (storage ?t) = live (storage s)"
    by (simp_all add: on_storage_def on_record_def)
  have "record_ptrs (unit_of s i) = {#}" "disk_ptrs (unit_of s i) = {#}"
    using unit_ok_of [OF ok i] live none by (simp_all add: unit_ok_def record_ptrs_def disk_ptrs_def)
  then have own: "owned ?t = owned s"
    "sum_list (map disk_ptrs (storage_records (storage ?t))) = sum_list (map disk_ptrs (storage_records (storage s)))"
    using owned_update [OF rs _ h(1)] keys(5) i by simp_all
  show ?thesis
  proof (rule usb_ok_change [OF ok i rs])
    show "unit_ok e k (unit_of s k) (blocks ?t)" if "k < 32" for k using unit_ok_of [OF ok that] h by simp
  qed (use ok own h in \<open>simp_all add: usb_ok_def unit_ok_def\<close>)
qed

lemma release_block_unit:
  assumes "unit_live e i s"
  shows "unit_of (storage_release_block i s) i = released (unit_of s i)"
  using assms release_block_result(1) [OF usb_ok_keys(4), of e s i] usb_ok_keys(5) [of e s] by simp

lemma release_block_live:
  assumes "unit_live e i s"
  shows "unit_live e i (storage_release_block i s)"
  using assms storage_release_block_ok [of e s i] release_block_unit [OF assms] by (simp add: released_def)

lemma remove_interface_ok:
  assumes ok: "usb_ok e s"
  shows "usb_ok e (kb_usb_storage_subsystem_remove_interface interface s)"
proof (cases "record_find_by_interface (storage s) interface")
  case (Some i)
  have l: "unit_live e i s" by (rule find_live [OF ok Some])
  have "us_disk (unit_of (storage_release_block i s) i) = NULL"
    unfolding release_block_unit [OF l] by (simp add: released_def)
  then show ?thesis
    using usb_ok_zero_record [OF release_block_live [OF l]] Some by (simp add: kb_usb_storage_subsystem_remove_interface_def)
qed (simp add: kb_usb_storage_subsystem_remove_interface_def ok)

section \<open>SCSI hosts\<close>

lemma only_record_Some:
  "only_record k found rs = Some i \<Longrightarrow> found = Some i \<or> (k \<le> i \<and> i < k + length rs \<and> us_active (rs ! (i - k)))"
proof (induction rs arbitrary: k found)
  case (Cons r rs)
  then show ?case by (fastforce split: if_splits option.splits simp: nth_Cons' dest!: Cons.IH)
qed simp

lemma record_for_host_live:
  assumes ok: "usb_ok e s" and "record_for_host (storage s) host_private dev dma_dev = Some i"
  shows "unit_live e i s"
  using assms(2) only_record_Some [of 0 None "storage_records (storage s)" i] usb_ok_keys(5) [OF ok] found_live [OF ok] ok
  by (auto simp: record_for_host_def record_find_by_host_private_def record_find_by_linux_device_def record_only_without_host_def
      split: option.splits if_splits)

lemma note_scsi_host_ok:
  assumes ok: "usb_ok e s"
  shows "usb_ok e (kb_usb_storage_subsystem_note_scsi_host e host host_private dev dma_dev s)"
  unfolding kb_usb_storage_subsystem_note_scsi_host_def
  using ok ensure_ok [OF unit_live_on_record [OF record_for_host_live [OF ok]]]
  by (auto split: option.split simp: core_def identity_def)

lemma note_scsi_scan_ok:
  assumes ok: "usb_ok e s"
  shows "usb_ok e (kb_usb_storage_subsystem_note_scsi_scan e host s)"
  unfolding kb_usb_storage_subsystem_note_scsi_scan_def record_find_by_host_def
  using ok ensure_ok [OF unit_live_on_record [OF found_live [OF ok]]]
  by (auto split: option.split simp: core_def identity_def)

lemma remove_scsi_host_ok:
  assumes ok: "usb_ok e s"
  shows "usb_ok e (kb_usb_storage_subsystem_remove_scsi_host host s)"
  unfolding kb_usb_storage_subsystem_remove_scsi_host_def record_find_by_host_def
  using ok unit_live_on_record [OF release_block_live [OF found_live [OF ok]]]
  by (auto split: option.split simp: core_def identity_def)

lemma synthesize_ok:
  assumes ok: "usb_ok e s"
  shows "usb_ok e (snd (kb_usb_storage_subsystem_synthesize_mass_storage e udev interface linux_device parent s))"
proof (cases "interface = NULL")
  case False
  obtain x w where x: "record_for_interface e (storage s) interface = (x, w)" by fastforce
  show ?thesis
  proof (cases x)
    case None
    then show ?thesis using False x record_for_interface_ok [OF ok x] by (simp add: kb_usb_storage_subsystem_synthesize_mass_storage_def)
  next
    case (Some i)
    let ?f = "\<lambda>r. r\<lparr>us_udev := udev, us_interface := interface,
                us_linux_device := linux_device, us_parent_linux_device := parent,
                us_interface_number := 0, us_subclass := 0x06, us_protocol := 0x50,
                us_bulk_in_endpoint := 0x81, us_bulk_out_endpoint := 0x02, us_medium_present := 1\<rparr>"
    let ?t = "on_storage (on_record i ?f) (s\<lparr>storage := w\<rparr>)"
    have l: "unit_live e i (s\<lparr>storage := w\<rparr>)" and n: "us_interface (record_of w i) = interface"
      using record_for_interface_ok [OF ok x, of i] Some by simp_all
    have m: "us_medium_present (record_of w i) = 1"
      using unit_ok_of [of e "s\<lparr>storage := w\<rparr>" i] l by (simp add: unit_ok_def)
    have l2: "unit_live e i ?t"
      by (rule unit_live_on_record [OF l]) (simp_all add: core_def identity_def n m)
    have "kb_usb_storage_subsystem_synthesize_mass_storage e udev interface linux_device parent s =
        (if wants_block (storage ?t) (us_driver (unit_of ?t i)) (us_driver_data (unit_of ?t i)) then storage_ensure_block e i ?t else (0, ?t))"
      using False x Some by (simp add: kb_usb_storage_subsystem_synthesize_mass_storage_def on_storage_def Let_def)
    then show ?thesis using l2 ensure_ok [OF l2] by simp
  qed
qed (simp add: kb_usb_storage_subsystem_synthesize_mass_storage_def ok)

section \<open>Lists\<close>

text \<open>What the operations on requests, devices, endpoints and drivers leave alone.\<close>

abbreviation (input) lists_only :: "usb_state \<Rightarrow> usb_state \<Rightarrow> bool" where
  "lists_only s t \<equiv> storage_records (storage t) = storage_records (storage s) \<and> live (storage t) = live (storage s) \<and>
     blocks t = blocks s \<and> usb_hcd_records t = usb_hcd_records s"

lemma usb_ok_lists: "usb_ok e s \<Longrightarrow> lists_only s t \<Longrightarrow> usb_ok e t"
  by (erule usb_ok_frame) simp_all

lemma calloc_node_lists: "run_storage (usb_calloc_node e) s = (x, t) \<Longrightarrow> lists_only s t"
  by (auto simp: run_storage_def usb_calloc_node_def)

lemma record_for_lists: "record_for e key k fresh records s = (x, t) \<Longrightarrow> lists_only s t"
  by (auto simp: record_for_def split: if_splits prod.splits bool.splits dest: calloc_node_lists)

lemma urb_record_for_lists: "urb_record_for e hcd urb s = (x, t) \<Longrightarrow> lists_only s t"
  unfolding urb_record_for_def
  by (auto simp: on_urb_def split: if_splits option.splits prod.splits bool.splits dest: calloc_node_lists)

lemma urb_with_hcd_ok: "usb_ok e s \<Longrightarrow> usb_ok e (snd (urb_with_hcd e hcd urb f s))"
  by (erule usb_ok_lists) (auto simp: urb_with_hcd_def on_urb_def split: prod.split dest: urb_record_for_lists)

lemma urb_note_ok: "usb_ok e s \<Longrightarrow> usb_ok e (urb_note e hcd urb f s)"
  by (erule usb_ok_lists) (auto simp: urb_note_def on_urb_def split: prod.split dest: urb_record_for_lists)

lemma endpoint_observe_ok:
  assumes ok: "usb_ok e s"
  shows "usb_ok e (snd (kb_usb_subsystem_endpoint_observe e update s))"
proof -
  have "usb_ok e (t\<lparr>usb_endpoint_records := rs\<rparr>)" "usb_ok e t" if "endpoint_record_for e u s = (x, t)" for u x t rs
    using usb_ok_lists [OF ok, of t] usb_ok_lists [OF ok, of "t\<lparr>usb_endpoint_records := rs\<rparr>"]
      record_for_lists [OF that [unfolded endpoint_record_for_def]] by simp_all
  then show ?thesis using ok
    by (auto simp: kb_usb_subsystem_endpoint_observe_def Let_def observe_endpoint_ok split: option.split prod.split)
qed

lemma interface_observe_ok:
  assumes ok: "usb_ok e s"
  shows "usb_ok e (snd (kb_usb_subsystem_interface_observe e update s))"
proof -
  have "usb_ok e (t\<lparr>usb_interface_records := rs\<rparr>)" "usb_ok e t" if "interface_record_for e u s = (x, t)" for u x t rs
    using usb_ok_lists [OF ok, of t] usb_ok_lists [OF ok, of "t\<lparr>usb_interface_records := rs\<rparr>"]
      record_for_lists [OF that [unfolded interface_record_for_def]] by simp_all
  then show ?thesis using ok
    by (auto simp: kb_usb_subsystem_interface_observe_def Let_def observe_interface_ok split: option.split prod.split)
qed

lemma device_observe_ok:
  assumes ok: "usb_ok e s"
  shows "usb_ok e (snd (kb_usb_subsystem_device_observe e update s))"
proof -
  have "usb_ok e (t\<lparr>usb_device_records := rs\<rparr>)" "usb_ok e t" if "device_record_for e u s = (x, t)" for u x t rs
    using usb_ok_lists [OF ok, of t] usb_ok_lists [OF ok, of "t\<lparr>usb_device_records := rs\<rparr>"]
      record_for_lists [OF that [unfolded device_record_for_def]] by simp_all
  then show ?thesis using ok
    by (auto simp: kb_usb_subsystem_device_observe_def Let_def split: option.split prod.split)
qed

lemma driver_register_ok:
  assumes ok: "usb_ok e s"
  shows "usb_ok e (kb_usb_subsystem_driver_register e driver owner module_name status s)"
    "usb_ok e (kb_usb_subsystem_driver_deregister e driver s)"
proof -
  have "usb_ok e (t\<lparr>usb_driver_records := rs\<rparr>)" "usb_ok e t" if "driver_record_for e driver s = (x, t)" for x t rs
    using usb_ok_lists [OF ok, of t] usb_ok_lists [OF ok, of "t\<lparr>usb_driver_records := rs\<rparr>"]
      record_for_lists [OF that [unfolded driver_record_for_def]] by simp_all
  then show "usb_ok e (kb_usb_subsystem_driver_register e driver owner module_name status s)"
    "usb_ok e (kb_usb_subsystem_driver_deregister e driver s)"
    by (auto simp: kb_usb_subsystem_driver_register_def kb_usb_subsystem_driver_deregister_def
        kb_usb_storage_subsystem_note_driver_deregistered_def note_driver_registered_ok usb_ok_driver_flag split: option.split prod.split)
qed

section \<open>Removal of devices\<close>

text \<open>Removal keeps the invariant and the host controllers.\<close>

abbreviation (input) removed_ok :: "usb_env \<Rightarrow> kb_usb_hcd_record list \<Rightarrow> usb_state \<Rightarrow> bool" where
  "removed_ok e hs s \<equiv> usb_ok e s \<and> usb_hcd_records s = hs"

lemma release_block_hcds: "usb_hcd_records (storage_release_block i s) = usb_hcd_records s"
  by (simp add: storage_release_block_def Let_def object_free_def on_storage_def on_blocks_def)

lemma interface_release_ok: "removed_ok e hs s \<Longrightarrow> removed_ok e hs (interface_release r s)"
  using remove_interface_ok [of e s "if_interface r"] usb_ok_lists
  by (auto simp: interface_release_def endpoint_records_release_for_interface_def kb_usb_storage_subsystem_remove_interface_def
      release_block_hcds on_storage_def split: option.splits)

lemma fold_removed_ok:
  assumes "\<And>r s. removed_ok e hs s \<Longrightarrow> removed_ok e hs (f r s)" and "removed_ok e hs s"
  shows "removed_ok e hs (fold f rs s)"
  using assms(2) by (induction rs arbitrary: s) (use assms(1) in auto)

lemma removed_ok_lists: "removed_ok e hs s \<Longrightarrow> lists_only s t \<Longrightarrow> removed_ok e hs t"
  using usb_ok_lists by auto

lemma interface_remove_ok:
  assumes "removed_ok e hs s"
  shows "removed_ok e hs (kb_usb_subsystem_interface_remove interface s)"
proof (cases "find_key if_interface interface (usb_interface_records s)")
  case (Some r)
  have "removed_ok e hs ((interface_release r s)\<lparr>usb_interface_records := rs\<rparr>)" for rs
    by (rule removed_ok_lists [OF interface_release_ok [OF assms, of r]]) simp
  then show ?thesis by (simp add: kb_usb_subsystem_interface_remove_def Some)
qed (simp add: kb_usb_subsystem_interface_remove_def assms)

lemma interfaces_release_ok:
  assumes "removed_ok e hs s"
  shows "removed_ok e hs (interface_records_release_for_udev udev s)"
proof -
  have "removed_ok e hs ((fold interface_release rs s)\<lparr>usb_interface_records := rs'\<rparr>)" for rs rs'
    by (rule removed_ok_lists [OF fold_removed_ok [of e hs interface_release s rs, OF interface_release_ok assms]]) simp_all
  then show ?thesis using assms by (simp add: interface_records_release_for_udev_def)
qed

lemma device_release_ok:
  assumes "removed_ok e hs s"
  shows "removed_ok e hs (device_release r s)"
proof -
  have "removed_ok e hs ((interface_records_release_for_udev (dv_udev r) s)\<lparr>usb_endpoint_records := rs\<rparr>)" for rs
    by (rule removed_ok_lists [OF interfaces_release_ok [OF assms, of "dv_udev r"]]) simp
  then show ?thesis using interfaces_release_ok [OF assms, of "dv_udev r"]
    by (auto simp: device_release_def endpoint_records_release_for_udev_def)
qed

lemma device_remove_ok:
  assumes "removed_ok e hs s"
  shows "removed_ok e hs (kb_usb_subsystem_device_remove udev s)"
proof (cases "find_key dv_udev udev (usb_device_records s)")
  case (Some r)
  have "removed_ok e hs ((device_release r s)\<lparr>usb_device_records := rs\<rparr>)" for rs
    by (rule removed_ok_lists [OF device_release_ok [OF assms, of r]]) simp
  then show ?thesis by (simp add: kb_usb_subsystem_device_remove_def Some)
qed (simp add: kb_usb_subsystem_device_remove_def assms)

lemma devices_release_ok:
  assumes "removed_ok e hs s"
  shows "removed_ok e hs (device_records_release_for_hcd hcd s)"
proof -
  have "removed_ok e hs ((fold device_release rs s)\<lparr>usb_device_records := rs'\<rparr>)" for rs rs'
    by (rule removed_ok_lists [OF fold_removed_ok [of e hs device_release s rs, OF device_release_ok assms]]) simp_all
  then show ?thesis using assms by (simp add: device_records_release_for_hcd_def)
qed

section \<open>Host controllers\<close>

lemma usb_ok_hcds:
  assumes ok: "usb_ok e s" and "storage_records (storage t) = storage_records (storage s)" "blocks t = blocks s"
    and "distinct (live (storage t))" "NULL \<notin> set (live (storage t))" "owned t \<subseteq># mset (live (storage t))"
  shows "usb_ok e t"
  using assms by (simp add: usb_ok_def)

lemma on_hcd_ok:
  assumes ok: "usb_ok e s" and f: "\<And>r. h_at (f r) = h_at r \<and> h_hcd (f r) = h_hcd r \<and> h_owns_storage (f r) = h_owns_storage r"
  shows "usb_ok e (on_hcd hcd f s)"
proof -
  have "map hcd_ptrs (update_key h_hcd hcd f hs) = map hcd_ptrs hs" for hs
    by (induction hs) (simp_all add: hcd_ptrs_def f)
  then have "usb_ok e (s\<lparr>usb_hcd_records := update_key h_hcd hcd f (usb_hcd_records s)\<rparr>)"
    by (intro usb_ok_frame [OF ok]) simp_all
  then show ?thesis using ok by (simp add: on_hcd_def split: option.split)
qed

lemma usb_ok_grown:
  assumes ok: "usb_ok e s" and "p \<notin> set (live (storage s)) \<or> p = NULL"
  shows "usb_ok e (grown n (given p) s)"
proof (rule usb_ok_hcds [OF ok])
  have own: "owned (grown n (given p) s) = owned s" by (simp add: owned_def)
  have "owned s \<subseteq># mset (live (storage s))" using ok by (simp add: usb_ok_def)
  moreover have "mset (live (storage s)) \<subseteq># mset (live (storage (grown n (given p) s)))" by simp
  ultimately show "owned (grown n (given p) s) \<subseteq># mset (live (storage (grown n (given p) s)))"
    unfolding own by (rule subset_mset.order_trans)
qed (use ok assms(2) in \<open>auto simp: usb_ok_def\<close>)

lemma usb_ok_new_hcd:
  assumes ok: "usb_ok e s" and "hcd_ptrs h = mset ps" "distinct (ps @ live (storage s))" "NULL \<notin> set ps"
  shows "usb_ok e ((grown n ps s)\<lparr>usb_hcd_records := h # usb_hcd_records s\<rparr>)"
proof (rule usb_ok_hcds [OF ok])
  let ?t = "(grown n ps s)\<lparr>usb_hcd_records := h # usb_hcd_records s\<rparr>"
  have "owned ?t = mset ps + owned s" using assms(2) by (simp add: owned_def ac_simps)
  then show "owned ?t \<subseteq># mset (live (storage ?t))" using ok by (simp add: usb_ok_def)
qed (use assms usb_ok_keys [OF ok] in auto)

lemma hcd_alloc_ok:
  assumes ok: "usb_ok e s"
  shows "usb_ok e (snd (kb_usb_subsystem_hcd_alloc e s))"
proof -
  obtain p s1 where 1: "run_storage (usb_calloc e) s = (p, s1)" by fastforce
  obtain hcd s2 where 2: "run_storage (usb_calloc e) s1 = (hcd, s2)" by fastforce
  obtain m n where s1: "s1 = grown m (given p) s" and s2: "s2 = grown n (given hcd) s1"
    using calloc_grown(1) [OF 1] calloc_grown(1) [OF 2] by blast
  note fresh = calloc_grown(2) [OF 1] calloc_grown(2) [OF 2]
  have ok1: "usb_ok e s1" unfolding s1 by (rule usb_ok_grown [OF ok fresh(1)])
  consider (none) "p = NULL" | (half) "p \<noteq> NULL" "hcd = NULL" | (full) "p \<noteq> NULL" "hcd \<noteq> NULL" by blast
  then show ?thesis
  proof cases
    case none
    then show ?thesis using ok1 1 by (simp add: kb_usb_subsystem_hcd_alloc_def)
  next
    case half
    have "usb_ok e (on_storage (usb_free p) s2)"
      by (rule usb_ok_lists [OF ok]) (use half fresh(1) in \<open>simp add: s1 s2 on_storage_def usb_free_def filter_fresh grown_def\<close>)
    then show ?thesis using half 1 2 by (simp add: kb_usb_subsystem_hcd_alloc_def)
  next
    case full
    have "usb_ok e ((grown n [hcd, p] s)\<lparr>usb_hcd_records :=
        zero_hcd_record\<lparr>h_at := p, h_hcd := hcd, h_owns_storage := True\<rparr> # usb_hcd_records s\<rparr>)"
      by (rule usb_ok_new_hcd [OF ok]) (use full fresh s1 usb_ok_keys(3) [OF ok] in \<open>auto simp: hcd_ptrs_def\<close>)
    then show ?thesis using full 1 2 s1 s2 by (simp add: kb_usb_subsystem_hcd_alloc_def)
  qed
qed

lemma hcd_track_ok:
  assumes ok: "usb_ok e s"
  shows "usb_ok e (snd (kb_usb_subsystem_hcd_track e hcd s))"
proof -
  obtain p s1 where 1: "run_storage (usb_calloc e) s = (p, s1)" by fastforce
  obtain n where s1: "s1 = grown n (given p) s" using calloc_grown(1) [OF 1] by blast
  note fresh = calloc_grown(2) [OF 1]
  have "usb_ok e s1" unfolding s1 by (rule usb_ok_grown [OF ok fresh])
  moreover have "usb_ok e ((grown n [p] s)\<lparr>usb_hcd_records := zero_hcd_record\<lparr>h_at := p, h_hcd := hcd\<rparr> # usb_hcd_records s\<rparr>)"
    if "p \<noteq> NULL"
    by (rule usb_ok_new_hcd [OF ok]) (use that fresh usb_ok_keys(3) [OF ok] in \<open>auto simp: hcd_ptrs_def zero_hcd_record_def\<close>)
  ultimately show ?thesis using ok 1 s1 by (auto simp: kb_usb_subsystem_hcd_track_def Let_def split: option.split)
qed

lemma hub_event_record_ok: "usb_ok e s \<Longrightarrow> hub_event_record_for_hcd e hcd s = (x, t) \<Longrightarrow> usb_ok e t"
  using hcd_track_ok [of e s hcd] by (auto simp: hub_event_record_for_hcd_def Let_def split: if_splits)

lemma hub_event_prepare_ok:
  assumes "usb_ok e s"
  shows "usb_ok e (snd (snd (kb_usb_subsystem_hub_event_prepare e hcd status s)))"
proof -
  have "usb_ok e (on_hcd hcd (\<lambda>r. r\<lparr>h_hub_event_bits := b\<rparr>) t)" if "usb_ok e t" for b t
    by (rule on_hcd_ok [OF that]) simp
  then show ?thesis using assms hub_event_record_ok [OF assms]
    by (auto simp: kb_usb_subsystem_hub_event_prepare_def Let_def split: option.split prod.split)
qed

lemma hub_event_commit_ok:
  assumes "usb_ok e s"
  shows "usb_ok e (snd (snd (kb_usb_subsystem_hub_event_commit e hcd bits update s)))"
proof -
  have "usb_ok e (on_hcd hcd (\<lambda>r. r\<lparr>h_hub_event_bits := b\<rparr>) t)" if "usb_ok e t" for b t
    by (rule on_hcd_ok [OF that]) simp
  then show ?thesis using assms hub_event_record_ok [OF assms]
    by (auto simp: kb_usb_subsystem_hub_event_commit_def Let_def split: option.split prod.split)
qed

lemma sum_list_remove_key:
  "find_key key k xs = Some x \<Longrightarrow> sum_list (map f (remove_key key k xs)) + f x = (sum_list (map f xs) :: 'a multiset)"
  by (induction xs) (auto simp: find_key_Cons ac_simps split: if_splits)

lemma hcd_release_ok:
  assumes ok: "usb_ok e s"
  shows "usb_ok e (kb_usb_subsystem_hcd_release record s)"
proof (cases "find_key h_at record (usb_hcd_records s)")
  case (Some r)
  let ?s = "urb_records_release_for_hcd (h_hcd r) (device_records_release_for_hcd (h_hcd r) s)"
  let ?t = "kb_usb_subsystem_hcd_release record s"
  have "removed_ok e (usb_hcd_records s) (device_records_release_for_hcd (h_hcd r) s)"
    by (rule devices_release_ok) (simp add: ok)
  then have r: "removed_ok e (usb_hcd_records s) ?s"
    by (rule removed_ok_lists) (simp add: urb_records_release_for_hcd_def)
  then have ok': "usb_ok e ?s" by simp
  note keys = usb_ok_keys [OF ok']
  have at: "h_at r = record" using find_key_Some [OF Some] by simp
  have t: "storage_records (storage ?t) = storage_records (storage ?s)" "blocks ?t = blocks ?s"
    "usb_hcd_records ?t = remove_key h_at record (usb_hcd_records s)"
    "live (storage ?t) = filter (\<lambda>p. p \<notin># hcd_ptrs r) (live (storage ?s))"
    using Some at r by (auto simp: kb_usb_subsystem_hcd_release_def Let_def on_storage_def usb_free_def hcd_ptrs_def intro!: filter_cong)
  have "owned ?t + hcd_ptrs r = owned ?s"
    using sum_list_remove_key [OF Some, of hcd_ptrs] r by (simp add: owned_def t ac_simps)
  then have "owned ?t \<subseteq># mset (live (storage ?t))"
    unfolding t(4) by (intro subset_mset_filter [OF _ keys(3)]) (use ok' in \<open>simp add: usb_ok_def\<close>)
  then show ?thesis by (rule usb_ok_hcds [OF ok' t(1,2), rotated 2]) (use keys in \<open>simp_all add: t(4)\<close>)
qed (simp add: kb_usb_subsystem_hcd_release_def ok)

section \<open>Reachable states\<close>

text \<open>
  The steps: the operations of \<^verbatim>\<open>usb.c\<close>, the assignments of \<^verbatim>\<open>linux_usb.c\<close> to the
  members of a host controller's record, the operations of \<^verbatim>\<open>storage.c\<close>, and transfers of the
  block subsystem to the disk of a record.
\<close>

inductive usb_step :: "usb_env \<Rightarrow> usb_state \<Rightarrow> usb_state \<Rightarrow> bool" for e where
  step_hcd_alloc: "usb_step e s (snd (kb_usb_subsystem_hcd_alloc e s))"
| step_hcd_track: "usb_step e s (snd (kb_usb_subsystem_hcd_track e hcd s))"
| step_hcd_assign: "(\<And>r. h_at (f r) = h_at r \<and> h_hcd (f r) = h_hcd r \<and> h_owns_storage (f r) = h_owns_storage r) \<Longrightarrow>
    usb_step e s (on_hcd hcd f s)"
| step_hcd_release: "usb_step e s (kb_usb_subsystem_hcd_release at s)"
| step_hub_prepare: "usb_step e s (snd (snd (kb_usb_subsystem_hub_event_prepare e hcd status s)))"
| step_hub_commit: "usb_step e s (snd (snd (kb_usb_subsystem_hub_event_commit e hcd bits update s)))"
| step_urb_link: "usb_step e s (snd (kb_usb_subsystem_urb_link e hcd urb s))"
| step_urb_unlink: "usb_step e s (kb_usb_subsystem_urb_unlink e hcd urb status s)"
| step_urb_check_unlink: "usb_step e s (snd (kb_usb_subsystem_urb_check_unlink e hcd urb status s))"
| step_urb_map_dma: "usb_step e s (snd (kb_usb_subsystem_urb_map_dma e hcd urb dma s))"
| step_urb_unmap_dma: "usb_step e s (kb_usb_subsystem_urb_unmap_dma e hcd urb s)"
| step_urb_submit: "usb_step e s (kb_usb_subsystem_urb_submit e hcd urb flags status s)"
| step_urb_kill: "usb_step e s (kb_usb_subsystem_urb_kill e hcd urb s)"
| step_urb_giveback: "usb_step e s (kb_usb_subsystem_urb_giveback e hcd urb status s)"
| step_endpoint_observe: "usb_step e s (snd (kb_usb_subsystem_endpoint_observe e endpoint s))"
| step_endpoint_remove: "usb_step e s (kb_usb_subsystem_endpoint_remove ep s)"
| step_interface_observe: "usb_step e s (snd (kb_usb_subsystem_interface_observe e interface s))"
| step_interface_remove: "usb_step e s (kb_usb_subsystem_interface_remove intf s)"
| step_device_observe: "usb_step e s (snd (kb_usb_subsystem_device_observe e device s))"
| step_device_remove: "usb_step e s (kb_usb_subsystem_device_remove udev s)"
| step_driver_register: "usb_step e s (kb_usb_subsystem_driver_register e driver owner module_name status s)"
| step_driver_deregister: "usb_step e s (kb_usb_subsystem_driver_deregister e driver s)"
| step_note_scsi_host: "usb_step e s (kb_usb_storage_subsystem_note_scsi_host e host host_private dev dma_dev s)"
| step_note_scsi_scan: "usb_step e s (kb_usb_storage_subsystem_note_scsi_scan e host s)"
| step_remove_scsi_host: "usb_step e s (kb_usb_storage_subsystem_remove_scsi_host host s)"
| step_synthesize: "usb_step e s (snd (kb_usb_storage_subsystem_synthesize_mass_storage e udev intf linux_device parent s))"
| step_scsi_command: "buffer_ok buffer n \<Longrightarrow>
    kb_usb_storage_subsystem_scsi_command intf cdb buffer n data_out s = (result, scsi_result, buffer', t) \<Longrightarrow> usb_step e s t"
| step_bot_transfer: "buffer_ok data n \<Longrightarrow>
    kb_usb_storage_subsystem_bot_transfer intf cbw data n s = (result, bot_result, data', t) \<Longrightarrow> usb_step e s t"
| step_bot_reset: "usb_step e s (kb_usb_storage_subsystem_bot_reset intf s)"
| step_disk_transfer: "i < KB_USB_STORAGE_MAX \<Longrightarrow> us_active (unit_of s i) \<Longrightarrow> buffer_ok buffer n \<Longrightarrow>
    disk_transfer wr (us_disk (unit_of s i)) sector buffer n s = (result, buffer', t) \<Longrightarrow> usb_step e s t"
| step_io_smoke: "usb_step e s (snd (kb_usb_storage_subsystem_run_io_smoke s))"

inductive usb_reachable :: "usb_env \<Rightarrow> usb_state \<Rightarrow> bool" for e where
  reachable_initial: "usb_reachable e usb_initial"
| reachable_step: "usb_reachable e s \<Longrightarrow> usb_step e s t \<Longrightarrow> usb_reachable e t"

lemmas urb_defs = kb_usb_subsystem_urb_link_def kb_usb_subsystem_urb_unlink_def kb_usb_subsystem_urb_check_unlink_def
  kb_usb_subsystem_urb_map_dma_def kb_usb_subsystem_urb_unmap_dma_def kb_usb_subsystem_urb_submit_def
  kb_usb_subsystem_urb_kill_def kb_usb_subsystem_urb_giveback_def

lemma usb_step_ok:
  assumes "usb_step e s t" and ok: "usb_ok e s"
  shows "usb_ok e t"
  using assms
proof (induction rule: usb_step.induct)
  case (step_endpoint_remove s ep)
  then show ?case by (rule usb_ok_lists) (simp add: kb_usb_subsystem_endpoint_remove_def)
next
  case (step_interface_remove s intf)
  then show ?case using interface_remove_ok [where hs = "usb_hcd_records s"] by simp
next
  case (step_device_remove s udev)
  then show ?case using device_remove_ok [where hs = "usb_hcd_records s"] by simp
next
  case (step_io_smoke s)
  then show ?case unfolding kb_usb_storage_subsystem_run_io_smoke_def by (rule smoke_loop_state) simp
next
  case (step_disk_transfer i s buffer n wr sector result buffer' t)
  then show ?case using disk_transfer_live by blast
next
  case (step_hcd_assign f s hcd)
  show ?case by (rule on_hcd_ok [OF step_hcd_assign(2,1)])
next
  case (step_scsi_command buffer n intf cdb data_out s result scsi_result buffer' t)
  show ?case by (rule scsi_command_live(1) [OF step_scsi_command(3,1,2)])
next
  case (step_bot_transfer data n intf cbw s result bot_result data' t)
  show ?case by (rule bot_transfer_ok [OF step_bot_transfer(3,1,2)])
qed (simp_all only: urb_defs urb_with_hcd_ok urb_note_ok hcd_alloc_ok hcd_track_ok hcd_release_ok hub_event_prepare_ok hub_event_commit_ok
    endpoint_observe_ok interface_observe_ok device_observe_ok driver_register_ok note_scsi_host_ok note_scsi_scan_ok
    remove_scsi_host_ok synthesize_ok bot_reset_ok)

lemma reachable_ok: "usb_reachable e s \<Longrightarrow> usb_ok e s"
  by (induction rule: usb_reachable.induct) (auto intro: usb_initial_ok usb_step_ok)

end
