(* ===== verification/Usb_Removal.thy ===== *)
theory Usb_Removal
  imports Usb_Reachable
begin

text \<open>
  What the removal of interfaces leaves: the whole state after it, as a function of the state before.
\<close>

lemma remove_key_filter: "distinct (map key xs) \<Longrightarrow> remove_key key k xs = filter (\<lambda>x. key x \<noteq> k) xs"
proof (induction xs)
  case (Cons x xs)
  then have "filter (\<lambda>y. key y \<noteq> key x) xs = xs" by (intro filter_True) (simp add: image_iff, metis)
  with Cons show ?case by auto
qed simp

lemma block_keys_distinct:
  assumes "usb_ok e s"
  shows "distinct (map d_disk (disks (blocks s)))" "distinct (map q_queue (queues (blocks s)))"
    "NULL \<notin> d_disk ` set (disks (blocks s))" "NULL \<notin> q_queue ` set (queues (blocks s))"
proof -
  have "block_keys (blocks s) \<subseteq># mset (live (storage s))" by (rule usb_ok_block_keys [OF assms])
  then have "mset (map d_disk (disks (blocks s))) \<subseteq># mset (live (storage s))" "mset (map q_queue (queues (blocks s))) \<subseteq># mset (live (storage s))"
    by (auto simp: block_keys_def intro: subset_mset.order_trans [OF mset_subset_eq_add_left] subset_mset.order_trans [OF mset_subset_eq_add_right])
  then show "distinct (map d_disk (disks (blocks s)))" "distinct (map q_queue (queues (blocks s)))"
    using usb_ok_keys(3) [OF assms] distinct_mono by blast+
  show "NULL \<notin> d_disk ` set (disks (blocks s))" "NULL \<notin> q_queue ` set (queues (blocks s))"
    using usb_ok_keys(1,2,4) [OF assms] by blast+
qed

text \<open>The state without the mass-storage units of the interfaces \<open>I\<close> and without their endpoints.\<close>

definition gone :: "ptr set \<Rightarrow> kb_usb_storage_record \<Rightarrow> bool" where
  "gone I r \<longleftrightarrow> us_active r \<and> us_interface r \<in> I"

definition freed :: "ptr set \<Rightarrow> usb_state \<Rightarrow> ptr set" where
  "freed I s = (\<Union>r\<in>{r \<in> set (storage_records (storage s)). gone I r}. set_mset (record_ptrs r))"

definition without_units :: "ptr set \<Rightarrow> usb_state \<Rightarrow> usb_state" where
  "without_units I s = s\<lparr>
     usb_endpoint_records := filter (\<lambda>x. ep_interface x \<notin> I) (usb_endpoint_records s),
     storage := (storage s)\<lparr>
       storage_records := map (\<lambda>r. if gone I r then zero_storage_record else r) (storage_records (storage s)),
       live := filter (\<lambda>p. p \<notin> freed I s) (live (storage s))\<rparr>,
     blocks := (blocks s)\<lparr>
       disks := filter (\<lambda>d. d_disk d \<notin> freed I s) (disks (blocks s)),
       queues := filter (\<lambda>q. q_queue q \<notin> freed I s) (queues (blocks s))\<rparr>\<rparr>"

lemma without_units_fields [simp]:
  "usb_hcd_records (without_units I s) = usb_hcd_records s" "usb_urb_records (without_units I s) = usb_urb_records s"
  "usb_device_records (without_units I s) = usb_device_records s" "usb_interface_records (without_units I s) = usb_interface_records s"
  "usb_driver_records (without_units I s) = usb_driver_records s"
  "usb_endpoint_records (without_units I s) = filter (\<lambda>x. ep_interface x \<notin> I) (usb_endpoint_records s)"
  "storage_records (storage (without_units I s)) = map (\<lambda>r. if gone I r then zero_storage_record else r) (storage_records (storage s))"
  "storage_driver_registered (storage (without_units I s)) = storage_driver_registered (storage s)"
  "allocations (storage (without_units I s)) = allocations (storage s)"
  "live (storage (without_units I s)) = filter (\<lambda>p. p \<notin> freed I s) (live (storage s))"
  "tagsets (blocks (without_units I s)) = tagsets (blocks s)" "next_disk_number (blocks (without_units I s)) = next_disk_number (blocks s)"
  "disks (blocks (without_units I s)) = filter (\<lambda>d. d_disk d \<notin> freed I s) (disks (blocks s))"
  "queues (blocks (without_units I s)) = filter (\<lambda>q. q_queue q \<notin> freed I s) (queues (blocks s))"
  by (simp_all add: without_units_def)

lemma without_units_empty: "without_units {} s = s"
  by (simp add: without_units_def gone_def freed_def)

lemma without_units_twice: "without_units J (without_units I s) = without_units (I \<union> J) s"
proof -
  have "freed J (without_units I s) = (\<Union>r\<in>{r \<in> set (storage_records (storage s)). gone J r \<and> \<not> gone I r}. set_mset (record_ptrs r))"
    by (auto simp: freed_def gone_def split: if_splits)
  then have f: "freed (I \<union> J) s = freed I s \<union> freed J (without_units I s)"
    by (auto simp: freed_def gone_def)
  have "map (\<lambda>r. if gone J r then zero_storage_record else r) (map (\<lambda>r. if gone I r then zero_storage_record else r) rs) =
      map (\<lambda>r. if gone (I \<union> J) r then zero_storage_record else r) rs" for rs
    by (auto simp: gone_def)
  then show ?thesis
    by (intro usb_state.equality usb_storage.equality block_subsystem.equality) (auto simp: f intro!: filter_cong)
qed

text \<open>A tag set is not a key of the block subsystem, nor is a partition.\<close>

lemma other_ptrs_no_key:
  assumes ok: "usb_ok e s" and i: "i < KB_USB_STORAGE_MAX" and p: "p \<in> {us_tag_set (unit_of s i), us_part0 (unit_of s i)}" "p \<noteq> NULL"
  shows "p \<notin># block_keys (blocks s)"
proof
  define rest where "rest r = filter_mset (\<lambda>p. p \<noteq> NULL) {#us_part0 r, us_tag_set r#}" for r :: kb_usb_storage_record
  let ?rs = "storage_records (storage s)"
  have "record_ptrs r = disk_ptrs r + rest r" for r by (simp add: record_ptrs_def disk_ptrs_def rest_def)
  then have "sum_list (map record_ptrs rs) = sum_list (map disk_ptrs rs) + sum_list (map rest rs)" for rs
    by (induction rs) (simp_all add: ac_simps)
  then have sub: "sum_list (map disk_ptrs ?rs) + sum_list (map rest ?rs) \<subseteq># mset (live (storage s))"
    using ok subset_mset.order_trans [OF mset_subset_eq_add_left] by (auto simp: usb_ok_def owned_def)
  have two: "2 \<le> count (A + B) p" if "p \<in># A" "p \<in># B" for A B
    unfolding count_union using that count_greater_eq_one_iff [of A p] count_greater_eq_one_iff [of B p] by linarith
  assume "p \<in># block_keys (blocks s)"
  then have "p \<in># sum_list (map disk_ptrs ?rs)" using ok by (auto simp: usb_ok_def dest: mset_subset_eqD)
  moreover have "p \<in># sum_list (map rest ?rs)"
  proof -
    have "p \<in># rest (unit_of s i)" using p by (auto simp: rest_def)
    moreover have "unit_of s i \<in> set ?rs" using i usb_ok_keys(5) [OF ok] by simp
    ultimately show ?thesis by (simp add: sum_list_map_remove1 [of "unit_of s i"])
  qed
  ultimately have "2 \<le> count (sum_list (map disk_ptrs ?rs) + sum_list (map rest ?rs)) p"
    by (rule two)
  also have "\<dots> \<le> count (mset (live (storage s))) p" by (rule mset_subset_eq_count [OF sub])
  finally show False using usb_ok_keys(3) [OF ok] by (simp add: distinct_count_atmost_1 split: if_splits)
qed

section \<open>One interface\<close>

lemma release_block_state:
  assumes ok: "usb_ok e s" and i: "i < KB_USB_STORAGE_MAX"
  defines "P \<equiv> set_mset (record_ptrs (unit_of s i))"
  shows "storage_release_block i s = s\<lparr>
    storage := (storage s)\<lparr>storage_records := (storage_records (storage s))[i := released (unit_of s i)],
      live := filter (\<lambda>p. p \<notin> P) (live (storage s))\<rparr>,
    blocks := (blocks s)\<lparr>disks := filter (\<lambda>d. d_disk d \<notin> P) (disks (blocks s)),
      queues := filter (\<lambda>q. q_queue q \<notin> P) (queues (blocks s))\<rparr>\<rparr>" (is "_ = ?t")
proof -
  have il: "i < length (storage_records (storage s))" using i usb_ok_keys(5) [OF ok] by simp
  note r = release_block_result [OF usb_ok_keys(4) [OF ok] il] and k = block_keys_distinct [OF ok]
  note defs = storage_release_block_def Let_def object_free_def usb_free_def storage_release_backing_def on_storage_def
    on_blocks_def on_record_def kb_block_subsystem_object_free_def disk_state_remove_def queue_state_remove_def
    kb_block_subsystem_disk_unregister_def on_disk_def
  have rest: "usb_urb_records (storage_release_block i s) = usb_urb_records s"
    "usb_device_records (storage_release_block i s) = usb_device_records s"
    "usb_interface_records (storage_release_block i s) = usb_interface_records s"
    "usb_endpoint_records (storage_release_block i s) = usb_endpoint_records s"
    "usb_driver_records (storage_release_block i s) = usb_driver_records s"
    "storage_driver_registered (storage (storage_release_block i s)) = storage_driver_registered (storage s)"
    "allocations (storage (storage_release_block i s)) = allocations (storage s)"
    "tagsets (blocks (storage_release_block i s)) = tagsets (blocks s)"
    "next_disk_number (blocks (storage_release_block i s)) = next_disk_number (blocks s)"
    by (simp_all add: defs split: option.split)
  have nk: "us_tag_set (unit_of s i) \<noteq> NULL \<Longrightarrow> us_tag_set (unit_of s i) \<notin># block_keys (blocks s)"
    using other_ptrs_no_key [OF ok i] by blast
  have dk: "d_disk x \<noteq> NULL \<and> d_disk x \<noteq> us_tag_set (unit_of s i)" if "x \<in> set (disks (blocks s))" for x
    using that k(3) nk by (force simp: block_keys_def)
  have qk: "q_queue x \<noteq> NULL \<and> q_queue x \<noteq> us_tag_set (unit_of s i)" if "x \<in> set (queues (blocks s))" for x
    using that k(4) nk by (force simp: block_keys_def)
  have d: "disks (blocks (storage_release_block i s)) = filter (\<lambda>d. d_disk d \<notin> P) (disks (blocks s))"
    unfolding r(4) using k(1) dk
    by (simp add: remove_key_filter distinct_map_filter) (auto simp: P_def set_record_ptrs intro!: filter_cong)
  have q: "queues (blocks (storage_release_block i s)) = filter (\<lambda>q. q_queue q \<notin> P) (queues (blocks s))"
    unfolding r(5) using k(2) qk
    by (simp add: remove_key_filter distinct_map_filter) (auto simp: P_def set_record_ptrs intro!: filter_cong)
  show ?thesis
    by (intro usb_state.equality usb_storage.equality block_subsystem.equality) (simp_all add: r(1-3) rest d q P_def)
qed

lemma remove_interface_state:
  assumes ok: "usb_ok e s"
  shows "kb_usb_storage_subsystem_remove_interface intf s =
    (without_units ({intf} - {NULL}) s)\<lparr>usb_endpoint_records := usb_endpoint_records s\<rparr>"
proof (cases "record_find_by_interface (storage s) intf")
  case None
  have none: "\<not> gone ({intf} - {NULL}) r" if m: "r \<in> set (storage_records (storage s))" for r
  proof
    assume g: "gone ({intf} - {NULL}) r"
    obtain j where j: "j < 32" "unit_of s j = r" using m usb_ok_keys(5) [OF ok] by (auto simp: in_set_conv_nth)
    with g have "record_find_by_interface (storage s) intf = Some j" using usb_ok_find [OF ok j(1)] by (auto simp: gone_def)
    with None show False by simp
  qed
  then have "freed ({intf} - {NULL}) s = {}" by (auto simp: freed_def)
  moreover have "map (\<lambda>r. if gone ({intf} - {NULL}) r then zero_storage_record else r) (storage_records (storage s)) = storage_records (storage s)"
    using none by (intro map_idI) auto
  ultimately show ?thesis by (simp add: kb_usb_storage_subsystem_remove_interface_def None without_units_def)
next
  case (Some i)
  have l: "unit_live e i s" by (rule find_live [OF ok Some])
  have n: "us_interface (unit_of s i) = intf" "intf \<noteq> NULL"
    using find_interface(1) [OF Some] Some by (auto simp: record_find_by_interface_def split: if_splits)
  have len: "length (storage_records (storage s)) = 32" by (rule usb_ok_keys(5) [OF ok])
  have g: "gone ({intf} - {NULL}) (unit_of s j) \<longleftrightarrow> j = i" if "j < 32" for j
    using usb_ok_unique [OF ok, of i j] l n that by (auto simp: gone_def)
  have "{r \<in> set (storage_records (storage s)). gone ({intf} - {NULL}) r} = {unit_of s i}"
    using g l len by (auto simp: in_set_conv_nth)
  then have f: "freed ({intf} - {NULL}) s = set_mset (record_ptrs (unit_of s i))" by (simp add: freed_def)
  have "map (\<lambda>r. if gone ({intf} - {NULL}) r then zero_storage_record else r) (storage_records (storage s)) =
      (storage_records (storage s))[i := zero_storage_record]"
    using g len by (intro nth_equalityI) (auto simp: nth_list_update)
  then show ?thesis
    using l len by (simp add: kb_usb_storage_subsystem_remove_interface_def Some release_block_state [OF ok] without_units_def f
        on_storage_def on_record_def)
qed

lemma interface_release_without:
  assumes "usb_ok e s"
  shows "interface_release r s = without_units ({if_interface r} - {NULL}) s"
  unfolding interface_release_def remove_interface_state [OF assms] endpoint_records_release_for_interface_def
  by (auto simp: without_units_def without_units_empty gone_def freed_def)

lemma interface_release_state:
  "usb_ok e s \<Longrightarrow> usb_ok e (interface_release r s)"
  using interface_release_ok [where hs = "usb_hcd_records s"] by blast

lemma fold_release_without:
  assumes "usb_ok e s"
  shows "fold interface_release rs s = without_units (if_interface ` set rs - {NULL}) s"
  using assms
proof (induction rs arbitrary: s)
  case (Cons r rs)
  have "fold interface_release (r # rs) s = without_units (if_interface ` set rs - {NULL}) (interface_release r s)"
    using Cons.IH [OF interface_release_state [OF Cons.prems]] by simp
  also have "\<dots> = without_units (({if_interface r} - {NULL}) \<union> (if_interface ` set rs - {NULL})) s"
    unfolding interface_release_without [OF Cons.prems] by (rule without_units_twice)
  also have "({if_interface r} - {NULL}) \<union> (if_interface ` set rs - {NULL}) = if_interface ` set (r # rs) - {NULL}" by auto
  finally show ?case .
qed (simp add: without_units_empty)

lemma device_remove_state:
  assumes ok: "usb_ok e s" and d: "find_key dv_udev udev (usb_device_records s) = Some d"
  shows "kb_usb_subsystem_device_remove udev s =
    (without_units (if_interface ` {r \<in> set (usb_interface_records s). if_udev r = udev} - {NULL}) s)\<lparr>
      usb_device_records := remove_key dv_udev udev (usb_device_records s),
      usb_interface_records := filter (\<lambda>r. if_udev r \<noteq> udev) (usb_interface_records s),
      usb_endpoint_records := filter (\<lambda>x. ep_udev x \<noteq> udev \<and>
        ep_interface x \<notin> if_interface ` {r \<in> set (usb_interface_records s). if_udev r = udev} - {NULL}) (usb_endpoint_records s)\<rparr>"
proof -
  have u: "dv_udev d = udev" "udev \<noteq> NULL" using find_key_Some [OF d] by simp_all
  have c: "filter (\<lambda>x. P x \<and> Q x) xs = filter (\<lambda>x. Q x \<and> P x) xs" for P Q :: "kb_usb_endpoint_snapshot \<Rightarrow> bool" and xs
    by (intro filter_cong) auto
  show ?thesis
    using d u by (simp add: kb_usb_subsystem_device_remove_def device_release_def endpoint_records_release_for_udev_def
        interface_records_release_for_udev_def fold_release_without [OF ok] c)
qed

end
