(* ===== verification/Usb_Properties.thy ===== *)
theory Usb_Properties
  imports Usb_Backing Usb_Hub Usb_Removal
begin

text \<open>
  The properties of the USB subsystem and of USB mass storage, with instances on a small host.
\<close>

section \<open>A host with one disk\<close>

text \<open>
  An allocator that never fails, an interface that was announced and a SCSI host for it: the record has a
  disk of 131072 sectors.
\<close>

definition usb_host :: usb_env where
  "usb_host = \<lparr>e_getenv = \<lambda>_. None, e_calloc = \<lambda>n. of_nat (n mod 1024) * 4096 + 4096, e_storage_records = 0x100000\<rparr>"

definition usb_plugged :: usb_state where
  "usb_plugged = snd (kb_usb_storage_subsystem_synthesize_mass_storage usb_host 0x50000 0x60000 0x70000 0x80000 usb_initial)"

definition usb_sample :: usb_state where
  "usb_sample = kb_usb_storage_subsystem_note_scsi_host usb_host 0x90000 0 0x70000 0 usb_plugged"

lemma usb_sample_reachable: "usb_reachable usb_host usb_sample"
  unfolding usb_sample_def usb_plugged_def
  by (intro reachable_step [OF reachable_step [OF reachable_initial step_synthesize] step_note_scsi_host])

lemma usb_host_memory: "memory_available usb_host"
proof -
  have "unat (of_nat (n mod 1024) * 4096 + 4096 :: u64) = (n mod 1024) * 4096 + 4096" for n
  proof -
    have "n mod 1024 < 1024" by simp
    then show ?thesis by (simp add: unat_word_ariths unat_of_nat)
  qed
  then show ?thesis unfolding memory_available_def usb_host_def by (metis add_is_0 unat_0 usb_env.select_convs(2) zero_neq_numeral)
qed

lemma usb_plugged_eq: "usb_plugged = usb_initial\<lparr>storage := (storage usb_initial)\<lparr>storage_records :=
    (fresh_record usb_host 0x60000)\<lparr>us_udev := 0x50000, us_linux_device := 0x70000, us_parent_linux_device := 0x80000,
      us_subclass := 0x06, us_protocol := 0x50, us_bulk_in_endpoint := 0x81, us_bulk_out_endpoint := 0x02\<rparr> #
    replicate 31 zero_storage_record\<rparr>\<rparr>"
proof -
  have r: "replicate 32 x = x # replicate 31 x" for x :: kb_usb_storage_record
    by (simp add: numeral_eq_Suc)
  have n: "first_record (\<lambda>r. us_interface r = 0x60000) (replicate n zero_storage_record) = None" for n
    by (induction n) simp_all
  have n: "record_find_by_interface (storage usb_initial) 0x60000 = None"
    unfolding record_find_by_interface_def usb_initial_def by (simp add: n)
  show ?thesis
    unfolding usb_plugged_def kb_usb_storage_subsystem_synthesize_mass_storage_def record_for_interface_def n
    by (simp add: usb_initial_def r on_record_def fresh_record_def wants_block_def zero_storage_record_def Let_def)
qed

lemma usb_sample_unit:
  "us_disk (unit_of usb_sample 0) \<noteq> NULL" "us_interface (unit_of usb_sample 0) = 0x60000" "us_capacity_sectors (unit_of usb_sample 0) = 131072"
proof -
  have f: "record_for_host (storage usb_plugged) 0 0x70000 0 = Some 0"
    by (simp add: usb_plugged_eq record_for_host_def record_find_by_host_private_def record_find_by_linux_device_def)
  show "us_disk (unit_of usb_sample 0) \<noteq> NULL" "us_interface (unit_of usb_sample 0) = 0x60000" "us_capacity_sectors (unit_of usb_sample 0) = 131072"
    unfolding usb_sample_def kb_usb_storage_subsystem_note_scsi_host_def f option.case
    by (simp_all add: usb_plugged_eq storage_ensure_block_def on_storage_def on_record_def fresh_record_def
      usb_calloc_def usb_calloc_node_def run_storage_def run_blocks_def queue_alloc_def disk_alloc_def object_alloc_def
      kb_block_subsystem_queue_alloc_def kb_block_subsystem_disk_alloc_def queue_state_create_def disk_state_create_def
      usb_host_def usb_initial_def zero_storage_record_def Let_def default_capacity_sectors_def
      attach_block_def storage_queue_limits_def kb_block_subsystem_queue_set_logical_block_size_def
      kb_block_subsystem_queue_set_physical_block_size_def kb_block_subsystem_queue_set_io_min_def
      kb_block_subsystem_queue_set_max_hw_sectors_def kb_block_subsystem_queue_set_max_segments_def
      kb_block_subsystem_disk_attach_def kb_block_subsystem_disk_register_def kb_block_subsystem_disk_set_capacity_def
      kb_block_subsystem_disk_set_io_def on_blocks_def on_limits_def on_queue_def on_disk_def queue_state_for_def disk_state_for_def
      keyed new_queue_def new_disk_def)
qed

section \<open>The backing store\<close>

text \<open>C17. The loop of storage_backing_transfer ends for every offset, length, buffer and store, within as many iterations
  of its body as the range touches extents of 4096 bytes.  It takes fewer only where it is a write that stops with -12
  because an extent could not be allocated.\<close>

theorem transfer_loop_ends:
  "transfer_within (extents_spanned offset n) e i write offset n cursor buffer w =
      Some (transfer_loop e i write offset n cursor buffer w) \<and>
    (\<forall>k<extents_spanned offset n. \<forall>result. transfer_within k e i write offset n cursor buffer w = Some result \<longrightarrow>
      write \<and> fst result = -12)"
  using transfer_within_enough [where k = 0] transfer_within_fewer by simp blast

theorem transfer_loop_ends_witness:
  "extents_spanned 4000 5000 = 3 \<and>
    transfer_within 3 usb_host 0 False 4000 5000 0 (replicate 5000 1) (storage usb_sample) =
      Some (transfer_loop usb_host 0 False 4000 5000 0 (replicate 5000 1) (storage usb_sample)) \<and>
    transfer_within 2 usb_host 0 False 4000 5000 0 (replicate 5000 1) (storage usb_sample) = None"
proof -
  have n: "extents_spanned 4000 5000 = 3" by (simp add: extents_spanned_def)
  note ends = transfer_loop_ends [of 4000 5000 usb_host 0 False 0 "replicate 5000 1" "storage usb_sample", unfolded n]
  have "transfer_within 2 usb_host 0 False 4000 5000 0 (replicate 5000 1) (storage usb_sample) \<noteq> Some result" for result
    using ends [THEN conjunct2, rule_format, of 2 result] by auto
  with ends n show ?thesis by blast
qed

lemma transfer_read_storage: "\<not> write \<Longrightarrow> snd (snd (transfer_loop e i write offset n cursor buffer w)) = w"
proof (induction e i "write" offset n cursor buffer w rule: transfer_loop.induct)
  case (1 e i "write" offset n cursor buffer w)
  then show ?case by (subst transfer_loop.simps) (auto simp: transfer_body_def Let_def split: option.splits)
qed

text \<open>C18. For sectors of 512 bytes and a range that does not wrap around, a write allocates exactly the extents of its
  range that the record does not have yet, one each: when it returns 0
  the record has its old extents and those of the range, when it stops with -12 some of them and the allocator was asked
  once more in vain.  No extent is dropped, and a read changes nothing.\<close>

theorem backing_transfer_allocations:
  assumes "i < length (storage_records w)" and "us_sector_size (record_of w i) = 512" and "unat sector * 512 + unat n < 2 ^ 64"
    and "storage_backing_transfer e i sector (Some buf) n write w = (result, buf', w')" and "n \<noteq> 0"
  defines "old \<equiv> extent_indices (record_of w i)" and "new \<equiv> extent_indices (record_of w' i)" and "needed \<equiv> touched (sector * 512) n"
  shows "(\<not> write \<longrightarrow> w' = w) \<and>
    (write \<longrightarrow> old \<subseteq> new \<and> new \<subseteq> old \<union> needed \<and> (result = 0 \<longrightarrow> new = old \<union> needed) \<and>
      us_backing_bytes (record_of w' i) = us_backing_bytes (record_of w i) + 4096 * of_nat (card (new - old)) \<and>
      allocations w' = allocations w + card (new - old) + (if result = 0 then 0 else 1))"
proof -
  have run: "transfer_loop e i write (sector * 512) n 0 buf w = (result, the buf', w')"
    using assms(2,4,5) by (auto simp: storage_backing_transfer_def split: prod.splits)
  have "unat (sector * 512) + unat n < 2 ^ 64"
    using assms(3) unat_mult_no_wrap [of sector 512] by simp
  then have "write \<Longrightarrow> extents_grown i needed w result w'"
    unfolding needed_def using transfer_loop_grown [OF _ assms(1)] run by simp
  moreover have "\<not> write \<Longrightarrow> w' = w" using transfer_read_storage [of "write" e i "sector * 512" n 0 buf w] run by simp
  ultimately show ?thesis unfolding extents_grown_def Let_def old_def new_def by auto
qed

lemma usb_sample_sector: "us_sector_size (unit_of usb_sample 0) = 512" "length (storage_records (storage usb_sample)) = 32"
  using usb_ok_ready(1) [OF reachable_ok [OF usb_sample_reachable] _ usb_sample_unit(1)] usb_ok_keys(5) [OF reachable_ok [OF usb_sample_reachable]]
  by (simp_all add: disk_ready_def)

theorem backing_transfer_allocations_witness:
  "\<exists>result buf' w'. storage_backing_transfer usb_host 0 7 (Some (replicate 1024 1)) 1024 True (storage usb_sample) = (result, buf', w') \<and>
    extent_indices (record_of w' 0) \<subseteq> extent_indices (unit_of usb_sample 0) \<union> touched 3584 1024 \<and>
    (result = 0 \<longrightarrow> extent_indices (record_of w' 0) = extent_indices (unit_of usb_sample 0) \<union> touched 3584 1024)"
proof -
  obtain result buf' w' where run: "storage_backing_transfer usb_host 0 7 (Some (replicate 1024 1)) 1024 True (storage usb_sample) = (result, buf', w')"
    by (metis prod_cases3)
  with backing_transfer_allocations [of 0 "storage usb_sample" 7 1024, OF _ usb_sample_sector(1) _ run] usb_sample_sector(2)
  show ?thesis by simp
qed

section \<open>The invariant and the self test\<close>

text \<open>C6. In every state that the operations of usb.c and storage.c reach, each active record of the mass-storage
  array has a unique interface and a consistent backing store, its disk is registered with the block subsystem
  and served by the callbacks of the record, idle records are zero, no block of memory has two owners, and the
  block subsystem has no state for an object that was freed.\<close>

theorem usb_reachable_invariant: "usb_reachable e s \<Longrightarrow> usb_ok e s"
  by (rule reachable_ok)

theorem usb_reachable_invariant_witness: "usb_ok usb_host usb_sample \<and> us_disk (unit_of usb_sample 0) \<noteq> NULL"
  using usb_reachable_invariant [OF usb_sample_reachable] usb_sample_unit(1) by blast

lemma reachable_testable:
  assumes r: "usb_reachable e s" and c: "16 \<le> default_capacity_sectors e" "unat (default_capacity_sectors e) * 512 < 2 ^ 64"
  shows "all_testable e {..<KB_USB_STORAGE_MAX} s"
proof -
  have ok: "usb_ok e s" by (rule reachable_ok [OF r])
  have "us_disk (unit_of s j) \<noteq> us_disk (unit_of s i)" if "i < 32" "j < 32" "j \<noteq> i" "us_disk (unit_of s i) \<noteq> NULL" for i j
  proof -
    have "us_disk (unit_of s i) \<in># record_ptrs (unit_of s i)" using that(4) by (simp add: set_record_ptrs)
    then have "us_disk (unit_of s i) \<notin># record_ptrs (unit_of s j)"
      using units_disjoint [OF ok that(1,2) that(3) [symmetric]] by blast
    then show ?thesis using that(4) by (auto simp: set_record_ptrs)
  qed
  moreover have "testable e i s" if "i < 32" "us_disk (unit_of s i) \<noteq> NULL" for i
    unfolding testable_def using usb_ok_ready [OF ok that] c by simp
  ultimately show ?thesis by (simp add: all_testable_def selected_def)
qed

text \<open>C7. The self test of USB mass storage passes in every reachable state when the host has memory and the
  configured capacity is sensible: it writes and reads back through the block subsystem, SCSI commands and the
  bulk-only transport on every registered disk, and returns 0, or -19 when there is no disk.\<close>

theorem io_smoke_passes:
  assumes "usb_reachable e s" and "memory_available e"
    and "16 \<le> default_capacity_sectors e" and "unat (default_capacity_sectors e) * 512 < 2 ^ 64"
  shows "fst (kb_usb_storage_subsystem_run_io_smoke s) = (if \<exists>i<KB_USB_STORAGE_MAX. us_disk (unit_of s i) \<noteq> NULL then 0 else -19)"
proof -
  have ok: "usb_ok e s" by (rule reachable_ok [OF assms(1)])
  have "selected s i \<longleftrightarrow> us_disk (unit_of s i) \<noteq> NULL" if "i < 32" for i
    using unit_ok_of [OF ok that] by (auto simp: selected_def unit_ok_def zero_storage_record_def split: if_splits)
  moreover have "all_testable e (set [0..<32]) s"
    using reachable_testable [OF assms(1,3,4)] by (simp add: atLeast0LessThan)
  ultimately show ?thesis
    using smoke_loop_ok [OF assms(2), of "[0..<32]" s 0] by (auto simp: kb_usb_storage_subsystem_run_io_smoke_def)
qed

lemma usb_host_capacity: "default_capacity_sectors usb_host = 131072"
  by (simp add: default_capacity_sectors_def usb_host_def)

theorem io_smoke_passes_witness: "fst (kb_usb_storage_subsystem_run_io_smoke usb_sample) = 0"
proof -
  have "\<exists>i<KB_USB_STORAGE_MAX. us_disk (unit_of usb_sample i) \<noteq> NULL"
    by (rule exI [of _ 0]) (simp add: usb_sample_unit(1))
  then show ?thesis
    using io_smoke_passes [OF usb_sample_reachable usb_host_memory] by (simp add: usb_host_capacity)
qed

section \<open>Transfers\<close>

text \<open>C8. A write through the bulk-only transport and a read of the same blocks, for blocks inside the capacity of the
  disk and a host whose allocator does not fail: both transfers pass, with a status wrapper for their tags and no
  residue, the read returns the data written, and no other record changes.\<close>

theorem bot_write_read_roundtrip:
  assumes "usb_reachable e s" and "memory_available e" and "i < KB_USB_STORAGE_MAX" and "us_disk (unit_of s i) \<noteq> NULL"
    and "blocks_at (unit_of s i) lba sectors data" and "length buf = length data"
  shows "\<exists>result s' result' s''.
    kb_usb_storage_subsystem_bot_transfer (us_interface (unit_of s i))
      (Some (storage_build_bot_cbw tag (of_nat (length data)) False (rw_cdb 0x2a lba sectors))) (Some data) (of_nat (length data)) s =
      (0, result, Some data, s') \<and> transfer_passed tag (of_nat (length data)) result \<and>
    kb_usb_storage_subsystem_bot_transfer (us_interface (unit_of s i))
      (Some (storage_build_bot_cbw tag' (of_nat (length data)) True (rw_cdb 0x28 lba sectors))) (Some buf) (of_nat (length data)) s' =
      (0, result', Some data, s'') \<and> transfer_passed tag' (of_nat (length data)) result' \<and>
    (\<forall>j. j \<noteq> i \<longrightarrow> unit_of s'' j = unit_of s j)"
proof -
  have ready: "disk_ready e i s" by (rule usb_ok_ready(1) [OF reachable_ok [OF assms(1)] assms(3,4)])
  obtain result s' k where w: "kb_usb_storage_subsystem_bot_transfer (us_interface (unit_of s i))
      (Some (storage_build_bot_cbw tag (of_nat (length data)) False (rw_cdb 0x2a lba sectors))) (Some data) (of_nat (length data)) s =
      (0, result, Some data, s')" and r': "disk_ready e i s'" and k: "device_kept i s s'"
    and m: "medium (unit_of s' i) = overwrite (ucast lba * 512) (take k data) (medium (unit_of s i))"
    and p: "transfer_passed tag (of_nat (length data)) result \<and> k = length data \<or> br_status result = 1 \<and> (\<exists>m. e_calloc e m = NULL)"
    using bot_write_blocks [OF ready assms(5), of tag] by blast
  have passed: "transfer_passed tag (of_nat (length data)) result" "k = length data"
    using p assms(2) by (auto simp: memory_available_def)
  note id = identity_simps [OF device_kept_identity [OF k ready_index(1) [OF ready]]]
  have at: "blocks_at (unit_of s' i) lba sectors buf" using assms(5,6) by (simp add: blocks_at_def id)
  obtain result' s'' where r: "kb_usb_storage_subsystem_bot_transfer (us_interface (unit_of s' i))
      (Some (storage_build_bot_cbw tag' (of_nat (length buf)) True (rw_cdb 0x28 lba sectors))) (Some buf) (of_nat (length buf)) s' =
      (0, result', Some (stretch (medium (unit_of s' i)) (ucast lba * 512) (length buf)), s'')"
    "transfer_passed tag' (of_nat (length buf)) result'" "device_kept i s' s''"
    using bot_read_blocks [OF r' at, of tag'] by blast
  have "unat (ucast lba * 512 :: u64) + length data \<le> 2 ^ 64"
    using assms(5) unat_mult_no_wrap [of "ucast lba :: u64" 512] by (simp add: blocks_at_def)
  then have "stretch (medium (unit_of s' i)) (ucast lba * 512) (length buf) = data"
    unfolding m passed(2) assms(6) by (simp add: stretch_overwrite)
  then show ?thesis
    using w passed(1) r k assms(6) by (auto simp: id device_kept_def)
qed

theorem bot_write_read_roundtrip_witness: "\<exists>result s' result' s''.
    kb_usb_storage_subsystem_bot_transfer 0x60000
      (Some (storage_build_bot_cbw 1 512 False (rw_cdb 0x2a 10 1))) (Some (replicate 512 7)) 512 usb_sample =
      (0, result, Some (replicate 512 7), s') \<and> transfer_passed 1 512 result \<and>
    kb_usb_storage_subsystem_bot_transfer 0x60000
      (Some (storage_build_bot_cbw 2 512 True (rw_cdb 0x28 10 1))) (Some (replicate 512 0)) 512 s' =
      (0, result', Some (replicate 512 7), s'') \<and> transfer_passed 2 512 result'"
proof -
  have "blocks_at (unit_of usb_sample 0) 10 1 (replicate 512 7)"
    by (simp add: blocks_at_def usb_sample_unit(3))
  from bot_write_read_roundtrip [OF usb_sample_reachable usb_host_memory _ usb_sample_unit(1) this, of "replicate 512 0" 1 2]
  show ?thesis unfolding usb_sample_unit(2) length_replicate by simp blast
qed

text \<open>C13. The sparse backing store behaves as one array of bytes: a read returns the bytes at the offset of the sector
  and changes nothing, and a write stores exactly a prefix of the buffer there, all of it unless the host ran out of
  memory, and keeps the extents well formed.\<close>

theorem backing_transfer_refines:
  assumes "backing_ok (record_of w i)" and "i < length (storage_records w)" and "us_sector_size (record_of w i) = 512"
    and "n \<noteq> 0" and "unat sector * 512 + unat n < 2 ^ 64" and "unat n \<le> length buf"
  shows "storage_backing_transfer e i sector (Some buf) n False w =
      (0, Some (stretch (medium (record_of w i)) (sector * 512) (unat n) @ drop (unat n) buf), w) \<and>
    (\<exists>result w' k. storage_backing_transfer e i sector (Some buf) n True w = (result, Some buf, w') \<and> k \<le> unat n \<and>
      medium (record_of w' i) = overwrite (sector * 512) (take k buf) (medium (record_of w i)) \<and> backing_ok (record_of w' i) \<and>
      (result = 0 \<and> k = unat n \<or> result = -12 \<and> (\<exists>m. e_calloc e m = NULL)))"
proof -
  have off: "unat (sector * 512) + unat n < 2 ^ 64"
    using assms(5) unat_mult_no_wrap [of sector 512] by simp
  have "storage_backing_transfer e i sector (Some buf) n False w =
      (0, Some (stretch (medium (record_of w i)) (sector * 512) (unat n) @ drop (unat n) buf), w)"
    using transfer_read [OF assms(1) off, of 0 buf e] assms(3,4,6) by (simp add: storage_backing_transfer_def splice_def)
  moreover obtain result w' where run: "transfer_loop e i True (sector * 512) n 0 buf w = (result, buf, w')"
    and wr: "written e i (sector * 512) (take (unat n) (drop 0 buf)) w result w'"
    using transfer_write [OF assms(1,2) off, of 0 buf e] assms(6) by auto
  moreover have "storage_backing_transfer e i sector (Some buf) n True w = (result, Some buf, w')"
    using run assms(3,4) by (simp add: storage_backing_transfer_def)
  moreover have "\<exists>k\<le>unat n. medium (record_of w' i) = overwrite (sector * 512) (take k buf) (medium (record_of w i)) \<and>
      (result = 0 \<and> k = unat n \<or> result = -12 \<and> (\<exists>m. e_calloc e m = NULL))" "backing_ok (record_of w' i)"
  proof -
    have len: "length (take (unat n) (drop 0 buf)) = unat n" using assms(6) by simp
    from wr obtain k where k: "k \<le> unat n" "medium (record_of w' i) = overwrite (sector * 512) (take k (take (unat n) (drop 0 buf))) (medium (record_of w i))"
      "result = 0 \<and> k = unat n \<or> result = -12 \<and> (\<exists>m. e_calloc e m = NULL)"
      unfolding written_def len by blast
    then have "take k (take (unat n) (drop 0 buf)) = take k buf" by (simp add: min_absorb1)
    then show "\<exists>k\<le>unat n. medium (record_of w' i) = overwrite (sector * 512) (take k buf) (medium (record_of w i)) \<and>
      (result = 0 \<and> k = unat n \<or> result = -12 \<and> (\<exists>m. e_calloc e m = NULL))" using k by auto
    show "backing_ok (record_of w' i)" using wr by (simp add: written_def)
  qed
  ultimately show ?thesis by blast
qed

theorem backing_transfer_refines_witness:
  "storage_backing_transfer usb_host 0 3 (Some (replicate 1024 5)) 1024 False (storage usb_sample) =
    (0, Some (stretch (medium (unit_of usb_sample 0)) 1536 1024), storage usb_sample)"
proof -
  note ready = usb_ok_ready(1) [OF reachable_ok [OF usb_sample_reachable] _ usb_sample_unit(1)]
  have "backing_ok (unit_of usb_sample 0)" "us_sector_size (unit_of usb_sample 0) = 512" "0 < length (storage_records (storage usb_sample))"
    using ready by (simp_all add: disk_ready_def)
  from backing_transfer_refines [OF this(1,3,2), of 1024 3 "replicate 1024 5" usb_host] show ?thesis by simp
qed

lemma disk_transfer_failed:
  assumes live: "unit_live e i s" and buf: "buffer_ok buffer n"
    and run: "disk_transfer write (us_disk (unit_of s i)) sector buffer n s = (result, buffer', t)" and err: "result \<noteq> 0"
  shows "t = s \<or> write \<and> (\<exists>m. e_calloc e m = NULL) \<and> (\<forall>j. j \<noteq> i \<longrightarrow> unit_of t j = unit_of s j) \<and>
    (\<exists>bs k. buffer = Some bs \<and> k \<le> unat n \<and> medium (unit_of t i) = overwrite (sector * 512) (take k bs) (medium (unit_of s i)))"
  using live buf run
proof (cases rule: disk_transfer_cases)
  case bs: (2 bs)
  show ?thesis
  proof (cases "write")
    case True
    obtain result1 s1 k where w: "disk_transfer True (us_disk (unit_of s i)) sector (Some bs) n s = (result1, Some bs, s1)"
      "device_kept i s s1" "k \<le> unat n" "medium (unit_of s1 i) = overwrite (sector * 512) (take k bs) (medium (unit_of s i))"
      "result1 = 0 \<and> k = unat n \<or> result1 = -12 \<and> (\<exists>m. e_calloc e m = NULL)"
      using disk_write_unit [OF bs(1,2,4)] by blast
    then have "s1 = t" "result1 = result" using run True bs(3) by simp_all
    then show ?thesis using w(2-5) err True bs(3) unfolding device_kept_def by blast
  next
    case False
    then show ?thesis using disk_read_unit [OF bs(1,2,4)] run err by (auto simp: bs(3))
  qed
qed simp

text \<open>What a command that fails may have done: nothing to any medium, or part of a write when the allocator failed.\<close>

definition check_effect :: "usb_env \<Rightarrow> nat \<Rightarrow> bytes \<Rightarrow> bytes option \<Rightarrow> u64 \<Rightarrow> usb_state \<Rightarrow> usb_state \<Rightarrow> bool" where
  "check_effect e i command buffer n s t \<longleftrightarrow> (\<forall>j. medium (unit_of t j) = medium (unit_of s j)) \<or>
     (\<exists>m. e_calloc e m = NULL) \<and> (\<forall>j. j \<noteq> i \<longrightarrow> medium (unit_of t j) = medium (unit_of s j)) \<and>
     (\<exists>bs k. buffer = Some bs \<and> k \<le> unat n \<and>
        medium (unit_of t i) = overwrite (ucast (read_be32 (drop 2 command)) * 512) (take k bs) (medium (unit_of s i)))"

lemma scsi_check_media:
  assumes "scsi_check i sense_key asc buffer n s = (result, scsi_result, buffer', t)" and "i < length (storage_records (storage s))"
  shows "medium (unit_of t j) = medium (unit_of s j)"
proof -
  have "t = on_storage (on_record i (\<lambda>r. r\<lparr>us_last_sense_key := sense_key, us_last_asc := asc, us_last_ascq := 0\<rparr>)) s"
    using assms(1) by (simp add: scsi_check_def run_storage_def result_check_condition_def on_storage_def)
  then show ?thesis using assms(2) by (cases "j = i") (simp_all add: on_storage_def on_record_def)
qed

lemma scsi_read_write_media:
  assumes live: "unit_live e i s" and buf: "buffer_ok buffer n"
    and run: "scsi_read_write i write command buffer n data_out s = (result, scsi_result, buffer', t)" and err: "sr_status scsi_result \<noteq> 0"
  shows "(write \<and> check_effect e i command buffer n s t) \<or> (\<forall>j. medium (unit_of t j) = medium (unit_of s j))"
proof -
  have i: "i < length (storage_records (storage s))" using live usb_ok_keys(5) [of e s] by simp
  from run show ?thesis
  proof (cases rule: scsi_read_write_cases)
    case (1 sense asc)
    then show ?thesis using scsi_check_media [OF _ i] by blast
  next
    case (3 m lba result1 buf1 s1)
    have "buffer_ok buffer m" using buf 3(1) by (auto simp: word_le_nat_alt intro: order.trans)
    note failed = disk_transfer_failed [OF live this 3(2,3)]
    from 3(4) obtain asc where c: "scsi_check i KB_SCSI_SENSE_ILLEGAL_REQUEST asc buf1 n s1 = (result, scsi_result, buffer', t)" ..
    have "buffer_ok buffer m" using buf 3(1) by (auto simp: word_le_nat_alt intro: order.trans)
    then have "unit_live e i s1" by (rule disk_transfer_live [OF live _ 3(2)])
    then have "i < length (storage_records (storage s1))" using usb_ok_keys(5) [of e s1] by simp
    then have t: "medium (unit_of t j) = medium (unit_of s1 j)" for j by (rule scsi_check_media [OF c])
    have "m \<le> n \<Longrightarrow> k \<le> unat m \<Longrightarrow> k \<le> unat n" for k by (simp add: word_le_nat_alt)
    with failed 3(1) show ?thesis unfolding check_effect_def t 3(5) by (elim disjE) (simp, metis)
  qed (use err in simp_all)
qed

lemma scsi_dispatch_media:
  assumes live: "unit_live e i s" and buf: "buffer_ok buffer n"
    and run: "scsi_dispatch i command buffer n data_out s = (result, scsi_result, buffer', t)" and err: "sr_status scsi_result \<noteq> 0"
  shows "(command ! 0 = 0x2a \<and> check_effect e i command buffer n s t) \<or> (\<forall>j. medium (unit_of t j) = medium (unit_of s j))"
proof -
  have i: "i < length (storage_records (storage s))" using live usb_ok_keys(5) [of e s] by simp
  have good: "sr_status (result_good k m) = 0" for k m by (simp add: result_good_def Let_def)
  consider (check) sense asc where "scsi_check i sense asc buffer n s = (result, scsi_result, buffer', t)"
    | (rw) "scsi_read_write i (command ! 0 = 0x2a) command buffer n data_out s = (result, scsi_result, buffer', t)"
    using run err unfolding scsi_dispatch_def Let_def by (auto simp: scsi_data_def good split: if_splits prod.splits)
  then show ?thesis
  proof cases
    case check
    then show ?thesis using scsi_check_media [OF _ i] by blast
  next
    case rw
    then show ?thesis by (rule scsi_read_write_media [OF live buf _ err])
  qed
qed

text \<open>C14. What a SCSI command that is answered with a check condition in a reachable state did to the media, whatever
  the command block, the direction and the buffer (of at least the length that is passed): every byte of every medium is as before, unless the host ran out of memory during a
  WRITE(10); then a prefix of the buffer was stored at the block address of the command, and every other byte, on this
  medium and on all others, is as before.\<close>

theorem scsi_check_condition_harmless:
  assumes "usb_reachable e s" and "\<forall>bs. buffer = Some bs \<longrightarrow> unat n \<le> length bs"
    and "kb_usb_storage_subsystem_scsi_command interface (Some command) buffer n data_out s = (result, scsi_result, buffer', t)"
    and "sr_status scsi_result \<noteq> 0"
  shows "(\<forall>j. medium (unit_of t j) = medium (unit_of s j)) \<or>
    command ! 0 = 0x2a \<and> (\<exists>m. e_calloc e m = NULL) \<and>
    (\<exists>i bs k. record_find_by_interface (storage s) interface = Some i \<and> buffer = Some bs \<and> k \<le> unat n \<and>
      medium (unit_of t i) = overwrite (ucast (read_be32 (drop 2 command)) * 512) (take k bs) (medium (unit_of s i)) \<and>
      (\<forall>j. j \<noteq> i \<longrightarrow> medium (unit_of t j) = medium (unit_of s j)))"
proof -
  have ok: "usb_ok e s" by (rule reachable_ok [OF assms(1)])
  obtain i where f: "record_find_by_interface (storage s) interface = Some i" "command \<noteq> []"
    using assms(3,4) by (auto simp: kb_usb_storage_subsystem_scsi_command_def zero_scsi_result_def split: option.splits if_splits)
  let ?s = "on_storage (on_record i (\<lambda>r. r\<lparr>us_scsi_command_count := us_scsi_command_count r + 1, us_last_scsi_opcode := command ! 0\<rparr>)) s"
  have l: "unit_live e i s" by (rule find_live [OF ok f(1)])
  have l1: "unit_live e i ?s" by (rule unit_live_on_record [OF l]) (simp_all add: core_def identity_def)
  then have p: "us_medium_present (unit_of ?s i) \<noteq> 0" using unit_ok_of [of e ?s i] by (simp add: unit_ok_def)
  have m: "medium (unit_of ?s j) = medium (unit_of s j)" for j
    using l usb_ok_keys(5) [OF ok] by (cases "j = i") (simp_all add: on_storage_def on_record_def)
  have "scsi_dispatch i command buffer n data_out ?s = (result, scsi_result, buffer', t)"
    using assms(3) f p by (simp add: kb_usb_storage_subsystem_scsi_command_def Let_def)
  from scsi_dispatch_media [OF l1 assms(2) this assms(4)] f(1) show ?thesis unfolding check_effect_def m by blast
qed

theorem scsi_check_condition_harmless_witness:
  "\<exists>scsi_result t. kb_usb_storage_subsystem_scsi_command 0x60000 (Some [0xff]) None 0 False usb_sample = (0, scsi_result, None, t) \<and>
    sr_status scsi_result = SCSI_CHECK_CONDITION \<and> medium (unit_of t 0) = medium (unit_of usb_sample 0)"
proof -
  note ok = reachable_ok [OF usb_sample_reachable]
  have u: "us_active (unit_of usb_sample 0)" using usb_ok_ready(3) [OF ok _ usb_sample_unit(1)] by simp
  then have f: "record_find_by_interface (storage usb_sample) 0x60000 = Some 0"
    using usb_ok_find [OF ok, of 0] by (simp add: usb_sample_unit(2))
  have p: "us_medium_present (unit_of usb_sample 0) = 1" using unit_ok_of [OF ok, of 0] u by (simp add: unit_ok_def)
  obtain scsi_result t where run: "kb_usb_storage_subsystem_scsi_command 0x60000 (Some [0xff]) None 0 False usb_sample = (0, scsi_result, None, t)"
    and err: "sr_status scsi_result = SCSI_CHECK_CONDITION"
    using f p usb_ok_keys(5) [OF ok]
    by (simp add: kb_usb_storage_subsystem_scsi_command_def Let_def scsi_dispatch_def scsi_check_def result_check_condition_def
        run_storage_def on_storage_def on_record_def)
  then show ?thesis
    using scsi_check_condition_harmless [OF usb_sample_reachable _ run] by simp
qed

section \<open>Removal\<close>

text \<open>C15. In a reachable state, removing a device takes down everything below it and nothing else.  Gone are the record of the device, its
  interfaces, the endpoints of the device or of one of these interfaces, and the mass-storage records of these
  interfaces, which become idle; the objects of those records are given back, and the block subsystem forgets the disks
  and queues among them.  Every other record, list and counter is as before.\<close>

theorem device_remove_cascade:
  assumes "usb_reachable e s" and "find_key dv_udev udev (usb_device_records s) = Some d"
  defines "removed \<equiv> if_interface ` {r \<in> set (usb_interface_records s). if_udev r = udev} - {NULL}"
  defines "objects \<equiv> (\<Union>r\<in>{r \<in> set (storage_records (storage s)). us_active r \<and> us_interface r \<in> removed}. set_mset (record_ptrs r))"
  shows "kb_usb_subsystem_device_remove udev s = s\<lparr>
      usb_device_records := remove_key dv_udev udev (usb_device_records s),
      usb_interface_records := filter (\<lambda>r. if_udev r \<noteq> udev) (usb_interface_records s),
      usb_endpoint_records := filter (\<lambda>x. ep_udev x \<noteq> udev \<and> ep_interface x \<notin> removed) (usb_endpoint_records s),
      storage := (storage s)\<lparr>
        storage_records := map (\<lambda>r. if us_active r \<and> us_interface r \<in> removed then zero_storage_record else r)
          (storage_records (storage s)),
        live := filter (\<lambda>p. p \<notin> objects) (live (storage s))\<rparr>,
      blocks := (blocks s)\<lparr>
        disks := filter (\<lambda>x. d_disk x \<notin> objects) (disks (blocks s)),
        queues := filter (\<lambda>x. q_queue x \<notin> objects) (queues (blocks s))\<rparr>\<rparr>"
  unfolding device_remove_state [OF reachable_ok [OF assms(1)] assms(2)] removed_def objects_def
  by (simp add: without_units_def freed_def gone_def)

text \<open>A device with one mass-storage interface.\<close>

definition sample_device :: kb_usb_device_snapshot where
  "sample_device = \<lparr>dv_hcd = 0x10000, dv_udev = 0x50000, dv_linux_device = 0, dv_parent_linux_device = 0, dv_bus = 0, dv_active_config = 0,
     dv_devnum = 1, dv_portnum = 1, dv_speed = 0, dv_state = 0, dv_vendor_id = 0, dv_product_id = 0, dv_bcd_device = 0,
     dv_device_class = 0, dv_device_subclass = 0, dv_device_protocol = 0, dv_max_packet_size0 = 64, dv_configuration_value = 1,
     dv_interface_count = 1, dv_devpath = ''1''\<rparr>"

definition sample_interface :: kb_usb_interface_snapshot where
  "sample_interface = \<lparr>if_udev = 0x50000, if_interface = 0x60000, if_linux_device = 0, if_parent_linux_device = 0, if_driver = 0,
     if_driver_data = 0, if_cur_altsetting = 0, if_interface_number = 0, if_alternate_setting = 0, if_endpoint_count = 2,
     if_interface_class = 8, if_interface_subclass = 6, if_interface_protocol = 0x50\<rparr>"

definition usb_attached :: usb_state where
  "usb_attached = snd (kb_usb_subsystem_interface_observe usb_host (Some sample_interface)
     (snd (kb_usb_subsystem_device_observe usb_host (Some sample_device) usb_initial)))"

lemma usb_attached_reachable: "usb_reachable usb_host usb_attached"
  unfolding usb_attached_def
  by (intro reachable_step [OF reachable_step [OF reachable_initial step_device_observe] step_interface_observe])

lemma usb_attached_state:
  "usb_device_records usb_attached = [sample_device]" "usb_interface_records usb_attached = [sample_interface]"
  "us_active (unit_of usb_attached 0)" "us_interface (unit_of usb_attached 0) = 0x60000"
proof -
  have r: "replicate 32 x = x # replicate 31 x" for x :: kb_usb_storage_record
    by (simp add: numeral_eq_Suc)
  have n: "first_record (\<lambda>r. us_interface r = 0x60000) (replicate n zero_storage_record) = None" for n
    by (induction n) simp_all
  show "usb_device_records usb_attached = [sample_device]" "usb_interface_records usb_attached = [sample_interface]"
    "us_active (unit_of usb_attached 0)" "us_interface (unit_of usb_attached 0) = 0x60000"
    by (simp_all add: usb_attached_def kb_usb_subsystem_interface_observe_def kb_usb_subsystem_device_observe_def
        device_record_for_def interface_record_for_def record_for_def run_storage_def usb_calloc_node_def usb_initial_def usb_host_def
        sample_device_def sample_interface_def kb_usb_storage_subsystem_observe_interface_def record_for_interface_def
        record_find_by_interface_def n r on_record_def storage_collect_endpoints_def wants_block_def Let_def)
qed

theorem device_remove_cascade_witness:
  "us_active (unit_of usb_attached 0) \<and> \<not> us_active (unit_of (kb_usb_subsystem_device_remove 0x50000 usb_attached) 0) \<and>
    usb_device_records (kb_usb_subsystem_device_remove 0x50000 usb_attached) = [] \<and>
    usb_interface_records (kb_usb_subsystem_device_remove 0x50000 usb_attached) = []"
proof -
  have d: "find_key dv_udev 0x50000 (usb_device_records usb_attached) = Some sample_device"
    by (simp add: usb_attached_state keyed sample_device_def)
  have "length (storage_records (storage usb_attached)) = 32" by (rule usb_ok_keys(5) [OF reachable_ok [OF usb_attached_reachable]])
  moreover have "if_interface ` {r \<in> set (usb_interface_records usb_attached). if_udev r = 0x50000} - {NULL} = {0x60000}"
    by (auto simp: usb_attached_state(2) sample_interface_def intro!: image_eqI [of _ _ sample_interface])
  ultimately show ?thesis
    unfolding device_remove_cascade [OF usb_attached_reachable d]
    using usb_attached_state by (simp add: sample_device_def sample_interface_def)
qed

section \<open>Hub events\<close>

text \<open>C16. A change of a hub port is reported once.  After any sequence of status reports and commits, on this and on other
  controllers, the next status report of a controller with a record shows a bit as new exactly if the bit is set in it and
  was not committed since the last report of this controller without any change; a bit that was set in the record at the
  start counts as committed.\<close>

theorem hub_event_reported_once:
  assumes "kb_usb_subsystem_hcd_for_hcd hcd s = Some r" and "status \<noteq> []"
  shows "\<exists>v t. kb_usb_subsystem_hub_event_prepare e hcd (Some status) (fold (hub_apply e) evs s) = (0, v, t) \<and>
    (\<forall>n. bit (hu_new_bits v) n \<longleftrightarrow> bit (hub_status_bits status) n \<and> \<not> reported hcd n (bit (h_hub_event_bits r) n) evs)"
proof -
  obtain r' where r': "kb_usb_subsystem_hcd_for_hcd hcd (fold (hub_apply e) evs s) = Some r'"
    "\<And>n. bit (h_hub_event_bits r') n = reported hcd n (bit (h_hub_event_bits r) n) evs"
    using hub_run_reported [OF assms(1)] by blast
  obtain v t where "kb_usb_subsystem_hub_event_prepare e hcd (Some status) (fold (hub_apply e) evs s) = (0, v, t)"
    "hu_new_bits v = hub_status_bits status AND NOT (if hub_status_bits status = 0 then 0 else h_hub_event_bits r')"
    using hub_prepare_known [OF r'(1) assms(2)] by blast
  moreover have "bit (x AND NOT (if x = 0 then 0 else y)) n \<longleftrightarrow> bit x n \<and> \<not> bit y n" for x y :: u64 and n
    by (auto simp: bit_simps dest: bit_imp_le_length)
  ultimately show ?thesis using r'(2) by auto
qed

theorem hub_event_reported_once_witness:
  "\<exists>v t. kb_usb_subsystem_hub_event_prepare usb_host 0x10000 (Some [14])
      (fold (hub_apply usb_host) [Hub_Commit 0x10000 6, Hub_Status 0x20000 [0], Hub_Status 0x10000 [6]]
        (snd (kb_usb_subsystem_hcd_track usb_host 0x10000 usb_initial))) = (0, v, t) \<and>
    \<not> bit (hu_new_bits v) 1 \<and> bit (hu_new_bits v) 3"
proof -
  let ?s = "snd (kb_usb_subsystem_hcd_track usb_host 0x10000 usb_initial)"
  have s: "\<exists>r. kb_usb_subsystem_hcd_for_hcd 0x10000 ?s = Some r \<and> h_hub_event_bits r = 0"
    by (simp add: kb_usb_subsystem_hcd_for_hcd_def kb_usb_subsystem_hcd_track_def pointer_is_error_or_low_def usb_initial_def
        run_storage_def usb_calloc_def usb_host_def Let_def keyed zero_hcd_record_def)
  then obtain r where r: "kb_usb_subsystem_hcd_for_hcd 0x10000 ?s = Some r" "h_hub_event_bits r = 0" by blast
  let ?evs = "[Hub_Commit 0x10000 6, Hub_Status 0x20000 [0], Hub_Status 0x10000 [6]]"
  have b: "hub_status_bits [14] = 14" "hub_status_bits [6] = 6" by (simp_all add: hub_status_bits_def)
  have "reported 0x10000 n False ?evs \<longleftrightarrow> bit (6 :: u64) n" for n
    using reported_snoc [of _ n False "[]" "Hub_Commit 0x10000 6"]
      reported_snoc [of _ n False "[Hub_Commit 0x10000 6]" "Hub_Status 0x20000 [0]"]
      reported_snoc [of _ n False "[Hub_Commit 0x10000 6, Hub_Status 0x20000 [0]]" "Hub_Status 0x10000 [6]"] b(2) by simp
  then show ?thesis
    using hub_event_reported_once [OF r(1), of "[14]" usb_host ?evs] r(2) b(1) by (auto simp: bit_numeral_rec)
qed

section \<open>Drivers\<close>

lemma ensure_block_drivers:
  "usb_driver_records (snd (storage_ensure_block e i s)) = usb_driver_records s"
  "storage_driver_registered (storage (snd (storage_ensure_block e i s))) = storage_driver_registered (storage s)"
proof -
  have g: "usb_driver_records (grown n ps s) = usb_driver_records s" for n ps s by (simp add: grown_def)
  have a: "usb_driver_records (snd (attach_block e i a b c d t)) = usb_driver_records t"
    "storage_driver_registered (storage (snd (attach_block e i a b c d t))) = storage_driver_registered (storage t)" for a b c d t
    by (auto simp: attach_block_def run_blocks_def release_objects_def object_free_def on_storage_def on_blocks_def on_record_def
        usb_free_def Let_def split: prod.split)
  have r: "usb_driver_records (release_objects a b c d t) = usb_driver_records t"
    "storage_driver_registered (storage (release_objects a b c d t)) = storage_driver_registered (storage t)" for a b c d t
    by (simp_all add: release_objects_def object_free_def on_storage_def on_blocks_def usb_free_def)
  have w: "usb_driver_records (with_objects n a b c d s) = usb_driver_records s"
    "storage_driver_registered (storage (with_objects n a b c d s)) = storage_driver_registered (storage s)" for n a b c d
    by (simp_all add: with_objects_def g on_blocks_def)
  have "usb_driver_records (snd (storage_ensure_block e i s)) = usb_driver_records s \<and>
    storage_driver_registered (storage (snd (storage_ensure_block e i s))) = storage_driver_registered (storage s)"
  proof (cases "us_disk (unit_of s i) = NULL")
    case True
    then show ?thesis by (rule ensure_block_cases [of s i e]) (simp add: a r w)
  qed (simp add: storage_ensure_block_def)
  then show "usb_driver_records (snd (storage_ensure_block e i s)) = usb_driver_records s"
    "storage_driver_registered (storage (snd (storage_ensure_block e i s))) = storage_driver_registered (storage s)" by blast+
qed

lemma collect_endpoints_flag: "storage_driver_registered (storage_collect_endpoints xs i w) = storage_driver_registered w"
  unfolding storage_collect_endpoints_def
  by (induction xs arbitrary: w) (simp_all add: endpoint_matches_record_def storage_attach_endpoint_def on_record_def)

lemma note_driver_drivers:
  "usb_driver_records (fold (note_driver_record e driver) is s) = usb_driver_records s"
  "storage_driver_registered (storage (fold (note_driver_record e driver) is s)) = storage_driver_registered (storage s)"
proof -
  have "usb_driver_records (note_driver_record e driver i s) = usb_driver_records s \<and>
    storage_driver_registered (storage (note_driver_record e driver i s)) = storage_driver_registered (storage s)" for i s
    by (simp add: note_driver_record_def ensure_block_drivers on_storage_def on_record_def collect_endpoints_flag)
  then show "usb_driver_records (fold (note_driver_record e driver) is s) = usb_driver_records s"
    "storage_driver_registered (storage (fold (note_driver_record e driver) is s)) = storage_driver_registered (storage s)"
    by (induction "is" arbitrary: s) simp_all
qed

lemma record_for_memory:
  assumes "memory_available e" and "k \<noteq> NULL" and "key fresh = k"
  obtains rs t r where "record_for e key k fresh records s = (Some rs, t)" "find_key key k rs = Some r"
    "\<And>j. j \<noteq> k \<Longrightarrow> find_key key j rs = find_key key j records"
    "usb_driver_records t = usb_driver_records s" "storage_driver_registered (storage t) = storage_driver_registered (storage s)"
proof (cases "find_key key k records")
  case (Some r)
  then show ?thesis using that [of records s r] assms by (simp add: record_for_def)
next
  case None
  then show ?thesis
    using that [of "fresh # records" "s\<lparr>storage := snd (usb_calloc_node e (storage s))\<rparr>" fresh] assms
    by (simp add: record_for_def run_storage_def usb_calloc_node_def memory_available_def keyed)
qed

text \<open>C36. Removing any USB driver makes mass storage forget its own: after the driver of module usb-storage registered
  successfully, the removal of a different driver clears the flag that a storage driver is present, although the
  record of the storage driver still says that it is registered.\<close>

theorem driver_deregister_forgets_storage:
  fixes s :: usb_state and owner :: ptr
  assumes "memory_available e" and "driver \<noteq> NULL" and "other \<noteq> NULL" and "other \<noteq> driver"
  defines "s1 \<equiv> kb_usb_subsystem_driver_register e driver owner (Some ''usb-storage'') 0 s"
  defines "s2 \<equiv> kb_usb_subsystem_driver_deregister e other s1"
  shows "storage_driver_registered (storage s1) \<and> \<not> storage_driver_registered (storage s2) \<and>
    (\<exists>r. find_key dr_driver driver (usb_driver_records s2) = Some r \<and> dr_registered r)"
proof -
  let ?f = "\<lambda>r. r\<lparr>dr_owner := owner, dr_registered := (0 = (0 :: int)), dr_last_register_status := 0, dr_register_count := dr_register_count r + 1,
     dr_module_name := take 63 ''usb-storage''\<rparr>"
  have nm: "module_name_is_usb_storage (Some ''usb-storage'')" by (simp add: module_name_is_usb_storage_def)
  obtain rs t r where 1: "record_for e dr_driver driver (zero_driver_record\<lparr>dr_driver := driver\<rparr>) (usb_driver_records s) s = (Some rs, t)"
    "find_key dr_driver driver rs = Some r"
    by (rule record_for_memory [OF assms(1,2), of dr_driver "zero_driver_record\<lparr>dr_driver := driver\<rparr>" "usb_driver_records s" s]) simp
  have s1: "usb_driver_records s1 = update_key dr_driver driver ?f rs" "storage_driver_registered (storage s1)"
    unfolding s1_def kb_usb_subsystem_driver_register_def driver_record_for_def 1(1) kb_usb_storage_subsystem_note_driver_registered_def
    by (simp_all add: nm note_driver_drivers on_storage_def)
  have f1: "find_key dr_driver driver (usb_driver_records s1) = Some (?f r)"
    unfolding s1(1) by (simp add: find_key_update 1(2))
  obtain rs' t' where 2: "record_for e dr_driver other (zero_driver_record\<lparr>dr_driver := other\<rparr>) (usb_driver_records s1) s1 = (Some rs', t')"
    "\<And>j. j \<noteq> other \<Longrightarrow> find_key dr_driver j rs' = find_key dr_driver j (usb_driver_records s1)"
    by (rule record_for_memory [OF assms(1,3), of dr_driver "zero_driver_record\<lparr>dr_driver := other\<rparr>" "usb_driver_records s1" s1]) (simp, blast)
  have "find_key dr_driver driver (usb_driver_records s2) = Some (?f r)" "\<not> storage_driver_registered (storage s2)"
    unfolding s2_def kb_usb_subsystem_driver_deregister_def driver_record_for_def 2(1) kb_usb_storage_subsystem_note_driver_deregistered_def
    using 2(2) [OF assms(4) [symmetric]] assms(4) f1 by (simp_all add: on_storage_def find_key_update)
  then show ?thesis using s1(2) by simp
qed

theorem driver_deregister_forgets_storage_witness:
  "\<not> storage_driver_registered (storage (kb_usb_subsystem_driver_deregister usb_host 0x5000
     (kb_usb_subsystem_driver_register usb_host 0x4000 0 (Some ''usb-storage'') 0 usb_initial)))"
  using driver_deregister_forgets_storage [OF usb_host_memory, where driver = "0x4000" and other = "0x5000" and owner = 0 and s = usb_initial] by simp

end
