(* ===== verification/Spec2Isabelle.thy ===== *)
theory Spec2Isabelle
  imports Elf_Properties Symbol_Registry Shim_Symbols Block_Properties Device_Mock Loader_Limits Usb_Properties
begin

text \<open>
  Verification of kobox, a user-space host for Linux kernel modules.

  \<^bold>\<open>The program.\<close>  kobox opens a relocatable ELF file (a \<^verbatim>\<open>.ko\<close>), places its sections in
  memory next to a region of shim data and code stubs, resolves and applies its relocations, and calls its
  init and cleanup functions.  The kernel functions that a module imports are provided by kobox: thin entry
  points (\<^verbatim>\<open>src/linux_personality\<close>) over subsystems that keep the state
  (\<^verbatim>\<open>src/linux_subsystem\<close>), which in turn use a device back-end (\<^verbatim>\<open>src/device\<close>).  The development
  follows this order: the reader, the loader, and the block, DMA and USB subsystems with the mock device.

  \<^bold>\<open>Foundations.\<close>  \<^verbatim>\<open>Kobox_Prelude\<close> has the types of C (words of 8 to 64 bits, addresses as 64-bit
  words), the type \<open>outcome\<close> of fallible C functions (\<open>Done\<close>, \<open>Fail\<close> with an error code, and a separate
  value for a read outside an object), and lemmas on words and byte windows.  \<^verbatim>\<open>State_Lists\<close> has the linked
  lists keyed by an object's address that most subsystems keep.

  \<^bold>\<open>ELF reader.\<close>  \<^verbatim>\<open>Elf_Reader\<close> models every function of \<^verbatim>\<open>loader/elf_reader.c\<close>; loops over the file are
  recursive functions with termination proofs.  \<^verbatim>\<open>Elf_Properties\<close> shows that no byte string makes the
  reader leave its buffer, that sections lie inside the file, that counts and accessors agree, and that the
  entries of \<^verbatim>\<open>.modinfo\<close> are the NUL-separated entries of the section.

  \<^bold>\<open>Symbols.\<close>  \<^verbatim>\<open>Symbol_Registry\<close> (\<^verbatim>\<open>loader/symbol_registry.c\<close>) refines the table of exported symbols to a
  map from names to addresses with owners.  \<^verbatim>\<open>Shim_Symbols\<close> models the cache of shim symbols of
  \<^verbatim>\<open>loader/module_loader.c\<close> and its open-addressing hash index; the index finds what a linear search finds.

  \<^bold>\<open>Loader.\<close>  \<^verbatim>\<open>Machine\<close> has programs over a state that may crash, and the triples to reason about them.
  \<^verbatim>\<open>Loader_State\<close> has the memory of the process (bytes, the list of mapped regions, the allocators), the
  module structure and the static variables; an access outside every region crashes.  Page protections are
  recorded, but a store to a mapped page succeeds whatever its protection. \<^verbatim>\<open>Module_Loader\<close>, \<^verbatim>\<open>Module_Sections\<close>, \<^verbatim>\<open>Module_Relocation\<close> and
  \<^verbatim>\<open>Module_Lifecycle\<close> model symbol lookup, layout and copying of sections, the shim region, relocation and
  patching, and opening and closing of modules, in the order of \<^verbatim>\<open>module_loader.c\<close>.  \<^verbatim>\<open>Loader_Invariant\<close>,
  \<^verbatim>\<open>Loader_Safety\<close>, \<^verbatim>\<open>Loader_Layout\<close>, \<^verbatim>\<open>Loader_Frame\<close> and \<^verbatim>\<open>Loader_Open\<close> carry the invariant through these
  programs.  \<^verbatim>\<open>Loader_Properties\<close> shows that opening any image whose section sizes do not overflow never
  crashes, that a failed open gives back all memory of the module (structure, name, node data, section table
  and image) and restores the tables of modules and exports, and that closing gives back exactly the memory of
  the module and keeps the invariant; it also shows that the cell of the tick counter of a closed module
  dangles.  \<^verbatim>\<open>Loader_Limits\<close> has an image whose sizes overflow and shows that opening it crashes.

  \<^bold>\<open>Block subsystem.\<close>  \<^verbatim>\<open>Block\<close> models \<^verbatim>\<open>block/block.c\<close>: queues, disks, I/O through callbacks and tag sets.
  \<^verbatim>\<open>Block_Properties\<close> shows that I/O reaches a driver only for a registered disk and a range inside it, the
  invariant of the lists, the exact range check, the durability of forced writes, the agreement of batched
  and single reads, and the allocation of tags.

  \<^bold>\<open>DMA subsystem and mock device.\<close>  \<^verbatim>\<open>Dma\<close> models \<^verbatim>\<open>dma/dma.c\<close> over any device back-end, given as a record
  of optional functions.  \<^verbatim>\<open>Dma_Properties\<close> shows that pages lent from the mapping window stay mapped while
  they are lent, and the functions on page lists.  \<^verbatim>\<open>Device_Mock\<close> models the mock back-end and instantiates
  the DMA results on it.

  \<^bold>\<open>USB subsystem and mass storage.\<close>  \<^verbatim>\<open>Usb_State\<close> has the structures and static variables of
  \<^verbatim>\<open>usb/usb.c\<close> and \<^verbatim>\<open>usb/storage.c\<close> as one record, \<open>usb_state\<close>; the block subsystem is a part of it, with the
  storage part as the world of its callbacks.  \<^verbatim>\<open>Usb_Storage\<close> models all of \<^verbatim>\<open>storage.c\<close> (records, the sparse
  backing store, the disk of a record, events, SCSI commands, the bulk-only transport and the self test) and
  \<^verbatim>\<open>Usb\<close> all of \<^verbatim>\<open>usb.c\<close> (host controllers, hub events, requests, endpoints, interfaces, devices, drivers).
  \<^verbatim>\<open>Usb_Medium\<close> refines the extents to one array of bytes; \<^verbatim>\<open>Usb_Backing\<close> counts the iterations of the
  transfer loop and the extents that it allocates; \<^verbatim>\<open>Usb_Hub\<close> follows sequences of hub events; \<^verbatim>\<open>Usb_Disk\<close> lifts this to the disk of a record,
  the interface \<open>byte_device\<close>; \<^verbatim>\<open>Usb_Scsi\<close> and \<^verbatim>\<open>Usb_Smoke\<close> follow commands and the self test on top.
  \<^verbatim>\<open>Usb_Invariant\<close> states the invariant with the ownership of memory as a multiset, \<^verbatim>\<open>Usb_Lifecycle\<close> and
  \<^verbatim>\<open>Usb_Reachable\<close> prove it for every operation and define the reachable states, \<^verbatim>\<open>Usb_Removal\<close> computes the
  state after the removal of interfaces, and \<^verbatim>\<open>Usb_Properties\<close> has the results: the invariant, the self test
  passes, write and read back through the transport, what a command that fails did to the media, the state
  after the removal of a device, hub changes are reported once in any sequence of events, the transfer loop
  ends within one iteration for each extent, a write allocates exactly the missing extents, and the removal of
  any driver makes mass storage forget its own.

  \<^bold>\<open>Parameters, bounds and fuel.\<close>  Code outside the repository is a parameter: the allocators and
  \<^verbatim>\<open>mmap\<close> answer as the host likes (an address that is in use is never returned), environment variables are a
  function, device back-ends and disk callbacks are functions with named hypotheses, and the code of modules
  is not executed.  Every loop is a total function with a termination proof; no fuel is used in the model (the
  function \<open>transfer_within\<close> bounds the iterations of one loop in order to state how many it takes).  Array sizes are
  those of the source (32 storage records, the capacity of the shim symbol table, the window of pages).
  A caller's buffer has at least the length that is passed with it.

  \<^bold>\<open>Not modelled.\<close>  The entry points of \<^verbatim>\<open>src/linux_personality\<close> and the file-system, network, ATA, NVMe,
  PCI and input parts work on the memory of kernel structures at fixed offsets and call into module code
  through pointers; a faithful model needs the layouts of the kernel's structures and the modules themselves,
  which are not part of the repository.  The VFIO, sysfs and PachaOS back-ends, the host interface and the
  platform layer are system calls.  The symbol tables are constant data, taken as parameters.  Tools and
  scripts only drive the library.  In the modelled files, printing, tracing and profiling counters that the
  default build leaves out are not modelled.  Operations run one after another.
\<close>

end
